(* ===== verification/Prelude.thy ===== *)
theory Prelude
  imports Main "HOL-Library.Word" "HOL-Library.Monad_Syntax"
begin

unbundle bit_operations_syntax

section \<open>Shared vocabulary: machine integers, byte strings, memory images\<close>

text \<open>
  The C code of this repository computes on bytes, on 32-bit unsigned words and on the signed
  \<open>int\<close> of a 32-bit ARM or x86 target.  Bytes and unsigned words are the word types of the
  library; a signed \<open>int\<close> is an \<^typ>\<open>int\<close> whose wrap-around is written out with \<open>s32\<close> wherever
  an operation of the source can overflow.  A byte array is a list of bytes; a write into the
  middle of one is \<open>patch\<close> and a read of a piece of one is \<open>region\<close>.
\<close>

type_synonym u8 = "8 word"
type_synonym u16 = "16 word"
type_synonym u32 = "32 word"
type_synonym bytes = "8 word list"

named_theorems patch_simps "reading a byte array after writes into it"
named_theorems codec_simps "decoding what was encoded"

subsection \<open>Signed 32-bit integers\<close>

definition s32 :: "int \<Rightarrow> int" where
  "s32 x = (x + 2147483648) mod 4294967296 - 2147483648"

definition u32_of :: "int \<Rightarrow> int" where
  "u32_of x = x mod 4294967296"

lemma s32_id [simp]: "- 2147483648 \<le> x \<Longrightarrow> x < 2147483648 \<Longrightarrow> s32 x = x"
  by (simp add: s32_def)

lemma s32_of_nat: "x < 2147483648 \<Longrightarrow> s32 (int x) = int x"
  by simp

lemma s32_bounds: "- 2147483648 \<le> s32 x" "s32 x < 2147483648"
  by (simp_all add: s32_def)

lemma u32_of_id [simp]: "0 \<le> x \<Longrightarrow> x < 4294967296 \<Longrightarrow> u32_of x = x"
  by (simp add: u32_of_def)

lemma u32_of_bounds: "0 \<le> u32_of x" "u32_of x < 4294967296"
  by (simp_all add: u32_of_def)

lemma sint_u32_s32: "sint (w :: u32) = s32 (uint w)"
  by (simp add: s32_def sint_uint signed_take_bit_eq_take_bit_shift take_bit_eq_mod)

lemma sint_word_of_int_s32: "sint (word_of_int x :: u32) = s32 x"
  by (simp add: s32_def sint_uint signed_take_bit_eq_take_bit_shift take_bit_eq_mod
      uint_word_of_int mod_simps)

lemma int_unat_uint: "int (unat (w :: 'a::len word)) = uint w"
  by simp

lemma sint_u32_small: "unat (w :: u32) < 2147483648 \<Longrightarrow> sint w = int (unat w)"
proof -
  assume "unat w < 2147483648"
  then have "uint w < 2147483648" using int_unat_uint [of w] by linarith
  moreover have "- 2147483648 \<le> uint w" using int_unat_uint [of w] by linarith
  ultimately show ?thesis by (simp add: sint_u32_s32)
qed

lemma unat_word_of_nat32 [simp]: "n < 4294967296 \<Longrightarrow> unat (word_of_nat n :: u32) = n"
  by (simp add: unat_of_nat)

lemma ucast_8_32_inj: "(ucast (x :: u8) :: u32) = ucast y \<Longrightarrow> x = y"
proof (rule bit_word_eqI)
  fix n assume "(ucast x :: u32) = ucast y" and n: "n < LENGTH(8)"
  then have "bit (ucast x :: u32) n = bit (ucast y :: u32) n" by (simp only:)
  then show "bit x n = bit y n" using n by (simp add: bit_simps)
qed

lemma word_nat_unat: "word_of_nat (unat w) = (w :: u32)"
  by (simp add: of_nat_unat)

subsection \<open>Pieces of a byte array\<close>

definition region :: "'a list \<Rightarrow> nat \<Rightarrow> nat \<Rightarrow> 'a list" where
  "region xs pos n = take n (drop pos xs)"

definition patch :: "'a list \<Rightarrow> nat \<Rightarrow> 'a list \<Rightarrow> 'a list" where
  "patch xs pos ys = take pos xs @ ys @ drop (pos + length ys) xs"

lemma length_region [simp]: "length (region xs pos n) = min n (length xs - pos)"
  by (simp add: region_def)

lemma length_region_fits [simp]: "pos + n \<le> length xs \<Longrightarrow> length (region xs pos n) = n"
  by simp

lemma region_0 [simp]: "region xs pos 0 = []"
  by (simp add: region_def)

lemma region_whole: "region xs 0 (length xs) = xs"
  by (simp add: region_def)

lemma nth_region: "i < n \<Longrightarrow> pos + i < length xs \<Longrightarrow> region xs pos n ! i = xs ! (pos + i)"
  by (simp add: region_def)

lemma region_append_split:
  "region xs pos (m + n) = region xs pos m @ region xs (pos + m) n"
  by (simp add: region_def take_add add.commute)

lemma take_region [simp]: "take m (region xs pos n) = region xs pos (min m n)"
  by (simp add: region_def)

lemma drop_region: "drop m (region xs pos n) = region xs (pos + m) (n - m)"
  by (simp add: region_def drop_take add.commute)

lemma region_region: "m + k \<le> n \<Longrightarrow> region (region xs pos n) m k = region xs (pos + m) k"
  by (simp add: region_def drop_take add.commute min_def)

lemma length_patch [patch_simps, simp]:
  "pos + length ys \<le> length xs \<Longrightarrow> length (patch xs pos ys) = length xs"
  by (simp add: patch_def)

lemma patch_Nil [simp]: "patch xs pos [] = xs"
  by (simp add: patch_def)

lemma nth_patch:
  "pos + length ys \<le> length xs \<Longrightarrow> i < length xs \<Longrightarrow>
   patch xs pos ys ! i = (if pos \<le> i \<and> i < pos + length ys then ys ! (i - pos) else xs ! i)"
  by (auto simp: patch_def nth_append)

lemma region_patch_same [patch_simps]:
  "pos + length ys \<le> length xs \<Longrightarrow> region (patch xs pos ys) pos (length ys) = ys"
  by (simp add: region_def patch_def)

lemma region_patch_disjoint [patch_simps]:
  assumes "pos + length ys \<le> length xs"
    and "p + n \<le> pos \<or> pos + length ys \<le> p"
  shows "region (patch xs pos ys) p n = region xs p n"
proof (rule nth_equalityI)
  show "length (region (patch xs pos ys) p n) = length (region xs p n)"
    using assms(1) by simp
next
  fix i assume "i < length (region (patch xs pos ys) p n)"
  then show "region (patch xs pos ys) p n ! i = region xs p n ! i"
    using assms by (auto simp: nth_region nth_patch)
qed

lemma patch_patch_adjacent:
  "pos + length ys + length zs \<le> length xs \<Longrightarrow>
   patch (patch xs pos ys) (pos + length ys) zs = patch xs pos (ys @ zs)"
  by (simp add: patch_def add.commute add.left_commute)

lemma region_concat:
  assumes "i < length cs"
  shows "region (concat cs @ rest) (sum_list (map length (take i cs))) (length (cs ! i)) = cs ! i"
proof -
  have "cs = take i cs @ cs ! i # drop (Suc i) cs" using assms by (rule id_take_nth_drop)
  then have split: "concat cs = concat (take i cs) @ cs ! i @ concat (drop (Suc i) cs)"
    by (metis concat.simps(2) concat_append)
  show ?thesis unfolding split by (simp add: region_def length_concat)
qed

lemma region_append_offset: "region (xs @ ys) (length xs + p) n = region ys p n"
  by (simp add: region_def)

subsection \<open>Little-endian and big-endian words in a byte array\<close>

definition byte_at :: "bytes \<Rightarrow> nat \<Rightarrow> u8" where
  "byte_at bs i = (if i < length bs then bs ! i else 0)"

definition put16 :: "u16 \<Rightarrow> bytes" where
  "put16 w = [ucast w, ucast (drop_bit 8 w)]"

definition put32 :: "u32 \<Rightarrow> bytes" where
  "put32 w = [ucast w, ucast (drop_bit 8 w), ucast (drop_bit 16 w), ucast (drop_bit 24 w)]"

definition get16 :: "bytes \<Rightarrow> nat \<Rightarrow> u16" where
  "get16 bs off = ucast (byte_at bs off) OR push_bit 8 (ucast (byte_at bs (off + 1)))"

definition get32 :: "bytes \<Rightarrow> nat \<Rightarrow> u32" where
  "get32 bs off =
     ucast (byte_at bs off) OR push_bit 8 (ucast (byte_at bs (off + 1)))
     OR push_bit 16 (ucast (byte_at bs (off + 2))) OR push_bit 24 (ucast (byte_at bs (off + 3)))"

text \<open>\<open>__be32_to_cpu\<close>: the four bytes of a word, the most significant first.\<close>

definition get32_be :: "bytes \<Rightarrow> nat \<Rightarrow> u32" where
  "get32_be bs off =
     push_bit 24 (ucast (byte_at bs off)) OR push_bit 16 (ucast (byte_at bs (off + 1)))
     OR push_bit 8 (ucast (byte_at bs (off + 2))) OR ucast (byte_at bs (off + 3))"

lemma length_put [simp]: "length (put16 h) = 2" "length (put32 w) = 4"
  by (simp_all add: put16_def put32_def)

lemma byte_at_append [codec_simps]:
  "byte_at (xs @ ys) i = (if i < length xs then byte_at xs i else byte_at ys (i - length xs))"
  by (auto simp: byte_at_def nth_append)

lemma byte_at_region [codec_simps]:
  "i < n \<Longrightarrow> byte_at (region xs pos n) i = byte_at xs (pos + i)"
  by (auto simp: byte_at_def nth_region)

lemma word32_of_bytes:
  "ucast (ucast w :: u8) OR push_bit 8 (ucast (ucast (drop_bit 8 w) :: u8))
   OR push_bit 16 (ucast (ucast (drop_bit 16 w) :: u8))
   OR push_bit 24 (ucast (ucast (drop_bit 24 w) :: u8)) = (w :: u32)"
proof (rule bit_word_eqI)
  fix n :: nat
  assume n: "n < LENGTH(32)"
  consider "n < 8" | "8 \<le> n" "n < 16" | "16 \<le> n" "n < 24" | "24 \<le> n" by linarith
  then show "bit (ucast (ucast w :: u8) OR push_bit 8 (ucast (ucast (drop_bit 8 w) :: u8))
      OR push_bit 16 (ucast (ucast (drop_bit 16 w) :: u8))
      OR push_bit 24 (ucast (ucast (drop_bit 24 w) :: u8)) :: u32) n = bit w n"
    using n by cases (auto simp: bit_simps)
qed

lemma get32_put32 [codec_simps]: "get32 (put32 w) 0 = w"
  by (simp add: get32_def put32_def byte_at_def word32_of_bytes)

lemma get32_append_left [codec_simps]: "off + 4 \<le> length xs \<Longrightarrow> get32 (xs @ ys) off = get32 xs off"
  by (simp add: get32_def byte_at_append)

lemma get32_append_right [codec_simps]:
  assumes "length xs \<le> off"
  shows "get32 (xs @ ys) off = get32 ys (off - length xs)"
proof -
  from assms obtain d where "off = length xs + d" by (auto simp: le_iff_add)
  then show ?thesis by (simp add: get32_def byte_at_append)
qed

lemma get32_region [codec_simps]:
  "off + 4 \<le> n \<Longrightarrow> get32 (region xs pos n) off = get32 xs (pos + off)"
  by (simp add: get32_def byte_at_region add.assoc)

subsection \<open>C strings\<close>

text \<open>A C string is the bytes before the first NUL of an array.\<close>

definition cstr_of :: "bytes \<Rightarrow> bytes" where
  "cstr_of bs = takeWhile (\<lambda>b. b \<noteq> 0) bs"

definition bytes_of_string :: "string \<Rightarrow> bytes" where
  "bytes_of_string s = map of_char s"

lemma cstr_of_terminated: "0 \<notin> set s \<Longrightarrow> cstr_of (s @ 0 # rest) = s"
  by (induction s) (auto simp: cstr_of_def)

subsection \<open>Sums of bytes\<close>

definition byte_sum :: "bytes \<Rightarrow> u32" where
  "byte_sum bs = sum_list (map ucast bs)"

lemma byte_sum_Nil [simp]: "byte_sum [] = 0"
  by (simp add: byte_sum_def)

lemma byte_sum_Cons [simp]: "byte_sum (b # bs) = ucast b + byte_sum bs"
  by (simp add: byte_sum_def)

lemma byte_sum_append [simp]: "byte_sum (xs @ ys) = byte_sum xs + byte_sum ys"
  by (simp add: byte_sum_def)

text \<open>The C idiom \<open>for (i = a; i < b; i++) ret += buf[i]\<close> sums a piece of the array.\<close>

lemma foldl_index_sum:
  "b \<le> length bs \<Longrightarrow>
   foldl (\<lambda>ret i. ret + ucast (bs ! i)) r [a..<b] = r + byte_sum (region bs a (b - a))"
proof (induction b)
  case 0
  then show ?case by simp
next
  case (Suc b)
  show ?case
  proof (cases "a \<le> b")
    case True
    then have "region bs a (Suc b - a) = region bs a (b - a) @ [bs ! b]"
      using Suc.prems by (simp add: region_def Suc_diff_le take_Suc_conv_app_nth)
    with True Suc show ?thesis by (simp add: add.assoc)
  qed simp
qed

subsection \<open>Changing one byte\<close>

lemma get32_byte:
  assumes "k < 4"
  shows "ucast (drop_bit (8 * k) (get32 bs off)) = byte_at bs (off + k)"
proof -
  have "k \<in> {0, 1, 2, 3}" using assms by auto
  moreover have "ucast (drop_bit 0 (get32 bs off)) = byte_at bs (off + 0)"
    by (rule bit_word_eqI) (auto simp: get32_def bit_simps dest: bit_imp_le_length)
  moreover have "ucast (drop_bit 8 (get32 bs off)) = byte_at bs (off + 1)"
    by (rule bit_word_eqI) (auto simp: get32_def bit_simps dest: bit_imp_le_length)
  moreover have "ucast (drop_bit 16 (get32 bs off)) = byte_at bs (off + 2)"
    by (rule bit_word_eqI) (auto simp: get32_def bit_simps dest: bit_imp_le_length)
  moreover have "ucast (drop_bit 24 (get32 bs off)) = byte_at bs (off + 3)"
    by (rule bit_word_eqI) (auto simp: get32_def bit_simps dest: bit_imp_le_length)
  ultimately show ?thesis by auto
qed

lemma byte_at_update:
  "byte_at (bs[i := b]) j = (if j = i \<and> i < length bs then b else byte_at bs j)"
  by (auto simp: byte_at_def)

lemma get32_update_other:
  "i < off \<or> off + 4 \<le> i \<Longrightarrow> get32 (bs[i := b]) off = get32 bs off"
  by (auto simp: get32_def byte_at_update)

lemma get32_update_differs:
  assumes "i < length bs" "off \<le> i" "i < off + 4" "b \<noteq> bs ! i"
  shows "get32 (bs[i := b]) off \<noteq> get32 bs off"
proof
  assume eq: "get32 (bs[i := b]) off = get32 bs off"
  have "i - off < 4" using assms by simp
  then have "byte_at (bs[i := b]) i = byte_at bs i"
    using get32_byte [of "i - off" "bs[i := b]" off] get32_byte [of "i - off" bs off] eq assms(2)
    by simp
  then show False using assms by (simp add: byte_at_def)
qed

definition nat_sum :: "bytes \<Rightarrow> nat" where
  "nat_sum bs = sum_list (map unat bs)"

lemma nat_sum_simps [simp]:
  "nat_sum [] = 0" "nat_sum (b # bs) = unat b + nat_sum bs"
  "nat_sum (xs @ ys) = nat_sum xs + nat_sum ys"
  by (simp_all add: nat_sum_def)

lemma byte_sum_nat_sum: "byte_sum bs = word_of_nat (nat_sum bs)"
  by (induction bs) (simp_all add: of_nat_unat)

lemma nat_sum_bound: "nat_sum bs \<le> 255 * length bs"
proof (induction bs)
  case (Cons b bs)
  have "unat b \<le> 255" using unsigned_less [of b] by (simp add: less_Suc_eq_le [symmetric])
  with Cons show ?case by simp
qed simp

lemma nat_sum_update:
  "i < length bs \<Longrightarrow> nat_sum (bs[i := b]) + unat (bs ! i) = nat_sum bs + unat b"
  by (induction bs arbitrary: i) (auto split: nat.split)

lemma byte_sum_eq_iff:
  assumes "length xs < 16777216" "length ys < 16777216"
  shows "byte_sum xs = byte_sum ys \<longleftrightarrow> nat_sum xs = nat_sum ys"
proof
  assume "byte_sum xs = byte_sum ys"
  moreover have "nat_sum xs < 4294967296" "nat_sum ys < 4294967296"
    using nat_sum_bound [of xs] nat_sum_bound [of ys] assms by linarith+
  ultimately show "nat_sum xs = nat_sum ys"
    unfolding byte_sum_nat_sum by (metis unat_word_of_nat32)
qed (simp add: byte_sum_nat_sum)

subsection \<open>Decimal numerals\<close>

definition digit :: "nat \<Rightarrow> char" where
  "digit d = char_of (48 + d)"

fun dec_nat :: "nat \<Rightarrow> string" where
  "dec_nat n = (if n < 10 then [digit n] else dec_nat (n div 10) @ [digit (n mod 10)])"

declare dec_nat.simps [simp del]

definition dec_int :: "int \<Rightarrow> string" where
  "dec_int i = (if i < 0 then ''-'' @ dec_nat (nat (- i)) else dec_nat (nat i))"

text \<open>C division truncates towards zero.\<close>

definition cdiv :: "int \<Rightarrow> int \<Rightarrow> int" where
  "cdiv a b = (if a < 0 then - (- a div b) else a div b)"

end
