(* ===== verification/File_IO.thy ===== *)
theory File_IO
  imports Prelude
begin

section \<open>File descriptors and the chunked byte checksum\<close>

text \<open>
  The firmware tools of \<^verbatim>\<open>fw-utils\<close> read and write through POSIX descriptors.  A descriptor is
  the bytes behind it and an offset; \<open>fd_read\<close>, \<open>fd_write\<close>, \<open>fd_seek_set\<close> and \<open>fd_seek_end\<close>
  are read(2), write(2) and lseek(2) on a regular file or a block device, whose size is fixed.
  \<open>get_sum\<close> and \<open>check_sum_loop\<close> are the checksum that \<^verbatim>\<open>mkSmartQ.c\<close>, \<^verbatim>\<open>compress.c\<close> and
  \<^verbatim>\<open>upgrade.c\<close> share: the file is read in pieces into one static buffer and each piece is summed
  from that buffer.  The locale \<open>byte_source\<close> is what the checksum relies on: a read returns the
  next bytes and moves past them.
\<close>

subsection \<open>Descriptors\<close>

record fd =
  fd_data :: bytes
  fd_pos :: nat

definition fd_open :: "bytes \<Rightarrow> fd" where
  "fd_open bs = \<lparr>fd_data = bs, fd_pos = 0\<rparr>"

definition fd_read :: "fd \<Rightarrow> nat \<Rightarrow> bytes \<times> fd" where
  "fd_read f n =
     (let bs = region (fd_data f) (fd_pos f) n
      in (bs, f\<lparr>fd_pos := fd_pos f + length bs\<rparr>))"

text \<open>A device has no room past its end: a write there stores what fits and returns that count,
  or -1 (ENOSPC) when nothing fits.\<close>

definition fd_write :: "fd \<Rightarrow> bytes \<Rightarrow> int \<times> fd" where
  "fd_write f bs =
     (let k = min (length bs) (length (fd_data f) - fd_pos f)
      in if k = 0 \<and> bs \<noteq> [] then (-1, f)
         else (int k, f\<lparr>fd_data := patch (fd_data f) (fd_pos f) (take k bs),
                       fd_pos := fd_pos f + k\<rparr>))"

definition fd_seek_set :: "fd \<Rightarrow> nat \<Rightarrow> fd" where
  "fd_seek_set f off = f\<lparr>fd_pos := off\<rparr>"

definition fd_seek_end :: "fd \<Rightarrow> int \<Rightarrow> fd" where
  "fd_seek_end f off =
     (let p = int (length (fd_data f)) + off in if p < 0 then f else f\<lparr>fd_pos := nat p\<rparr>)"

definition fd_rest :: "fd \<Rightarrow> bytes" where
  "fd_rest f = drop (fd_pos f) (fd_data f)"

lemma fd_read_fst: "fst (fd_read f n) = take n (fd_rest f)"
  by (simp add: fd_read_def fd_rest_def region_def Let_def)

lemma fd_read_snd: "fd_rest (snd (fd_read f n)) = drop n (fd_rest f)"
  by (auto simp: fd_read_def fd_rest_def Let_def min_def add.commute)

lemma fd_read_data [simp]: "fd_data (snd (fd_read f n)) = fd_data f"
  by (simp add: fd_read_def Let_def)

lemma fd_read_pos:
  "fd_pos f + n \<le> length (fd_data f) \<Longrightarrow> fd_pos (snd (fd_read f n)) = fd_pos f + n"
  by (simp add: fd_read_def Let_def)

lemma fd_write_fits:
  "fd_pos f + length bs \<le> length (fd_data f) \<Longrightarrow>
   fd_write f bs = (int (length bs), f\<lparr>fd_data := patch (fd_data f) (fd_pos f) bs,
                                      fd_pos := fd_pos f + length bs\<rparr>)"
  by (auto simp: fd_write_def Let_def)

lemma fd_write_length [simp]: "length (fd_data (snd (fd_write f bs))) = length (fd_data f)"
  by (auto simp: fd_write_def Let_def patch_def)

subsection \<open>The checksum over a buffer filled by reads\<close>

definition rd_into :: "bytes \<Rightarrow> bytes \<Rightarrow> bytes" where
  "rd_into buf bs = patch buf 0 bs"

text \<open>\<open>for (i = 0; i < buffer_size; i++) ret += buffer[i];\<close> on a wrapping 32-bit sum.\<close>

definition get_sum :: "bytes \<Rightarrow> nat \<Rightarrow> u32" where
  "get_sum buffer buffer_size = foldl (\<lambda>ret i. ret + ucast (buffer ! i)) 0 [0..<buffer_size]"

partial_function (option) check_sum_loop ::
  "('s \<Rightarrow> nat \<Rightarrow> bytes \<times> 's) \<Rightarrow> nat \<Rightarrow> nat \<Rightarrow> 's \<Rightarrow> bytes \<Rightarrow> nat \<Rightarrow> u32 \<Rightarrow>
   (u32 \<times> 's \<times> bytes) option" where
  "check_sum_loop rd per_read file_size s buffer got ret =
     (if 0 < (file_size - got) div per_read
      then (let r = rd s per_read; buffer' = rd_into buffer (fst r)
            in check_sum_loop rd per_read file_size (snd r) buffer'
                 (got + length (fst r)) (ret + get_sum buffer' per_read))
      else (let r = rd s (file_size - got); buffer' = rd_into buffer (fst r)
            in Some (ret + get_sum buffer' (file_size - got), snd r, buffer')))"

lemma get_sum_byte_sum: "n \<le> length buf \<Longrightarrow> get_sum buf n = byte_sum (take n buf)"
  by (simp add: get_sum_def foldl_index_sum region_def)

lemma take_rd_into: "length bs = n \<Longrightarrow> n \<le> length buf \<Longrightarrow> take n (rd_into buf bs) = bs"
  by (simp add: rd_into_def patch_def)

lemma length_rd_into: "length bs \<le> length buf \<Longrightarrow> length (rd_into buf bs) = length buf"
  by (simp add: rd_into_def)


text \<open>What every read keeps, the checksum keeps.\<close>

lemma check_sum_loop_keeps:
  assumes "check_sum_loop rd per_read file_size s buffer got ret = Some r"
    and "\<And>s n. keep (snd (rd s n)) = keep s"
  shows "keep (fst (snd r)) = keep s"
proof -
  have "(\<forall>s n. keep (snd (rd s n)) = keep s) \<longrightarrow> keep (fst (snd r)) = keep s"
    by (rule check_sum_loop.raw_induct [where P = "\<lambda>rd _ _ s _ _ _ r.
          (\<forall>s n. keep (snd (rd s n)) = keep s) \<longrightarrow> keep (fst (snd r)) = keep s", OF _ assms(1)])
       (fastforce simp: Let_def split: if_splits)
  then show ?thesis using assms(2) by blast
qed

locale byte_source =
  fixes rd :: "'s \<Rightarrow> nat \<Rightarrow> bytes \<times> 's"
    and content :: "'s \<Rightarrow> bytes"
  assumes rd_bytes: "fst (rd s n) = take n (content s)"
    and rd_rest: "content (snd (rd s n)) = drop n (content s)"
begin

lemma one_read_sum:
  assumes "n \<le> length (content s)" "n \<le> length buf"
  shows "get_sum (rd_into buf (fst (rd s n))) n = byte_sum (take n (content s))"
  using assms by (simp add: get_sum_byte_sum length_rd_into take_rd_into rd_bytes)

lemma check_sum_loop_correct:
  assumes "0 < per_read" "length buf = per_read" "got \<le> file_size"
    "file_size - got \<le> length (content s)"
  shows "\<exists>s' buf'. check_sum_loop rd per_read file_size s buf got ret =
           Some (ret + byte_sum (take (file_size - got) (content s)), s', buf') \<and>
           content s' = drop (file_size - got) (content s) \<and> length buf' = per_read"
  using assms
proof (induction "file_size - got" arbitrary: s buf got ret rule: less_induct)
  case less
  let ?rem = "file_size - got"
  show ?case
  proof (cases "0 < ?rem div per_read")
    case False
    then have small: "?rem < per_read" using less.prems(1) by (simp add: div_eq_0_iff)
    then show ?thesis
      using less.prems False one_read_sum [of ?rem s buf]
      by (subst check_sum_loop.simps)
         (auto simp: Let_def rd_rest rd_bytes length_rd_into)
  next
    case True
    then have big: "per_read \<le> ?rem"
      by (metis div_less linorder_not_le not_less_zero)
    let ?s = "snd (rd s per_read)" and ?buf = "rd_into buf (fst (rd s per_read))"
    have len: "length (fst (rd s per_read)) = per_read"
      using big less.prems by (simp add: rd_bytes)
    have step: "check_sum_loop rd per_read file_size s buf got ret =
        check_sum_loop rd per_read file_size ?s ?buf (got + per_read)
          (ret + byte_sum (take per_read (content s)))"
      using True big less.prems len
      by (subst check_sum_loop.simps) (simp add: Let_def one_read_sum)
    have rest: "file_size - (got + per_read) = ?rem - per_read" by simp
    have "\<exists>s' buf'. check_sum_loop rd per_read file_size ?s ?buf (got + per_read)
             (ret + byte_sum (take per_read (content s))) =
           Some (ret + byte_sum (take per_read (content s)) +
                 byte_sum (take (file_size - (got + per_read)) (content ?s)), s', buf') \<and>
           content s' = drop (file_size - (got + per_read)) (content ?s) \<and>
           length buf' = per_read"
      using less.prems big len
      by (intro less.hyps) (auto simp: rd_rest length_rd_into)
    then obtain s' buf' where
      res: "check_sum_loop rd per_read file_size ?s ?buf (got + per_read)
             (ret + byte_sum (take per_read (content s))) =
           Some (ret + byte_sum (take per_read (content s)) +
                 byte_sum (take (?rem - per_read) (drop per_read (content s))), s', buf')"
      and s': "content s' = drop (?rem - per_read) (drop per_read (content s))"
      and buf': "length buf' = per_read"
      unfolding rest rd_rest by blast
    have "take ?rem (content s) =
        take per_read (content s) @ take (?rem - per_read) (drop per_read (content s))"
      using big by (metis le_add_diff_inverse take_add)
    then have "byte_sum (take ?rem (content s)) = byte_sum (take per_read (content s)) +
        byte_sum (take (?rem - per_read) (drop per_read (content s)))"
      by (simp only: byte_sum_append)
    moreover have "content s' = drop ?rem (content s)"
      using s' big by (metis drop_drop le_add_diff_inverse2)
    ultimately show ?thesis
      unfolding step res using buf' by (simp add: add.assoc)
  qed
qed

end

interpretation fd_source: byte_source fd_read fd_rest
  by unfold_locales (rule fd_read_fst, rule fd_read_snd)

end
