(* ===== verification/Firmware_Header.thy ===== *)
theory Firmware_Header
  imports File_IO
begin

section \<open>The SmartQ firmware file header\<close>

text \<open>
  \<^verbatim>\<open>fw-utils/firmware_header.h\<close>: six sections, each described by a stanza, in a packed 176-byte
  little-endian structure.  \<open>header_bytes\<close> is the memory image that write(2) stores and
  \<open>header_of_bytes\<close> reads such an image back.  The code addresses a stanza by its byte offset in
  the structure (\<open>FW_STANZA_OFFSET\<close>); \<open>get_stanza\<close> and \<open>set_stanza\<close> select the field that has
  this offset.
\<close>

datatype sections = QI | U_BOOT | ZIMAGE | INITRAMFS | ROOTFS | HOMEFS

definition MAX_SECTIONS :: nat where "MAX_SECTIONS = 6"

definition all_sections :: "sections list" where
  "all_sections = [QI, U_BOOT, ZIMAGE, INITRAMFS, ROOTFS, HOMEFS]"

record stanza =
  st_file_offset :: u32
  st_file_size :: u32
  st_nand_offset :: u32
  st_nand_size :: u32
  st_check_sum :: u32

record fw_header =
  fh_magic :: u32
  fh_check_sum :: u32
  fh_fh_size :: u32
  fh_version :: u32
  fh_date :: u32
  fh_vendor :: bytes
  fh_machType :: u32
  fh_component_count :: u32
  fh_qi :: stanza
  fh_u_boot :: stanza
  fh_zimage :: stanza
  fh_initramfs :: stanza
  fh_rootfs :: stanza
  fh_homefs :: stanza

definition HEAD_MAGIC :: u32 where "HEAD_MAGIC = 0x39000032"
definition MACH_TYPE_SMARTQ5 :: u32 where "MACH_TYPE_SMARTQ5 = 2534"
definition MACH_TYPE_SMARTQ7 :: u32 where "MACH_TYPE_SMARTQ7 = 2479"

definition vendor_len :: nat where "vendor_len = 28"
definition sizeof_FWFileHdr :: nat where "sizeof_FWFileHdr = 176"

fun get_stanza :: "sections \<Rightarrow> fw_header \<Rightarrow> stanza" where
  "get_stanza QI h = fh_qi h"
| "get_stanza U_BOOT h = fh_u_boot h"
| "get_stanza ZIMAGE h = fh_zimage h"
| "get_stanza INITRAMFS h = fh_initramfs h"
| "get_stanza ROOTFS h = fh_rootfs h"
| "get_stanza HOMEFS h = fh_homefs h"

fun set_stanza :: "sections \<Rightarrow> stanza \<Rightarrow> fw_header \<Rightarrow> fw_header" where
  "set_stanza QI st h = h\<lparr>fh_qi := st\<rparr>"
| "set_stanza U_BOOT st h = h\<lparr>fh_u_boot := st\<rparr>"
| "set_stanza ZIMAGE st h = h\<lparr>fh_zimage := st\<rparr>"
| "set_stanza INITRAMFS st h = h\<lparr>fh_initramfs := st\<rparr>"
| "set_stanza ROOTFS st h = h\<lparr>fh_rootfs := st\<rparr>"
| "set_stanza HOMEFS st h = h\<lparr>fh_homefs := st\<rparr>"

definition zero_stanza :: stanza where
  "zero_stanza = \<lparr>st_file_offset = 0, st_file_size = 0, st_nand_offset = 0,
                  st_nand_size = 0, st_check_sum = 0\<rparr>"

definition zero_header :: fw_header where
  "zero_header = \<lparr>fh_magic = 0, fh_check_sum = 0, fh_fh_size = 0, fh_version = 0, fh_date = 0,
     fh_vendor = replicate vendor_len 0, fh_machType = 0, fh_component_count = 0,
     fh_qi = zero_stanza, fh_u_boot = zero_stanza, fh_zimage = zero_stanza,
     fh_initramfs = zero_stanza, fh_rootfs = zero_stanza, fh_homefs = zero_stanza\<rparr>"

definition stanza_bytes :: "stanza \<Rightarrow> bytes" where
  "stanza_bytes s = put32 (st_file_offset s) @ put32 (st_file_size s) @ put32 (st_nand_offset s)
     @ put32 (st_nand_size s) @ put32 (st_check_sum s)"

definition header_bytes :: "fw_header \<Rightarrow> bytes" where
  "header_bytes h = put32 (fh_magic h) @ put32 (fh_check_sum h) @ put32 (fh_fh_size h)
     @ put32 (fh_version h) @ put32 (fh_date h) @ fh_vendor h @ put32 (fh_machType h)
     @ put32 (fh_component_count h) @ stanza_bytes (fh_qi h) @ stanza_bytes (fh_u_boot h)
     @ stanza_bytes (fh_zimage h) @ stanza_bytes (fh_initramfs h) @ stanza_bytes (fh_rootfs h)
     @ stanza_bytes (fh_homefs h)"

definition stanza_at :: "bytes \<Rightarrow> nat \<Rightarrow> stanza" where
  "stanza_at bs off = \<lparr>st_file_offset = get32 bs off, st_file_size = get32 bs (off + 4),
     st_nand_offset = get32 bs (off + 8), st_nand_size = get32 bs (off + 12),
     st_check_sum = get32 bs (off + 16)\<rparr>"

definition header_of_bytes :: "bytes \<Rightarrow> fw_header" where
  "header_of_bytes bs = \<lparr>fh_magic = get32 bs 0, fh_check_sum = get32 bs 4,
     fh_fh_size = get32 bs 8, fh_version = get32 bs 12, fh_date = get32 bs 16,
     fh_vendor = region bs 20 vendor_len, fh_machType = get32 bs 48,
     fh_component_count = get32 bs 52, fh_qi = stanza_at bs 56, fh_u_boot = stanza_at bs 76,
     fh_zimage = stanza_at bs 96, fh_initramfs = stanza_at bs 116, fh_rootfs = stanza_at bs 136,
     fh_homefs = stanza_at bs 156\<rparr>"

text \<open>\<open>for (i = 8; i < n; i++) ret += pchar[i]\<close> over the memory image of the header.\<close>

definition sum_header_image :: "bytes \<Rightarrow> nat \<Rightarrow> u32" where
  "sum_header_image pchar n = foldl (\<lambda>ret i. ret + ucast (pchar ! i)) 0 [8..<n]"

definition wf_header :: "fw_header \<Rightarrow> bool" where
  "wf_header h \<longleftrightarrow> length (fh_vendor h) = vendor_len"

subsection \<open>The image of a header\<close>

lemma length_stanza_bytes [simp]: "length (stanza_bytes s) = 20"
  by (simp add: stanza_bytes_def)

lemma length_header_bytes [simp]: "wf_header h \<Longrightarrow> length (header_bytes h) = sizeof_FWFileHdr"
  by (simp add: header_bytes_def wf_header_def vendor_len_def sizeof_FWFileHdr_def)

lemma stanza_at_append_left [codec_simps]:
  "off + 20 \<le> length xs \<Longrightarrow> stanza_at (xs @ ys) off = stanza_at xs off"
  by (simp add: stanza_at_def get32_append_left)

lemma stanza_at_append_right [codec_simps]:
  assumes "length xs \<le> off"
  shows "stanza_at (xs @ ys) off = stanza_at ys (off - length xs)"
proof -
  from assms obtain d where "off = length xs + d" by (auto simp: le_iff_add)
  then show ?thesis by (simp add: stanza_at_def get32_append_right)
qed

lemma stanza_at_stanza_bytes [codec_simps]: "stanza_at (stanza_bytes s) 0 = s"
  by (simp add: stanza_at_def stanza_bytes_def codec_simps)

lemma header_of_bytes_append:
  assumes "sizeof_FWFileHdr \<le> length bs"
  shows "header_of_bytes (bs @ rest) = header_of_bytes bs"
  using assms
  by (simp add: header_of_bytes_def codec_simps sizeof_FWFileHdr_def vendor_len_def region_def)

lemma header_of_header_bytes:
  assumes "wf_header h"
  shows "header_of_bytes (header_bytes h) = h"
  using assms
  by (simp add: header_of_bytes_def header_bytes_def wf_header_def vendor_len_def region_def
      codec_simps)

lemma sum_header_image_region:
  "n \<le> length bs \<Longrightarrow> sum_header_image bs n = byte_sum (region bs 8 (n - 8))"
  by (simp add: sum_header_image_def foldl_index_sum)

lemma sum_header_image_append:
  "n \<le> length bs \<Longrightarrow> sum_header_image (bs @ rest) n = sum_header_image bs n"
  by (simp add: sum_header_image_region region_def)

text \<open>The checksum covers everything after the two words in front, so storing it does not
  change what it covers.\<close>

lemma sum_header_image_set_check_sum:
  assumes "wf_header h"
  shows "sum_header_image (header_bytes (h\<lparr>fh_check_sum := c\<rparr>)) sizeof_FWFileHdr =
         sum_header_image (header_bytes h) sizeof_FWFileHdr"
proof -
  have "wf_header (h\<lparr>fh_check_sum := c\<rparr>)" using assms by (simp add: wf_header_def)
  then have "length (header_bytes (h\<lparr>fh_check_sum := c\<rparr>)) = sizeof_FWFileHdr" by simp
  moreover have "region (header_bytes (h\<lparr>fh_check_sum := c\<rparr>)) 8 n = region (header_bytes h) 8 n" for n
    by (simp add: header_bytes_def region_def)
  ultimately show ?thesis using assms by (simp add: sum_header_image_region)
qed

lemma get_set_stanza: "get_stanza a (set_stanza b st h) = (if a = b then st else get_stanza a h)"
  by (cases a; cases b) simp_all

lemma set_stanza_other_fields [simp]:
  "fh_magic (set_stanza a st h) = fh_magic h"
  "fh_check_sum (set_stanza a st h) = fh_check_sum h"
  "fh_fh_size (set_stanza a st h) = fh_fh_size h"
  "fh_version (set_stanza a st h) = fh_version h"
  "fh_date (set_stanza a st h) = fh_date h"
  "fh_vendor (set_stanza a st h) = fh_vendor h"
  "fh_machType (set_stanza a st h) = fh_machType h"
  "fh_component_count (set_stanza a st h) = fh_component_count h"
  by (cases a; simp)+

lemma all_sections_complete: "s \<in> set all_sections"
  by (cases s) (simp_all add: all_sections_def)

end
