(* ===== verification/Firmware_Pack.thy ===== *)
theory Firmware_Pack
  imports Firmware_Header
begin

section \<open>mkSmartQ: building an installable firmware image\<close>

text \<open>
  \<^verbatim>\<open>fw-utils/mkSmartQ.c\<close>.  The file system is a map from names to contents.  \<open>mkSmartQ_main\<close> is
  \<open>main\<close>: its result is the exit status and the file system it leaves, or None where the C has
  no defined outcome (a section of 2 GiB or more, whose size is negative as an \<open>int\<close>).  The shell
  command \<open>cat FILE >> IMAGE\<close> that \<open>system\<close> runs is the parameter \<open>sh\<close>; \<open>sh_appends\<close> states what
  \<open>cat\<close> does with a plain file name.  The theorems say that the image holds every section where
  its stanza says, with the right checksum.
\<close>

type_synonym fsys = "string \<rightharpoonup> bytes"

record section_rec =
  sec_name :: string
  sec_nandOffset :: u32
  sec_stanza :: sections
  sec_fileSize :: u32
  sec_checkSum :: u32

definition mk_section :: "string \<Rightarrow> u32 \<Rightarrow> sections \<Rightarrow> section_rec" where
  "mk_section name nand s = \<lparr>sec_name = name, sec_nandOffset = nand, sec_stanza = s,
                             sec_fileSize = 0, sec_checkSum = 0\<rparr>"

definition sects :: "section_rec list" where
  "sects = [mk_section ''QI'' 0 QI, mk_section ''UBOOT'' 2 U_BOOT,
            mk_section ''ZIMAGE'' (512 + 2) ZIMAGE, mk_section ''INITRAMFS'' 4096 INITRAMFS,
            mk_section ''ROOTFS'' 0 ROOTFS, mk_section ''HOMEFS'' 0 HOMEFS]"

definition SIZE_PER_READ :: nat where "SIZE_PER_READ = 4194304"

definition get_check_sum :: "fsys \<Rightarrow> bytes \<Rightarrow> string \<Rightarrow> int \<Rightarrow> (u32 \<times> bytes) option" where
  "get_check_sum fs buffer file_name file_size =
     (case fs file_name of
        None \<Rightarrow> Some (- 1, buffer)
      | Some c \<Rightarrow>
          if file_size < 0 then None
          else map_option (\<lambda>(ret, _, buf). (ret, buf))
                 (check_sum_loop fd_read SIZE_PER_READ (nat file_size) (fd_open c) buffer 0 0))"

text \<open>The loop of \<open>main\<close> over the sections: stop at the last argument, skip files named ".",
  exit with 4 when a file cannot be examined.\<close>

fun fill_sects ::
  "fsys \<Rightarrow> bytes \<Rightarrow> string list \<Rightarrow> section_rec list \<Rightarrow> (int + section_rec list) option" where
  "fill_sects fs buffer args [] = Some (Inr [])"
| "fill_sects fs buffer [] (s # ss) = Some (Inr (s # ss))"
| "fill_sects fs buffer (a # args) (s # ss) =
     (if a = ''.''
      then map_option (map_sum id (\<lambda>r. s\<lparr>sec_fileSize := 0, sec_checkSum := 0\<rparr> # r))
             (fill_sects fs buffer args ss)
      else case fs a of
        None \<Rightarrow> Some (Inl 4)
      | Some c \<Rightarrow>
         (case get_check_sum fs buffer a (s32 (int (length c))) of
            None \<Rightarrow> None
          | Some (chk, buffer') \<Rightarrow>
              map_option (map_sum id (\<lambda>r.
                  s\<lparr>sec_fileSize := word_of_nat (length c), sec_checkSum := chk\<rparr> # r))
                (fill_sects fs buffer' args ss)))"

fun fill_stanzas :: "section_rec list \<Rightarrow> u32 \<Rightarrow> fw_header \<Rightarrow> fw_header" where
  "fill_stanzas [] fileOffset h = h"
| "fill_stanzas (s # ss) fileOffset h =
     fill_stanzas ss (fileOffset + sec_fileSize s)
       (set_stanza (sec_stanza s)
          \<lparr>st_file_offset = fileOffset, st_file_size = sec_fileSize s,
           st_nand_offset = sec_nandOffset s, st_nand_size = sec_fileSize s,
           st_check_sum = sec_checkSum s\<rparr> h)"

definition vendor_hhtech :: bytes where
  "vendor_hhtech = bytes_of_string ''hhtech'' @ replicate (vendor_len - 6) 0"

definition fill_fw_fh :: "section_rec list \<Rightarrow> u32 \<Rightarrow> u32 \<Rightarrow> fw_header \<Rightarrow> fw_header" where
  "fill_fw_fh ss machType now h =
     fill_stanzas ss (word_of_nat sizeof_FWFileHdr)
       (h\<lparr>fh_magic := 0x39000032, fh_fh_size := word_of_nat sizeof_FWFileHdr, fh_version := 1,
          fh_date := now, fh_vendor := vendor_hhtech, fh_machType := machType,
          fh_component_count := word_of_nat MAX_SECTIONS\<rparr>)"

definition get_fw_fh_check_sum :: "fw_header \<Rightarrow> u32" where
  "get_fw_fh_check_sum fw_fh = sum_header_image (header_bytes fw_fh) sizeof_FWFileHdr"

fun prefix_of :: "string \<Rightarrow> string \<Rightarrow> bool" where
  "prefix_of [] s = True"
| "prefix_of (x # xs) [] = False"
| "prefix_of (x # xs) (y # ys) = (x = y \<and> prefix_of xs ys)"

fun strstr :: "string \<Rightarrow> string \<Rightarrow> bool" where
  "strstr [] needle = (needle = [])"
| "strstr (c # hay) needle = (prefix_of needle (c # hay) \<or> strstr hay needle)"

definition target_of :: "string \<Rightarrow> (string \<times> u32) option" where
  "target_of argv0 =
     (if strstr argv0 ''SmartQ5'' then Some (''SmartQ5'', MACH_TYPE_SMARTQ5)
      else if strstr argv0 ''SmartQ7'' then Some (''SmartQ7'', MACH_TYPE_SMARTQ7)
      else None)"

fun append_sections ::
  "(fsys \<Rightarrow> string \<Rightarrow> string \<Rightarrow> fsys) \<Rightarrow> string \<Rightarrow> fsys \<Rightarrow> string list \<Rightarrow> fsys" where
  "append_sections sh fwName fs [] = fs"
| "append_sections sh fwName fs (a # args) =
     append_sections sh fwName (if a = ''.'' then fs else sh fs a fwName) args"

definition mkSmartQ_main ::
  "(fsys \<Rightarrow> string \<Rightarrow> string \<Rightarrow> fsys) \<Rightarrow> u32 \<Rightarrow> bytes option \<Rightarrow> bool \<Rightarrow> fsys \<Rightarrow> string list \<Rightarrow>
   (int \<times> fsys) option" where
  "mkSmartQ_main sh now malloc_result can_create fs argv =
     (if length argv < 5 \<or> 7 < length argv then Some (1, fs)
      else case target_of (argv ! 0) of
        None \<Rightarrow> Some (3, fs)
      | Some (fwName, machType) \<Rightarrow>
         (case malloc_result of
            None \<Rightarrow> Some (- 1, fs)
          | Some buffer \<Rightarrow>
             (case fill_sects fs buffer (tl argv) sects of
                None \<Rightarrow> None
              | Some (Inl code) \<Rightarrow> Some (code, fs)
              | Some (Inr ss) \<Rightarrow>
                  let fw_fh = fill_fw_fh ss machType now zero_header;
                      fw_fh = fw_fh\<lparr>fh_check_sum := get_fw_fh_check_sum fw_fh\<rparr>;
                      fs1 = fs(fwName := None)
                  in if \<not> can_create then Some (2, fs1)
                     else Some (0, append_sections sh fwName
                                     (fs1(fwName \<mapsto> header_bytes fw_fh)) (tl argv)))))"

subsection \<open>What the shell command does\<close>

definition plain_name :: "string \<Rightarrow> bool" where
  "plain_name p \<longleftrightarrow> p \<noteq> [] \<and> length p < 200 \<and>
     list_all (\<lambda>c. c \<in> set ''ABCDEFGHIJKLMNOPQRSTUVWXYZabcdefghijklmnopqrstuvwxyz0123456789._-/'') p \<and>
     hd p \<noteq> CHR ''-''"

definition sh_appends :: "(fsys \<Rightarrow> string \<Rightarrow> string \<Rightarrow> fsys) \<Rightarrow> bool" where
  "sh_appends sh \<longleftrightarrow> (\<forall>fs p out c d. plain_name p \<longrightarrow> p \<noteq> out \<longrightarrow> fs p = Some c \<longrightarrow> fs out = Some d \<longrightarrow>
     sh fs p out = fs(out \<mapsto> d @ c))"

text \<open>The content that the argument for a section contributes: nothing for "." and for an
  argument that is not given.\<close>

definition content_of :: "fsys \<Rightarrow> string \<Rightarrow> bytes" where
  "content_of fs a = (if a = ''.'' then [] else the (fs a))"

definition section_content :: "fsys \<Rightarrow> string list \<Rightarrow> nat \<Rightarrow> bytes" where
  "section_content fs args i = (if i < length args then content_of fs (args ! i) else [])"

definition good_arg :: "fsys \<Rightarrow> string \<Rightarrow> string \<Rightarrow> bool" where
  "good_arg fs fwName a \<longleftrightarrow> a = ''.'' \<or>
     (plain_name a \<and> a \<noteq> fwName \<and> fs a \<noteq> None \<and> length (the (fs a)) < 2147483648)"

subsection \<open>The tables filled by the loops\<close>

lemma get_check_sum_file:
  assumes "fs a = Some c" "length c < 2147483648" "length buf = SIZE_PER_READ"
  shows "\<exists>buf'. get_check_sum fs buf a (s32 (int (length c))) = Some (byte_sum c, buf') \<and>
                length buf' = SIZE_PER_READ"
proof -
  have "fd_rest (fd_open c) = c" by (simp add: fd_rest_def fd_open_def)
  then obtain s' buf' where
    "check_sum_loop fd_read SIZE_PER_READ (length c) (fd_open c) buf 0 0 = Some (byte_sum c, s', buf')"
    "length buf' = SIZE_PER_READ"
    using fd_source.check_sum_loop_correct [of SIZE_PER_READ buf 0 "length c" "fd_open c" 0] assms(3)
    by (auto simp: SIZE_PER_READ_def)
  then show ?thesis using assms(1,2) by (simp add: get_check_sum_def)
qed

definition filled :: "section_rec \<Rightarrow> bytes \<Rightarrow> section_rec" where
  "filled s c = s\<lparr>sec_fileSize := word_of_nat (length c), sec_checkSum := byte_sum c\<rparr>"

lemma fill_sects_good:
  assumes "\<forall>a \<in> set args. good_arg fs fwName a" "length buf = SIZE_PER_READ"
    and "\<forall>s \<in> set ss. sec_fileSize s = 0 \<and> sec_checkSum s = 0"
  shows "fill_sects fs buf args ss =
         Some (Inr (map (\<lambda>i. filled (ss ! i) (section_content fs args i)) [0..<length ss]))"
  using assms
proof (induction fs buf args ss rule: fill_sects.induct)
  case (1 fs buf args)
  then show ?case by simp
next
  case (2 fs buf s ss)
  have "filled t [] = t" if "t \<in> set (s # ss)" for t
    using "2.prems"(3) that by (cases t) (auto simp: filled_def)
  then have fixed: "filled ((s # ss) ! i) [] = (s # ss) ! i" if "i < length (s # ss)" for i
    using that nth_mem by blast
  have "map (\<lambda>i. filled ((s # ss) ! i) (section_content fs [] i)) [0..<length (s # ss)] = s # ss"
    by (rule nth_equalityI) (use fixed in \<open>simp_all add: section_content_def del: upt_Suc\<close>)
  then show ?case by (simp del: upt_Suc)
next
  case (3 fs buf a args s ss)
  have shift: "map (\<lambda>i. filled ((s # ss) ! i) (section_content fs (a # args) i)) [0..<length (s # ss)]
      = filled s (content_of fs a) #
        map (\<lambda>i. filled (ss ! i) (section_content fs args i)) [0..<length ss]"
    by (simp add: upt_conv_Cons map_Suc_upt [symmetric] section_content_def del: upt_Suc)
  have zero: "s\<lparr>sec_fileSize := 0, sec_checkSum := 0\<rparr> = filled s []" for s
    by (simp add: filled_def)
  show ?case
  proof (cases "a = ''.''")
    case True
    then show ?thesis
      unfolding shift using "3.IH"(1) "3.prems" zero [of s] by (simp add: content_of_def)
  next
    case False
    with "3.prems" obtain c where c: "fs a = Some c" "length c < 2147483648"
      by (auto simp: good_arg_def)
    then obtain buf' where
      sum: "get_check_sum fs buf a (s32 (int (length c))) = Some (byte_sum c, buf')"
      and buf': "length buf' = SIZE_PER_READ"
      using get_check_sum_file "3.prems"(2) by blast
    then show ?thesis
      using "3.IH"(2) [OF False c(1) sum refl _ buf'] "3.prems" False c sum
      unfolding shift by (simp add: filled_def [symmetric] content_of_def)
  qed
qed

lemma fill_stanzas_other_fields [simp]:
  "fh_magic (fill_stanzas ss off h) = fh_magic h"
  "fh_check_sum (fill_stanzas ss off h) = fh_check_sum h"
  "fh_fh_size (fill_stanzas ss off h) = fh_fh_size h"
  "fh_version (fill_stanzas ss off h) = fh_version h"
  "fh_date (fill_stanzas ss off h) = fh_date h"
  "fh_vendor (fill_stanzas ss off h) = fh_vendor h"
  "fh_machType (fill_stanzas ss off h) = fh_machType h"
  "fh_component_count (fill_stanzas ss off h) = fh_component_count h"
  by (induction ss off h rule: fill_stanzas.induct) simp_all

lemma fill_stanzas_untouched:
  "a \<notin> sec_stanza ` set ss \<Longrightarrow> get_stanza a (fill_stanzas ss off h) = get_stanza a h"
  by (induction ss off h rule: fill_stanzas.induct) (auto simp: get_set_stanza)

lemma fill_stanzas_nth:
  assumes "distinct (map sec_stanza ss)" "i < length ss"
  shows "get_stanza (sec_stanza (ss ! i)) (fill_stanzas ss off h) =
         \<lparr>st_file_offset = off + sum_list (map sec_fileSize (take i ss)),
          st_file_size = sec_fileSize (ss ! i), st_nand_offset = sec_nandOffset (ss ! i),
          st_nand_size = sec_fileSize (ss ! i), st_check_sum = sec_checkSum (ss ! i)\<rparr>"
  using assms
proof (induction ss off h arbitrary: i rule: fill_stanzas.induct)
  case (2 s ss off h)
  show ?case
  proof (cases i)
    case 0
    then show ?thesis using "2.prems" by (simp add: fill_stanzas_untouched get_set_stanza)
  next
    case (Suc j)
    then show ?thesis using "2.IH" [of j] "2.prems" by (simp add: add.assoc)
  qed
qed simp

lemma append_sections_good:
  assumes "sh_appends sh" "\<forall>a \<in> set args. good_arg fs0 fwName a"
    and "\<forall>p. p \<noteq> fwName \<longrightarrow> fs p = fs0 p" "fs fwName = Some d"
  shows "append_sections sh fwName fs args fwName = Some (d @ concat (map (content_of fs0) args))"
  using assms(2-4)
proof (induction args arbitrary: fs d)
  case (Cons a args)
  show ?case
  proof (cases "a = ''.''")
    case True
    then show ?thesis using Cons by (simp add: content_of_def)
  next
    case False
    with Cons.prems obtain c where c: "fs a = Some c" "fs0 a = Some c" "plain_name a" "a \<noteq> fwName"
      by (auto simp: good_arg_def)
    then have "sh fs a fwName = fs(fwName \<mapsto> d @ c)"
      using assms(1) Cons.prems by (simp add: sh_appends_def)
    moreover have "append_sections sh fwName (fs(fwName \<mapsto> d @ c)) args fwName =
        Some ((d @ c) @ concat (map (content_of fs0) args))"
      using Cons.prems by (intro Cons.IH) auto
    moreover have "content_of fs0 a = c" using False c by (simp add: content_of_def)
    ultimately show ?thesis using False by simp
  qed
qed simp

subsection \<open>The image that main writes\<close>

definition section_described :: "bytes \<Rightarrow> nat \<Rightarrow> bytes \<Rightarrow> bool" where
  "section_described img i c \<longleftrightarrow>
     (let st = get_stanza (all_sections ! i) (header_of_bytes img)
      in unat (st_file_size st) = length c \<and>
         region img (unat (st_file_offset st)) (length c) = c \<and>
         st_check_sum st = byte_sum c \<and> st_nand_size st = st_file_size st \<and>
         st_nand_offset st = sec_nandOffset (sects ! i))"

definition section_contents :: "fsys \<Rightarrow> string list \<Rightarrow> bytes list" where
  "section_contents fs args = map (section_content fs args) [0..<6]"

definition filled_sects :: "fsys \<Rightarrow> string list \<Rightarrow> section_rec list" where
  "filled_sects fs args = map (\<lambda>i. filled (sects ! i) (section_content fs args i)) [0..<6]"

text \<open>The header that \<open>main\<close> writes.\<close>

definition final_header :: "fsys \<Rightarrow> string list \<Rightarrow> u32 \<Rightarrow> u32 \<Rightarrow> fw_header" where
  "final_header fs args machType now =
     (let h = fill_fw_fh (filled_sects fs args) machType now zero_header
      in h\<lparr>fh_check_sum := get_fw_fh_check_sum h\<rparr>)"

definition image_of :: "fsys \<Rightarrow> string list \<Rightarrow> u32 \<Rightarrow> u32 \<Rightarrow> bytes" where
  "image_of fs args machType now =
     header_bytes (final_header fs args machType now) @ concat (map (content_of fs) args)"

definition pack_inputs_ok :: "fsys \<Rightarrow> string \<Rightarrow> string list \<Rightarrow> bool" where
  "pack_inputs_ok fs fwName args \<longleftrightarrow> 4 \<le> length args \<and> length args \<le> 6 \<and>
     (\<forall>a \<in> set args. good_arg fs fwName a) \<and>
     sizeof_FWFileHdr + sum_list (map (\<lambda>a. length (content_of fs a)) args) < 4294967296"

lemma wf_final_header [simp]: "wf_header (final_header fs args m now)"
  by (simp add: final_header_def fill_fw_fh_def wf_header_def vendor_hhtech_def vendor_len_def
      bytes_of_string_def Let_def)

lemma header_of_image: "header_of_bytes (image_of fs args m now) = final_header fs args m now"
  by (simp add: image_of_def header_of_bytes_append header_of_header_bytes)

lemma final_header_fields:
  "fh_magic (final_header fs args m now) = HEAD_MAGIC"
  "fh_fh_size (final_header fs args m now) = 176"
  "fh_vendor (final_header fs args m now) = vendor_hhtech"
  "fh_machType (final_header fs args m now) = m"
  "fh_component_count (final_header fs args m now) = 6"
  by (simp_all add: final_header_def fill_fw_fh_def HEAD_MAGIC_def sizeof_FWFileHdr_def
      MAX_SECTIONS_def Let_def)

lemma final_header_sum:
  "sum_header_image (header_bytes (final_header fs args m now)) sizeof_FWFileHdr =
   fh_check_sum (final_header fs args m now)"
proof -
  let ?h = "fill_fw_fh (filled_sects fs args) m now zero_header"
  have "wf_header ?h"
    using wf_final_header [of fs args m now] by (simp add: final_header_def wf_header_def Let_def)
  then show ?thesis
    by (simp add: final_header_def get_fw_fh_check_sum_def sum_header_image_set_check_sum Let_def)
qed

lemma length_sects [simp]: "length sects = 6"
  by (simp add: sects_def)

lemma sects_zero: "\<forall>s \<in> set sects. sec_fileSize s = 0 \<and> sec_checkSum s = 0"
  by (simp add: sects_def mk_section_def)

lemma sects_stanza: "i < 6 \<Longrightarrow> sec_stanza (sects ! i) = all_sections ! i"
proof -
  assume "i < 6"
  then have "i \<in> {0, 1, 2, 3, 4, 5}" by auto
  then show ?thesis by (auto simp: sects_def all_sections_def mk_section_def)
qed

lemma mkSmartQ_main_ok:
  assumes "sh_appends sh" "target_of argv0 = Some (fwName, machType)"
    and "pack_inputs_ok fs fwName args" "length buf = SIZE_PER_READ"
  shows "\<exists>fs'. mkSmartQ_main sh now (Some buf) True fs (argv0 # args) = Some (0, fs') \<and>
               fs' fwName = Some (image_of fs args machType now)"
proof -
  have good: "\<forall>a \<in> set args. good_arg fs fwName a" and len: "4 \<le> length args" "length args \<le> 6"
    using assms(3) by (auto simp: pack_inputs_ok_def)
  have fill: "fill_sects fs buf args sects = Some (Inr (filled_sects fs args))"
    using fill_sects_good [OF good assms(4) sects_zero] by (simp add: filled_sects_def)
  let ?h = "final_header fs args machType now"
  let ?fs = "(fs(fwName := None))(fwName \<mapsto> header_bytes ?h)"
  have "append_sections sh fwName ?fs args fwName = Some (image_of fs args machType now)"
    using append_sections_good [OF assms(1) good, of ?fs "header_bytes ?h"]
    by (simp add: image_of_def)
  then show ?thesis
    using len assms(2) fill by (simp add: mkSmartQ_main_def final_header_def Let_def)
qed

lemma sum_list_word_of_nat:
  "sum_list (map (\<lambda>x. word_of_nat (f x) :: u32) xs) = word_of_nat (sum_list (map f xs))"
  by (induction xs) simp_all

lemma concat_section_contents:
  assumes "length args \<le> 6"
  shows "concat (section_contents fs args) = concat (map (content_of fs) args)"
proof -
  have "[0..<6] = [0..<length args] @ [length args..<6]"
    using assms upt_add_eq_append [of 0 "length args" "6 - length args"] by simp
  then have "section_contents fs args = map (section_content fs args) [0..<length args] @
      map (section_content fs args) [length args..<6]"
    unfolding section_contents_def by (simp only: map_append)
  moreover have "map (section_content fs args) [0..<length args] = map (content_of fs) args"
    by (rule nth_equalityI) (simp_all add: section_content_def)
  moreover have "concat (map (section_content fs args) [length args..<6]) = []"
    by (auto simp: section_content_def)
  ultimately show ?thesis by simp
qed

definition section_offset :: "fsys \<Rightarrow> string list \<Rightarrow> nat \<Rightarrow> nat" where
  "section_offset fs args i = 176 + sum_list (map length (take i (section_contents fs args)))"

lemma section_offset_0: "section_offset fs args 0 = 176"
  by (simp add: section_offset_def)

lemma section_offset_Suc:
  "i < 6 \<Longrightarrow> section_offset fs args (Suc i) =
     section_offset fs args i + length (section_content fs args i)"
  by (simp add: section_offset_def section_contents_def take_Suc_conv_app_nth)

lemma section_offset_bound:
  assumes "length args \<le> 6" "i < 6"
  shows "section_offset fs args i + length (section_content fs args i) \<le>
    sizeof_FWFileHdr + sum_list (map (\<lambda>a. length (content_of fs a)) args)"
proof -
  let ?cs = "section_contents fs args"
  have "sum_list (map length ?cs) = sum_list (map length (map (content_of fs) args))"
    using concat_section_contents [OF assms(1), of fs] by (metis length_concat)
  then have total: "sum_list (map length ?cs) = sum_list (map (\<lambda>a. length (content_of fs a)) args)"
    by (simp add: comp_def)
  have ci: "?cs ! i = section_content fs args i" "length ?cs = 6"
    using assms(2) by (simp_all add: section_contents_def)
  have "?cs = take i ?cs @ section_content fs args i # drop (Suc i) ?cs"
    using ci assms(2) id_take_nth_drop [of i ?cs] by simp
  then have "sum_list (map length ?cs) = sum_list (map length (take i ?cs)) +
      length (section_content fs args i) + sum_list (map length (drop (Suc i) ?cs))"
    by (metis add.assoc list.simps(9) map_append sum_list.Cons sum_list_append)
  then show ?thesis
    unfolding section_offset_def sizeof_FWFileHdr_def total [symmetric] by linarith
qed

lemma image_stanza:
  assumes "i < 6"
  shows "get_stanza (all_sections ! i) (final_header fs args machType now) =
      \<lparr>st_file_offset = word_of_nat (section_offset fs args i),
       st_file_size = word_of_nat (length (section_content fs args i)),
       st_nand_offset = sec_nandOffset (sects ! i),
       st_nand_size = word_of_nat (length (section_content fs args i)),
       st_check_sum = byte_sum (section_content fs args i)\<rparr>"
proof -
  let ?cs = "section_contents fs args" and ?ss = "filled_sects fs args"
  let ?c = "section_content fs args i"
  have stanzas: "map sec_stanza ?ss = all_sections"
    by (simp add: filled_sects_def filled_def sects_def mk_section_def all_sections_def upt_rec)
  have ssi: "?ss ! i = filled (sects ! i) ?c" "length ?ss = 6"
    using assms by (simp_all add: filled_sects_def)
  have "map sec_fileSize (take i ?ss) = map (\<lambda>c. word_of_nat (length c)) (take i ?cs)"
    by (simp add: filled_sects_def section_contents_def filled_def take_map [symmetric] comp_def)
  then have sizes: "sum_list (map sec_fileSize (take i ?ss)) =
      word_of_nat (sum_list (map length (take i ?cs)))"
    by (simp add: sum_list_word_of_nat)
  have "get_stanza (sec_stanza (?ss ! i)) (fill_fw_fh ?ss machType now zero_header) =
      \<lparr>st_file_offset = word_of_nat sizeof_FWFileHdr + sum_list (map sec_fileSize (take i ?ss)),
       st_file_size = sec_fileSize (?ss ! i), st_nand_offset = sec_nandOffset (?ss ! i),
       st_nand_size = sec_fileSize (?ss ! i), st_check_sum = sec_checkSum (?ss ! i)\<rparr>"
    unfolding fill_fw_fh_def using stanzas ssi assms
    by (intro fill_stanzas_nth) (simp_all add: all_sections_def)
  moreover have "sec_stanza (?ss ! i) = all_sections ! i"
    using stanzas ssi assms by (metis length_map nth_map)
  moreover have "get_stanza s (h\<lparr>fh_check_sum := c\<rparr>) = get_stanza s h" for s h c
    by (cases s) simp_all
  ultimately show ?thesis
    by (simp add: final_header_def Let_def sizes ssi filled_def sizeof_FWFileHdr_def section_offset_def)
qed

lemma image_region:
  assumes "length args \<le> 6" "i < 6"
  shows "region (image_of fs args machType now) (section_offset fs args i)
      (length (section_content fs args i)) = section_content fs args i"
proof -
  let ?cs = "section_contents fs args"
  have "?cs ! i = section_content fs args i" "length ?cs = 6"
    using assms(2) by (simp_all add: section_contents_def)
  then show ?thesis
    using region_concat [of i ?cs "[]"] assms
      region_append_offset [of "header_bytes (final_header fs args machType now)"]
    by (simp add: image_of_def concat_section_contents sizeof_FWFileHdr_def section_offset_def)
qed

lemma image_section_described:
  assumes "pack_inputs_ok fs fwName args" "i < 6"
  shows "section_described (image_of fs args machType now) i (section_content fs args i)"
proof -
  let ?c = "section_content fs args i"
  have len: "length args \<le> 6" using assms(1) by (simp add: pack_inputs_ok_def)
  then have bound: "section_offset fs args i + length ?c < 4294967296"
    using section_offset_bound [OF len assms(2), of fs] assms(1) by (simp add: pack_inputs_ok_def)
  then have "unat (word_of_nat (section_offset fs args i) :: u32) = section_offset fs args i"
    "unat (word_of_nat (length ?c) :: u32) = length ?c"
    by (intro unat_word_of_nat32; linarith)+
  then show ?thesis
    using image_region [OF len assms(2)]
    by (simp add: section_described_def header_of_image image_stanza assms(2))
qed

lemma map_sum_id_Inl [simp]: "map_sum id f z = Inl c \<longleftrightarrow> z = Inl c"
  by (cases z) simp_all

lemma fill_sects_exit: "fill_sects fs buf args ss = Some (Inl c) \<Longrightarrow> c = 4"
  by (induction fs buf args ss rule: fill_sects.induct)
     (auto split: if_splits option.splits)

subsection \<open>Properties\<close>

text \<open>Files for the witnesses: four small sections, and \<open>cat\<close> as the shell runs it.\<close>

definition demo_sh :: "fsys \<Rightarrow> string \<Rightarrow> string \<Rightarrow> fsys" where
  "demo_sh fs p out = (case (fs p, fs out) of (Some c, Some d) \<Rightarrow> fs(out \<mapsto> d @ c) | _ \<Rightarrow> fs)"

definition demo_fs :: fsys where
  "demo_fs = [''qi'' \<mapsto> [1, 2, 3], ''uboot'' \<mapsto> [4, 5], ''zImage'' \<mapsto> [255, 255, 255, 255],
              ''initramfs'' \<mapsto> [7]]"

definition demo_args :: "string list" where
  "demo_args = [''qi'', ''uboot'', ''zImage'', ''initramfs'']"

lemma demo_sh_appends: "sh_appends demo_sh"
  by (simp add: sh_appends_def demo_sh_def)

lemma demo_inputs_ok: "pack_inputs_ok demo_fs ''SmartQ5'' demo_args"
  by (simp add: pack_inputs_ok_def demo_args_def demo_fs_def good_arg_def plain_name_def
      content_of_def sizeof_FWFileHdr_def)

lemma demo_target: "target_of ''mkSmartQ5'' = Some (''SmartQ5'', MACH_TYPE_SMARTQ5)"
  by (simp add: target_of_def)

text \<open>C1. The packer is correct: for four to six existing section files (or "." for a section left
  out) whose image stays below 4 GiB, main exits with 0 and writes one image in which the header
  has the right magic number, machine type, component count and checksum, and every one of the six
  stanzas gives the place, size and checksum of exactly the bytes of its file.\<close>

theorem mkSmartQ_image:
  assumes "sh_appends sh" "target_of argv0 = Some (fwName, machType)"
    and "pack_inputs_ok fs fwName args" "length buf = SIZE_PER_READ"
  shows "\<exists>fs' img. mkSmartQ_main sh now (Some buf) True fs (argv0 # args) = Some (0, fs') \<and>
           fs' fwName = Some img \<and>
           fh_magic (header_of_bytes img) = HEAD_MAGIC \<and>
           fh_machType (header_of_bytes img) = machType \<and>
           fh_component_count (header_of_bytes img) = 6 \<and>
           fh_check_sum (header_of_bytes img) = byte_sum (region img 8 168) \<and>
           (\<forall>i < 6. section_described img i (section_content fs args i))"
proof -
  let ?img = "image_of fs args machType now"
  have "fh_check_sum (header_of_bytes ?img) = byte_sum (region ?img 8 168)"
    using final_header_sum [of fs args machType now]
    unfolding header_of_image
    by (simp add: sum_header_image_region image_of_def region_def sizeof_FWFileHdr_def)
  then show ?thesis
    using mkSmartQ_main_ok [OF assms, of now] image_section_described [OF assms(3)]
    by (auto simp: header_of_image final_header_fields)
qed

theorem mkSmartQ_image_witness:
  "\<exists>fs' img. mkSmartQ_main demo_sh 7 (Some (replicate SIZE_PER_READ 0)) True demo_fs
       (''mkSmartQ5'' # demo_args) = Some (0, fs') \<and> fs' ''SmartQ5'' = Some img \<and>
     section_described img 2 [255, 255, 255, 255]"
proof -
  have "section_content demo_fs demo_args 2 = [255, 255, 255, 255]"
    by (simp add: section_content_def content_of_def demo_args_def demo_fs_def)
  moreover have "(2 :: nat) < 6" by simp
  ultimately show ?thesis
    using mkSmartQ_image [OF demo_sh_appends demo_target demo_inputs_ok, of "replicate SIZE_PER_READ 0" 7]
    by (metis length_replicate)
qed

text \<open>C2. The packer fails cleanly: whenever main exits with a status other than 0 (image written)
  and 2 (image could not be created), that is on wrong arguments, an unknown device model, no
  memory or a section file that cannot be examined, no file has been touched.\<close>

theorem mkSmartQ_error_touches_nothing:
  assumes "mkSmartQ_main sh now m cc fs argv = Some (code, fs')" "code \<noteq> 0" "code \<noteq> 2"
  shows "fs' = fs \<and> (code = 1 \<longleftrightarrow> length argv < 5 \<or> 7 < length argv)"
proof -
  show ?thesis
    using assms
    by (auto simp: mkSmartQ_main_def Let_def dest!: fill_sects_exit split: if_splits option.splits prod.splits sum.splits)
qed

theorem mkSmartQ_error_touches_nothing_witness:
  "\<exists>fs'. mkSmartQ_main demo_sh 7 None True demo_fs (''mkSmartQ5'' # ''missing'' # demo_args) =
      Some (- 1, fs') \<and> fs' = demo_fs"
  using mkSmartQ_error_touches_nothing
      [of demo_sh 7 None True demo_fs "''mkSmartQ5'' # ''missing'' # demo_args" "- 1" demo_fs]
  by (simp add: mkSmartQ_main_def demo_target demo_args_def)

end
