(* ===== verification/Firmware_Upgrade.thy ===== *)
theory Firmware_Upgrade
  imports Firmware_Pack
begin

section \<open>upgrade: writing the firmware into the iNAND\<close>

text \<open>
  \<^verbatim>\<open>fw-utils/upgrade.c\<close>, the part that copies.  The state is the two descriptors (the firmware
  file on the SD card and the iNAND device), the 4 MB buffer and the byte counters.  \<open>loading\<close> is
  \<open>loading\<close> without the progress bar, \<open>get_check_sum_i\<close> is \<open>get_check_sum\<close>, \<open>burn\<close> is the group
  seek, \<open>loading\<close>, seek, \<open>get_check_sum\<close>, compare that \<open>loading_firmware\<close> repeats eight times, and
  \<open>write_copy\<close> is one of its two groups of four.  None stands for a loop that does not end (the
  device ends before the sum does) and for a negative size, where the C is undefined.
  \<open>lseek\<close> takes its offset as a 32-bit \<open>off_t\<close>: the unsigned products of the source become
  negative there, which is what the code counts on.
\<close>

definition INAND_SIZE_PER_WRITE :: nat where "INAND_SIZE_PER_WRITE = 4194304"
definition ZIMAGE_INITRAMFS_SECTORS :: int where "ZIMAGE_INITRAMFS_SECTORS = 32768"
definition INAND_BLOCK_SIZE :: int where "INAND_BLOCK_SIZE = 512"

record installer =
  in_sd :: fd
  in_inand :: fd
  in_buffer :: bytes
  in_size_sum :: u32
  in_old_size_sum :: u32
  in_total_size_sum :: u32
  in_shell :: "string list"
  in_piped :: "bytes list"

subsection \<open>Operations\<close>

definition seek_sd :: "u32 \<Rightarrow> installer \<Rightarrow> installer" where
  "seek_sd off st =
     (if sint off < 0 then st else st\<lparr>in_sd := fd_seek_set (in_sd st) (nat (sint off))\<rparr>)"

definition seek_inand :: "int \<Rightarrow> installer \<Rightarrow> installer" where
  "seek_inand off st = st\<lparr>in_inand := fd_seek_end (in_inand st) off\<rparr>"

text \<open>One round of the copy: read(2) into the buffer, count what came, write(2) the amount asked
  for from the buffer.\<close>

definition copy_chunk :: "nat \<Rightarrow> installer \<Rightarrow> u32 \<times> int \<times> installer" where
  "copy_chunk n st =
     (let r = fd_read (in_sd st) n;
          buf = rd_into (in_buffer st) (fst r);
          read_size = word_of_nat (length (fst r));
          w = fd_write (in_inand st) (take n buf)
      in (read_size, fst w,
          st\<lparr>in_sd := snd r, in_buffer := buf, in_size_sum := in_size_sum st + read_size,
             in_inand := snd w\<rparr>))"

partial_function (option) loading_loop ::
  "u32 \<Rightarrow> u32 \<Rightarrow> u32 \<Rightarrow> installer \<Rightarrow> (int \<times> u32 \<times> installer) option" where
  "loading_loop total_size remnant_size sz st =
     (if 0 < unat remnant_size div INAND_SIZE_PER_WRITE
      then (case copy_chunk INAND_SIZE_PER_WRITE st of
              (read_size, written, st') \<Rightarrow>
                 if written \<noteq> int INAND_SIZE_PER_WRITE then Some (- 1, remnant_size, st')
                 else loading_loop total_size (total_size - (sz + read_size)) (sz + read_size) st')
      else Some (0, remnant_size, st))"

definition loading :: "u32 \<Rightarrow> installer \<Rightarrow> (int \<times> installer) option" where
  "loading total_size st =
     (case loading_loop total_size total_size 0 st of
        None \<Rightarrow> None
      | Some (ret, remnant_size, st') \<Rightarrow>
          if ret \<noteq> 0 then Some (ret, st')
          else Some (0, snd (snd (copy_chunk (unat remnant_size) st'))))"

definition get_check_sum_i :: "int \<Rightarrow> installer \<Rightarrow> (u32 \<times> installer) option" where
  "get_check_sum_i file_size st =
     (if file_size < 0 then None
      else map_option (\<lambda>(ret, f, buf). (ret, st\<lparr>in_inand := f, in_buffer := buf\<rparr>))
             (check_sum_loop fd_read INAND_SIZE_PER_WRITE (nat file_size) (in_inand st)
                (in_buffer st) 0 0))"

definition burn ::
  "u32 option \<Rightarrow> int \<Rightarrow> u32 \<Rightarrow> int \<Rightarrow> u32 \<Rightarrow> u32 \<Rightarrow> installer \<Rightarrow> (int \<times> installer) option" where
  "burn sd_offset inand_offset sz sum_offset sum_size expected st =
     (let st1 = (case sd_offset of None \<Rightarrow> st | Some off \<Rightarrow> seek_sd off st) in
      case loading sz (seek_inand inand_offset st1) of
        None \<Rightarrow> None
      | Some (_, st2) \<Rightarrow>
         (case get_check_sum_i (sint sum_size) (seek_inand sum_offset st2) of
            None \<Rightarrow> None
          | Some (inand_check_sum, st3) \<Rightarrow>
              if inand_check_sum \<noteq> expected then Some (- 1, st3) else Some (0, st3)))"

text \<open>Go on with the next step unless the last one returned an error.\<close>

definition and_then ::
  "(int \<times> 's) option \<Rightarrow> ('s \<Rightarrow> (int \<times> 's) option) \<Rightarrow> (int \<times> 's) option" where
  "and_then m k = (case m of None \<Rightarrow> None
                   | Some (ret, st) \<Rightarrow> if ret \<noteq> 0 then Some (ret, st) else k st)"

definition inand_off :: "int \<Rightarrow> u32 \<Rightarrow> int" where
  "inand_off base_sectors nand_offset =
     sint ((word_of_int base_sectors + nand_offset) * word_of_int INAND_BLOCK_SIZE :: u32)"

definition burn_section :: "int \<Rightarrow> bool \<Rightarrow> stanza \<Rightarrow> installer \<Rightarrow> (int \<times> installer) option" where
  "burn_section base seek_first s =
     burn (if seek_first then Some (st_file_offset s) else None)
       (inand_off base (st_nand_offset s)) (st_file_size s)
       (inand_off base (st_nand_offset s)) (st_file_size s) (st_check_sum s)"

definition write_copy :: "fw_header \<Rightarrow> int \<Rightarrow> installer \<Rightarrow> (int \<times> installer) option" where
  "write_copy fw_fh base st =
     and_then (burn (Some 0) (base * INAND_BLOCK_SIZE) (fh_fh_size fw_fh)
                 (base * INAND_BLOCK_SIZE + 8) (fh_fh_size fw_fh - 8) (fh_check_sum fw_fh) st)
       (\<lambda>st. and_then (burn_section base True (fh_u_boot fw_fh) st)
       (\<lambda>st. and_then (burn_section base True (fh_zimage fw_fh) st)
                      (burn_section base False (fh_initramfs fw_fh))))"

definition write_firmware :: "fw_header \<Rightarrow> installer \<Rightarrow> (int \<times> installer) option" where
  "write_firmware fw_fh st =
     and_then (write_copy fw_fh (- ZIMAGE_INITRAMFS_SECTORS) (st\<lparr>in_size_sum := 0\<rparr>))
       (write_copy fw_fh (- ZIMAGE_INITRAMFS_SECTORS div 2))"

definition write_qi :: "fw_header \<Rightarrow> installer \<Rightarrow> (int \<times> installer) option" where
  "write_qi fw_fh st =
     and_then (burn (Some (st_file_offset (fh_qi fw_fh))) (- 18 * INAND_BLOCK_SIZE)
                 (st_file_size (fh_qi fw_fh)) (- 18 * INAND_BLOCK_SIZE)
                 (st_file_size (fh_qi fw_fh)) (st_check_sum (fh_qi fw_fh)) st)
       (\<lambda>st. let st = seek_inand (- 2 * INAND_BLOCK_SIZE) st;
                 buf = patch (in_buffer st) 0 (replicate (nat INAND_BLOCK_SIZE) 0);
                 block = take (nat INAND_BLOCK_SIZE) buf;
                 f = snd (fd_write (snd (fd_write (in_inand st) block)) block)
             in Some (0, st\<lparr>in_buffer := buf, in_inand := f\<rparr>))"

subsection \<open>Copying a section\<close>

abbreviation dev :: "installer \<Rightarrow> bytes" where "dev st \<equiv> fd_data (in_inand st)"
abbreviation dev_pos :: "installer \<Rightarrow> nat" where "dev_pos st \<equiv> fd_pos (in_inand st)"
abbreviation sdc :: "installer \<Rightarrow> bytes" where "sdc st \<equiv> fd_data (in_sd st)"
abbreviation sdc_pos :: "installer \<Rightarrow> nat" where "sdc_pos st \<equiv> fd_pos (in_sd st)"

text \<open>The outcome of copying \<open>n\<close> bytes from the card to the device, whatever it leaves in the
  buffer.\<close>

definition copied :: "nat \<Rightarrow> installer \<Rightarrow> installer \<Rightarrow> bool" where
  "copied n st st' \<longleftrightarrow>
     (\<exists>buf. length buf = INAND_SIZE_PER_WRITE \<and>
        st' = st\<lparr>in_sd := (in_sd st)\<lparr>fd_pos := sdc_pos st + n\<rparr>,
                 in_buffer := buf, in_size_sum := in_size_sum st + word_of_nat n,
                 in_inand := \<lparr>fd_data = patch (dev st) (dev_pos st) (region (sdc st) (sdc_pos st) n),
                              fd_pos = dev_pos st + n\<rparr>\<rparr>)"

definition can_copy :: "nat \<Rightarrow> installer \<Rightarrow> bool" where
  "can_copy n st \<longleftrightarrow> length (in_buffer st) = INAND_SIZE_PER_WRITE \<and>
     sdc_pos st + n \<le> length (sdc st) \<and> dev_pos st + n \<le> length (dev st)"

lemma copy_chunk_copied:
  assumes "can_copy n st" "n \<le> INAND_SIZE_PER_WRITE"
  shows "\<exists>st'. copy_chunk n st = (word_of_nat n, int n, st') \<and> copied n st st'"
proof -
  let ?bs = "region (sdc st) (sdc_pos st) n"
  have len: "length ?bs = n"
    using assms(1) unfolding can_copy_def by (intro length_region_fits) simp
  have "take n (rd_into (in_buffer st) ?bs) = ?bs"
    "length (rd_into (in_buffer st) ?bs) = INAND_SIZE_PER_WRITE"
    using assms len by (simp_all add: take_rd_into length_rd_into can_copy_def)
  then show ?thesis
    using assms(1) len fd_write_fits [of "in_inand st" ?bs]
    by (auto simp: copy_chunk_def fd_read_def Let_def copied_def can_copy_def)
qed

lemma can_copy_more:
  assumes "copied m st st'" "can_copy (m + n) st"
  shows "can_copy n st'"
  using assms by (auto simp: copied_def can_copy_def)

lemma copied_trans:
  assumes "copied m st st1" "copied n st1 st2" "can_copy (m + n) st"
  shows "copied (m + n) st st2"
proof -
  let ?r = "\<lambda>p k. region (sdc st) p k"
  have "patch (patch (dev st) (dev_pos st) (?r (sdc_pos st) m)) (dev_pos st + m) (?r (sdc_pos st + m) n)
      = patch (dev st) (dev_pos st) (?r (sdc_pos st) (m + n))"
  proof -
    have lens: "length (?r (sdc_pos st) m) = m" "length (?r (sdc_pos st + m) n) = n"
      using assms(3) unfolding can_copy_def by (auto intro!: length_region_fits)
    then show ?thesis
      using assms(3) patch_patch_adjacent [of "dev_pos st" "?r (sdc_pos st) m" "?r (sdc_pos st + m) n" "dev st"]
      by (simp only: can_copy_def region_append_split lens add.assoc)
  qed
  then show ?thesis
    using assms(1,2) by (auto simp: copied_def add.assoc)
qed

lemma word_nat_diff:
  "b \<le> a \<Longrightarrow> a < 4294967296 \<Longrightarrow> unat (word_of_nat a - word_of_nat b :: u32) = a - b"
proof -
  assume "b \<le> a" "a < 4294967296"
  then have "word_of_nat a - word_of_nat b = (word_of_nat (a - b) :: u32)"
    by (simp add: of_nat_diff)
  then show ?thesis using \<open>a < 4294967296\<close> by (simp add: unat_of_nat)
qed

lemma loading_loop_copies:
  assumes "can_copy (unat total_size - k) st" "k \<le> unat total_size" "sz = word_of_nat k"
  shows "\<exists>st' r. loading_loop total_size (total_size - sz) sz st = Some (0, word_of_nat r, st') \<and>
           r < INAND_SIZE_PER_WRITE \<and> k + r \<le> unat total_size \<and>
           copied (unat total_size - k - r) st st'"
  using assms
proof (induction "unat total_size - k" arbitrary: k sz st rule: less_induct)
  case less
  let ?N = INAND_SIZE_PER_WRITE and ?rem = "unat total_size - k"
  have total: "unat total_size < 4294967296" using unsigned_less [of total_size] by simp
  have tw: "total_size - word_of_nat k = word_of_nat ?rem"
    using less.prems(2) by (simp add: of_nat_diff)
  have rem: "unat (total_size - sz) = ?rem"
    using less.prems(3) tw total by (simp add: unat_of_nat)
  show ?case
  proof (cases "?N \<le> ?rem")
    case False
    then have "\<not> 0 < unat (total_size - sz) div ?N"
      by (simp add: rem)
    moreover have "copied 0 st st"
      using less.prems(1) by (auto simp: copied_def can_copy_def)
    moreover have "loading_loop total_size (total_size - sz) sz st = Some (0, total_size - sz, st)"
      by (subst loading_loop.simps) (simp only: calculation(1) if_False)
    moreover have "total_size - sz = word_of_nat ?rem" using less.prems(3) tw by simp
    moreover have "unat total_size - k - ?rem = 0" "k + ?rem \<le> unat total_size"
      using less.prems(2) by simp_all
    ultimately show ?thesis
      using False by (metis not_le)
  next
    case True
    then have can: "can_copy ?N st" using less.prems(1) by (simp add: can_copy_def)
    obtain st1 where c1: "copy_chunk ?N st = (word_of_nat ?N, int ?N, st1)" "copied ?N st st1"
      using copy_chunk_copied [OF can] by auto
    have "0 < unat (total_size - sz) div ?N"
      using True by (simp add: rem div_greater_zero_iff INAND_SIZE_PER_WRITE_def)
    then have step: "loading_loop total_size (total_size - sz) sz st =
        loading_loop total_size (total_size - (sz + word_of_nat ?N)) (sz + word_of_nat ?N) st1"
      by (subst loading_loop.simps) (simp add: c1)
    have next_can: "can_copy (unat total_size - (k + ?N)) st1"
    proof -
      have "?N + (unat total_size - (k + ?N)) = unat total_size - k" using True by linarith
      then show ?thesis
        using can_copy_more [OF c1(2), of "unat total_size - (k + ?N)"] less.prems(1)
        by (simp only:)
    qed
    then obtain st' r where
      res: "loading_loop total_size (total_size - (sz + word_of_nat ?N)) (sz + word_of_nat ?N) st1 =
          Some (0, word_of_nat r, st')"
      and r: "r < ?N" "(k + ?N) + r \<le> unat total_size"
      and c2: "copied (unat total_size - (k + ?N) - r) st1 st'"
    proof -
      have "unat total_size - (k + ?N) < ?rem" "k + ?N \<le> unat total_size"
        using True by (simp_all add: INAND_SIZE_PER_WRITE_def)
      moreover have "sz + word_of_nat ?N = word_of_nat (k + ?N)" using less.prems(3) by simp
      ultimately show ?thesis
        using less.hyps [of "k + ?N" st1 "sz + word_of_nat ?N"] next_can that by blast
    qed
    have parts: "?N + (unat total_size - (k + ?N) - r) = unat total_size - k - r"
      using r(2) by linarith
    have "can_copy (unat total_size - k - r) st"
      using less.prems(1) unfolding can_copy_def by linarith
    then have "copied (unat total_size - k - r) st st'"
      using copied_trans [OF c1(2) c2] by (simp only: parts)
    then show ?thesis
      unfolding step res using r by auto
  qed
qed

lemma loading_copies:
  assumes "can_copy (unat total_size) st"
  shows "\<exists>st'. loading total_size st = Some (0, st') \<and> copied (unat total_size) st st'"
proof -
  obtain st1 r where
    l: "loading_loop total_size total_size 0 st = Some (0, word_of_nat r, st1)"
    and r: "r < INAND_SIZE_PER_WRITE" "r \<le> unat total_size"
    and c1: "copied (unat total_size - r) st st1"
    using loading_loop_copies [of total_size 0 st 0] assms by auto
  have ur: "unat (word_of_nat r :: u32) = r"
    using r(1) by (simp add: INAND_SIZE_PER_WRITE_def)
  have "can_copy r st1"
    using can_copy_more [OF c1, of r] assms r(2) by simp
  then obtain st2 where c2: "copy_chunk r st1 = (word_of_nat r, int r, st2)" "copied r st1 st2"
    using copy_chunk_copied [of r st1] r(1) by auto
  have "copied (unat total_size) st st2"
    using copied_trans [OF c1 c2(2)] assms r(2) by simp
  then show ?thesis
    using l ur c2(1) by (simp add: loading_def)
qed

subsection \<open>Copying, reading back and comparing\<close>

lemma fd_seek_end_within:
  assumes "off = int p - int (length (fd_data f))"
  shows "fd_seek_end f off = f\<lparr>fd_pos := p\<rparr>"
  using assms by (simp add: fd_seek_end_def)

lemma get_check_sum_i_ok:
  assumes "0 \<le> n" "length (in_buffer st) = INAND_SIZE_PER_WRITE"
    and "dev_pos st + nat n \<le> length (dev st)"
  shows "\<exists>f buf. get_check_sum_i n st =
           Some (byte_sum (region (dev st) (dev_pos st) (nat n)),
                 st\<lparr>in_inand := f, in_buffer := buf\<rparr>) \<and>
           fd_data f = dev st \<and> length buf = INAND_SIZE_PER_WRITE"
proof -
  have rest: "nat n - 0 \<le> length (fd_rest (in_inand st))"
    using assms(3) by (simp add: fd_rest_def)
  have pos: "(0::nat) < INAND_SIZE_PER_WRITE" by (simp add: INAND_SIZE_PER_WRITE_def)
  obtain f buf where
    res: "check_sum_loop fd_read INAND_SIZE_PER_WRITE (nat n) (in_inand st) (in_buffer st) 0 0 =
      Some (byte_sum (region (dev st) (dev_pos st) (nat n)), f, buf)"
    "length buf = INAND_SIZE_PER_WRITE"
    using fd_source.check_sum_loop_correct [OF pos assms(2) _ rest, of 0]
    by (auto simp: fd_rest_def region_def)
  have "fd_data f = dev st"
    using check_sum_loop_keeps [OF res(1), of fd_data] by simp
  then show ?thesis using assms(1) res by (auto simp: get_check_sum_i_def)
qed

text \<open>A burn is fine when the piece of the card lies on the card, the place on the device lies on
  the device and the expected sum is the sum of what is verified.\<close>

definition burnt :: "nat \<Rightarrow> nat \<Rightarrow> bytes \<Rightarrow> installer \<Rightarrow> installer \<Rightarrow> bool" where
  "burnt p q bs st st' \<longleftrightarrow>
     dev st' = patch (dev st) p bs \<and> sdc st' = sdc st \<and> sdc_pos st' = q + length bs \<and>
     in_size_sum st' = in_size_sum st + word_of_nat (length bs) \<and>
     length (in_buffer st') = INAND_SIZE_PER_WRITE \<and>
     in_total_size_sum st' = in_total_size_sum st \<and> in_shell st' = in_shell st \<and>
     in_piped st' = in_piped st \<and> in_old_size_sum st' = in_old_size_sum st"

lemma burn_ok:
  assumes start: "case sd_off of None \<Rightarrow> sdc_pos st = q | Some off \<Rightarrow> unat off = q \<and> q < 2147483648"
    and buf: "length (in_buffer st) = INAND_SIZE_PER_WRITE"
    and on_card: "q + unat sz \<le> length (sdc st)"
    and dst: "dst = int p - int (length (dev st))" "p + unat sz \<le> length (dev st)"
    and chk: "chk = int (p + k) - int (length (dev st))" "k + unat chk_sz \<le> unat sz"
      "unat chk_sz < 2147483648"
    and expected: "expected = byte_sum (region (sdc st) (q + k) (unat chk_sz))"
  shows "\<exists>st'. burn sd_off dst sz chk chk_sz expected st = Some (0, st') \<and>
               burnt p q (region (sdc st) q (unat sz)) st st'"
proof -
  let ?bs = "region (sdc st) q (unat sz)"
  define st1 where "st1 = (case sd_off of None \<Rightarrow> st | Some off \<Rightarrow> seek_sd off st)"
  have st1: "st1 = st\<lparr>in_sd := (in_sd st)\<lparr>fd_pos := q\<rparr>\<rparr>"
    using start sint_u32_small
    by (cases sd_off) (auto simp: st1_def seek_sd_def fd_seek_set_def)
  define st2 where "st2 = seek_inand dst st1"
  have st2: "st2 = st1\<lparr>in_inand := (in_inand st)\<lparr>fd_pos := p\<rparr>\<rparr>"
    using fd_seek_end_within [OF dst(1)] by (simp add: st2_def st1 seek_inand_def)
  have "can_copy (unat sz) st2"
    using buf on_card dst(2) by (simp add: can_copy_def st2 st1)
  then obtain st3 where l: "loading sz st2 = Some (0, st3)" and c: "copied (unat sz) st2 st3"
    using loading_copies by blast
  have dev3: "dev st3 = patch (dev st) p ?bs" and buf3: "length (in_buffer st3) = INAND_SIZE_PER_WRITE"
    using c by (auto simp: copied_def st2 st1)
  have bs: "length ?bs = unat sz" using on_card by (rule length_region_fits)
  then have len3: "length (dev st3) = length (dev st)"
    using dst(2) by (simp only: dev3 length_patch)
  define st4 where "st4 = seek_inand chk st3"
  have st4: "st4 = st3\<lparr>in_inand := (in_inand st3)\<lparr>fd_pos := p + k\<rparr>\<rparr>"
    using fd_seek_end_within [of chk "p + k" "in_inand st3"] chk(1) len3
    by (simp add: st4_def seek_inand_def)
  have chk_sint: "sint chk_sz = int (unat chk_sz)" using chk(3) sint_u32_small by blast
  obtain f b where g: "get_check_sum_i (sint chk_sz) st4 =
      Some (byte_sum (region (dev st3) (p + k) (unat chk_sz)), st4\<lparr>in_inand := f, in_buffer := b\<rparr>)"
    and f: "fd_data f = dev st3" "length b = INAND_SIZE_PER_WRITE"
    using get_check_sum_i_ok [of "sint chk_sz" st4] chk_sint buf3 len3 dst(2) chk(2)
    by (auto simp: st4)
  have "region (dev st3) (p + k) (unat chk_sz) = region (region (dev st3) p (unat sz)) k (unat chk_sz)"
    using chk(2) by (simp add: region_region)
  also have "region (dev st3) p (unat sz) = ?bs"
    using region_patch_same [of p ?bs "dev st"] bs dst(2) unfolding dev3 by (simp only:)
  also have "region ?bs k (unat chk_sz) = region (sdc st) (q + k) (unat chk_sz)"
    using chk(2) by (simp add: region_region)
  finally have same: "byte_sum (region (dev st3) (p + k) (unat chk_sz)) = expected"
    using expected by simp
  have "burn sd_off dst sz chk chk_sz expected st = Some (0, st4\<lparr>in_inand := f, in_buffer := b\<rparr>)"
    unfolding burn_def st1_def [symmetric] Let_def st2_def [symmetric] l option.case prod.case
      st4_def [symmetric] g same by simp
  moreover have "burnt p q ?bs st (st4\<lparr>in_inand := f, in_buffer := b\<rparr>)"
    unfolding burnt_def bs using c f dev3 by (auto simp: st4 copied_def st2 st1)
  ultimately show ?thesis by blast
qed

subsection \<open>One copy of the firmware on the device\<close>

definition section_bytes :: "bytes \<Rightarrow> stanza \<Rightarrow> bytes" where
  "section_bytes img s = region img (unat (st_file_offset s)) (unat (st_file_size s))"

definition stanza_sound :: "bytes \<Rightarrow> stanza \<Rightarrow> bool" where
  "stanza_sound img s \<longleftrightarrow> unat (st_file_offset s) < 2147483648 \<and> unat (st_file_size s) < 2147483648 \<and>
     unat (st_file_offset s) + unat (st_file_size s) \<le> length img \<and>
     st_check_sum s = byte_sum (section_bytes img s)"

text \<open>What the packer puts on the card, and the sizes that the layout of the device has room for:
  256 KB for u-boot, up to block 4096 for the kernel, and what is left before the 18 blocks of the
  boot loader for the initramfs.\<close>

definition firmware_sound :: "fw_header \<Rightarrow> bytes \<Rightarrow> bool" where
  "firmware_sound fh img \<longleftrightarrow> 176 \<le> length img \<and> fh_fh_size fh = 176 \<and>
     fh_check_sum fh = byte_sum (region img 8 168) \<and>
     stanza_sound img (fh_qi fh) \<and> stanza_sound img (fh_u_boot fh) \<and>
     stanza_sound img (fh_zimage fh) \<and> stanza_sound img (fh_initramfs fh) \<and>
     unat (st_file_offset (fh_initramfs fh)) =
       unat (st_file_offset (fh_zimage fh)) + unat (st_file_size (fh_zimage fh)) \<and>
     st_nand_offset (fh_u_boot fh) = 2 \<and> st_nand_offset (fh_zimage fh) = 514 \<and>
     st_nand_offset (fh_initramfs fh) = 4096"

definition firmware_fits :: "fw_header \<Rightarrow> bool" where
  "firmware_fits fh \<longleftrightarrow> unat (st_file_size (fh_qi fh)) \<le> 8192 \<and>
     unat (st_file_size (fh_u_boot fh)) \<le> 262144 \<and> unat (st_file_size (fh_zimage fh)) \<le> 1833984 \<and>
     unat (st_file_size (fh_initramfs fh)) \<le> 6282240"

definition copy_at :: "bytes \<Rightarrow> nat \<Rightarrow> fw_header \<Rightarrow> bytes \<Rightarrow> bool" where
  "copy_at data B fh img \<longleftrightarrow>
     region data B 176 = region img 0 176 \<and>
     region data (B + 1024) (unat (st_file_size (fh_u_boot fh))) = section_bytes img (fh_u_boot fh) \<and>
     region data (B + 263168) (unat (st_file_size (fh_zimage fh))) = section_bytes img (fh_zimage fh) \<and>
     region data (B + 2097152) (unat (st_file_size (fh_initramfs fh))) = section_bytes img (fh_initramfs fh)"

definition copy_sizes :: "fw_header \<Rightarrow> u32" where
  "copy_sizes fh = fh_fh_size fh + st_file_size (fh_u_boot fh) + st_file_size (fh_zimage fh)
     + st_file_size (fh_initramfs fh)"

definition same_elsewhere :: "nat \<Rightarrow> nat \<Rightarrow> bytes \<Rightarrow> bytes \<Rightarrow> bool" where
  "same_elsewhere lo hi xs ys \<longleftrightarrow> length xs = length ys \<and>
     (\<forall>p n. p + n \<le> lo \<or> hi \<le> p \<longrightarrow> region xs p n = region ys p n)"

lemma same_elsewhere_patch:
  "lo \<le> p \<Longrightarrow> p + length bs \<le> hi \<Longrightarrow> hi \<le> length ys \<Longrightarrow> same_elsewhere lo hi (patch ys p bs) ys"
  by (auto simp: same_elsewhere_def intro!: region_patch_disjoint)

lemma same_elsewhere_trans:
  "same_elsewhere lo hi xs ys \<Longrightarrow> same_elsewhere lo hi ys zs \<Longrightarrow> same_elsewhere lo hi xs zs"
  by (simp add: same_elsewhere_def)

lemma same_elsewhere_widen:
  assumes "same_elsewhere lo hi xs ys" "lo' \<le> lo" "hi \<le> hi'"
  shows "same_elsewhere lo' hi' xs ys"
  using assms unfolding same_elsewhere_def by (meson order_trans)

lemma copy_at_patches:
  assumes fits: "length h = 176" "length ub \<le> 262144" "length z \<le> 1833984"
    and room: "B + 2097152 + length i \<le> length data"
  shows "let d = patch (patch (patch (patch data B h) (B + 1024) ub) (B + 263168) z) (B + 2097152) i in
         region d B 176 = h \<and> region d (B + 1024) (length ub) = ub \<and>
         region d (B + 263168) (length z) = z \<and> region d (B + 2097152) (length i) = i \<and>
         same_elsewhere B (B + 2097152 + length i) d data"
proof -
  let ?d1 = "patch data B h" and ?d2 = "patch (patch data B h) (B + 1024) ub"
  let ?d3 = "patch (patch (patch data B h) (B + 1024) ub) (B + 263168) z"
  have l1: "length ?d1 = length data" using assms by simp
  have l2: "length ?d2 = length data" using assms l1 by simp
  have l3: "length ?d3 = length data" using assms l2 by simp
  let ?d4 = "patch ?d3 (B + 2097152) i"
  have r1: "region ?d4 B 176 = h"
    using assms l1 l2 l3 region_patch_same [of B h data] by (simp add: region_patch_disjoint)
  have r2: "region ?d4 (B + 1024) (length ub) = ub"
    using assms l1 l2 l3 by (simp add: region_patch_disjoint region_patch_same)
  have r3: "region ?d4 (B + 263168) (length z) = z"
    using assms l2 l3 by (simp add: region_patch_disjoint region_patch_same)
  have r4: "region ?d4 (B + 2097152) (length i) = i"
    using room l3 by (simp add: region_patch_same)
  have "same_elsewhere B (B + 2097152 + length i) ?d1 data"
    "same_elsewhere B (B + 2097152 + length i) ?d2 ?d1"
    "same_elsewhere B (B + 2097152 + length i) ?d3 ?d2"
    "same_elsewhere B (B + 2097152 + length i) ?d4 ?d3"
    using assms l1 l2 l3 by (intro same_elsewhere_patch; simp)+
  then have "same_elsewhere B (B + 2097152 + length i) ?d4 data"
    by (meson same_elsewhere_trans)
  then show ?thesis using r1 r2 r3 r4 by (simp add: Let_def)
qed

lemma and_then_ok: "m = Some (0, st) \<Longrightarrow> and_then m k = k st"
  by (simp add: and_then_def)

lemma inand_off_values:
  "inand_off (- 32768) 2 = 1024 - 16777216" "inand_off (- 32768) 514 = 263168 - 16777216"
  "inand_off (- 32768) 4096 = 2097152 - 16777216"
  "inand_off (- 16384) 2 = 1024 - 8388608" "inand_off (- 16384) 514 = 263168 - 8388608"
  "inand_off (- 16384) 4096 = 2097152 - 8388608"
  by (simp_all add: inand_off_def INAND_BLOCK_SIZE_def)

definition copy_place :: "int \<Rightarrow> nat \<Rightarrow> nat \<Rightarrow> bool" where
  "copy_place base size_dev B \<longleftrightarrow>
     (base = - 32768 \<and> 16777216 \<le> size_dev \<and> B = size_dev - 16777216) \<or>
     (base = - 16384 \<and> 8388608 \<le> size_dev \<and> B = size_dev - 8388608)"

lemma copy_place_offsets:
  assumes "copy_place base D B"
  shows "base * INAND_BLOCK_SIZE = int B - int D"
    "inand_off base 2 = int (B + 1024) - int D" "inand_off base 514 = int (B + 263168) - int D"
    "inand_off base 4096 = int (B + 2097152) - int D" "B + 8388608 \<le> D"
  using assms by (auto simp: copy_place_def INAND_BLOCK_SIZE_def inand_off_values of_nat_diff)

lemma burn_section_ok:
  assumes s: "stanza_sound (sdc st) s" and buf: "length (in_buffer st) = INAND_SIZE_PER_WRITE"
    and start: "seek_first \<or> sdc_pos st = unat (st_file_offset s)"
    and dst: "inand_off base (st_nand_offset s) = int p - int (length (dev st))"
      "p + unat (st_file_size s) \<le> length (dev st)"
  shows "\<exists>st'. burn_section base seek_first s st = Some (0, st') \<and>
               burnt p (unat (st_file_offset s)) (section_bytes (sdc st) s) st st'"
  unfolding burn_section_def section_bytes_def
  by (rule burn_ok [where k = 0])
     (use assms in \<open>auto simp: stanza_sound_def section_bytes_def\<close>)

lemma length_section_bytes:
  "stanza_sound img s \<Longrightarrow> length (section_bytes img s) = unat (st_file_size s)"
  unfolding stanza_sound_def section_bytes_def by (intro length_region_fits) blast

lemma write_copy_ok:
  assumes sound: "firmware_sound fh (sdc st)" and fits: "firmware_fits fh"
    and place: "copy_place base (length (dev st)) B"
    and buf: "length (in_buffer st) = INAND_SIZE_PER_WRITE"
  shows "\<exists>st'. write_copy fh base st = Some (0, st') \<and> copy_at (dev st') B fh (sdc st) \<and>
           same_elsewhere B (B + 2097152 + unat (st_file_size (fh_initramfs fh))) (dev st') (dev st) \<and>
           sdc st' = sdc st \<and> length (in_buffer st') = INAND_SIZE_PER_WRITE \<and>
           in_size_sum st' = in_size_sum st + copy_sizes fh \<and>
           in_total_size_sum st' = in_total_size_sum st \<and> in_shell st' = in_shell st \<and>
           in_piped st' = in_piped st"
proof -
  note off = copy_place_offsets [OF place]
  let ?img = "sdc st" and ?D = "length (dev st)"
  let ?h = "region ?img 0 176" and ?ub = "section_bytes ?img (fh_u_boot fh)"
  let ?z = "section_bytes ?img (fh_zimage fh)" and ?i = "section_bytes ?img (fh_initramfs fh)"
  have lens: "length ?h = 176" "length ?ub = unat (st_file_size (fh_u_boot fh))"
    "length ?z = unat (st_file_size (fh_zimage fh))" "length ?i = unat (st_file_size (fh_initramfs fh))"
    using sound by (auto simp: firmware_sound_def length_section_bytes)
  obtain st1 where b1: "burn (Some 0) (base * INAND_BLOCK_SIZE) (fh_fh_size fh)
      (base * INAND_BLOCK_SIZE + 8) (fh_fh_size fh - 8) (fh_check_sum fh) st = Some (0, st1)"
    and s1: "burnt B 0 ?h st st1"
    using burn_ok [of st 0 "Some 0" "fh_fh_size fh" "base * INAND_BLOCK_SIZE" B
        "base * INAND_BLOCK_SIZE + 8" 8 "fh_fh_size fh - 8" "fh_check_sum fh"] sound buf off
    by (auto simp: firmware_sound_def)
  have D1: "length (dev st1) = ?D" using s1 lens off(5) by (simp add: burnt_def)
  obtain st2 where b2: "burn_section base True (fh_u_boot fh) st1 = Some (0, st2)"
    and s2: "burnt (B + 1024) (unat (st_file_offset (fh_u_boot fh))) ?ub st1 st2"
    using burn_section_ok [of st1 "fh_u_boot fh" True base "B + 1024"] sound fits off s1 D1
    by (auto simp: firmware_sound_def firmware_fits_def burnt_def)
  have D2: "length (dev st2) = ?D" using s2 D1 lens fits off(5) by (simp add: burnt_def firmware_fits_def)
  have c2: "sdc st2 = ?img" using s1 s2 by (simp add: burnt_def)
  obtain st3 where b3: "burn_section base True (fh_zimage fh) st2 = Some (0, st3)"
    and s3: "burnt (B + 263168) (unat (st_file_offset (fh_zimage fh))) ?z st2 st3"
    using burn_section_ok [of st2 "fh_zimage fh" True base "B + 263168"] sound fits off s2 D2 c2
    by (auto simp: firmware_sound_def firmware_fits_def burnt_def)
  have D3: "length (dev st3) = ?D" using s3 D2 lens fits off(5) by (simp add: burnt_def firmware_fits_def)
  have c3: "sdc st3 = ?img" using s3 c2 by (simp add: burnt_def)
  obtain st4 where b4: "burn_section base False (fh_initramfs fh) st3 = Some (0, st4)"
    and s4: "burnt (B + 2097152) (unat (st_file_offset (fh_initramfs fh))) ?i st3 st4"
    using burn_section_ok [of st3 "fh_initramfs fh" False base "B + 2097152"] sound fits off s3 D3 c3 lens
    by (auto simp: firmware_sound_def firmware_fits_def burnt_def)
  have run: "write_copy fh base st = Some (0, st4)"
    unfolding write_copy_def and_then_ok [OF b1] and_then_ok [OF b2] and_then_ok [OF b3] by (rule b4)
  have data: "dev st4 = patch (patch (patch (patch (dev st) B ?h) (B + 1024) ?ub) (B + 263168) ?z)
      (B + 2097152) ?i"
    using s1 s2 s3 s4 by (simp add: burnt_def)
  have room: "length ?ub \<le> 262144" "length ?z \<le> 1833984" "B + 2097152 + length ?i \<le> ?D"
    using lens fits off(5) by (auto simp: firmware_fits_def)
  note copies = copy_at_patches [OF lens(1) room, unfolded Let_def data [symmetric]]
  have "in_size_sum st4 = in_size_sum st + copy_sizes fh"
    using s1 s2 s3 s4 lens sound
    by (simp add: burnt_def copy_sizes_def word_nat_unat firmware_sound_def add.assoc)
  then show ?thesis
    using run copies s1 s2 s3 s4 lens unfolding copy_at_def burnt_def by auto
qed

text \<open>Both copies, and nothing else changed: what is before the first copy and the last 18 blocks
  (the boot loader) stay.\<close>

lemma copy_at_cong:
  assumes "copy_at ys B fh img" "same_elsewhere lo hi xs ys" "firmware_fits fh"
    and "B + 2097152 + unat (st_file_size (fh_initramfs fh)) \<le> lo"
  shows "copy_at xs B fh img"
  using assms by (auto simp: copy_at_def same_elsewhere_def firmware_fits_def)

lemma write_firmware_ok:
  assumes sound: "firmware_sound fh (sdc st)" and fits: "firmware_fits fh"
    and D: "16777216 \<le> length (dev st)" and buf: "length (in_buffer st) = INAND_SIZE_PER_WRITE"
  shows "\<exists>st'. write_firmware fh st = Some (0, st') \<and>
           copy_at (dev st') (length (dev st) - 16777216) fh (sdc st) \<and>
           copy_at (dev st') (length (dev st) - 8388608) fh (sdc st) \<and>
           same_elsewhere (length (dev st) - 16777216) (length (dev st) - 9216) (dev st') (dev st) \<and>
           sdc st' = sdc st \<and> length (in_buffer st') = INAND_SIZE_PER_WRITE \<and>
           in_size_sum st' = 2 * copy_sizes fh \<and>
           in_total_size_sum st' = in_total_size_sum st \<and> in_shell st' = in_shell st \<and>
           in_piped st' = in_piped st"
proof -
  let ?D = "length (dev st)" and ?st0 = "st\<lparr>in_size_sum := 0\<rparr>"
  let ?A = "?D - 16777216" and ?B = "?D - 8388608"
  let ?i = "unat (st_file_size (fh_initramfs fh))"
  have i: "?i \<le> 6282240" using fits by (simp add: firmware_fits_def)
  obtain st1 where w1: "write_copy fh (- 32768) ?st0 = Some (0, st1)"
    and p1: "copy_at (dev st1) ?A fh (sdc st)" "same_elsewhere ?A (?A + 2097152 + ?i) (dev st1) (dev st)"
      "sdc st1 = sdc st" "length (in_buffer st1) = INAND_SIZE_PER_WRITE"
      "in_size_sum st1 = copy_sizes fh" "in_total_size_sum st1 = in_total_size_sum st"
      "in_shell st1 = in_shell st" "in_piped st1 = in_piped st"
    using write_copy_ok [of fh ?st0 "- 32768" ?A] assms by (auto simp: copy_place_def)
  have D1: "length (dev st1) = ?D" using p1(2) by (simp add: same_elsewhere_def)
  obtain st2 where w2: "write_copy fh (- 16384) st1 = Some (0, st2)"
    and p2: "copy_at (dev st2) ?B fh (sdc st)" "same_elsewhere ?B (?B + 2097152 + ?i) (dev st2) (dev st1)"
      "sdc st2 = sdc st" "length (in_buffer st2) = INAND_SIZE_PER_WRITE"
      "in_size_sum st2 = copy_sizes fh + copy_sizes fh" "in_total_size_sum st2 = in_total_size_sum st"
      "in_shell st2 = in_shell st" "in_piped st2 = in_piped st"
    using write_copy_ok [of fh st1 "- 16384" ?B] assms p1 D1 by (auto simp: copy_place_def)
  have "copy_at (dev st2) ?A fh (sdc st)"
    using copy_at_cong [OF p1(1) p2(2) fits] D i by simp
  moreover have "same_elsewhere ?A (?D - 9216) (dev st2) (dev st)"
  proof -
    have "?A + 2097152 + ?i \<le> ?D - 9216" "?B + 2097152 + ?i \<le> ?D - 9216" "?A \<le> ?B"
      using D i by linarith+
    then have "same_elsewhere ?A (?D - 9216) (dev st1) (dev st)"
      "same_elsewhere ?A (?D - 9216) (dev st2) (dev st1)"
      using same_elsewhere_widen p1(2) p2(2) by blast+
    then show ?thesis using same_elsewhere_trans by blast
  qed
  moreover have "write_firmware fh st = Some (0, st2)"
    using w2 unfolding write_firmware_def ZIMAGE_INITRAMFS_SECTORS_def by (simp add: and_then_ok [OF w1])
  ultimately show ?thesis using p2 by auto
qed

subsection \<open>The boot loader\<close>

lemma write_qi_ok:
  assumes sound: "firmware_sound fh (sdc st)" and fits: "firmware_fits fh"
    and D: "9216 \<le> length (dev st)" and buf: "length (in_buffer st) = INAND_SIZE_PER_WRITE"
  shows "\<exists>st'. write_qi fh st = Some (0, st') \<and>
           region (dev st') (length (dev st) - 9216) (unat (st_file_size (fh_qi fh))) =
             section_bytes (sdc st) (fh_qi fh) \<and>
           region (dev st') (length (dev st) - 1024) 1024 = replicate 1024 0 \<and>
           length (dev st') = length (dev st) \<and> sdc st' = sdc st \<and>
           length (in_buffer st') = INAND_SIZE_PER_WRITE \<and> in_shell st' = in_shell st \<and>
           in_total_size_sum st' = in_total_size_sum st \<and> in_piped st' = in_piped st"
proof -
  let ?D = "length (dev st)" and ?qi = "section_bytes (sdc st) (fh_qi fh)"
  have qs: "stanza_sound (sdc st) (fh_qi fh)" using sound by (simp add: firmware_sound_def)
  have lq: "length ?qi = unat (st_file_size (fh_qi fh))" "length ?qi \<le> 8192"
    using length_section_bytes [OF qs] fits by (simp_all add: firmware_fits_def)
  have room: "?D - 9216 + unat (st_file_size (fh_qi fh)) \<le> ?D" using lq D by linarith
  obtain st1 where b: "burn (Some (st_file_offset (fh_qi fh))) (- 18 * INAND_BLOCK_SIZE)
        (st_file_size (fh_qi fh)) (- 18 * INAND_BLOCK_SIZE)
        (st_file_size (fh_qi fh)) (st_check_sum (fh_qi fh)) st = Some (0, st1)"
    and s1: "burnt (?D - 9216) (unat (st_file_offset (fh_qi fh))) ?qi st st1"
    using burn_ok [of st "unat (st_file_offset (fh_qi fh))" "Some (st_file_offset (fh_qi fh))"
        "st_file_size (fh_qi fh)" "- 18 * INAND_BLOCK_SIZE" "?D - 9216" "- 18 * INAND_BLOCK_SIZE" 0
        "st_file_size (fh_qi fh)" "st_check_sum (fh_qi fh)"] qs D buf room
    by (auto simp: stanza_sound_def section_bytes_def INAND_BLOCK_SIZE_def of_nat_diff)
  have D1: "length (dev st1) = ?D" using s1 D lq by (simp add: burnt_def)
  define st2 where "st2 = seek_inand (- 2 * INAND_BLOCK_SIZE) st1"
  have st2: "st2 = st1\<lparr>in_inand := (in_inand st1)\<lparr>fd_pos := ?D - 1024\<rparr>\<rparr>"
    using fd_seek_end_within [of "- 1024" "?D - 1024" "in_inand st1"] D D1
    by (simp add: st2_def seek_inand_def INAND_BLOCK_SIZE_def of_nat_diff)
  let ?z = "replicate 512 (0 :: u8)"
  define buf2 where "buf2 = patch (in_buffer st2) 0 (replicate (nat INAND_BLOCK_SIZE) 0)"
  have buf2: "take (nat INAND_BLOCK_SIZE) buf2 = ?z" "length buf2 = INAND_SIZE_PER_WRITE"
    using s1 by (simp_all add: buf2_def st2 burnt_def INAND_BLOCK_SIZE_def INAND_SIZE_PER_WRITE_def patch_def)
  define f where "f = snd (fd_write (snd (fd_write (in_inand st2) ?z)) ?z)"
  have f: "fd_data f = patch (dev st1) (?D - 1024) (?z @ ?z)"
    using D D1 fd_write_fits [of "in_inand st2" ?z]
      fd_write_fits [of "(in_inand st2)\<lparr>fd_data := patch (dev st1) (?D - 1024) ?z, fd_pos := ?D - 512\<rparr>" ?z]
      patch_patch_adjacent [of "?D - 1024" ?z ?z "dev st1"]
    by (simp add: f_def st2)
  have run: "write_qi fh st = Some (0, st2\<lparr>in_buffer := buf2, in_inand := f\<rparr>)"
    unfolding write_qi_def and_then_ok [OF b] Let_def st2_def [symmetric] buf2_def [symmetric] buf2(1)
      f_def [symmetric] ..
  have zz: "?z @ ?z = replicate 1024 0" by (simp add: replicate_add [symmetric])
  have "region (fd_data f) (?D - 1024) 1024 = replicate 1024 0"
    using region_patch_same [of "?D - 1024" "?z @ ?z" "dev st1"] D D1 zz f by simp
  moreover have "region (fd_data f) (?D - 9216) (unat (st_file_size (fh_qi fh))) = ?qi"
  proof -
    have "region (fd_data f) (?D - 9216) (length ?qi) = region (dev st1) (?D - 9216) (length ?qi)"
    proof -
      have "?D - 1024 + length (?z @ ?z) \<le> length (dev st1)"
        "?D - 9216 + length ?qi \<le> ?D - 1024" using D D1 lq by (simp, linarith)
      then show ?thesis unfolding f by (intro region_patch_disjoint) blast+
    qed
    then show ?thesis using s1 region_patch_same [of "?D - 9216" ?qi "dev st"] D lq
      by (simp add: burnt_def)
  qed
  moreover have "length (fd_data f) = ?D" using f D D1 by simp
  ultimately show ?thesis using run s1 buf2 by (auto simp: burnt_def st2)
qed

subsection \<open>The copy ends whatever the card holds\<close>

lemma copy_chunk_progress:
  assumes "copy_chunk n st = (k, int n, st')"
  shows "dev_pos st' = dev_pos st + n \<and> length (dev st') = length (dev st) \<and>
         (0 < n \<longrightarrow> dev_pos st + n \<le> length (dev st))"
  using assms
  by (auto simp: copy_chunk_def fd_write_def Let_def split: if_splits)

lemma loading_loop_ends: "\<exists>r. loading_loop total_size remnant sz st = Some r"
proof (induction "length (dev st) - dev_pos st" arbitrary: remnant sz st rule: less_induct)
  case less
  obtain k w st' where c: "copy_chunk INAND_SIZE_PER_WRITE st = (k, w, st')"
    by (metis prod_cases3)
  show ?case
  proof (cases "0 < unat remnant div INAND_SIZE_PER_WRITE \<and> w = int INAND_SIZE_PER_WRITE")
    case True
    then have p: "dev_pos st' = dev_pos st + INAND_SIZE_PER_WRITE" "length (dev st') = length (dev st)"
      "dev_pos st + INAND_SIZE_PER_WRITE \<le> length (dev st)"
      using copy_chunk_progress [of INAND_SIZE_PER_WRITE st k st'] c
      by (auto simp: INAND_SIZE_PER_WRITE_def)
    have "length (dev st') - dev_pos st' < length (dev st) - dev_pos st"
      using p by (simp add: INAND_SIZE_PER_WRITE_def)
    from less [OF this] show ?thesis
      using True c by (subst loading_loop.simps) simp
  next
    case False
    then show ?thesis using c by (subst loading_loop.simps) auto
  qed
qed

text \<open>C8. The copy to the device always ends, also when the card holds fewer bytes than the header
  says (the code then never reaches its count and keeps writing the old buffer): the device is
  finite, and the write that does not fit stops the loop.\<close>

theorem loading_terminates:
  "\<exists>ret st'. loading total_size st = Some (ret, st')"
  using loading_loop_ends [of total_size total_size 0 st] by (auto simp: loading_def)

end
