(* ===== verification/Firmware_Extract.thy ===== *)
theory Firmware_Extract
  imports Firmware_Header
begin

section \<open>extract: checking a firmware image before it is installed\<close>

text \<open>
  \<^verbatim>\<open>fw-utils/extract.c\<close>.  \<open>extract_fw\<close> is \<^verbatim>\<open>extract\<close>, which reads the header into the caller's 176 bytes and returns 0 or
  -1; the pair also gives those bytes.  None stands for the two places where the C has no defined
  behaviour because a header field is used unchecked: the checksum loop runs to \<open>fh_size\<close>, past
  the end of the structure when that field is larger than the structure, and the listing of the
  components indexes the table of six sections by \<open>component_count\<close>.  The parameter \<open>sys\<close> is the
  exit status of a shell command.
\<close>

definition q5cmd :: string where "q5cmd = ''grep SMARTQ5 /proc/cpuinfo''"
definition q7cmd :: string where "q7cmd = ''grep SMARTQ7 /proc/cpuinfo''"

definition get_fw_fh_check_sum_x :: "bytes \<Rightarrow> u32 option" where
  "get_fw_fh_check_sum_x mem =
     (let n = unat (fh_fh_size (header_of_bytes mem))
      in if length mem < n then None else Some (sum_header_image mem n))"

definition wrong_platform ::
  "(string \<Rightarrow> int) \<Rightarrow> fw_header \<Rightarrow> bool" where
  "wrong_platform sys fw_fh =
     (if fh_machType fw_fh \<noteq> 0
      then if fh_machType fw_fh = 2534 then sys q7cmd = 0
           else if fh_machType fw_fh = 2479 then sys q5cmd = 0
           else False
      else False)"

definition vendor_matches :: "bytes \<Rightarrow> bool" where
  "vendor_matches mem \<longleftrightarrow> cstr_of (drop 20 mem) = bytes_of_string ''hhtech''"

definition extract_fw :: "(string \<Rightarrow> int) \<Rightarrow> bytes option \<Rightarrow> bytes \<Rightarrow> (int \<times> bytes) option" where
  "extract_fw sys file mem =
     (case file of
        None \<Rightarrow> Some (- 1, mem)
      | Some content \<Rightarrow>
          let mem = patch mem 0 (fst (fd_read (fd_open content) sizeof_FWFileHdr));
              fw_fh = header_of_bytes mem
          in if fh_magic fw_fh \<noteq> 0x39000032 then Some (- 1, mem)
             else case get_fw_fh_check_sum_x mem of
               None \<Rightarrow> None
             | Some calced \<Rightarrow>
                 if calced \<noteq> fh_check_sum fw_fh then Some (- 1, mem)
                 else if wrong_platform sys fw_fh then Some (- 1, mem)
                 else if \<not> vendor_matches mem then Some (- 1, mem)
                 else if MAX_SECTIONS < unat (fh_component_count fw_fh) then None
                 else Some (0, mem))"

subsection \<open>A valid image is accepted\<close>

definition image_valid :: "bytes \<Rightarrow> bool" where
  "image_valid img \<longleftrightarrow>
     sizeof_FWFileHdr \<le> length img \<and> fh_magic (header_of_bytes img) = HEAD_MAGIC \<and>
     fh_fh_size (header_of_bytes img) = 176 \<and>
     sum_header_image img 176 = fh_check_sum (header_of_bytes img) \<and>
     vendor_matches (take sizeof_FWFileHdr img) \<and>
     unat (fh_component_count (header_of_bytes img)) \<le> MAX_SECTIONS"

lemma header_of_take: "sizeof_FWFileHdr \<le> length img \<Longrightarrow>
    header_of_bytes (take sizeof_FWFileHdr img) = header_of_bytes img"
  using header_of_bytes_append [of "take sizeof_FWFileHdr img" "drop sizeof_FWFileHdr img"]
  by simp

lemma header_read:
  assumes "sizeof_FWFileHdr \<le> length img" "length mem = sizeof_FWFileHdr"
  shows "patch mem 0 (fst (fd_read (fd_open img) sizeof_FWFileHdr)) = take sizeof_FWFileHdr img"
  using assms by (simp add: fd_read_fst fd_rest_def fd_open_def patch_def)

lemma wrong_platform_iff:
  "wrong_platform sys h \<longleftrightarrow>
     fh_machType h = 2534 \<and> sys ''grep SMARTQ7 /proc/cpuinfo'' = 0 \<or>
     fh_machType h = 2479 \<and> sys ''grep SMARTQ5 /proc/cpuinfo'' = 0"
  by (auto simp: wrong_platform_def q5cmd_def q7cmd_def)

lemma extract_of_valid:
  assumes "image_valid img" "length mem = sizeof_FWFileHdr"
  shows "extract_fw sys (Some img) mem =
    Some (if wrong_platform sys (header_of_bytes img) then - 1 else 0, take sizeof_FWFileHdr img)"
proof -
  have "sum_header_image (take 176 img) 176 = sum_header_image img 176"
    using assms(1) sum_header_image_append [of 176 "take 176 img" "drop 176 img"]
    by (simp add: image_valid_def sizeof_FWFileHdr_def)
  then show ?thesis
    using assms header_read [of img mem] header_of_take [of img]
    by (simp add: extract_fw_def image_valid_def get_fw_fh_check_sum_x_def Let_def HEAD_MAGIC_def
        sizeof_FWFileHdr_def)
qed

lemma extract_valid:
  assumes "image_valid img" "length mem = sizeof_FWFileHdr"
    and "\<not> wrong_platform sys (header_of_bytes img)"
  shows "extract_fw sys (Some img) mem = Some (0, take sizeof_FWFileHdr img)"
  using extract_of_valid [OF assms(1,2), of sys] assms(3) by simp

subsection \<open>A header with one damaged byte\<close>

lemma header_fields_update:
  "fh_magic (header_of_bytes bs) = get32 bs 0" "fh_check_sum (header_of_bytes bs) = get32 bs 4"
  "fh_fh_size (header_of_bytes bs) = get32 bs 8"
  by (simp_all add: header_of_bytes_def)

lemma sum_update_differs:
  assumes "length bs = 176" "8 \<le> i" "i < 176" "b \<noteq> bs ! i"
  shows "sum_header_image (bs[i := b]) 176 \<noteq> sum_header_image bs 176"
proof -
  let ?r = "region bs 8 168"
  have "region (bs[i := b]) 8 168 = ?r[i - 8 := b]"
    using assms(2,3) by (simp add: region_def drop_update_swap take_update_swap)
  moreover have "nat_sum (?r[i - 8 := b]) \<noteq> nat_sum ?r"
  proof -
    have "i - 8 < length ?r" "?r ! (i - 8) = bs ! i" "unat (bs ! i) \<noteq> unat b"
      using assms by (auto simp: nth_region word_unat_eq_iff)
    then show ?thesis using nat_sum_update [of "i - 8" ?r b] by simp
  qed
  ultimately show ?thesis
    using assms(1) by (simp add: sum_header_image_region byte_sum_eq_iff)
qed

lemma size_field_low_byte: "unat (byte_at bs 8) = unat (get32 bs 8) mod 256"
  using arg_cong [OF get32_byte [of 0 bs 8], of unat] by (simp add: unsigned_ucast_eq take_bit_eq_mod)

text \<open>When the size field itself is made smaller, the shorter sum misses more than the field
  lost.\<close>

lemma shorter_sum_differs:
  assumes len: "length bs = 176" and i: "8 \<le> i" "i < 12" and size: "get32 bs 8 = 176"
    and small: "unat (get32 (bs[i := b]) 8) < 176"
  shows "sum_header_image (bs[i := b]) (unat (get32 (bs[i := b]) 8)) \<noteq> sum_header_image bs 176"
proof -
  let ?u = "bs[i := b]" and ?n = "unat (get32 (bs[i := b]) 8)"
  have old: "unat (bs ! 8) = 176"
    using size_field_low_byte [of bs] size len by (simp add: byte_at_def)
  have new: "unat (?u ! 8) = ?n"
    using size_field_low_byte [of ?u] small len by (simp add: byte_at_def)
  have i8: "i = 8"
    using old new small i by (cases "i = 8") auto
  have split: "region ?u 8 168 = region ?u 8 (?n - 8) @ region ?u (8 + (?n - 8)) (168 - (?n - 8))"
    using region_append_split [of ?u 8 "?n - 8" "168 - (?n - 8)"] small by simp
  then have "nat_sum (region ?u 8 (?n - 8)) \<le> nat_sum (region ?u 8 168)"
    by simp
  also have "nat_sum (region ?u 8 168) + 176 = nat_sum (region bs 8 168) + ?n"
  proof -
    have "region ?u 8 168 = (region bs 8 168)[0 := b]"
      using i8 by (simp add: region_def drop_update_swap take_update_swap)
    moreover have "unat b = ?n" using new i8 len by simp
    ultimately show ?thesis
      using nat_sum_update [of 0 "region bs 8 168" b] old len by (simp add: nth_region)
  qed
  ultimately have "nat_sum (region ?u 8 (?n - 8)) \<noteq> nat_sum (region bs 8 168)"
    using small by linarith
  then show ?thesis
    using len small by (simp add: sum_header_image_region byte_sum_eq_iff)
qed

text \<open>The result of \<open>extract\<close> up to the comparison of the sums.\<close>

lemma extract_bad_header:
  assumes "length mem = sizeof_FWFileHdr" "sizeof_FWFileHdr \<le> length img"
  defines "t \<equiv> take sizeof_FWFileHdr img"
  shows "get32 t 0 \<noteq> HEAD_MAGIC \<Longrightarrow> extract_fw sys (Some img) mem = Some (- 1, t)"
    and "get32 t 0 = HEAD_MAGIC \<Longrightarrow> sizeof_FWFileHdr < unat (get32 t 8) \<Longrightarrow> extract_fw sys (Some img) mem = None"
    and "unat (get32 t 8) \<le> sizeof_FWFileHdr \<Longrightarrow> sum_header_image t (unat (get32 t 8)) \<noteq> get32 t 4 \<Longrightarrow>
      extract_fw sys (Some img) mem = Some (- 1, t)"
  using header_read [OF assms(2,1)] assms(2)
  by (auto simp: extract_fw_def get_fw_fh_check_sum_x_def header_fields_update t_def Let_def HEAD_MAGIC_def)

text \<open>The size field is 176, so a change of one byte makes it larger when the lowest byte grows or
  another byte is no longer 0.\<close>

lemma damaged_size_field:
  assumes "length bs = 176" "get32 bs 8 = 176" "8 \<le> i" "i < 12" "b \<noteq> bs ! i"
  shows "176 < unat (get32 (bs[i := b]) 8) \<longleftrightarrow> (if i = 8 then 176 < b else True)"
proof -
  have old: "bs ! 8 = 176" "bs ! 9 = 0" "bs ! 10 = 0" "bs ! 11 = 0"
    using get32_byte [of 0 bs 8] get32_byte [of 1 bs 8] get32_byte [of 2 bs 8] get32_byte [of 3 bs 8] assms(1,2)
    by (simp_all add: byte_at_def)
  show ?thesis
  proof (cases "i = 8")
    case True
    then have "get32 (bs[i := b]) 8 = ucast b" using old assms(1) by (simp add: get32_def byte_at_def)
    moreover have "unat b < 2 ^ LENGTH(8)" by (rule unsigned_less)
    then have "unat (ucast b :: u32) = unat b" by (simp add: unsigned_ucast_eq take_bit_nat_eq_self_iff)
    ultimately show ?thesis using True by (simp add: word_less_nat_alt)
  next
    case False
    let ?n = "get32 (bs[i := b]) 8" and ?k = "i - 8"
    have "i = 9 \<or> i = 10 \<or> i = 11" using False assms(3,4) by linarith
    then have "b \<noteq> 0" using old assms(5) by auto
    moreover have "ucast (drop_bit (8 * ?k) ?n) = b"
      using get32_byte [of ?k "bs[i := b]" 8] assms(1,3,4) by (simp add: byte_at_def)
    moreover have "drop_bit (8 * ?k) ?n = 0" if "unat ?n \<le> 176"
    proof -
      have "(2 :: nat) ^ 8 \<le> 2 ^ (8 * ?k)" using False assms(3) by (intro power_increasing) auto
      then have "unat ?n < 2 ^ (8 * ?k)" using that by simp
      then have "unat (drop_bit (8 * ?k) ?n) = 0" unfolding unat_drop_bit_eq by (simp add: drop_bit_eq_div)
      then show ?thesis by (simp add: unat_eq_0)
    qed
    ultimately show ?thesis using False by (metis linorder_not_less unsigned_0)
  qed
qed

text \<open>What \<open>extract\<close> makes of a valid image with one byte of its header changed.\<close>

lemma damaged_header_result:
  assumes valid: "image_valid img" and i: "i < sizeof_FWFileHdr" and b: "b \<noteq> img ! i"
    and mem: "length mem = sizeof_FWFileHdr"
  shows "extract_fw sys (Some (img[i := b])) mem =
    (if i = 8 \<and> 176 < b \<or> i \<in> {9, 10, 11} then None
     else Some (- 1, take sizeof_FWFileHdr (img[i := b])))"
proof -
  let ?t = "take 176 img" and ?u = "(take 176 img)[i := b]"
  have len: "176 \<le> length img" and t: "length ?t = 176" and i176: "i < 176"
    using valid i by (simp_all add: image_valid_def sizeof_FWFileHdr_def)
  have u: "take sizeof_FWFileHdr (img[i := b]) = ?u" by (simp add: sizeof_FWFileHdr_def take_update_swap)
  have hdr: "header_of_bytes img = header_of_bytes ?t"
    using header_of_take [of img] len by (simp add: sizeof_FWFileHdr_def)
  have "sum_header_image ?t 176 = sum_header_image img 176"
    using len sum_header_image_append [of 176 ?t "drop 176 img"] by simp
  then have old: "get32 ?t 0 = HEAD_MAGIC" "get32 ?t 8 = 176" "sum_header_image ?t 176 = get32 ?t 4"
    using valid by (simp_all add: image_valid_def hdr header_fields_update)
  have bt: "b \<noteq> ?t ! i" "i < length ?t" using b i176 t by auto
  have result: "get32 ?u 0 \<noteq> HEAD_MAGIC \<Longrightarrow> extract_fw sys (Some (img[i := b])) mem = Some (- 1, ?u)"
    "get32 ?u 0 = HEAD_MAGIC \<Longrightarrow> 176 < unat (get32 ?u 8) \<Longrightarrow> extract_fw sys (Some (img[i := b])) mem = None"
    "unat (get32 ?u 8) \<le> 176 \<Longrightarrow> sum_header_image ?u (unat (get32 ?u 8)) \<noteq> get32 ?u 4 \<Longrightarrow>
       extract_fw sys (Some (img[i := b])) mem = Some (- 1, ?u)"
    using extract_bad_header [OF mem, of "img[i := b]" sys] len unfolding u by (simp_all add: sizeof_FWFileHdr_def)
  consider "i < 4" | "4 \<le> i" "i < 8" | "8 \<le> i" "i < 12" | "12 \<le> i" by linarith
  then show ?thesis
  proof cases
    case 1
    then show ?thesis using get32_update_differs [OF bt(2) _ _ bt(1), of 0] old(1) result(1) u by simp
  next
    case 2
    then have "sum_header_image ?u 176 = sum_header_image ?t 176"
      using t by (simp add: sum_header_image_region region_def drop_update_cancel)
    then show ?thesis
      using 2 get32_update_differs [OF bt(2) _ _ bt(1), of 4] get32_update_other [of i 8 ?t b] old result(3) u
      by simp
  next
    case 3
    have same: "get32 ?u 0 = HEAD_MAGIC" "get32 ?u 4 = get32 ?t 4"
      using get32_update_other [of i _ ?t b] 3 old(1) by simp_all
    have differs: "get32 ?u 8 \<noteq> 176" using get32_update_differs [OF bt(2) _ _ bt(1), of 8] 3 old(2) by simp
    show ?thesis
    proof (cases "176 < unat (get32 ?u 8)")
      case True
      then show ?thesis
        using damaged_size_field [OF t old(2) 3 bt(1)] result(2) [OF same(1)] 3 by (auto split: if_splits)
    next
      case False
      then have "unat (get32 ?u 8) < 176" using differs by (auto simp: word_unat_eq_iff le_less not_less)
      then have "extract_fw sys (Some (img[i := b])) mem = Some (- 1, ?u)"
        using shorter_sum_differs [OF t 3 old(2)] old(3) same(2) result(3) by simp
      then show ?thesis
        using damaged_size_field [OF t old(2) 3 bt(1)] False u by (auto split: if_splits)
    qed
  next
    case 4
    then show ?thesis
      using sum_update_differs [OF t _ i176 bt(1)] old result(3) u
        get32_update_other [of i 8 ?t b] get32_update_other [of i 4 ?t b] by simp
  qed
qed

end
