(* ===== verification/Firmware_Image.thy ===== *)
theory Firmware_Image
  imports Firmware_Pack Firmware_Extract
begin

section \<open>Packing and checking a firmware image\<close>

text \<open>
  \<^verbatim>\<open>mkSmartQ.c\<close> and \<^verbatim>\<open>extract.c\<close> together: the image that the packer leaves passes every check of the
  installer; with one byte of its header changed it is refused.
\<close>

lemma vendor_of_image:
  assumes "length img = 176" "region img 20 28 = vendor_hhtech"
  shows "vendor_matches img"
proof -
  have "drop 20 img = vendor_hhtech @ drop 28 (drop 20 img)"
    using assms(2) by (metis append_take_drop_id region_def)
  also have "vendor_hhtech @ drop 28 (drop 20 img) =
      bytes_of_string ''hhtech'' @ 0 # (replicate 21 0 @ drop 28 (drop 20 img))"
    by (simp add: vendor_hhtech_def vendor_len_def replicate_app_Cons_same numeral_eq_Suc)
  finally have "drop 20 img =
      bytes_of_string ''hhtech'' @ 0 # (replicate 21 0 @ drop 28 (drop 20 img))" .
  moreover have "0 \<notin> set (bytes_of_string ''hhtech'')" by (simp add: bytes_of_string_def)
  ultimately show ?thesis
    unfolding vendor_matches_def by (metis cstr_of_terminated)
qed

lemma image_of_valid: "image_valid (image_of fs args m now)"
proof -
  have "region (header_bytes (final_header fs args m now)) 20 28 = vendor_hhtech"
    using wf_final_header [of fs args m now]
    by (simp add: header_bytes_def region_def wf_header_def vendor_len_def final_header_fields)
  then have "vendor_matches (header_bytes (final_header fs args m now))"
    using vendor_of_image by (simp add: sizeof_FWFileHdr_def)
  then have "vendor_matches (take 176 (image_of fs args m now))"
    by (simp add: image_of_def sizeof_FWFileHdr_def)
  moreover have "176 \<le> length (image_of fs args m now)"
    by (simp add: image_of_def sizeof_FWFileHdr_def)
  moreover have "sum_header_image (image_of fs args m now) 176 =
      fh_check_sum (final_header fs args m now)"
    using final_header_sum [of fs args m now]
    by (simp add: image_of_def sizeof_FWFileHdr_def sum_header_image_append)
  ultimately show ?thesis
    by (simp add: image_valid_def header_of_image final_header_fields sizeof_FWFileHdr_def
        MAX_SECTIONS_def)
qed

text \<open>C3. What the packer writes, the installer accepts on the right device and refuses on the other: the image
  that mkSmartQ leaves for any valid inputs passes every check of extract and is read back as exactly its
  header, unless the image is for the SmartQ5 and /proc/cpuinfo names the SmartQ7, or the other way round;
  then extract returns -1.\<close>

theorem pack_extract_roundtrip:
  assumes "sh_appends sh" "target_of argv0 = Some (fwName, machType)"
    and "pack_inputs_ok fs fwName args" "length buf = SIZE_PER_READ"
    and "length mem = sizeof_FWFileHdr"
  shows "\<exists>fs' img. mkSmartQ_main sh now (Some buf) True fs (argv0 # args) = Some (0, fs') \<and>
           fs' fwName = Some img \<and>
           extract_fw sys (Some img) mem =
             Some (if fwName = ''SmartQ5'' \<and> sys ''grep SMARTQ7 /proc/cpuinfo'' = 0 \<or>
                      fwName = ''SmartQ7'' \<and> sys ''grep SMARTQ5 /proc/cpuinfo'' = 0 then - 1 else 0,
                   take sizeof_FWFileHdr img)"
proof -
  have "fwName = ''SmartQ5'' \<and> machType = 2534 \<or> fwName = ''SmartQ7'' \<and> machType = 2479"
    using assms(2) by (auto simp: target_of_def MACH_TYPE_SMARTQ5_def MACH_TYPE_SMARTQ7_def split: if_splits)
  then have "wrong_platform sys (header_of_bytes (image_of fs args machType now)) \<longleftrightarrow>
      fwName = ''SmartQ5'' \<and> sys ''grep SMARTQ7 /proc/cpuinfo'' = 0 \<or>
      fwName = ''SmartQ7'' \<and> sys ''grep SMARTQ5 /proc/cpuinfo'' = 0"
    by (auto simp: wrong_platform_iff header_of_image final_header_fields)
  then show ?thesis
    using mkSmartQ_main_ok [OF assms(1-4), of now]
      extract_of_valid [OF image_of_valid [of fs args machType now] assms(5), of sys] by fastforce
qed

text \<open>An image for the SmartQ5, on the two devices.\<close>

theorem pack_extract_roundtrip_witness:
  "\<exists>fs' img. mkSmartQ_main demo_sh 7 (Some (replicate SIZE_PER_READ 0)) True demo_fs
       (''mkSmartQ5'' # demo_args) = Some (0, fs') \<and> fs' ''SmartQ5'' = Some img \<and>
     extract_fw (\<lambda>cmd. if cmd = ''grep SMARTQ5 /proc/cpuinfo'' then 0 else 1) (Some img) (replicate 176 0) =
       Some (0, take sizeof_FWFileHdr img) \<and>
     extract_fw (\<lambda>cmd. if cmd = ''grep SMARTQ7 /proc/cpuinfo'' then 0 else 1) (Some img) (replicate 176 0) =
       Some (- 1, take sizeof_FWFileHdr img)"
proof -
  have buf: "length (replicate SIZE_PER_READ (0 :: u8)) = SIZE_PER_READ" by simp
  have mem: "length (replicate 176 (0 :: u8)) = sizeof_FWFileHdr" by (simp add: sizeof_FWFileHdr_def)
  note run = pack_extract_roundtrip [OF demo_sh_appends demo_target demo_inputs_ok buf mem, of 7]
  show ?thesis
    using run [of "\<lambda>cmd. if cmd = ''grep SMARTQ5 /proc/cpuinfo'' then 0 else 1"]
      run [of "\<lambda>cmd. if cmd = ''grep SMARTQ7 /proc/cpuinfo'' then 0 else 1"] by fastforce
qed

text \<open>C4. A damaged header is refused: change any one byte of the 176 header bytes of an image written by
  mkSmartQ, and extract returns -1, on any platform; the byte sum alone would not show this, since the
  checksum itself and the size that bounds the sum are among the bytes.  The only exception is a change
  that makes the size field larger than the header (its lowest byte grows from 176, or one of its other
  three bytes is no longer 0): then the loop of the checksum runs past the end of the structure and the C
  has no defined result, which is the value None.\<close>

theorem corrupted_image_rejected:
  assumes "sh_appends sh" "target_of argv0 = Some (fwName, machType)"
    and "pack_inputs_ok fs fwName args" "length buf = SIZE_PER_READ"
    and "mkSmartQ_main sh now (Some buf) True fs (argv0 # args) = Some (0, fs')"
    and "fs' fwName = Some img"
    and "i < sizeof_FWFileHdr" "b \<noteq> img ! i" "length mem = sizeof_FWFileHdr"
  shows "extract_fw sys (Some (img[i := b])) mem =
    (if i = 8 \<and> 176 < b \<or> i = 9 \<or> i = 10 \<or> i = 11 then None
     else Some (- 1, take sizeof_FWFileHdr (img[i := b])))"
proof -
  have "img = image_of fs args machType now"
    using mkSmartQ_main_ok [OF assms(1-4), of now] assms(5,6) by auto
  then show ?thesis
    using damaged_header_result [OF _ assms(7-9), of sys] image_of_valid [of fs args machType now] by simp
qed

text \<open>A byte of the checksum, the lowest byte of the size made smaller, a byte of a stanza: refused; the
  size made larger: undefined.\<close>

theorem corrupted_image_rejected_witness:
  "\<exists>fs' img. mkSmartQ_main demo_sh 7 (Some (replicate SIZE_PER_READ 0)) True demo_fs
       (''mkSmartQ5'' # demo_args) = Some (0, fs') \<and> fs' ''SmartQ5'' = Some img \<and>
     (\<forall>i \<in> {4, 100}. extract_fw (\<lambda>_. 1) (Some (img[i := img ! i + 1])) (replicate 176 0) =
       Some (- 1, take sizeof_FWFileHdr (img[i := img ! i + 1]))) \<and>
     extract_fw (\<lambda>_. 1) (Some (img[8 := 175])) (replicate 176 0) = Some (- 1, take sizeof_FWFileHdr (img[8 := 175])) \<and>
     extract_fw (\<lambda>_. 1) (Some (img[8 := 177])) (replicate 176 0) = None"
proof -
  let ?img = "image_of demo_fs demo_args MACH_TYPE_SMARTQ5 7"
  have buf: "length (replicate SIZE_PER_READ (0 :: u8)) = SIZE_PER_READ" by simp
  obtain fs' where run: "mkSmartQ_main demo_sh 7 (Some (replicate SIZE_PER_READ 0)) True demo_fs
       (''mkSmartQ5'' # demo_args) = Some (0, fs')" "fs' ''SmartQ5'' = Some ?img"
    using mkSmartQ_main_ok [OF demo_sh_appends demo_target demo_inputs_ok buf, of 7] by blast
  have "get32 ?img 8 = 176" "8 < length ?img"
    using image_of_valid [of demo_fs demo_args MACH_TYPE_SMARTQ5 7]
    by (simp_all add: image_valid_def header_fields_update sizeof_FWFileHdr_def)
  then have size: "?img ! 8 = 176" using get32_byte [of 0 ?img 8] by (simp add: byte_at_def)
  note damage = corrupted_image_rejected [OF demo_sh_appends demo_target demo_inputs_ok buf run,
      where sys = "\<lambda>_. 1" and mem = "replicate 176 0"]
  have "extract_fw (\<lambda>_. 1) (Some (?img[i := ?img ! i + 1])) (replicate 176 0) =
       Some (- 1, take sizeof_FWFileHdr (?img[i := ?img ! i + 1]))" if "i \<in> {4, 100}" for i
    using damage [of i "?img ! i + 1"] that by (auto simp: sizeof_FWFileHdr_def)
  moreover have "extract_fw (\<lambda>_. 1) (Some (?img[8 := 175])) (replicate 176 0) =
      Some (- 1, take sizeof_FWFileHdr (?img[8 := 175]))"
    "extract_fw (\<lambda>_. 1) (Some (?img[8 := 177])) (replicate 176 0) = None"
    using damage [of 8 175] damage [of 8 177] size by (simp_all add: sizeof_FWFileHdr_def)
  ultimately show ?thesis using run by blast
qed

end
