(* ===== verification/Firmware_Install.thy ===== *)
theory Firmware_Install
  imports Firmware_Upgrade Firmware_Image
begin

section \<open>upgrade: the run of the installer\<close>

text \<open>
  \<^verbatim>\<open>fw-utils/upgrade.c\<close>, the rest: unpacking the two file systems through a pipe and a child
  process, partitioning, the choice of keeping the user's partition, and \<open>main\<close>.  What the program
  gets from outside is the record \<open>up_env\<close>: results of opens, allocation and ioctl, the key events
  with the time after each poll, and how each fork turned out.  A fork makes two processes that run
  the same code; a run of the model is the run of one of them, chosen by \<open>fork_outcome\<close>.  A shell
  command is recorded and changes the device by the parameter \<open>env_sh\<close>.
\<close>

datatype fork_outcome =
    Pipe_fails
  | Fork_fails
  | Parent bool \<comment> \<open>whether waitpid succeeds\<close>
  | Child bool \<comment> \<open>whether dup2 succeeds\<close>

record input_event =
  ev_type :: int
  ev_code :: int
  ev_value :: int

record up_env =
  env_screen :: "int option" \<comment> \<open>the exit status when the screen cannot be opened\<close>
  env_font_ok :: bool
  env_keys_fd :: int
  env_event0 :: input_event \<comment> \<open>what is on the stack in \<open>event\<close>\<close>
  env_start_time :: int
  env_polls :: "(input_event option \<times> int) list"
  env_mem :: bytes \<comment> \<open>what malloc returns for the header\<close>
  env_sys :: "string \<Rightarrow> int" \<comment> \<open>exit status of the greps in extract\<close>
  env_sd_opens :: bool
  env_buffer :: "bytes option"
  env_sh :: "string \<Rightarrow> bytes \<Rightarrow> bytes" \<comment> \<open>what a command does to the device\<close>
  env_blk64 :: "nat option"
  env_blk :: "nat option"
  env_sniffer0 :: bytes \<comment> \<open>what is on the stack in \<open>sniffer\<close>\<close>
  env_fork_home :: fork_outcome
  env_fork_root :: fork_outcome

definition run_cmd :: "up_env \<Rightarrow> string \<Rightarrow> installer \<Rightarrow> installer" where
  "run_cmd env cmd st =
     st\<lparr>in_shell := in_shell st @ [cmd],
        in_inand := (in_inand st)\<lparr>fd_data := env_sh env cmd (dev st)\<rparr>\<rparr>"

fun run_cmds :: "up_env \<Rightarrow> string list \<Rightarrow> installer \<Rightarrow> installer" where
  "run_cmds env [] st = st"
| "run_cmds env (c # cs) st = run_cmds env cs (run_cmd env c st)"

subsection \<open>Unpacking a file system\<close>

definition ROOTFS_SIZE_PER_WRITE :: nat where "ROOTFS_SIZE_PER_WRITE = 262144"

definition untar_gzip :: string where "untar_gzip = ''/usr/bin/tar zxf - -C /mnt/upgrade''"
definition untar_lzma :: string where "untar_lzma = ''/usr/bin/tar Jxf - -C /mnt/upgrade''"

text \<open>The pointer \<open>untar\<close> is a static variable: its value carries over from one call to the next,
  so it is an argument and a result.\<close>

definition pick_untar :: "bytes \<Rightarrow> string \<Rightarrow> string option" where
  "pick_untar sniffer untar =
     (if sniffer ! 0 = 0xfd \<and> sniffer ! 1 = 0x37 then Some untar_lzma
      else if sniffer ! 0 = 0x1f \<and> sniffer ! 1 = 0x8b then Some untar
      else None)"

definition pipe_chunk :: "nat \<Rightarrow> installer \<times> bytes \<Rightarrow> u32 \<times> installer \<times> bytes" where
  "pipe_chunk n s =
     (let st = fst s; r = fd_read (in_sd st) n;
          buf = rd_into (in_buffer st) (fst r); read_size = word_of_nat (length (fst r))
      in (read_size,
          st\<lparr>in_sd := snd r, in_buffer := buf, in_size_sum := in_size_sum st + read_size\<rparr>,
          snd s @ take n buf))"

partial_function (option) pipe_loop ::
  "u32 \<Rightarrow> u32 \<Rightarrow> u32 \<Rightarrow> installer \<times> bytes \<Rightarrow> (u32 \<times> installer \<times> bytes) option" where
  "pipe_loop total_size remnant_size sz s =
     (if 0 < unat remnant_size div ROOTFS_SIZE_PER_WRITE
      then (case pipe_chunk ROOTFS_SIZE_PER_WRITE s of
              (read_size, s') \<Rightarrow>
                 pipe_loop total_size (total_size - (sz + read_size)) (sz + read_size) s')
      else Some (remnant_size, s))"

definition sniff :: "bytes \<Rightarrow> installer \<Rightarrow> bytes \<times> installer" where
  "sniff sniffer st =
     (let r = fd_read (in_sd st) 2; p = int (fd_pos (snd r)) - 2
      in (rd_into sniffer (fst r),
          st\<lparr>in_sd := if p < 0 then snd r else fd_seek_set (snd r) (nat p)\<rparr>))"

definition loading_fs ::
  "up_env \<Rightarrow> fork_outcome \<Rightarrow> string \<Rightarrow> u32 \<Rightarrow> installer \<Rightarrow> (int \<times> string \<times> installer) option" where
  "loading_fs env fork untar total_size st =
     (let (sniffer, st) = sniff (env_sniffer0 env) st in
      case pick_untar sniffer untar of
        None \<Rightarrow> Some (- 1, untar, st)
      | Some untar \<Rightarrow>
         (case fork of
            Pipe_fails \<Rightarrow> Some (- 1, untar, st)
          | Fork_fails \<Rightarrow> Some (- 1, untar, st)
          | Parent wait_ok \<Rightarrow>
             (case pipe_loop total_size total_size 0 (st, []) of
                None \<Rightarrow> None
              | Some (remnant_size, s) \<Rightarrow>
                  let (_, st, sent) = pipe_chunk (unat remnant_size) s
                  in Some (if wait_ok then 0 else - 1, untar,
                           st\<lparr>in_piped := in_piped st @ [sent]\<rparr>))
          | Child dup_ok \<Rightarrow>
              if \<not> dup_ok then Some (- 1, untar, st)
              else Some (0, untar, run_cmd env untar st)))"

definition mount_cmd :: "string \<Rightarrow> string \<Rightarrow> string" where
  "mount_cmd inand_device part = ''mount -t ext3 '' @ inand_device @ ''p'' @ part @ '' /mnt/upgrade/''"

text \<open>\<open>loading_firmware\<close> after the two copies: close the device and unpack the file systems.\<close>

definition load_homefs ::
  "up_env \<Rightarrow> string \<Rightarrow> fw_header \<Rightarrow> string \<Rightarrow> installer \<Rightarrow> (int \<times> string \<times> installer) option" where
  "load_homefs env inand_device fw_fh untar st =
     (let st = run_cmd env (mount_cmd inand_device ''2'') st;
          st = seek_sd (st_file_offset (fh_homefs fw_fh)) st in
      case loading_fs env (env_fork_home env) untar (st_file_size (fh_homefs fw_fh)) st of
        None \<Rightarrow> None
      | Some (ret, untar, st) \<Rightarrow>
          if ret \<noteq> 0 then Some (- 1, untar, st)
          else Some (0, untar,
                 if in_old_size_sum st = in_size_sum st
                 then st\<lparr>in_size_sum := in_size_sum st + st_file_size (fh_homefs fw_fh)\<rparr>
                 else st))"

definition load_rootfs ::
  "up_env \<Rightarrow> string \<Rightarrow> fw_header \<Rightarrow> string \<Rightarrow> installer \<Rightarrow> (int \<times> string \<times> installer) option" where
  "load_rootfs env inand_device fw_fh untar st =
     (let st = run_cmd env (mount_cmd inand_device ''1'') st;
          st = seek_sd (st_file_offset (fh_rootfs fw_fh)) st in
      if in_total_size_sum st - in_size_sum st \<noteq> st_file_size (fh_rootfs fw_fh)
      then Some (- 1, untar, st)
      else case loading_fs env (env_fork_root env) untar (st_file_size (fh_rootfs fw_fh)) st of
        None \<Rightarrow> None
      | Some (ret, untar, st) \<Rightarrow> Some (if ret \<noteq> 0 then - 1 else 0, untar, st))"

definition load_filesystems ::
  "up_env \<Rightarrow> string \<Rightarrow> int \<Rightarrow> bool \<Rightarrow> fw_header \<Rightarrow> installer \<Rightarrow> (int \<times> installer) option" where
  "load_filesystems env inand_device loading_homefs keep_userzone fw_fh st =
     (let st = st\<lparr>in_old_size_sum := in_size_sum st\<rparr> in
      if loading_homefs \<noteq> 1 then Some (0, st)
      else
        let st = run_cmds env [''rm -rf /mnt/upgrade\<newline>'', ''mkdir /mnt/upgrade\<newline>''] st;
            home = (if keep_userzone then Some (0, untar_gzip, st)
                    else load_homefs env inand_device fw_fh untar_gzip st)
        in case home of
             None \<Rightarrow> None
           | Some (ret, untar, st) \<Rightarrow>
               if ret \<noteq> 0 then Some (ret, st)
               else map_option (\<lambda>(ret, _, st). (ret, st)) (load_rootfs env inand_device fw_fh untar st))"

definition loading_firmware ::
  "up_env \<Rightarrow> string \<Rightarrow> int \<Rightarrow> bool \<Rightarrow> fw_header \<Rightarrow> installer \<Rightarrow> (int \<times> installer) option" where
  "loading_firmware env inand_device loading_homefs keep_userzone fw_fh st =
     and_then (write_firmware fw_fh st)
       (load_filesystems env inand_device loading_homefs keep_userzone fw_fh)"

subsection \<open>Partitioning\<close>

definition HOME_SECTORS :: int where "HOME_SECTORS = 262144"
definition SWAP_SECTORS :: int where "SWAP_SECTORS = 262144"

definition get_BLKGETSIZE_sectors :: "nat option \<Rightarrow> nat option \<Rightarrow> nat" where
  "get_BLKGETSIZE_sectors blk64 blk =
     (case blk64 of
        Some v64 \<Rightarrow> v64 div 512 mod 4294967296
      | None \<Rightarrow> (case blk of Some n \<Rightarrow> n | None \<Rightarrow> 0))"

definition fdisk_script :: "string \<Rightarrow> int \<Rightarrow> string" where
  "fdisk_script devName sectors =
     ''fdisk '' @ devName @ '' << __EOF\<newline>o\<newline>n\<newline>p\<newline>1\<newline>1\<newline>+''
     @ dec_int (cdiv (s32 (sectors - (HOME_SECTORS + SWAP_SECTORS + ZIMAGE_INITRAMFS_SECTORS))) 2)
     @ ''K\<newline>n\<newline>p\<newline>2\<newline>\<newline>+'' @ dec_int (cdiv HOME_SECTORS 2)
     @ ''K\<newline>n\<newline>p\<newline>3\<newline>\<newline>+'' @ dec_int (cdiv SWAP_SECTORS 2)
     @ ''K\<newline>w\<newline>q\<newline>__EOF\<newline>''"

definition partition_inand :: "up_env \<Rightarrow> string \<Rightarrow> int \<Rightarrow> installer \<Rightarrow> int \<times> installer" where
  "partition_inand env devName sectors st =
     (0, run_cmds env
           [fdisk_script devName sectors, fdisk_script devName sectors,
            ''mknod /dev/mmcblk0p1 b 179 1'', ''mknod /dev/mmcblk0p2 b 179 2'',
            ''mknod /dev/mmcblk0p3 b 179 3''] st)"

definition format_inand :: "up_env \<Rightarrow> string \<Rightarrow> bool \<Rightarrow> installer \<Rightarrow> installer" where
  "format_inand env devName keep_userzone st =
     run_cmds env
       ([''mkfs.ext3 '' @ devName @ ''p1 -L root 1>/dev/null'']
        @ (if keep_userzone then [] else [''mkfs.ext3 '' @ devName @ ''p2 -L home 1>/dev/null''])
        @ [''mkswap '' @ devName @ ''p3 1>/dev/null'']) st"

subsection \<open>The key that keeps the user's partition\<close>

text \<open>One poll of the loop: the event read, if select reported one and the read was complete, and
  the time in seconds after it.  None: the polls given do not reach the end of the wait.\<close>

fun wait_key ::
  "int \<Rightarrow> int \<Rightarrow> int \<Rightarrow> int \<Rightarrow> input_event \<Rightarrow> (input_event option \<times> int) list \<Rightarrow>
   input_event option" where
  "wait_key KEY_ADD KEY_DEC start now event polls =
     (if now - start < 60
      then (case polls of
              [] \<Rightarrow> None
            | (Some e, t) # polls' \<Rightarrow>
                if ev_type e = 1 \<and> ev_value e = 1 \<and> (ev_code e = KEY_ADD \<or> ev_code e = KEY_DEC)
                then Some e
                else wait_key KEY_ADD KEY_DEC start t e polls'
            | (None, t) # polls' \<Rightarrow> wait_key KEY_ADD KEY_DEC start t event polls')
      else Some event)"

declare wait_key.simps [simp del]

definition keep_choice :: "int \<Rightarrow> input_event \<Rightarrow> bool" where
  "keep_choice KEY_ADD event \<longleftrightarrow> ev_code event = KEY_ADD"

subsection \<open>main\<close>

fun atoi_digits :: "int \<Rightarrow> string \<Rightarrow> int" where
  "atoi_digits acc [] = acc"
| "atoi_digits acc (c # cs) =
     (if c \<in> set ''0123456789'' then atoi_digits (10 * acc + (of_char c - 48)) cs else acc)"

fun atoi :: "string \<Rightarrow> int" where
  "atoi [] = 0"
| "atoi (c # cs) =
     (if c \<in> {CHR '' '', CHR 0x09, CHR 0x0A, CHR 0x0B, CHR 0x0C, CHR 0x0D} then atoi cs
      else if c = CHR ''-'' then - atoi_digits 0 cs
      else if c = CHR ''+'' then atoi_digits 0 cs
      else atoi_digits 0 (c # cs))"

definition backlight_cmds :: "string list" where
  "backlight_cmds =
     [''echo 70 > /sys/devices/platform/s3c2410-lcd/backlight_level'',
      ''echo 70 > /sys/devices/platform/s3c-lcd/backlight_level'',
      ''echo 70 > /sys/class/backlight/pwm-backlight.0/brightness'']"

definition total_size_of :: "fw_header \<Rightarrow> bool \<Rightarrow> u32" where
  "total_size_of fw_fh keep_userzone =
     (let total_size_sum = st_file_offset (fh_homefs fw_fh);
          total_size_sum = (if \<not> keep_userzone
                            then total_size_sum + st_file_size (fh_homefs fw_fh)
                            else total_size_sum);
          total_size_sum = total_size_sum + (fh_fh_size fw_fh + st_file_size (fh_u_boot fw_fh)
                             + st_file_size (fh_zimage fw_fh) + st_file_size (fh_initramfs fw_fh))
      in total_size_sum - st_file_size (fh_qi fw_fh))"

text \<open>The labels \<open>fail2\<close> and \<open>fail1\<close>, which every normal end also passes.\<close>

definition finish :: "up_env \<Rightarrow> int \<Rightarrow> installer \<Rightarrow> (int \<times> installer) option" where
  "finish env ret st = Some (ret, if ret = 0 then run_cmd env ''reboot'' st else st)"

definition install_image ::
  "up_env \<Rightarrow> string \<Rightarrow> int \<Rightarrow> bool \<Rightarrow> fw_header \<Rightarrow> bytes \<Rightarrow> installer \<Rightarrow> (int \<times> installer) option" where
  "install_image env inand_device loading_homefs keep_userzone fw_fh content st =
     (let st = st\<lparr>in_total_size_sum := total_size_of fw_fh keep_userzone\<rparr> in
      if \<not> env_sd_opens env then finish env 0 st
      else let st = st\<lparr>in_sd := fd_open content\<rparr> in
        case env_buffer env of
          None \<Rightarrow> finish env 0 st
        | Some buf \<Rightarrow>
           (let st = st\<lparr>in_buffer := buf\<rparr>;
                st = (if loading_homefs = 1
                      then format_inand env inand_device keep_userzone
                             (snd (partition_inand env inand_device
                               (s32 (int (get_BLKGETSIZE_sectors (env_blk64 env) (env_blk env)))) st))
                      else st)
            in case write_qi fw_fh st of
                 None \<Rightarrow> None
               | Some (ret, st) \<Rightarrow>
                   if ret \<noteq> 0 then Some (- 1, st)
                   else (case loading_firmware env inand_device loading_homefs keep_userzone fw_fh st of
                           None \<Rightarrow> None
                         | Some (ret, st) \<Rightarrow> finish env ret st)))"

definition blank_installer :: installer where
  "blank_installer = \<lparr>in_sd = fd_open [], in_inand = fd_open [], in_buffer = [], in_size_sum = 0,
     in_old_size_sum = 0, in_total_size_sum = 0, in_shell = [], in_piped = []\<rparr>"

definition after_choice ::
  "up_env \<Rightarrow> fsys \<Rightarrow> string list \<Rightarrow> int \<Rightarrow> bool \<Rightarrow> installer \<Rightarrow> (int \<times> installer) option" where
  "after_choice env fs argv loading_homefs keep_userzone st =
     (case extract_fw (env_sys env) (fs (argv ! 1)) (env_mem env) of
        None \<Rightarrow> None
      | Some (ret, mem) \<Rightarrow>
          if ret \<noteq> 0 then finish env ret st
          else install_image env (argv ! 2) loading_homefs keep_userzone (header_of_bytes mem)
                 (the (fs (argv ! 1))) st)"

definition upgrade_main ::
  "up_env \<Rightarrow> fsys \<Rightarrow> bytes option \<Rightarrow> string list \<Rightarrow> (int \<times> installer) option" where
  "upgrade_main env fs inand argv =
     (if length argv \<noteq> 4 then Some (- 1, blank_installer)
      else
        let (KEY_ADD, KEY_DEC) = (if strstr (argv ! 1) ''SmartQ5'' then (109, 104) else (104, 109));
            loading_homefs = atoi (argv ! 3)
        in case env_screen env of
             Some code \<Rightarrow> Some (code, blank_installer)
           | None \<Rightarrow>
               if \<not> env_font_ok env then finish env (- 1) blank_installer
               else case inand of
                 None \<Rightarrow> Some (- 1, run_cmds env backlight_cmds blank_installer)
               | Some device \<Rightarrow>
                  (let st = run_cmds env backlight_cmds (blank_installer\<lparr>in_inand := fd_open device\<rparr>) in
                   if loading_homefs = 1
                   then if env_keys_fd env \<le> 0 then finish env 0 st
                        else (case wait_key KEY_ADD KEY_DEC (env_start_time env) (env_start_time env)
                                     (env_event0 env) (env_polls env) of
                                None \<Rightarrow> None
                              | Some event \<Rightarrow>
                                  after_choice env fs argv loading_homefs (keep_choice KEY_ADD event) st)
                   else after_choice env fs argv loading_homefs False st))"

subsection \<open>The copy into the pipe\<close>

definition piped :: "nat \<Rightarrow> installer \<times> bytes \<Rightarrow> installer \<times> bytes \<Rightarrow> bool" where
  "piped n s s' \<longleftrightarrow>
     (\<exists>buf. length buf = INAND_SIZE_PER_WRITE \<and>
        s' = ((fst s)\<lparr>in_sd := (in_sd (fst s))\<lparr>fd_pos := sdc_pos (fst s) + n\<rparr>, in_buffer := buf,
                      in_size_sum := in_size_sum (fst s) + word_of_nat n\<rparr>,
              snd s @ region (sdc (fst s)) (sdc_pos (fst s)) n))"

definition can_pipe :: "nat \<Rightarrow> installer \<times> bytes \<Rightarrow> bool" where
  "can_pipe n s \<longleftrightarrow> length (in_buffer (fst s)) = INAND_SIZE_PER_WRITE \<and>
     sdc_pos (fst s) + n \<le> length (sdc (fst s))"

lemma pipe_chunk_piped:
  assumes "can_pipe n s" "n \<le> INAND_SIZE_PER_WRITE"
  shows "\<exists>s'. pipe_chunk n s = (word_of_nat n, s') \<and> piped n s s'"
proof -
  let ?bs = "region (sdc (fst s)) (sdc_pos (fst s)) n"
  have len: "length ?bs = n"
    using assms(1) unfolding can_pipe_def by (intro length_region_fits) simp
  have "take n (rd_into (in_buffer (fst s)) ?bs) = ?bs"
    "length (rd_into (in_buffer (fst s)) ?bs) = INAND_SIZE_PER_WRITE"
    using assms len by (simp_all add: take_rd_into length_rd_into can_pipe_def)
  then show ?thesis
    using len by (auto simp: pipe_chunk_def fd_read_def Let_def piped_def)
qed

lemma can_pipe_more: "piped m s s' \<Longrightarrow> can_pipe (m + n) s \<Longrightarrow> can_pipe n s'"
  by (auto simp: piped_def can_pipe_def)

lemma piped_trans: "piped m s s1 \<Longrightarrow> piped n s1 s2 \<Longrightarrow> piped (m + n) s s2"
  by (auto simp: piped_def region_append_split add.assoc)

lemma pipe_loop_pipes:
  assumes "can_pipe (unat total_size - k) s" "k \<le> unat total_size" "sz = word_of_nat k"
  shows "\<exists>s' r. pipe_loop total_size (total_size - sz) sz s = Some (word_of_nat r, s') \<and>
           r < ROOTFS_SIZE_PER_WRITE \<and> k + r \<le> unat total_size \<and>
           piped (unat total_size - k - r) s s'"
  using assms
proof (induction "unat total_size - k" arbitrary: k sz s rule: less_induct)
  case less
  let ?N = ROOTFS_SIZE_PER_WRITE and ?rem = "unat total_size - k"
  have total: "unat total_size < 4294967296" using unsigned_less [of total_size] by simp
  have tw: "total_size - sz = word_of_nat ?rem"
    using less.prems(2,3) by (simp add: of_nat_diff)
  then have rem: "unat (total_size - sz) = ?rem" using total by (simp add: unat_of_nat)
  show ?case
  proof (cases "?N \<le> ?rem")
    case False
    then have "\<not> 0 < unat (total_size - sz) div ?N" by (simp add: rem)
    then have "pipe_loop total_size (total_size - sz) sz s = Some (word_of_nat ?rem, s)"
      by (subst pipe_loop.simps) (simp only: if_False tw)
    moreover have "piped 0 s s"
      using less.prems(1) by (auto simp: piped_def can_pipe_def)
    moreover have "unat total_size - k - ?rem = 0" "k + ?rem \<le> unat total_size"
      using less.prems(2) by simp_all
    ultimately show ?thesis using False by (metis not_le)
  next
    case True
    have small: "?N \<le> INAND_SIZE_PER_WRITE"
      by (simp add: ROOTFS_SIZE_PER_WRITE_def INAND_SIZE_PER_WRITE_def)
    have can: "can_pipe ?N s" using less.prems(1) True by (simp add: can_pipe_def)
    obtain s1 where c1: "pipe_chunk ?N s = (word_of_nat ?N, s1)" "piped ?N s s1"
      using pipe_chunk_piped [OF can small] by auto
    have "0 < unat (total_size - sz) div ?N"
      using True by (simp add: rem div_greater_zero_iff ROOTFS_SIZE_PER_WRITE_def)
    then have step: "pipe_loop total_size (total_size - sz) sz s =
        pipe_loop total_size (total_size - (sz + word_of_nat ?N)) (sz + word_of_nat ?N) s1"
      by (subst pipe_loop.simps) (simp add: c1)
    have "?N + (unat total_size - (k + ?N)) = ?rem" using True by linarith
    then have next_can: "can_pipe (unat total_size - (k + ?N)) s1"
      using can_pipe_more [OF c1(2), of "unat total_size - (k + ?N)"] less.prems(1) by (simp only:)
    have "unat total_size - (k + ?N) < ?rem" "k + ?N \<le> unat total_size"
      using True by (simp_all add: ROOTFS_SIZE_PER_WRITE_def)
    moreover have "sz + word_of_nat ?N = word_of_nat (k + ?N)" using less.prems(3) by simp
    ultimately obtain s' r where
      res: "pipe_loop total_size (total_size - (sz + word_of_nat ?N)) (sz + word_of_nat ?N) s1 =
          Some (word_of_nat r, s')"
      and r: "r < ?N" "(k + ?N) + r \<le> unat total_size"
      and c2: "piped (unat total_size - (k + ?N) - r) s1 s'"
      using less.hyps [of "k + ?N" s1 "sz + word_of_nat ?N"] next_can by blast
    have "?N + (unat total_size - (k + ?N) - r) = unat total_size - k - r"
      using r(2) by linarith
    then have "piped (unat total_size - k - r) s s'"
      using piped_trans [OF c1(2) c2] by (simp only:)
    moreover have "k + r \<le> unat total_size" using r(2) by linarith
    ultimately show ?thesis unfolding step using res r(1) by blast
  qed
qed

lemma pipe_all:
  assumes "can_pipe (unat total_size) s"
  shows "\<exists>s1 rem s2 n. pipe_loop total_size total_size 0 s = Some (rem, s1) \<and>
           pipe_chunk (unat rem) s1 = (n, s2) \<and> piped (unat total_size) s s2"
proof -
  obtain s1 r where
    l: "pipe_loop total_size total_size 0 s = Some (word_of_nat r, s1)"
    and r: "r < ROOTFS_SIZE_PER_WRITE" "r \<le> unat total_size"
    and c1: "piped (unat total_size - r) s s1"
    using pipe_loop_pipes [of total_size 0 s 0] assms by auto
  have small: "r \<le> INAND_SIZE_PER_WRITE" and ur: "unat (word_of_nat r :: u32) = r"
    using r(1) by (simp_all add: INAND_SIZE_PER_WRITE_def ROOTFS_SIZE_PER_WRITE_def)
  have "can_pipe r s1" using can_pipe_more [OF c1, of r] assms r(2) by simp
  then obtain s2 where c2: "pipe_chunk r s1 = (word_of_nat r, s2)" "piped r s1 s2"
    using pipe_chunk_piped [OF _ small] by blast
  have "piped (unat total_size) s s2" using piped_trans [OF c1 c2(2)] r(2) by simp
  then show ?thesis using l c2(1) ur by metis
qed

subsection \<open>The two file systems\<close>

definition archive_ok :: "bytes \<Rightarrow> stanza \<Rightarrow> bool" where
  "archive_ok img s \<longleftrightarrow> stanza_sound img s \<and> 2 \<le> unat (st_file_size s) \<and>
     pick_untar (section_bytes img s) untar_gzip \<noteq> None"

text \<open>Commands change the device only below the 16 MB at its end, where no partition lies.\<close>

definition sh_keeps_firmware :: "(string \<Rightarrow> bytes \<Rightarrow> bytes) \<Rightarrow> bool" where
  "sh_keeps_firmware sh \<longleftrightarrow> (\<forall>c d. same_elsewhere 0 (length d - 16777216) (sh c d) d)"

definition step_ok :: "fork_outcome \<Rightarrow> bool" where
  "step_ok f \<longleftrightarrow> f = Parent True \<or> f = Child True"

definition fs_frame :: "installer \<Rightarrow> installer \<Rightarrow> bool" where
  "fs_frame st st' \<longleftrightarrow> sdc st' = sdc st \<and> length (in_buffer st') = length (in_buffer st) \<and>
     in_total_size_sum st' = in_total_size_sum st \<and> in_old_size_sum st' = in_old_size_sum st \<and>
     same_elsewhere 0 (length (dev st) - 16777216) (dev st') (dev st)"

lemma same_elsewhere_refl [simp]: "same_elsewhere lo hi xs xs"
  by (simp add: same_elsewhere_def)

lemma fs_frame_refl [simp]: "fs_frame st st"
  by (simp add: fs_frame_def)

lemma fs_frame_trans: "fs_frame st st1 \<Longrightarrow> fs_frame st1 st2 \<Longrightarrow> fs_frame st st2"
  by (auto simp: fs_frame_def same_elsewhere_def)

lemma run_cmd_frame:
  "sh_keeps_firmware (env_sh env) \<Longrightarrow> fs_frame st (run_cmd env c st)"
  by (simp add: fs_frame_def run_cmd_def sh_keeps_firmware_def)

lemma run_cmd_fields [simp]:
  "in_size_sum (run_cmd env c st) = in_size_sum st" "in_piped (run_cmd env c st) = in_piped st"
  "in_sd (run_cmd env c st) = in_sd st" "in_buffer (run_cmd env c st) = in_buffer st"
  by (simp_all add: run_cmd_def)

lemma run_cmds_fields [simp]:
  "in_size_sum (run_cmds env cs st) = in_size_sum st" "in_piped (run_cmds env cs st) = in_piped st"
  "in_sd (run_cmds env cs st) = in_sd st" "in_buffer (run_cmds env cs st) = in_buffer st"
  by (induction cs arbitrary: st) simp_all

lemma run_cmds_frame:
  "sh_keeps_firmware (env_sh env) \<Longrightarrow> fs_frame st (run_cmds env cs st)"
  by (induction cs arbitrary: st) (auto intro: fs_frame_trans run_cmd_frame)

lemma seek_sd_stanza:
  "stanza_sound (sdc st) s \<Longrightarrow>
   seek_sd (st_file_offset s) st = st\<lparr>in_sd := (in_sd st)\<lparr>fd_pos := unat (st_file_offset s)\<rparr>\<rparr>"
  by (simp add: seek_sd_def stanza_sound_def sint_u32_small fd_seek_set_def)

lemma pick_untar_cong:
  "a ! 0 = b ! 0 \<Longrightarrow> a ! 1 = b ! 1 \<Longrightarrow> pick_untar a u = pick_untar b u"
  by (simp add: pick_untar_def)

lemma sniff_section:
  assumes arch: "archive_ok (sdc st) s" and g: "length g = 2"
    and pos: "sdc_pos st = unat (st_file_offset s)"
  shows "\<exists>sn. sniff g st = (sn, st) \<and> pick_untar sn u = pick_untar (section_bytes (sdc st) s) u"
proof -
  let ?off = "unat (st_file_offset s)"
  have room: "?off + unat (st_file_size s) \<le> length (sdc st)" "2 \<le> unat (st_file_size s)"
    using arch by (simp_all add: archive_ok_def stanza_sound_def)
  have len: "length (region (sdc st) ?off 2) = 2" using room by (intro length_region_fits) linarith
  have "rd_into g (region (sdc st) ?off 2) = region (sdc st) ?off 2"
    using len g by (simp add: rd_into_def patch_def)
  moreover have "region (sdc st) ?off 2 ! j = section_bytes (sdc st) s ! j" if "j < 2" for j
    using that room by (simp add: section_bytes_def nth_region)
  ultimately show ?thesis
    using len pos pick_untar_cong [of "region (sdc st) ?off 2" "section_bytes (sdc st) s" u]
    by (simp add: sniff_def fd_read_def Let_def fd_seek_set_def)
qed

lemma loading_fs_ok:
  assumes arch: "archive_ok (sdc st) s" and g: "length (env_sniffer0 env) = 2"
    and buf: "length (in_buffer st) = INAND_SIZE_PER_WRITE" and f: "step_ok f"
    and sh: "sh_keeps_firmware (env_sh env)"
    and pick: "pick_untar (section_bytes (sdc st) s) u = Some u'"
  shows "\<exists>st'. loading_fs env f u (st_file_size s) (seek_sd (st_file_offset s) st) = Some (0, u', st') \<and>
           fs_frame st st' \<and>
           in_size_sum st' = in_size_sum st + (if f = Parent True then st_file_size s else 0) \<and>
           in_piped st' = in_piped st @ (if f = Parent True then [section_bytes (sdc st) s] else []) \<and>
           in_shell st' = in_shell st @ (if f = Parent True then [] else [u'])"
proof -
  have snd: "stanza_sound (sdc st) s" using arch by (simp add: archive_ok_def)
  define st1 where "st1 = st\<lparr>in_sd := (in_sd st)\<lparr>fd_pos := unat (st_file_offset s)\<rparr>\<rparr>"
  have seek: "seek_sd (st_file_offset s) st = st1" using seek_sd_stanza [OF snd] by (simp add: st1_def)
  have "archive_ok (sdc st1) s" "sdc_pos st1 = unat (st_file_offset s)"
    using arch by (simp_all add: st1_def)
  then obtain sn where sn: "sniff (env_sniffer0 env) st1 = (sn, st1)" "pick_untar sn u = Some u'"
    using sniff_section [of st1 s "env_sniffer0 env" u] g pick by (auto simp: st1_def)
  show ?thesis
  proof (cases "f = Parent True")
    case True
    have "can_pipe (unat (st_file_size s)) (st1, [])"
      using snd buf by (simp add: can_pipe_def st1_def stanza_sound_def)
    then obtain s1 rem s2 n where p: "pipe_loop (st_file_size s) (st_file_size s) 0 (st1, []) = Some (rem, s1)"
      "pipe_chunk (unat rem) s1 = (n, s2)" "piped (unat (st_file_size s)) (st1, []) s2"
      using pipe_all by blast
    obtain st2 sent where s2: "s2 = (st2, sent)" by (cases s2)
    have "loading_fs env f u (st_file_size s) st1 = Some (0, u', st2\<lparr>in_piped := in_piped st2 @ [sent]\<rparr>)"
      using True sn p s2 by (simp add: loading_fs_def)
    then show ?thesis
      using True p(3) s2 buf word_nat_unat [of "st_file_size s"] unfolding seek
      by (auto simp: piped_def st1_def fs_frame_def section_bytes_def)
  next
    case False
    then have "f = Child True" using f by (simp add: step_ok_def)
    then show ?thesis
      using sn sh unfolding seek
      by (auto simp: loading_fs_def fs_frame_def st1_def run_cmd_def sh_keeps_firmware_def)
  qed
qed

definition filesystems_sound :: "fw_header \<Rightarrow> bytes \<Rightarrow> bool" where
  "filesystems_sound fh img \<longleftrightarrow> archive_ok img (fh_homefs fh) \<and> archive_ok img (fh_rootfs fh) \<and>
     st_file_offset (fh_homefs fh) = fh_fh_size fh + st_file_size (fh_qi fh)
       + st_file_size (fh_u_boot fh) + st_file_size (fh_zimage fh) + st_file_size (fh_initramfs fh)
       + st_file_size (fh_rootfs fh)"

text \<open>The byte count that \<open>main\<close> computes in advance: what the copies leave of it is the size of
  the root file system, with and without the user's partition.\<close>

lemma total_size_is_rest:
  assumes "filesystems_sound fh img"
  shows "total_size_of fh keep -
     (2 * copy_sizes fh + (if keep then 0 else st_file_size (fh_homefs fh))) = st_file_size (fh_rootfs fh)"
  using assms
  by (simp add: total_size_of_def copy_sizes_def filesystems_sound_def Let_def algebra_simps)

lemma archive_recognised:
  "archive_ok img s \<Longrightarrow> \<exists>u'. pick_untar (section_bytes img s) u = Some u'"
  by (auto simp: archive_ok_def pick_untar_def split: if_splits)

definition sent :: "fork_outcome \<Rightarrow> bytes \<Rightarrow> bytes list" where
  "sent f bs = (if f = Parent True then [bs] else [])"

lemma load_homefs_ok:
  assumes fsys: "filesystems_sound fh (sdc st)" and g: "length (env_sniffer0 env) = 2"
    and buf: "length (in_buffer st) = INAND_SIZE_PER_WRITE" and f: "step_ok (env_fork_home env)"
    and sh: "sh_keeps_firmware (env_sh env)" and old: "in_old_size_sum st = in_size_sum st"
  shows "\<exists>u' st'. load_homefs env d fh u st = Some (0, u', st') \<and> fs_frame st st' \<and>
           in_size_sum st' = in_size_sum st + st_file_size (fh_homefs fh) \<and>
           in_piped st' = in_piped st @ sent (env_fork_home env) (section_bytes (sdc st) (fh_homefs fh))"
proof -
  let ?s = "fh_homefs fh" and ?st1 = "run_cmd env (mount_cmd d ''2'') st"
  have arch: "archive_ok (sdc st) ?s" using fsys by (simp add: filesystems_sound_def)
  then have nz: "st_file_size ?s \<noteq> 0" by (auto simp: archive_ok_def)
  obtain u' where u': "pick_untar (section_bytes (sdc st) ?s) u = Some u'"
    using archive_recognised [OF arch] by blast
  obtain st2 where l: "loading_fs env (env_fork_home env) u (st_file_size ?s)
       (seek_sd (st_file_offset ?s) ?st1) = Some (0, u', st2)"
    and p: "fs_frame ?st1 st2"
      "in_size_sum st2 = in_size_sum st + (if env_fork_home env = Parent True then st_file_size ?s else 0)"
      "in_piped st2 = in_piped st @ sent (env_fork_home env) (section_bytes (sdc st) ?s)"
    using loading_fs_ok [of ?st1 ?s env "env_fork_home env" u u'] arch g buf f sh u'
    by (auto simp: sent_def)
  have "fs_frame st st2" using fs_frame_trans run_cmd_frame [OF sh] p(1) by blast
  moreover have "in_old_size_sum st2 = in_size_sum st"
    using \<open>fs_frame st st2\<close> old by (simp add: fs_frame_def)
  ultimately show ?thesis
    using l p nz by (auto simp: load_homefs_def fs_frame_def)
qed

lemma load_rootfs_ok:
  assumes fsys: "filesystems_sound fh (sdc st)" and g: "length (env_sniffer0 env) = 2"
    and buf: "length (in_buffer st) = INAND_SIZE_PER_WRITE" and f: "step_ok (env_fork_root env)"
    and sh: "sh_keeps_firmware (env_sh env)"
    and left: "in_total_size_sum st - in_size_sum st = st_file_size (fh_rootfs fh)"
  shows "\<exists>u' st'. load_rootfs env d fh u st = Some (0, u', st') \<and> fs_frame st st' \<and>
           in_piped st' = in_piped st @ sent (env_fork_root env) (section_bytes (sdc st) (fh_rootfs fh))"
proof -
  let ?s = "fh_rootfs fh" and ?st1 = "run_cmd env (mount_cmd d ''1'') st"
  have arch: "archive_ok (sdc st) ?s" using fsys by (simp add: filesystems_sound_def)
  obtain u' where u': "pick_untar (section_bytes (sdc st) ?s) u = Some u'"
    using archive_recognised [OF arch] by blast
  obtain st2 where l: "loading_fs env (env_fork_root env) u (st_file_size ?s)
       (seek_sd (st_file_offset ?s) ?st1) = Some (0, u', st2)"
    and p: "fs_frame ?st1 st2"
      "in_piped st2 = in_piped st @ sent (env_fork_root env) (section_bytes (sdc st) ?s)"
    using loading_fs_ok [of ?st1 ?s env "env_fork_root env" u u'] arch g buf f sh u'
    by (auto simp: sent_def)
  have "fs_frame st st2" using fs_frame_trans run_cmd_frame [OF sh] p(1) by blast
  moreover have "in_total_size_sum (seek_sd off ?st1) - in_size_sum (seek_sd off ?st1) = st_file_size ?s" for off
    using left by (simp add: seek_sd_def run_cmd_def)
  ultimately show ?thesis
    using l p by (auto simp: load_rootfs_def Let_def)
qed

definition expected_archives :: "up_env \<Rightarrow> bool \<Rightarrow> fw_header \<Rightarrow> bytes \<Rightarrow> bytes list" where
  "expected_archives env keep fh img =
     (if keep then [] else sent (env_fork_home env) (section_bytes img (fh_homefs fh)))
     @ sent (env_fork_root env) (section_bytes img (fh_rootfs fh))"

lemma load_filesystems_ok:
  assumes fsys: "filesystems_sound fh (sdc st)" and g: "length (env_sniffer0 env) = 2"
    and buf: "length (in_buffer st) = INAND_SIZE_PER_WRITE"
    and f: "step_ok (env_fork_home env)" "step_ok (env_fork_root env)"
    and sh: "sh_keeps_firmware (env_sh env)"
    and sizes: "in_size_sum st = 2 * copy_sizes fh" "in_total_size_sum st = total_size_of fh keep"
  shows "\<exists>st'. load_filesystems env d 1 keep fh st = Some (0, st') \<and>
           same_elsewhere 0 (length (dev st) - 16777216) (dev st') (dev st) \<and>
           in_piped st' = in_piped st @ expected_archives env keep fh (sdc st)"
proof -
  define st1 where "st1 = run_cmds env [''rm -rf /mnt/upgrade\<newline>'', ''mkdir /mnt/upgrade\<newline>'']
      (st\<lparr>in_old_size_sum := in_size_sum st\<rparr>)"
  have fr1: "fs_frame (st\<lparr>in_old_size_sum := in_size_sum st\<rparr>) st1"
    unfolding st1_def by (rule run_cmds_frame [OF sh])
  have st1: "in_size_sum st1 = in_size_sum st" "in_old_size_sum st1 = in_size_sum st1"
    "in_piped st1 = in_piped st" "sdc st1 = sdc st" "in_total_size_sum st1 = in_total_size_sum st"
    "length (in_buffer st1) = INAND_SIZE_PER_WRITE"
    using fr1 buf by (simp_all add: st1_def fs_frame_def)
  let ?home = "if keep then [] else sent (env_fork_home env) (section_bytes (sdc st) (fh_homefs fh))"
  have "\<exists>u st2. (if keep then Some (0, untar_gzip, st1) else load_homefs env d fh untar_gzip st1)
            = Some (0, u, st2) \<and> fs_frame st1 st2 \<and>
          in_size_sum st2 = in_size_sum st + (if keep then 0 else st_file_size (fh_homefs fh)) \<and>
          in_piped st2 = in_piped st @ ?home"
    using load_homefs_ok [of fh st1 env d untar_gzip] fsys g f sh st1 by (cases keep) auto
  then obtain u st2 where home: "(if keep then Some (0, untar_gzip, st1)
      else load_homefs env d fh untar_gzip st1) = Some (0, u, st2)"
    and p2: "fs_frame st1 st2" "in_piped st2 = in_piped st @ ?home"
      "in_size_sum st2 = in_size_sum st + (if keep then 0 else st_file_size (fh_homefs fh))" by blast
  have st2: "sdc st2 = sdc st" "length (in_buffer st2) = INAND_SIZE_PER_WRITE"
    "in_total_size_sum st2 = total_size_of fh keep"
    using p2(1) st1 sizes by (simp_all add: fs_frame_def)
  then have left: "in_total_size_sum st2 - in_size_sum st2 = st_file_size (fh_rootfs fh)"
    using total_size_is_rest [OF fsys, of keep] p2(3) sizes by simp
  obtain u' st3 where root: "load_rootfs env d fh u st2 = Some (0, u', st3)"
    and p3: "fs_frame st2 st3"
      "in_piped st3 = in_piped st2 @ sent (env_fork_root env) (section_bytes (sdc st) (fh_rootfs fh))"
    using load_rootfs_ok [of fh st2 env d u] fsys g f sh st2 left by auto
  have "load_filesystems env d 1 keep fh st = Some (0, st3)"
    unfolding load_filesystems_def Let_def st1_def [symmetric] home using root by simp
  moreover have "fs_frame (st\<lparr>in_old_size_sum := in_size_sum st\<rparr>) st3"
    using fs_frame_trans fr1 p2(1) p3(1) by blast
  ultimately show ?thesis using p2 p3 by (simp add: fs_frame_def expected_archives_def)
qed

subsection \<open>The device after an installation\<close>

definition installed :: "bytes \<Rightarrow> fw_header \<Rightarrow> bytes \<Rightarrow> bool" where
  "installed d fh img \<longleftrightarrow>
     region d (length d - 9216) (unat (st_file_size (fh_qi fh))) = section_bytes img (fh_qi fh) \<and>
     region d (length d - 1024) 1024 = replicate 1024 0 \<and>
     copy_at d (length d - 16777216) fh img \<and> copy_at d (length d - 8388608) fh img"

lemma copy_at_tail:
  "same_elsewhere 0 hi xs ys \<Longrightarrow> hi \<le> B \<Longrightarrow> copy_at ys B fh img \<Longrightarrow> copy_at xs B fh img"
  by (auto simp: copy_at_def same_elsewhere_def)

lemma installed_tail:
  assumes "same_elsewhere 0 (length ys - 16777216) xs ys" "installed ys fh img"
  shows "installed xs fh img"
  using assms copy_at_tail [OF assms(1)]
  by (auto simp: installed_def same_elsewhere_def)

lemma loading_firmware_ok:
  assumes sound: "firmware_sound fh (sdc st)" and fits: "firmware_fits fh"
    and D: "16777216 \<le> length (dev st)" and buf: "length (in_buffer st) = INAND_SIZE_PER_WRITE"
    and qi: "region (dev st) (length (dev st) - 9216) (unat (st_file_size (fh_qi fh))) =
        section_bytes (sdc st) (fh_qi fh)" "region (dev st) (length (dev st) - 1024) 1024 = replicate 1024 0"
    and sh: "sh_keeps_firmware (env_sh env)" and total: "in_total_size_sum st = total_size_of fh keep"
    and full: "lh = 1 \<Longrightarrow> filesystems_sound fh (sdc st) \<and> length (env_sniffer0 env) = 2 \<and>
        step_ok (env_fork_home env) \<and> step_ok (env_fork_root env)"
  shows "\<exists>st'. loading_firmware env d lh keep fh st = Some (0, st') \<and>
           installed (dev st') fh (sdc st) \<and> length (dev st') = length (dev st) \<and>
           in_piped st' = in_piped st @ (if lh = 1 then expected_archives env keep fh (sdc st) else [])"
proof -
  obtain st1 where w: "write_firmware fh st = Some (0, st1)"
    and p: "copy_at (dev st1) (length (dev st) - 16777216) fh (sdc st)"
      "copy_at (dev st1) (length (dev st) - 8388608) fh (sdc st)"
      "same_elsewhere (length (dev st) - 16777216) (length (dev st) - 9216) (dev st1) (dev st)"
      "sdc st1 = sdc st" "length (in_buffer st1) = INAND_SIZE_PER_WRITE"
      "in_size_sum st1 = 2 * copy_sizes fh" "in_total_size_sum st1 = in_total_size_sum st"
      "in_piped st1 = in_piped st"
    using write_firmware_ok [OF sound fits D buf] by blast
  have len: "length (dev st1) = length (dev st)" using p(3) by (simp add: same_elsewhere_def)
  have inst: "installed (dev st1) fh (sdc st)"
    using p(1-3) qi len D by (simp add: installed_def same_elsewhere_def)
  show ?thesis
  proof (cases "lh = 1")
    case False
    then show ?thesis
      using inst len p by (simp add: loading_firmware_def and_then_ok [OF w] load_filesystems_def Let_def)
  next
    case True
    obtain st2 where l: "load_filesystems env d 1 keep fh st1 = Some (0, st2)"
      and q: "same_elsewhere 0 (length (dev st1) - 16777216) (dev st2) (dev st1)"
        "in_piped st2 = in_piped st1 @ expected_archives env keep fh (sdc st1)"
      using load_filesystems_ok [of fh st1 env keep d] full [OF True] p sh total by auto
    have "length (dev st2) = length (dev st)" using q(1) len by (simp add: same_elsewhere_def)
    then show ?thesis
      using True l q installed_tail [OF q(1) inst] p
      by (simp add: loading_firmware_def and_then_ok [OF w])
  qed
qed

lemma install_image_ok:
  assumes sound: "firmware_sound fh content" and fits: "firmware_fits fh"
    and D: "16777216 \<le> length (dev st)" and opens: "env_sd_opens env"
    and buf: "env_buffer env = Some b" "length b = INAND_SIZE_PER_WRITE"
    and sh: "sh_keeps_firmware (env_sh env)"
    and full: "lh = 1 \<Longrightarrow> filesystems_sound fh content \<and> length (env_sniffer0 env) = 2 \<and>
        step_ok (env_fork_home env) \<and> step_ok (env_fork_root env)"
  shows "\<exists>st'. install_image env d lh keep fh content st = Some (0, st') \<and>
           installed (dev st') fh content \<and> length (dev st') = length (dev st) \<and>
           in_piped st' = in_piped st @ (if lh = 1 then expected_archives env keep fh content else [])"
proof -
  define st0 where "st0 = st\<lparr>in_total_size_sum := total_size_of fh keep, in_sd := fd_open content,
      in_buffer := b\<rparr>"
  define st1 where "st1 = (if lh = 1
      then format_inand env d keep (snd (partition_inand env d
             (s32 (int (get_BLKGETSIZE_sectors (env_blk64 env) (env_blk env)))) st0)) else st0)"
  have fr: "fs_frame st0 st1"
    using fs_frame_trans run_cmds_frame [OF sh]
    by (simp add: st1_def partition_inand_def format_inand_def del: run_cmds.simps) blast
  have p1: "sdc st1 = content" "length (in_buffer st1) = INAND_SIZE_PER_WRITE"
    "in_total_size_sum st1 = total_size_of fh keep" "length (dev st1) = length (dev st)"
    "in_piped st1 = in_piped st"
    using fr buf by (simp_all add: fs_frame_def st0_def fd_open_def same_elsewhere_def)
      (simp add: st1_def st0_def partition_inand_def format_inand_def del: run_cmds.simps)
  have D': "9216 \<le> length (dev st1)" using D p1 by simp
  obtain st2 where q: "write_qi fh st1 = Some (0, st2)"
    and p2: "region (dev st2) (length (dev st1) - 9216) (unat (st_file_size (fh_qi fh))) =
          section_bytes (sdc st1) (fh_qi fh)"
      "region (dev st2) (length (dev st1) - 1024) 1024 = replicate 1024 0"
      "length (dev st2) = length (dev st1)" "sdc st2 = sdc st1"
      "length (in_buffer st2) = INAND_SIZE_PER_WRITE"
      "in_total_size_sum st2 = in_total_size_sum st1" "in_piped st2 = in_piped st1"
    using write_qi_ok [of fh st1] sound fits D' p1 by auto
  obtain st3 where l: "loading_firmware env d lh keep fh st2 = Some (0, st3)"
    and p3: "installed (dev st3) fh content" "length (dev st3) = length (dev st2)"
      "in_piped st3 = in_piped st2 @ (if lh = 1 then expected_archives env keep fh content else [])"
    using loading_firmware_ok [of fh st2 env keep lh d] sound fits D sh full p1 p2 by auto
  have "install_image env d lh keep fh content st = finish env 0 st3"
    using opens buf(1) q l unfolding install_image_def Let_def
    by (cases "lh = 1") (simp_all add: st0_def st1_def)
  moreover have "installed (dev (run_cmd env ''reboot'' st3)) fh content"
    "length (dev (run_cmd env ''reboot'' st3)) = length (dev st3)"
    using installed_tail [OF _ p3(1)] run_cmd_frame [OF sh, of st3 "''reboot''"]
    by (simp_all add: fs_frame_def same_elsewhere_def)
  ultimately show ?thesis using p1 p2 p3 by (simp add: finish_def)
qed

subsection \<open>A packed image is sound for the installer\<close>

definition packed :: "fsys \<Rightarrow> string list \<Rightarrow> bool" where
  "packed fs args \<longleftrightarrow> length args \<le> 6 \<and>
     sizeof_FWFileHdr + sum_list (map (\<lambda>a. length (content_of fs a)) args) < 2147483648"

lemma packed_bounds:
  assumes "packed fs args" "i < 6"
  shows "section_offset fs args i + length (section_content fs args i) < 2147483648"
    "unat (word_of_nat (section_offset fs args i) :: u32) = section_offset fs args i"
    "unat (word_of_nat (length (section_content fs args i)) :: u32) = length (section_content fs args i)"
proof -
  show b: "section_offset fs args i + length (section_content fs args i) < 2147483648"
    using section_offset_bound [of args i fs] assms unfolding packed_def by linarith
  show "unat (word_of_nat (section_offset fs args i) :: u32) = section_offset fs args i"
    "unat (word_of_nat (length (section_content fs args i)) :: u32) = length (section_content fs args i)"
    using b by (intro unat_word_of_nat32; linarith)+
qed

lemma image_stanza_sound:
  fixes m now :: u32
  assumes "packed fs args" "i < 6"
  defines "img \<equiv> image_of fs args m now"
  shows "stanza_sound img (get_stanza (all_sections ! i) (header_of_bytes img))"
    "section_bytes img (get_stanza (all_sections ! i) (header_of_bytes img)) = section_content fs args i"
proof -
  note b = packed_bounds [OF assms(1,2)]
  have len: "length args \<le> 6" using assms(1) by (simp add: packed_def)
  have img: "length img = sizeof_FWFileHdr + sum_list (map (\<lambda>a. length (content_of fs a)) args)"
    by (simp add: img_def image_of_def length_concat comp_def)
  show sec: "section_bytes img (get_stanza (all_sections ! i) (header_of_bytes img)) =
      section_content fs args i"
    using b image_region [OF len assms(2)] assms(2)
    by (simp add: section_bytes_def img_def header_of_image image_stanza)
  show "stanza_sound img (get_stanza (all_sections ! i) (header_of_bytes img))"
    using b section_offset_bound [OF len assms(2), of fs] assms(2) sec
    by (simp add: stanza_sound_def img_def header_of_image image_stanza img [unfolded img_def])
qed

lemma header_sections:
  "get_stanza (all_sections ! 0) h = fh_qi h" "get_stanza (all_sections ! 1) h = fh_u_boot h"
  "get_stanza (all_sections ! Suc 0) h = fh_u_boot h"
  "get_stanza (all_sections ! 2) h = fh_zimage h" "get_stanza (all_sections ! 3) h = fh_initramfs h"
  "get_stanza (all_sections ! 4) h = fh_rootfs h" "get_stanza (all_sections ! 5) h = fh_homefs h"
  by (simp_all add: all_sections_def)

lemma section_offset_steps:
  "section_offset fs args 1 = section_offset fs args 0 + length (section_content fs args 0)"
  "section_offset fs args 2 = section_offset fs args 1 + length (section_content fs args 1)"
  "section_offset fs args 3 = section_offset fs args 2 + length (section_content fs args 2)"
  "section_offset fs args 4 = section_offset fs args 3 + length (section_content fs args 3)"
  "section_offset fs args 5 = section_offset fs args 4 + length (section_content fs args 4)"
  using section_offset_Suc [of 0 fs args] section_offset_Suc [of 1 fs args]
    section_offset_Suc [of 2 fs args] section_offset_Suc [of 3 fs args] section_offset_Suc [of 4 fs args]
  by (simp_all add: numeral_2_eq_2 [symmetric] del: One_nat_def) (simp_all add: numeral_2_eq_2)

lemma packed_firmware_sound:
  assumes "packed fs args"
  shows "firmware_sound (header_of_bytes (image_of fs args m now)) (image_of fs args m now)"
proof -
  let ?img = "image_of fs args m now" and ?h = "final_header fs args m now"
  note snd = image_stanza_sound(1) [OF assms, of _ m now]
  note st = image_stanza [of _ fs args m now]
  have stz: "stanza_sound ?img (fh_qi ?h)" "stanza_sound ?img (fh_u_boot ?h)"
    "stanza_sound ?img (fh_zimage ?h)" "stanza_sound ?img (fh_initramfs ?h)"
    using snd [of 0] snd [of 1] snd [of 2] snd [of 3] by (simp_all add: header_sections header_of_image)
  have sum: "fh_check_sum ?h = byte_sum (region ?img 8 168)" "176 \<le> length ?img"
    using final_header_sum [of fs args m now]
    by (simp_all add: sum_header_image_region image_of_def region_def sizeof_FWFileHdr_def)
  have "unat (st_file_offset (fh_initramfs ?h)) =
      unat (st_file_offset (fh_zimage ?h)) + unat (st_file_size (fh_zimage ?h))"
  proof -
    have "unat (st_file_offset (fh_initramfs ?h)) = section_offset fs args 3"
      "unat (st_file_offset (fh_zimage ?h)) = section_offset fs args 2"
      "unat (st_file_size (fh_zimage ?h)) = length (section_content fs args 2)"
      using st [of 2] st [of 3] packed_bounds [OF assms, of 2] packed_bounds [OF assms, of 3]
      by (simp_all add: header_sections)
    then show ?thesis by (simp only: section_offset_steps(3))
  qed
  moreover have "st_nand_offset (fh_u_boot ?h) = 2" "st_nand_offset (fh_zimage ?h) = 514"
    "st_nand_offset (fh_initramfs ?h) = 4096"
    using st [of 1] st [of 2] st [of 3] by (simp_all add: header_sections sects_def mk_section_def)
  ultimately show ?thesis
    using stz sum by (simp add: firmware_sound_def header_of_image final_header_fields)
qed

definition archive_content :: "bytes \<Rightarrow> bool" where
  "archive_content c \<longleftrightarrow> 2 \<le> length c \<and> pick_untar c untar_gzip \<noteq> None"

lemma packed_filesystems_sound:
  assumes "packed fs args" "archive_content (section_content fs args 4)"
    "archive_content (section_content fs args 5)"
  shows "filesystems_sound (header_of_bytes (image_of fs args m now)) (image_of fs args m now)"
proof -
  let ?img = "image_of fs args m now" and ?h = "final_header fs args m now"
  note st = image_stanza [of _ fs args m now]
  have "archive_ok ?img (fh_rootfs ?h)" "archive_ok ?img (fh_homefs ?h)"
    using image_stanza_sound [OF assms(1), of 4 m now] image_stanza_sound [OF assms(1), of 5 m now]
      assms packed_bounds(3) [OF assms(1), of 4] packed_bounds(3) [OF assms(1), of 5] st [of 4] st [of 5]
    by (simp_all add: archive_ok_def archive_content_def header_sections header_of_image)
  moreover have "section_offset fs args 5 = 176 + length (section_content fs args 0)
      + length (section_content fs args 1) + length (section_content fs args 2)
      + length (section_content fs args 3) + length (section_content fs args 4)"
    by (simp only: section_offset_steps section_offset_0 add.assoc)
  ultimately show ?thesis
    using st [of 0] st [of 1] st [of 2] st [of 3] st [of 4] st [of 5]
    by (simp add: filesystems_sound_def header_of_image header_sections final_header_fields)
qed

subsection \<open>Properties\<close>

definition device_has :: "bytes \<Rightarrow> bytes \<Rightarrow> bytes \<Rightarrow> bytes \<Rightarrow> bytes \<Rightarrow> bytes \<Rightarrow> bool" where
  "device_has d hdr qi ub z i \<longleftrightarrow>
     region d (length d - 9216) (length qi) = qi \<and>
     region d (length d - 1024) 1024 = replicate 1024 0 \<and>
     (\<forall>B \<in> {length d - 16777216, length d - 8388608}.
        region d B 176 = hdr \<and> region d (B + 1024) (length ub) = ub \<and>
        region d (B + 263168) (length z) = z \<and> region d (B + 2097152) (length i) = i)"

lemma installed_device_has:
  assumes "installed d (header_of_bytes (image_of fs args m now)) (image_of fs args m now)"
    "packed fs args"
  shows "device_has d (take 176 (image_of fs args m now)) (section_content fs args 0)
    (section_content fs args 1) (section_content fs args 2) (section_content fs args 3)"
proof -
  let ?h = "final_header fs args m now"
  note sec = image_stanza_sound(2) [OF assms(2), of _ m now]
  note st = image_stanza [of _ fs args m now] and b = packed_bounds(3) [OF assms(2)]
  have sizes: "unat (st_file_size (fh_qi ?h)) = length (section_content fs args 0)"
    "unat (st_file_size (fh_u_boot ?h)) = length (section_content fs args 1)"
    "unat (st_file_size (fh_zimage ?h)) = length (section_content fs args 2)"
    "unat (st_file_size (fh_initramfs ?h)) = length (section_content fs args 3)"
    using st [of 0] st [of 1] st [of 2] st [of 3] b [of 0] b [of 1] b [of 2] b [of 3]
    by (simp_all add: header_sections)
  have contents: "section_bytes (image_of fs args m now) (fh_qi ?h) = section_content fs args 0"
    "section_bytes (image_of fs args m now) (fh_u_boot ?h) = section_content fs args 1"
    "section_bytes (image_of fs args m now) (fh_zimage ?h) = section_content fs args 2"
    "section_bytes (image_of fs args m now) (fh_initramfs ?h) = section_content fs args 3"
    using sec [of 0] sec [of 1] sec [of 2] sec [of 3]
    by (simp_all add: header_of_image header_sections)
  show ?thesis
    using assms(1)
    by (simp add: installed_def copy_at_def device_has_def header_of_image sizes contents) (simp add: region_def)
qed

definition layout_fits :: "fsys \<Rightarrow> string list \<Rightarrow> bool" where
  "layout_fits fs args \<longleftrightarrow> packed fs args \<and> length (section_content fs args 0) \<le> 8192 \<and>
     length (section_content fs args 1) \<le> 262144 \<and> length (section_content fs args 2) \<le> 1833984 \<and>
     length (section_content fs args 3) \<le> 6282240"

lemma layout_firmware_fits:
  assumes "layout_fits fs args"
  shows "firmware_fits (header_of_bytes (image_of fs args m now))"
  using assms image_stanza [of 0 fs args m now] image_stanza [of 1 fs args m now]
    image_stanza [of 2 fs args m now] image_stanza [of 3 fs args m now]
    packed_bounds(3) [of fs args 0] packed_bounds(3) [of fs args 1] packed_bounds(3) [of fs args 2]
    packed_bounds(3) [of fs args 3]
  by (simp add: layout_fits_def firmware_fits_def header_of_image header_sections)

text \<open>Everything the run needs from outside goes well.\<close>

definition env_good :: "up_env \<Rightarrow> bool" where
  "env_good env \<longleftrightarrow> env_screen env = None \<and> env_font_ok env \<and> env_sd_opens env \<and>
     (\<exists>b. env_buffer env = Some b \<and> length b = INAND_SIZE_PER_WRITE) \<and>
     length (env_mem env) = sizeof_FWFileHdr \<and> sh_keeps_firmware (env_sh env)"

lemma after_choice_packed:
  assumes env: "env_good env" and lay: "layout_fits fs0 args"
    and img: "fs (argv ! 1) = Some (image_of fs0 args m now)"
    and plat: "\<not> wrong_platform (env_sys env) (final_header fs0 args m now)"
    and D: "16777216 \<le> length (dev st)"
    and full: "lh = 1 \<Longrightarrow> archive_content (section_content fs0 args 4) \<and>
        archive_content (section_content fs0 args 5) \<and> length (env_sniffer0 env) = 2 \<and>
        step_ok (env_fork_home env) \<and> step_ok (env_fork_root env)"
  shows "\<exists>st'. after_choice env fs argv lh keep st = Some (0, st') \<and>
      device_has (dev st') (take 176 (image_of fs0 args m now)) (section_content fs0 args 0)
        (section_content fs0 args 1) (section_content fs0 args 2) (section_content fs0 args 3) \<and>
      length (dev st') = length (dev st) \<and>
      in_piped st' = in_piped st @ (if lh = 1 then (if keep then []
          else sent (env_fork_home env) (section_content fs0 args 5))
        @ sent (env_fork_root env) (section_content fs0 args 4) else [])"
proof -
  let ?img = "image_of fs0 args m now" and ?h = "header_of_bytes (image_of fs0 args m now)"
  have packed: "packed fs0 args" using lay by (simp add: layout_fits_def)
  have len: "sizeof_FWFileHdr \<le> length ?img" by (simp add: image_of_def)
  have "extract_fw (env_sys env) (Some ?img) (env_mem env) = Some (0, take sizeof_FWFileHdr ?img)"
    using extract_valid [OF image_of_valid] env plat by (simp add: env_good_def header_of_image)
  moreover have "header_of_bytes (take sizeof_FWFileHdr ?img) = ?h" by (rule header_of_take [OF len])
  ultimately have run: "after_choice env fs argv lh keep st =
      install_image env (argv ! 2) lh keep ?h ?img st"
    unfolding after_choice_def img by simp
  obtain b where b: "env_buffer env = Some b" "length b = INAND_SIZE_PER_WRITE"
    and e: "env_sd_opens env" "sh_keeps_firmware (env_sh env)"
    using env by (auto simp: env_good_def)
  have full': "lh = 1 \<Longrightarrow> filesystems_sound ?h ?img \<and> length (env_sniffer0 env) = 2 \<and>
        step_ok (env_fork_home env) \<and> step_ok (env_fork_root env)"
    using full packed_filesystems_sound [OF packed] by blast
  obtain st' where i: "install_image env (argv ! 2) lh keep ?h ?img st = Some (0, st')"
    "installed (dev st') ?h ?img" "length (dev st') = length (dev st)"
    "in_piped st' = in_piped st @ (if lh = 1 then expected_archives env keep ?h ?img else [])"
    using install_image_ok [OF packed_firmware_sound [OF packed, of m now]
        layout_firmware_fits [OF lay] D e(1) b e(2) full', where d = "argv ! 2" and keep = keep] by blast
  have "section_bytes ?img (fh_rootfs ?h) = section_content fs0 args 4"
    "section_bytes ?img (fh_homefs ?h) = section_content fs0 args 5"
    using image_stanza_sound(2) [OF packed, of 4 m now] image_stanza_sound(2) [OF packed, of 5 m now]
    by (simp_all add: header_sections)
  then show ?thesis
    using run i installed_device_has [OF i(2) packed] by (simp add: expected_archives_def)
qed

lemma backlight_device:
  assumes "sh_keeps_firmware (env_sh env)"
  shows "length (dev (run_cmds env backlight_cmds (blank_installer\<lparr>in_inand := fd_open d\<rparr>))) = length d"
  using run_cmds_frame [OF assms, of "blank_installer\<lparr>in_inand := fd_open d\<rparr>" backlight_cmds]
  by (simp add: fs_frame_def same_elsewhere_def fd_open_def)

lemma blank_piped [simp]: "in_piped blank_installer = []"
  by (simp add: blank_installer_def)

lemma upgrade_packed:
  assumes "env_good env" "layout_fits fs0 args" "fs path = Some (image_of fs0 args m now)"
    and "\<not> wrong_platform (env_sys env) (final_header fs0 args m now)"
    and "16777216 \<le> length device" "atoi flag \<noteq> 1"
  shows "\<exists>st'. upgrade_main env fs (Some device) [argv0, path, devName, flag] = Some (0, st') \<and>
      device_has (dev st') (take 176 (image_of fs0 args m now)) (section_content fs0 args 0)
        (section_content fs0 args 1) (section_content fs0 args 2) (section_content fs0 args 3) \<and>
      length (dev st') = length device \<and> in_piped st' = []"
proof -
  let ?st = "run_cmds env backlight_cmds (blank_installer\<lparr>in_inand := fd_open device\<rparr>)"
  have "length (dev ?st) = length device"
    using assms(1) backlight_device by (simp add: env_good_def)
  then show ?thesis
    using after_choice_packed [of env fs0 args fs "[argv0, path, devName, flag]" m now ?st "atoi flag" False]
      assms by (simp add: upgrade_main_def env_good_def Let_def)
qed

text \<open>C5. The installer installs what was packed: run on an image written by mkSmartQ for this
  device whose sections fit the layout, upgrade without file systems exits with 0 and leaves on the
  device the boot loader 18 blocks before the end (the last two blocks zero) and two complete
  copies, 16 MB and 8 MB before the end, of the header, u-boot, the kernel and the initramfs, byte
  for byte the files that were packed.\<close>

theorem upgrade_installs_packed_image:
  assumes "env_good env" "layout_fits fs0 args" "fs path = Some (image_of fs0 args m now)"
    and "\<not> wrong_platform (env_sys env) (final_header fs0 args m now)"
    and "16777216 \<le> length device" "atoi flag \<noteq> 1"
  shows "\<exists>st'. upgrade_main env fs (Some device) [argv0, path, devName, flag] = Some (0, st') \<and>
      device_has (dev st') (take 176 (image_of fs0 args m now)) (section_content fs0 args 0)
        (section_content fs0 args 1) (section_content fs0 args 2) (section_content fs0 args 3) \<and>
      in_piped st' = []"
  using upgrade_packed [where fs = fs and path = path, OF assms(1-2) assms(3) assms(4-6), of argv0 devName] by blast

text \<open>C6. A full upgrade also unpacks the file systems: with the flag 1 and a key press that ends the
  wait, the process that copies into the pipes of tar (each fork seen from the parent) exits with 0,
  has installed both firmware copies, and has sent exactly the packed root file system and, unless
  the user chose to keep the home partition, before it exactly the packed home file system.\<close>

theorem upgrade_installs_file_systems:
  assumes "env_good env" "layout_fits fs0 args" "fs path = Some (image_of fs0 args m now)"
    and "\<not> wrong_platform (env_sys env) (final_header fs0 args m now)"
    and "16777216 \<le> length device" "atoi flag = 1"
    and "archive_content (section_content fs0 args 4)" "archive_content (section_content fs0 args 5)"
    and "length (env_sniffer0 env) = 2" "env_fork_home env = Parent True" "env_fork_root env = Parent True"
    and "0 < env_keys_fd env" "KEY_ADD = (if strstr path ''SmartQ5'' then 109 else 104)"
    and "wait_key KEY_ADD (213 - KEY_ADD) (env_start_time env) (env_start_time env) (env_event0 env)
           (env_polls env) = Some event"
  shows "\<exists>st'. upgrade_main env fs (Some device) [argv0, path, devName, flag] = Some (0, st') \<and>
      device_has (dev st') (take 176 (image_of fs0 args m now)) (section_content fs0 args 0)
        (section_content fs0 args 1) (section_content fs0 args 2) (section_content fs0 args 3) \<and>
      in_piped st' = (if keep_choice KEY_ADD event then [] else [section_content fs0 args 5])
        @ [section_content fs0 args 4]"
proof -
  let ?st = "run_cmds env backlight_cmds (blank_installer\<lparr>in_inand := fd_open device\<rparr>)"
  have "16777216 \<le> length (dev ?st)"
    using assms(1,5) backlight_device by (simp add: env_good_def)
  moreover have "fs ([argv0, path, devName, flag] ! 1) = Some (image_of fs0 args m now)"
    using assms(3) by simp
  ultimately obtain st' where ac:
    "after_choice env fs [argv0, path, devName, flag] 1 (keep_choice KEY_ADD event) ?st = Some (0, st')"
    "device_has (dev st') (take 176 (image_of fs0 args m now)) (section_content fs0 args 0)
        (section_content fs0 args 1) (section_content fs0 args 2) (section_content fs0 args 3)"
    "in_piped st' = (if keep_choice KEY_ADD event then [] else [section_content fs0 args 5])
        @ [section_content fs0 args 4]"
    using after_choice_packed [OF assms(1,2) _ assms(4), of fs "[argv0, path, devName, flag]" ?st 1
        "keep_choice KEY_ADD event"] assms(7-11) by (auto simp: sent_def step_ok_def)
  have "upgrade_main env fs (Some device) [argv0, path, devName, flag] =
      after_choice env fs [argv0, path, devName, flag] 1 (keep_choice KEY_ADD event) ?st"
    using assms(1,6,12-14)
    by (cases "strstr path ''SmartQ5''") (simp_all add: upgrade_main_def env_good_def Let_def)
  then show ?thesis using ac by metis
qed

text \<open>A device, a card and an environment for the witnesses.\<close>

definition demo_env :: up_env where
  "demo_env = \<lparr>env_screen = None, env_font_ok = True, env_keys_fd = 5,
     env_event0 = \<lparr>ev_type = 0, ev_code = 0, ev_value = 0\<rparr>, env_start_time = 100,
     env_polls = [(None, 101), (Some \<lparr>ev_type = 1, ev_code = 109, ev_value = 1\<rparr>, 102)],
     env_mem = replicate 176 0, env_sys = (\<lambda>_. 1), env_sd_opens = True,
     env_buffer = Some (replicate INAND_SIZE_PER_WRITE 0), env_sh = (\<lambda>_ d. d),
     env_blk64 = None, env_blk = Some 4000000, env_sniffer0 = [0, 0],
     env_fork_home = Parent True, env_fork_root = Parent True\<rparr>"

definition demo_device :: bytes where "demo_device = replicate 16777216 0"

definition demo_full_fs :: fsys where
  "demo_full_fs = demo_fs(''root.tgz'' \<mapsto> [0x1f, 0x8b, 1], ''home.txz'' \<mapsto> [0xfd, 0x37])"

definition demo_full_args :: "string list" where
  "demo_full_args = demo_args @ [''root.tgz'', ''home.txz'']"

definition demo_card :: "fsys \<Rightarrow> string list \<Rightarrow> fsys" where
  "demo_card fs args = [''/mnt/SmartQ5'' \<mapsto> image_of fs args MACH_TYPE_SMARTQ5 7]"

lemma demo_env_good: "env_good demo_env"
  by (simp add: env_good_def demo_env_def sizeof_FWFileHdr_def sh_keeps_firmware_def)

lemma demo_platform: "\<not> wrong_platform (env_sys demo_env) h"
  by (simp add: demo_env_def wrong_platform_def)

lemma demo_layout: "layout_fits demo_fs demo_args" "layout_fits demo_full_fs demo_full_args"
  by (simp_all add: layout_fits_def packed_def demo_args_def demo_fs_def demo_full_args_def
      demo_full_fs_def content_of_def section_content_def sizeof_FWFileHdr_def)

lemma demo_archives:
  "section_content demo_full_fs demo_full_args 4 = [0x1f, 0x8b, 1]"
  "section_content demo_full_fs demo_full_args 5 = [0xfd, 0x37]"
  by (simp_all add: section_content_def content_of_def demo_full_args_def demo_args_def demo_full_fs_def)

theorem upgrade_installs_packed_image_witness:
  "\<exists>st'. upgrade_main demo_env (demo_card demo_fs demo_args) (Some demo_device)
       [''upgrade'', ''/mnt/SmartQ5'', ''/dev/mmcblk0'', ''0''] = Some (0, st') \<and>
     region (dev st') (length (dev st') - 8388608 + 1024) 2 = [4, 5]"
proof -
  have card: "demo_card demo_fs demo_args ''/mnt/SmartQ5'' =
      Some (image_of demo_fs demo_args MACH_TYPE_SMARTQ5 7)"
    by (simp add: demo_card_def)
  have ub: "section_content demo_fs demo_args 1 = [4, 5]"
    by (simp add: section_content_def content_of_def demo_args_def demo_fs_def)
  have flag: "atoi ''0'' \<noteq> 1" and D: "16777216 \<le> length demo_device"
    by (simp_all add: demo_device_def)
  show ?thesis
    using upgrade_installs_packed_image [where fs = "demo_card demo_fs demo_args" and path = "''/mnt/SmartQ5''",
        OF demo_env_good demo_layout(1) card demo_platform D flag, of "''upgrade''" "''/dev/mmcblk0''"] ub
    by (auto simp: device_has_def numeral_2_eq_2)
qed

theorem upgrade_installs_file_systems_witness:
  "\<exists>st'. upgrade_main demo_env (demo_card demo_full_fs demo_full_args) (Some demo_device)
       [''upgrade'', ''/mnt/SmartQ5'', ''/dev/mmcblk0'', ''1''] = Some (0, st') \<and>
     in_piped st' = [[0x1f, 0x8b, 1]]"
proof -
  have card: "demo_card demo_full_fs demo_full_args ''/mnt/SmartQ5'' =
      Some (image_of demo_full_fs demo_full_args MACH_TYPE_SMARTQ5 7)"
    by (simp add: demo_card_def)
  have flag: "atoi ''1'' = 1" and D: "16777216 \<le> length demo_device"
    by (simp_all add: demo_device_def)
  have arch: "archive_content (section_content demo_full_fs demo_full_args 4)"
    "archive_content (section_content demo_full_fs demo_full_args 5)"
    by (simp_all add: demo_archives archive_content_def pick_untar_def)
  have env: "length (env_sniffer0 demo_env) = 2" "env_fork_home demo_env = Parent True"
    "env_fork_root demo_env = Parent True" "0 < env_keys_fd demo_env"
    by (simp_all add: demo_env_def)
  have key: "(109::int) = (if strstr ''/mnt/SmartQ5'' ''SmartQ5'' then 109 else 104)"
    by simp
  have wait: "wait_key 109 (213 - 109) (env_start_time demo_env) (env_start_time demo_env)
      (env_event0 demo_env) (env_polls demo_env) = Some \<lparr>ev_type = 1, ev_code = 109, ev_value = 1\<rparr>"
    by (simp add: demo_env_def wait_key.simps)
  show ?thesis
    using upgrade_installs_file_systems [where fs = "demo_card demo_full_fs demo_full_args"
        and path = "''/mnt/SmartQ5''", OF demo_env_good demo_layout(2) card demo_platform D flag
        arch env(1-4) key wait, of "''upgrade''" "''/dev/mmcblk0''"]
    by (auto simp: keep_choice_def demo_archives)
qed

text \<open>C7. A refused image leaves the device alone: when extract does not accept the file (for
  example because a header byte is damaged) and the keys can be read if they are needed, upgrade
  does not report success, runs no command but the three that switch the backlight on, and writes
  nothing to the device.\<close>

theorem upgrade_refuses:
  assumes "\<And>mem. extract_fw (env_sys env) (fs path) (env_mem env) \<noteq> Some (0, mem)"
    and "atoi flag \<noteq> 1 \<or> 0 < env_keys_fd env" "env_screen env = None" "env_font_ok env"
    and "upgrade_main env fs (Some device) [argv0, path, devName, flag] = Some (ret, st')"
  shows "ret \<noteq> 0 \<and> in_shell st' = backlight_cmds \<and>
     dev st' = dev (run_cmds env backlight_cmds (blank_installer\<lparr>in_inand := fd_open device\<rparr>))"
proof -
  let ?st = "run_cmds env backlight_cmds (blank_installer\<lparr>in_inand := fd_open device\<rparr>)"
  have shell: "in_shell (run_cmds env cs st) = in_shell st @ cs" for cs st
    by (induction cs arbitrary: st) (simp_all add: run_cmd_def)
  have "\<forall>mem. extract_fw (env_sys env) (fs path) (env_mem env) \<noteq> Some (0, mem)"
    using assms(1) by blast
  then have "after_choice env fs [argv0, path, devName, flag] lh keep ?st = Some (ret, st') \<Longrightarrow>
      ret \<noteq> 0 \<and> st' = ?st" for lh keep
    by (auto simp: after_choice_def finish_def split: option.splits if_splits)
  then show ?thesis
    using assms(2-5) shell [of backlight_cmds "blank_installer\<lparr>in_inand := fd_open device\<rparr>"]
    by (auto simp: upgrade_main_def Let_def blank_installer_def split: option.splits if_splits)
qed

theorem upgrade_refuses_witness:
  "\<exists>st'. upgrade_main demo_env Map.empty (Some [1, 2])
       [''upgrade'', ''/mnt/SmartQ5'', ''/dev/mmcblk0'', ''0''] = Some (- 1, st') \<and>
     in_shell st' = backlight_cmds"
proof -
  let ?st = "run_cmds demo_env backlight_cmds (blank_installer\<lparr>in_inand := fd_open [1, 2]\<rparr>)"
  have run: "upgrade_main demo_env Map.empty (Some [1, 2])
       [''upgrade'', ''/mnt/SmartQ5'', ''/dev/mmcblk0'', ''0''] = Some (- 1, ?st)"
    by (simp add: upgrade_main_def demo_env_def after_choice_def extract_fw_def finish_def Let_def)
  have "extract_fw (env_sys demo_env) (Map.empty ''/mnt/SmartQ5'') (env_mem demo_env) \<noteq> Some (0, mem)"
    for mem by (simp add: extract_fw_def)
  then show ?thesis
    using upgrade_refuses [OF _ _ _ _ run] run by (simp add: demo_env_def)
qed

text \<open>A failure that reports success: when the key device cannot be opened, upgrade reboots the
  machine and exits with 0, although the device has not been written and the firmware file has not
  even been looked at (the result variable still holds the 0 of open_font).\<close>

theorem upgrade_without_keys_reports_success:
  assumes "env_screen env = None" "env_font_ok env" "atoi flag = 1" "env_keys_fd env \<le> 0"
  shows "\<exists>st'. upgrade_main env fs (Some device) [argv0, path, devName, flag] = Some (0, st') \<and>
     in_shell st' = backlight_cmds @ [''reboot''] \<and> in_sd st' = fd_open []"
  using assms
  by (simp add: upgrade_main_def finish_def run_cmd_def backlight_cmds_def blank_installer_def Let_def)

theorem upgrade_without_keys_reports_success_witness:
  "\<exists>st'. upgrade_main (demo_env\<lparr>env_keys_fd := - 1\<rparr>) Map.empty (Some [1, 2])
       [''upgrade'', ''/mnt/SmartQ5'', ''/dev/mmcblk0'', ''1''] = Some (0, st') \<and>
     in_shell st' = backlight_cmds @ [''reboot'']"
  using upgrade_without_keys_reports_success
      [of "demo_env\<lparr>env_keys_fd := - 1\<rparr>" "''1''" Map.empty "[1, 2]" "''upgrade''" "''/mnt/SmartQ5''"
        "''/dev/mmcblk0''"]
  by (auto simp: demo_env_def)

lemma wait_key_Cons:
  "now - start < 60 \<Longrightarrow> wait_key A D start now event ((r, t) # polls) =
     (case r of
        Some e \<Rightarrow> if ev_type e = 1 \<and> ev_value e = 1 \<and> (ev_code e = A \<or> ev_code e = D) then Some e
                  else wait_key A D start t e polls
      | None \<Rightarrow> wait_key A D start t event polls)"
  by (subst wait_key.simps) (simp split: option.split)

text \<open>The first press of + or - within the 60 seconds decides: whatever other events (releases,
  other keys, auto-repeat) and empty polls come before it, the wait ends with that press, and the
  user's partition is kept exactly when the key was +.\<close>

theorem wait_key_first_press:
  assumes "\<forall>(r, t) \<in> set before. t - start < 60 \<and>
       (\<forall>e. r = Some e \<longrightarrow> \<not> (ev_type e = 1 \<and> ev_value e = 1 \<and> ev_code e \<in> {KEY_ADD, KEY_DEC}))"
    and "ev_type press = 1" "ev_value press = 1" "ev_code press \<in> {KEY_ADD, KEY_DEC}"
    and "now - start < 60"
  shows "wait_key KEY_ADD KEY_DEC start now event0 (before @ (Some press, t) # later) = Some press \<and>
     (keep_choice KEY_ADD press \<longleftrightarrow> ev_code press = KEY_ADD)"
  using assms
proof (induction before arbitrary: now event0)
  case Nil
  then show ?case by (auto simp: wait_key_Cons keep_choice_def)
next
  case (Cons p before)
  then show ?case
    by (cases p; cases "fst p") (auto simp: wait_key_Cons keep_choice_def)
qed

theorem wait_key_first_press_witness:
  "wait_key 109 104 100 100 \<lparr>ev_type = 0, ev_code = 0, ev_value = 0\<rparr>
     ([(None, 101), (Some \<lparr>ev_type = 1, ev_code = 104, ev_value = 0\<rparr>, 130)] @
      [(Some \<lparr>ev_type = 1, ev_code = 109, ev_value = 1\<rparr>, 131)]) =
   Some \<lparr>ev_type = 1, ev_code = 109, ev_value = 1\<rparr>"
  using wait_key_first_press
      [of "[(None, 101), (Some \<lparr>ev_type = 1, ev_code = 104, ev_value = 0\<rparr>, 130)]" 100 109 104
        "\<lparr>ev_type = 1, ev_code = 109, ev_value = 1\<rparr>" 100] by simp

text \<open>Which program unpacks an archive: the child process of loading_fs runs tar with J for
  an archive with the xz magic, and for one with the gzip magic whatever command the previous call
  left in the static variable; so a gzip archive after an xz archive is given to the xz command.\<close>

theorem untar_command_sticks:
  assumes "archive_ok (sdc st) s" "length (env_sniffer0 env) = 2" "length (in_buffer st) = INAND_SIZE_PER_WRITE"
    and "sh_keeps_firmware (env_sh env)"
  shows "\<exists>st'. loading_fs env (Child True) untar (st_file_size s) (seek_sd (st_file_offset s) st) =
      Some (0, if section_bytes (sdc st) s ! 0 = 0xfd then untar_lzma else untar, st') \<and>
    in_shell st' = in_shell st @ [if section_bytes (sdc st) s ! 0 = 0xfd then untar_lzma else untar]"
proof -
  have "pick_untar (section_bytes (sdc st) s) untar =
      Some (if section_bytes (sdc st) s ! 0 = 0xfd then untar_lzma else untar)"
    using assms(1) by (auto simp: archive_ok_def pick_untar_def split: if_splits)
  from loading_fs_ok [OF assms(1-3) _ assms(4) this, of "Child True"] show ?thesis
    by (auto simp: step_ok_def)
qed

definition demo_gzip_installer :: installer where
  "demo_gzip_installer = blank_installer\<lparr>in_sd := fd_open [0x1f, 0x8b],
     in_buffer := replicate INAND_SIZE_PER_WRITE 0\<rparr>"

definition demo_gzip_stanza :: stanza where
  "demo_gzip_stanza = zero_stanza\<lparr>st_file_size := 2, st_check_sum := 0xaa\<rparr>"

theorem untar_command_sticks_witness:
  "\<exists>st'. loading_fs demo_env (Child True) untar_lzma 2 (seek_sd 0 demo_gzip_installer) =
      Some (0, untar_lzma, st') \<and> in_shell st' = [untar_lzma]"
proof -
  have "section_bytes (sdc demo_gzip_installer) demo_gzip_stanza = [0x1f, 0x8b]"
    by (simp add: section_bytes_def demo_gzip_stanza_def demo_gzip_installer_def zero_stanza_def
        fd_open_def region_def)
  moreover have "archive_ok (sdc demo_gzip_installer) demo_gzip_stanza"
    by (simp add: archive_ok_def stanza_sound_def section_bytes_def demo_gzip_stanza_def
        demo_gzip_installer_def zero_stanza_def fd_open_def region_def pick_untar_def)
  ultimately show ?thesis
    using untar_command_sticks [of demo_gzip_installer demo_gzip_stanza demo_env untar_lzma]
    by (simp add: demo_env_def sh_keeps_firmware_def demo_gzip_installer_def demo_gzip_stanza_def
        zero_stanza_def blank_installer_def)
qed

end
