(* ===== verification/Crc32.thy ===== *)
theory Crc32
  imports Prelude
begin

section \<open>The CRC-32 of the boot loader\<close>

text \<open>
  \<^verbatim>\<open>qi/src/crc32.c\<close>: the table and the loop that is unrolled eight times.  Memory is a function
  from addresses to bytes, so that \<open>*buf++\<close> is a read at an address that moves on.  \<open>crc_spec\<close> is
  the reference: the polynomial division bit by bit.  The theorems say that the table-driven loop
  computes it, that it can be continued piece by piece, and that it notices every change of one byte.
\<close>

definition crc_table :: "u32 list" where
  "crc_table =
    [0x00000000, 0x77073096, 0xee0e612c, 0x990951ba, 0x076dc419, 0x706af48f,
     0xe963a535, 0x9e6495a3, 0x0edb8832, 0x79dcb8a4, 0xe0d5e91e, 0x97d2d988,
     0x09b64c2b, 0x7eb17cbd, 0xe7b82d07, 0x90bf1d91, 0x1db71064, 0x6ab020f2,
     0xf3b97148, 0x84be41de, 0x1adad47d, 0x6ddde4eb, 0xf4d4b551, 0x83d385c7,
     0x136c9856, 0x646ba8c0, 0xfd62f97a, 0x8a65c9ec, 0x14015c4f, 0x63066cd9,
     0xfa0f3d63, 0x8d080df5, 0x3b6e20c8, 0x4c69105e, 0xd56041e4, 0xa2677172,
     0x3c03e4d1, 0x4b04d447, 0xd20d85fd, 0xa50ab56b, 0x35b5a8fa, 0x42b2986c,
     0xdbbbc9d6, 0xacbcf940, 0x32d86ce3, 0x45df5c75, 0xdcd60dcf, 0xabd13d59,
     0x26d930ac, 0x51de003a, 0xc8d75180, 0xbfd06116, 0x21b4f4b5, 0x56b3c423,
     0xcfba9599, 0xb8bda50f, 0x2802b89e, 0x5f058808, 0xc60cd9b2, 0xb10be924,
     0x2f6f7c87, 0x58684c11, 0xc1611dab, 0xb6662d3d, 0x76dc4190, 0x01db7106,
     0x98d220bc, 0xefd5102a, 0x71b18589, 0x06b6b51f, 0x9fbfe4a5, 0xe8b8d433,
     0x7807c9a2, 0x0f00f934, 0x9609a88e, 0xe10e9818, 0x7f6a0dbb, 0x086d3d2d,
     0x91646c97, 0xe6635c01, 0x6b6b51f4, 0x1c6c6162, 0x856530d8, 0xf262004e,
     0x6c0695ed, 0x1b01a57b, 0x8208f4c1, 0xf50fc457, 0x65b0d9c6, 0x12b7e950,
     0x8bbeb8ea, 0xfcb9887c, 0x62dd1ddf, 0x15da2d49, 0x8cd37cf3, 0xfbd44c65,
     0x4db26158, 0x3ab551ce, 0xa3bc0074, 0xd4bb30e2, 0x4adfa541, 0x3dd895d7,
     0xa4d1c46d, 0xd3d6f4fb, 0x4369e96a, 0x346ed9fc, 0xad678846, 0xda60b8d0,
     0x44042d73, 0x33031de5, 0xaa0a4c5f, 0xdd0d7cc9, 0x5005713c, 0x270241aa,
     0xbe0b1010, 0xc90c2086, 0x5768b525, 0x206f85b3, 0xb966d409, 0xce61e49f,
     0x5edef90e, 0x29d9c998, 0xb0d09822, 0xc7d7a8b4, 0x59b33d17, 0x2eb40d81,
     0xb7bd5c3b, 0xc0ba6cad, 0xedb88320, 0x9abfb3b6, 0x03b6e20c, 0x74b1d29a,
     0xead54739, 0x9dd277af, 0x04db2615, 0x73dc1683, 0xe3630b12, 0x94643b84,
     0x0d6d6a3e, 0x7a6a5aa8, 0xe40ecf0b, 0x9309ff9d, 0x0a00ae27, 0x7d079eb1,
     0xf00f9344, 0x8708a3d2, 0x1e01f268, 0x6906c2fe, 0xf762575d, 0x806567cb,
     0x196c3671, 0x6e6b06e7, 0xfed41b76, 0x89d32be0, 0x10da7a5a, 0x67dd4acc,
     0xf9b9df6f, 0x8ebeeff9, 0x17b7be43, 0x60b08ed5, 0xd6d6a3e8, 0xa1d1937e,
     0x38d8c2c4, 0x4fdff252, 0xd1bb67f1, 0xa6bc5767, 0x3fb506dd, 0x48b2364b,
     0xd80d2bda, 0xaf0a1b4c, 0x36034af6, 0x41047a60, 0xdf60efc3, 0xa867df55,
     0x316e8eef, 0x4669be79, 0xcb61b38c, 0xbc66831a, 0x256fd2a0, 0x5268e236,
     0xcc0c7795, 0xbb0b4703, 0x220216b9, 0x5505262f, 0xc5ba3bbe, 0xb2bd0b28,
     0x2bb45a92, 0x5cb36a04, 0xc2d7ffa7, 0xb5d0cf31, 0x2cd99e8b, 0x5bdeae1d,
     0x9b64c2b0, 0xec63f226, 0x756aa39c, 0x026d930a, 0x9c0906a9, 0xeb0e363f,
     0x72076785, 0x05005713, 0x95bf4a82, 0xe2b87a14, 0x7bb12bae, 0x0cb61b38,
     0x92d28e9b, 0xe5d5be0d, 0x7cdcefb7, 0x0bdbdf21, 0x86d3d2d4, 0xf1d4e242,
     0x68ddb3f8, 0x1fda836e, 0x81be16cd, 0xf6b9265b, 0x6fb077e1, 0x18b74777,
     0x88085ae6, 0xff0f6a70, 0x66063bca, 0x11010b5c, 0x8f659eff, 0xf862ae69,
     0x616bffd3, 0x166ccf45, 0xa00ae278, 0xd70dd2ee, 0x4e048354, 0x3903b3c2,
     0xa7672661, 0xd06016f7, 0x4969474d, 0x3e6e77db, 0xaed16a4a, 0xd9d65adc,
     0x40df0b66, 0x37d83bf0, 0xa9bcae53, 0xdebb9ec5, 0x47b2cf7f, 0x30b5ffe9,
     0xbdbdf21c, 0xcabac28a, 0x53b39330, 0x24b4a3a6, 0xbad03605, 0xcdd70693,
     0x54de5729, 0x23d967bf, 0xb3667a2e, 0xc4614ab8, 0x5d681b02, 0x2a6f2b94,
     0xb40bbe37, 0xc30c8ea1, 0x5a05df1b, 0x2d02ef8d]"

definition DO1 :: "(nat \<Rightarrow> u8) \<Rightarrow> u32 \<times> nat \<Rightarrow> u32 \<times> nat" where
  "DO1 mem s = (case s of (crc, buf) \<Rightarrow>
     (crc_table ! unat ((crc XOR ucast (mem buf)) AND 0xff) XOR drop_bit 8 crc, buf + 1))"

definition DO2 :: "(nat \<Rightarrow> u8) \<Rightarrow> u32 \<times> nat \<Rightarrow> u32 \<times> nat" where
  "DO2 mem s = DO1 mem (DO1 mem s)"

definition DO4 :: "(nat \<Rightarrow> u8) \<Rightarrow> u32 \<times> nat \<Rightarrow> u32 \<times> nat" where
  "DO4 mem s = DO2 mem (DO2 mem s)"

definition DO8 :: "(nat \<Rightarrow> u8) \<Rightarrow> u32 \<times> nat \<Rightarrow> u32 \<times> nat" where
  "DO8 mem s = DO4 mem (DO4 mem s)"

text \<open>\<open>do { DO1(buf); } while (--len);\<close> runs once more than the test succeeds.\<close>

fun crc32_tail :: "(nat \<Rightarrow> u8) \<Rightarrow> u32 \<times> nat \<Rightarrow> nat \<Rightarrow> u32 \<times> nat" where
  "crc32_tail mem s len =
     (let s = DO1 mem s; len = len - 1 in if len \<noteq> 0 then crc32_tail mem s len else s)"

fun crc32_loop :: "(nat \<Rightarrow> u8) \<Rightarrow> u32 \<times> nat \<Rightarrow> nat \<Rightarrow> u32 \<times> nat" where
  "crc32_loop mem s len =
     (if 8 \<le> len then crc32_loop mem (DO8 mem s) (len - 8)
      else if len \<noteq> 0 then crc32_tail mem s len else s)"

declare crc32_tail.simps [simp del] crc32_loop.simps [simp del]

definition crc32 :: "(nat \<Rightarrow> u8) \<Rightarrow> u32 \<Rightarrow> nat \<Rightarrow> nat \<Rightarrow> u32" where
  "crc32 mem crc buf len = fst (crc32_loop mem (crc XOR 0xffffffff, buf) len) XOR 0xffffffff"

subsection \<open>The reference\<close>

definition crc_bit :: "u32 \<Rightarrow> u32" where
  "crc_bit c = (if bit c 0 then drop_bit 1 c XOR 0xedb88320 else drop_bit 1 c)"

definition crc_bits8 :: "u32 \<Rightarrow> u32" where
  "crc_bits8 c = crc_bit (crc_bit (crc_bit (crc_bit (crc_bit (crc_bit (crc_bit (crc_bit c)))))))"

definition crc_byte :: "u32 \<Rightarrow> u8 \<Rightarrow> u32" where
  "crc_byte c b = crc_bits8 (c XOR ucast b)"

definition crc_spec :: "u32 \<Rightarrow> bytes \<Rightarrow> u32" where
  "crc_spec crc bs = foldl crc_byte (crc XOR 0xffffffff) bs XOR 0xffffffff"

subsection \<open>The table holds the remainders\<close>

lemma crc_table_length [simp]: "length crc_table = 256"
  by (simp add: crc_table_def)

text \<open>The 256 entries, 32 at a time.\<close>

lemma crc_entries_0:
  "map crc_bits8 [0, 1, 2, 3, 4, 5, 6, 7, 8, 9, 10, 11, 12, 13, 14, 15, 16, 17, 18, 19, 20, 21, 22, 23, 24,
     25, 26, 27, 28, 29, 30, 31] =
   region crc_table 0 32"
  by (simp add: crc_bits8_def crc_bit_def crc_table_def region_def)

lemma crc_entries_1:
  "map crc_bits8 [32, 33, 34, 35, 36, 37, 38, 39, 40, 41, 42, 43, 44, 45, 46, 47, 48, 49, 50, 51, 52, 53, 54,
     55, 56, 57, 58, 59, 60, 61, 62, 63] =
   region crc_table 32 32"
  by (simp add: crc_bits8_def crc_bit_def crc_table_def region_def)

lemma crc_entries_2:
  "map crc_bits8 [64, 65, 66, 67, 68, 69, 70, 71, 72, 73, 74, 75, 76, 77, 78, 79, 80, 81, 82, 83, 84, 85, 86,
     87, 88, 89, 90, 91, 92, 93, 94, 95] =
   region crc_table 64 32"
  by (simp add: crc_bits8_def crc_bit_def crc_table_def region_def)

lemma crc_entries_3:
  "map crc_bits8 [96, 97, 98, 99, 100, 101, 102, 103, 104, 105, 106, 107, 108, 109, 110, 111, 112, 113, 114,
     115, 116, 117, 118, 119, 120, 121, 122, 123, 124, 125, 126, 127] =
   region crc_table 96 32"
  by (simp add: crc_bits8_def crc_bit_def crc_table_def region_def)

lemma crc_entries_4:
  "map crc_bits8 [128, 129, 130, 131, 132, 133, 134, 135, 136, 137, 138, 139, 140, 141, 142, 143, 144, 145,
     146, 147, 148, 149, 150, 151, 152, 153, 154, 155, 156, 157, 158, 159] =
   region crc_table 128 32"
  by (simp add: crc_bits8_def crc_bit_def crc_table_def region_def)

lemma crc_entries_5:
  "map crc_bits8 [160, 161, 162, 163, 164, 165, 166, 167, 168, 169, 170, 171, 172, 173, 174, 175, 176, 177,
     178, 179, 180, 181, 182, 183, 184, 185, 186, 187, 188, 189, 190, 191] =
   region crc_table 160 32"
  by (simp add: crc_bits8_def crc_bit_def crc_table_def region_def)

lemma crc_entries_6:
  "map crc_bits8 [192, 193, 194, 195, 196, 197, 198, 199, 200, 201, 202, 203, 204, 205, 206, 207, 208, 209,
     210, 211, 212, 213, 214, 215, 216, 217, 218, 219, 220, 221, 222, 223] =
   region crc_table 192 32"
  by (simp add: crc_bits8_def crc_bit_def crc_table_def region_def)

lemma crc_entries_7:
  "map crc_bits8 [224, 225, 226, 227, 228, 229, 230, 231, 232, 233, 234, 235, 236, 237, 238, 239, 240, 241,
     242, 243, 244, 245, 246, 247, 248, 249, 250, 251, 252, 253, 254, 255] =
   region crc_table 224 32"
  by (simp add: crc_bits8_def crc_bit_def crc_table_def region_def)

lemma crc_table_nth:
  assumes "i < 256"
  shows "crc_table ! i = crc_bits8 (word_of_nat i)"
proof -
  have regions: "region crc_table (32 * k) 32 = map (\<lambda>j. crc_bits8 (word_of_nat (32 * k + j))) [0..<32]"
    if "k < 8" for k
  proof -
    have "k \<in> {0, 1, 2, 3, 4, 5, 6, 7}" using that by auto
    then show ?thesis
      using crc_entries_0 crc_entries_1 crc_entries_2 crc_entries_3 crc_entries_4 crc_entries_5
        crc_entries_6 crc_entries_7 by (auto simp: upt_rec)
  qed
  let ?k = "i div 32" and ?j = "i mod 32"
  have "?k < 8" using assms by (simp add: div_less_iff_less_mult)
  have "region crc_table (32 * ?k) 32 ! ?j = crc_table ! (32 * ?k + ?j)"
    using assms by (intro nth_region) simp_all
  moreover have "32 * word_of_nat ?k + word_of_nat ?j = (word_of_nat i :: u32)"
    by (metis mult_div_mod_eq of_nat_add of_nat_mult of_nat_numeral)
  ultimately show ?thesis
    using regions [OF \<open>?k < 8\<close>] by simp
qed

lemma crc_bit_xor: "crc_bit (a XOR b) = crc_bit a XOR crc_bit b"
  by (auto simp: crc_bit_def bit_xor_iff xor.assoc xor.left_commute xor.commute)

lemma crc_bits8_xor: "crc_bits8 (a XOR b) = crc_bits8 a XOR crc_bits8 b"
  by (simp add: crc_bits8_def crc_bit_xor)

subsection \<open>One byte through the table\<close>

lemma crc_bit_shift:
  assumes "\<not> bit c 0"
  shows "crc_bit c = drop_bit 1 c"
  using assms by (simp add: crc_bit_def)

lemma crc_bits8_high:
  assumes "c AND 0xff = 0"
  shows "crc_bits8 c = drop_bit 8 c"
proof -
  have z: "\<not> bit (drop_bit k c) 0" if "k < 8" for k
  proof -
    have "\<not> bit (c AND mask 8) k" using assms by (simp add: mask_eq_exp_minus_1)
    then show ?thesis using that by (simp add: bit_simps)
  qed
  have step: "crc_bit (drop_bit k c) = drop_bit (Suc k) c" if "k < 8" for k
    using crc_bit_shift [OF z [OF that]] by simp
  have "crc_bits8 (drop_bit 0 c) = drop_bit (Suc (Suc (Suc (Suc (Suc (Suc (Suc (Suc 0)))))))) c"
    unfolding crc_bits8_def by (simp only: step)
  then show ?thesis by (simp add: eval_nat_numeral)
qed

lemma low_high_split: "(c AND 0xff) XOR (c AND NOT 0xff) = (c :: u32)"
  by (rule bit_word_eqI) (auto simp: bit_simps)

lemma table_step: "crc_table ! unat (x AND 0xff) XOR drop_bit 8 x = crc_bits8 x"
proof -
  have "x AND 0xff = take_bit 8 x"
    by (simp add: take_bit_eq_mask mask_eq_exp_minus_1)
  then have small: "unat (x AND 0xff) < 256"
    using take_bit_nat_less_exp [of 8 "unat x"] by (simp add: unsigned_take_bit_eq)
  have "crc_bits8 x = crc_bits8 (x AND 0xff) XOR crc_bits8 (x AND NOT 0xff)"
    by (simp only: low_high_split flip: crc_bits8_xor)
  moreover have "crc_bits8 (x AND 0xff) = crc_table ! unat (x AND 0xff)"
    using crc_table_nth [OF small] by (simp add: of_nat_unat)
  moreover have "crc_bits8 (x AND NOT 0xff) = drop_bit 8 x"
  proof -
    have m: "(0xff :: u32) = mask 8" by (simp add: mask_eq_exp_minus_1)
    have "drop_bit 8 (x AND NOT 0xff) = drop_bit 8 x"
      unfolding m by (rule bit_word_eqI) (auto simp: bit_simps dest: bit_imp_le_length)
    then show ?thesis by (simp add: crc_bits8_high and.assoc)
  qed
  ultimately show ?thesis by simp
qed

subsection \<open>The loops\<close>

definition crc_run :: "(nat \<Rightarrow> u8) \<Rightarrow> u32 \<times> nat \<Rightarrow> nat \<Rightarrow> u32 \<times> nat" where
  "crc_run mem s n = (foldl crc_byte (fst s) (map (\<lambda>i. mem (snd s + i)) [0..<n]), snd s + n)"

lemma crc_run_0 [simp]: "crc_run mem s 0 = s"
  by (simp add: crc_run_def)

lemma crc_run_add: "crc_run mem (crc_run mem s m) n = crc_run mem s (m + n)"
proof -
  have "map (\<lambda>i. mem (a + m + i)) [0..<n] = map (\<lambda>i. mem (a + i)) [m..<m + n]" for a
    by (rule nth_equalityI) (simp_all add: add.assoc)
  then show ?thesis
    using upt_add_eq_append [of 0 m n] by (simp add: crc_run_def add.assoc)
qed

lemma DO1_run: "DO1 mem s = crc_run mem s 1"
proof -
  have "drop_bit 8 (c XOR ucast b) = drop_bit 8 c" for c :: u32 and b :: u8
    by (rule bit_word_eqI) (auto simp: bit_simps dest: bit_imp_le_length)
  then show ?thesis
    using table_step [of "fst s XOR ucast (mem (snd s))"]
    by (cases s) (simp add: DO1_def crc_run_def crc_byte_def)
qed

lemma DO8_run: "DO8 mem s = crc_run mem s 8"
  by (simp add: DO8_def DO4_def DO2_def DO1_run crc_run_add eval_nat_numeral)

lemma crc32_tail_run: "0 < len \<Longrightarrow> crc32_tail mem s len = crc_run mem s len"
proof (induction mem s len rule: crc32_tail.induct)
  case (1 mem s len)
  then show ?case
    by (cases "len = 1"; subst crc32_tail.simps) (auto simp: DO1_run crc_run_add Let_def)
qed

lemma crc32_loop_run: "crc32_loop mem s len = crc_run mem s len"
proof (induction mem s len rule: crc32_loop.induct)
  case (1 mem s len)
  then show ?case
    by (subst crc32_loop.simps) (auto simp: DO8_run crc_run_add crc32_tail_run)
qed

subsection \<open>Sensitivity to a changed byte\<close>

lemma crc_bit_inj: "crc_bit a = crc_bit b \<Longrightarrow> a = b"
proof (rule bit_word_eqI)
  fix n :: nat
  assume eq: "crc_bit a = crc_bit b" and n: "n < LENGTH(32)"
  have top: "bit (crc_bit c) 31 = bit c 0" for c
    using bit_imp_le_length [of c 32] by (auto simp: crc_bit_def bit_simps)
  have rest: "bit (crc_bit c) n = (bit c (Suc n) \<noteq> (bit c 0 \<and> bit (0xedb88320 :: u32) n))" for c n
    by (simp add: crc_bit_def bit_simps)
  show "bit a n = bit b n"
    using eq n rest [of a "n - 1"] rest [of b "n - 1"] top [of a] top [of b] by (cases n) auto
qed

lemma crc_bits8_inj: "crc_bits8 a = crc_bits8 b \<Longrightarrow> a = b"
  unfolding crc_bits8_def by (drule crc_bit_inj)+

lemma xor_cancel: "a XOR c = b XOR c \<longleftrightarrow> a = (b :: u32)" "c XOR a = c XOR b \<longleftrightarrow> a = b"
  by (auto simp: bit_eq_iff bit_xor_iff)

lemma crc_byte_inj: "crc_byte a x = crc_byte b x \<Longrightarrow> a = b"
  unfolding crc_byte_def by (drule crc_bits8_inj) (simp only: xor_cancel)

lemma crc_byte_byte_inj: "crc_byte c x = crc_byte c y \<Longrightarrow> x = y"
proof -
  assume "crc_byte c x = crc_byte c y"
  then have "c XOR ucast x = c XOR ucast y"
    unfolding crc_byte_def by (rule crc_bits8_inj)
  then have "(ucast x :: u32) = ucast y" by (simp only: xor_cancel)
  then show ?thesis by (rule ucast_8_32_inj)
qed

lemma crc_fold_inj: "foldl crc_byte a bs = foldl crc_byte b bs \<Longrightarrow> a = b"
  by (induction bs arbitrary: a b) (auto dest: crc_byte_inj)

subsection \<open>Properties\<close>

abbreviation mem_bytes :: "(nat \<Rightarrow> u8) \<Rightarrow> nat \<Rightarrow> nat \<Rightarrow> bytes" where
  "mem_bytes mem p n \<equiv> map (\<lambda>i. mem (p + i)) [0..<n]"

lemma mem_bytes_add: "mem_bytes f p (m + n) = mem_bytes f p m @ mem_bytes f (p + m) n"
  by (rule nth_equalityI) (auto simp: nth_append)

lemma crc32_spec: "crc32 mem crc buf len = crc_spec crc (mem_bytes mem buf len)"
  by (simp add: crc32_def crc32_loop_run crc_run_def crc_spec_def)

text \<open>C9. The table-driven, eight-fold unrolled CRC of the boot loader is the CRC-32: for every
  memory, start value, address and length it equals the bit-by-bit polynomial division, and
  checking a region in two pieces, the second started with the result of the first, gives the CRC
  of the whole.\<close>

theorem crc32_is_reference:
  "crc32 mem crc buf len = crc_spec crc (mem_bytes mem buf len) \<and>
   crc32 mem (crc32 mem crc buf m) (buf + m) n = crc32 mem crc buf (m + n)"
  by (simp add: crc32_spec crc_spec_def xor.assoc mem_bytes_add)

text \<open>C10. The kernel check cannot miss a damaged byte: two images of the same length that differ in
  exactly one byte have different CRCs.\<close>

theorem crc32_detects_byte:
  assumes "k < len" "mem' (buf + k) \<noteq> mem (buf + k)" "\<forall>i. i \<noteq> buf + k \<longrightarrow> mem' i = mem i"
  shows "crc32 mem' crc buf len \<noteq> crc32 mem crc buf len"
proof -
  have split: "mem_bytes f buf len = mem_bytes f buf k @ f (buf + k) # mem_bytes f (buf + Suc k) (len - Suc k)"
    for f :: "nat \<Rightarrow> u8"
  proof -
    have "len = k + Suc (len - Suc k)" using assms(1) by simp
    then have "mem_bytes f buf len = mem_bytes f buf k @ mem_bytes f (buf + k) (Suc (len - Suc k))"
      using mem_bytes_add [of f buf k "Suc (len - Suc k)"] by simp
    then show ?thesis by (simp add: upt_conv_Cons map_Suc_upt [symmetric] del: upt_Suc)
  qed
  have same: "mem_bytes mem' buf k = mem_bytes mem buf k"
    "mem_bytes mem' (buf + Suc k) (len - Suc k) = mem_bytes mem (buf + Suc k) (len - Suc k)"
    using assms(3) by auto
  show ?thesis
    using assms(2) unfolding crc32_spec crc_spec_def split same
    by (auto simp: xor_cancel dest!: crc_fold_inj crc_byte_byte_inj)
qed

theorem crc32_detects_byte_witness:
  "crc32 (\<lambda>i. if i = 9 then 1 else 0) 0 4 11 \<noteq> crc32 (\<lambda>_. 0) 0 4 11"
  by (rule crc32_detects_byte [where k = 5]) simp_all

end
