(* ===== verification/Ext2_Dev.thy ===== *)
theory Ext2_Dev
  imports Prelude
begin

section \<open>Reading a piece of the partition\<close>

text \<open>
  \<^verbatim>\<open>qi/src/fs/dev.c\<close>: \<open>ext2fs_devread\<close> reads any piece of the partition by whole 512-byte sectors
  of the block device, with one sector buffered at an unaligned start and end.  The device driver
  (\<open>this_kernel->block_read\<close>), the limits of the partition and whether the board has keys are the
  record \<open>dev_env\<close>; the key samples are a list that each call with keys consumes one of.  The
  destination is a buffer and an offset in it.  None is a write past the buffer, or a negative
  length given to \<open>memcpy\<close>; the messages are not modelled.  The locale \<open>partition_reader\<close> is the
  contract that \<^verbatim>\<open>ext2.c\<close> relies on.
\<close>

definition SECTOR_SIZE :: int where "SECTOR_SIZE = 512"

record dev_env =
  dv_block_read :: "int \<Rightarrow> int \<Rightarrow> int \<times> bytes"
  dv_part_offset :: int
  dv_part_length :: int
  dv_has_keys :: bool
  dv_junk :: u8

text \<open>Writing into a C buffer.\<close>

definition wr :: "bytes \<Rightarrow> nat \<Rightarrow> bytes \<Rightarrow> bytes option" where
  "wr buf off bs = (if off + length bs \<le> length buf then Some (patch buf off bs) else None)"

text \<open>\<open>sec_buf\<close> after a read of one sector: what the driver stored, then what was on the stack.\<close>

definition sector_buffer :: "dev_env \<Rightarrow> bytes \<Rightarrow> bytes" where
  "sector_buffer env bs = take 512 (bs @ replicate 512 (dv_junk env))"

definition copy_sector :: "dev_env \<Rightarrow> bytes \<Rightarrow> nat \<Rightarrow> bytes \<Rightarrow> int \<Rightarrow> int \<Rightarrow> bytes option" where
  "copy_sector env buf off bs from n =
     (if n < 0 then None else wr buf off (region (sector_buffer env bs) (nat from) (nat n)))"

definition devread_aligned ::
  "dev_env \<Rightarrow> int \<Rightarrow> int \<Rightarrow> bytes \<Rightarrow> nat \<Rightarrow> (int \<times> bytes) option" where
  "devread_aligned env sector byte_len buf off =
     (let at = (\<lambda>s. u32_of (dv_part_offset env + s));
          block_len = u32_of (byte_len - byte_len mod SECTOR_SIZE)
      in if block_len = 0
         then map_option (\<lambda>buf. (1, buf))
                (copy_sector env buf off (snd (dv_block_read env (at sector) 1)) 0 byte_len)
         else
           let r = dv_block_read env (at sector) (block_len div SECTOR_SIZE) in
           case wr buf off (snd r) of
             None \<Rightarrow> None
           | Some buf \<Rightarrow>
               if fst r < 0 then Some (0, buf)
               else
                 let off = off + nat block_len;
                     byte_len = s32 (byte_len - block_len);
                     sector = s32 (sector + block_len div SECTOR_SIZE)
                 in if byte_len = 0 then Some (1, buf)
                    else
                      let r = dv_block_read env (at sector) 1 in
                      if fst r \<noteq> 1 then Some (0, buf)
                      else map_option (\<lambda>buf. (1, buf)) (copy_sector env buf off (snd r) 0 byte_len))"

definition ext2fs_devread ::
  "dev_env \<Rightarrow> int \<Rightarrow> int \<Rightarrow> int \<Rightarrow> int \<Rightarrow> bytes \<Rightarrow> nat \<Rightarrow> bool list \<Rightarrow> (int \<times> bytes \<times> bool list) option" where
  "ext2fs_devread env sector filesystem_block_log2 byte_offset byte_len buf off keys =
     (let sector = s32 (sector * 2 ^ nat filesystem_block_log2) in
      if sector < 0 \<or> dv_part_length env \<le>
           u32_of (s32 (sector + s32 (byte_offset + byte_len - 1) div SECTOR_SIZE))
      then Some (0, buf, keys)
      else
        let skip = dv_has_keys env \<and> keys \<noteq> [] \<and> hd keys;
            keys = (if dv_has_keys env then tl keys else keys)
        in if skip then Some (0, buf, keys)
           else
             let sector = s32 (sector + byte_offset div SECTOR_SIZE);
                 byte_offset = byte_offset mod SECTOR_SIZE
             in if byte_offset \<noteq> 0
                then
                  let minimum = min byte_len (SECTOR_SIZE - byte_offset);
                      r = dv_block_read env (u32_of (dv_part_offset env + sector)) 1
                  in if fst r < 0 then Some (0, buf, keys)
                     else case copy_sector env buf off (snd r) byte_offset minimum of
                       None \<Rightarrow> None
                     | Some buf \<Rightarrow>
                         if byte_len - minimum = 0 then Some (1, buf, keys)
                         else map_option (\<lambda>(s, buf). (s, buf, keys))
                                (devread_aligned env (s32 (sector + 1)) (byte_len - minimum) buf
                                   (off + nat minimum))
                else if byte_len = 0 then Some (1, buf, keys)
                else map_option (\<lambda>(s, buf). (s, buf, keys))
                       (devread_aligned env sector byte_len buf off))"

subsection \<open>A driver that reads what is there\<close>

definition dev_sector :: "dev_env \<Rightarrow> nat \<Rightarrow> bytes" where
  "dev_sector env i = snd (dv_block_read env (dv_part_offset env + int i) 1)"

text \<open>The content of the partition.\<close>

definition part_content :: "dev_env \<Rightarrow> bytes" where
  "part_content env = concat (map (dev_sector env) [0..<nat (dv_part_length env)])"

definition driver_ok :: "dev_env \<Rightarrow> bool" where
  "driver_ok env \<longleftrightarrow> 0 \<le> dv_part_offset env \<and> 0 \<le> dv_part_length env \<and>
     dv_part_length env < 2147483648 \<and> dv_part_offset env + dv_part_length env < 4294967296 \<and>
     (\<forall>s n. s + n \<le> nat (dv_part_length env) \<longrightarrow> 0 < n \<longrightarrow>
        dv_block_read env (dv_part_offset env + int s) (int n) =
          (int n, concat (map (dev_sector env) [s..<s + n]))) \<and>
     (\<forall>s. s < nat (dv_part_length env) \<longrightarrow> length (dev_sector env s) = 512)"

lemma concat_uniform:
  "(\<And>x. x \<in> set xs \<Longrightarrow> length (f x) = k) \<Longrightarrow> length (concat (map f xs)) = k * length xs"
  by (induction xs) auto

lemma length_part_content: "driver_ok env \<Longrightarrow> length (part_content env) = 512 * nat (dv_part_length env)"
  using concat_uniform [of "[0..<nat (dv_part_length env)]" "dev_sector env" 512]
  by (simp add: part_content_def driver_ok_def)

lemma sectors_region:
  assumes "driver_ok env" "s + n \<le> nat (dv_part_length env)"
  shows "concat (map (dev_sector env) [s..<s + n]) = region (part_content env) (512 * s) (512 * n)"
proof -
  let ?L = "nat (dv_part_length env)" and ?f = "dev_sector env"
  have "[0..<?L] = [0..<s] @ [s..<s + n] @ [s + n..<?L]"
    using assms(2) upt_add_eq_append [of 0 s "?L - s"] upt_add_eq_append [of s "s + n" "?L - (s + n)"]
    by simp
  then have "part_content env = concat (map ?f [0..<s]) @ concat (map ?f [s..<s + n])
      @ concat (map ?f [s + n..<?L])"
    unfolding part_content_def by (simp only: map_append concat_append)
  moreover have "length (concat (map ?f [0..<s])) = 512 * s" "length (concat (map ?f [s..<s + n])) = 512 * n"
    using assms concat_uniform [of "[0..<s]" ?f 512] concat_uniform [of "[s..<s + n]" ?f 512]
    by (simp_all add: driver_ok_def)
  ultimately show ?thesis by (simp add: region_def)
qed

lemma block_read_ok:
  assumes "driver_ok env" "s + n \<le> nat (dv_part_length env)" "0 < n"
  shows "dv_block_read env (u32_of (dv_part_offset env + int s)) (int n) =
         (int n, region (part_content env) (512 * s) (512 * n))"
proof -
  have "u32_of (dv_part_offset env + int s) = dv_part_offset env + int s"
    using assms by (intro u32_of_id) (auto simp: driver_ok_def)
  then show ?thesis
    using assms sectors_region [OF assms(1,2)] by (simp add: driver_ok_def)
qed

subsection \<open>The read is exact\<close>

lemma copy_sector_ok:
  assumes "length bs = 512" "from + n \<le> 512" "off + n \<le> length buf"
  shows "copy_sector env buf off bs (int from) (int n) = Some (patch buf off (region bs from n))"
  using assms by (simp add: copy_sector_def sector_buffer_def wr_def)

lemma wr_ok: "off + length bs \<le> length buf \<Longrightarrow> wr buf off bs = Some (patch buf off bs)"
  by (simp add: wr_def)

lemma region_of_region:
  "m + k \<le> n \<Longrightarrow> region (region xs pos n) m k = region xs (pos + m) k"
  by (rule region_region)

lemma devread_aligned_ok:
  assumes env: "driver_ok env" and len: "0 < n" "n < 2147483648"
    and inp: "512 * s + n \<le> 512 * nat (dv_part_length env)" and room: "off + n \<le> length buf"
  shows "devread_aligned env (int s) (int n) buf off =
         Some (1, patch buf off (region (part_content env) (512 * s) n))"
proof -
  let ?L = "nat (dv_part_length env)" and ?c = "part_content env"
  let ?q = "n div 512" and ?r = "n mod 512"
  have n: "n = 512 * ?q + ?r" by simp
  have L: "?L < 2147483648" using env by (auto simp: driver_ok_def)
  have block_len: "u32_of (int n - int n mod SECTOR_SIZE) = int (512 * ?q)"
  proof -
    have "int n - int n mod 512 = int (512 * ?q)"
      using minus_mod_eq_mult_div [of "int n" 512] by (simp add: zdiv_int)
    then show ?thesis using len by (simp add: SECTOR_SIZE_def)
  qed
  have clen: "length ?c = 512 * ?L" by (rule length_part_content [OF env])
  show ?thesis
  proof (cases "?q = 0")
    case True
    then have r: "?r = n" "n < 512" by simp_all
    then have "s + 1 \<le> ?L" using inp len(1) by linarith
    then have "dv_block_read env (u32_of (dv_part_offset env + int s)) 1 = (1, region ?c (512 * s) 512)"
      "length (region ?c (512 * s) 512) = 512"
      using block_read_ok [OF env, of s 1] clen by simp_all
    then show ?thesis
      using True r room copy_sector_ok [of "region ?c (512 * s) 512" 0 n off buf env] block_len
      by (simp add: devread_aligned_def Let_def region_region)
  next
    case False
    have q: "s + ?q \<le> ?L" using inp by linarith
    have nz: "int (512 * ?q) \<noteq> 0" using False by simp
    let ?w = "region ?c (512 * s) (512 * ?q)"
    have rd: "dv_block_read env (u32_of (dv_part_offset env + int s)) (int (512 * ?q) div SECTOR_SIZE) =
        (int ?q, ?w)"
      using block_read_ok [OF env q] False by (simp add: SECTOR_SIZE_def)
    have wlen: "length ?w = 512 * ?q" using clen q by (intro length_region_fits) simp
    have w: "wr buf off ?w = Some (patch buf off ?w)"
      using room wlen n by (intro wr_ok) linarith
    have plen: "length (patch buf off ?w) = length buf" using room wlen n by (intro length_patch) linarith
    have left: "s32 (int n - int (512 * ?q)) = int ?r"
    proof -
      have "int n - int (512 * ?q) = int ?r" by (metis add_diff_cancel_left' n of_nat_add)
      then show ?thesis by simp
    qed
    have sec: "s32 (int s + int (512 * ?q) div SECTOR_SIZE) = int (s + ?q)"
    proof -
      have "int s + int ?q < 2147483648" using q L by linarith
      then show ?thesis by (simp add: SECTOR_SIZE_def)
    qed
    show ?thesis
    proof (cases "?r = 0")
      case True
      then have "?w = region ?c (512 * s) n" using n by simp
      then show ?thesis
        using True rd w left block_len nz
        unfolding devread_aligned_def Let_def by simp
    next
      case False
      then have "s + ?q + 1 \<le> ?L" using inp n by linarith
      then have rd2: "dv_block_read env (u32_of (dv_part_offset env + int (s + ?q))) 1 =
          (1, region ?c (512 * (s + ?q)) 512)" "length (region ?c (512 * (s + ?q)) 512) = 512"
        using block_read_ok [OF env, of "s + ?q" 1] clen by simp_all
      let ?t = "region ?c (512 * s + 512 * ?q) ?r"
      have cp: "copy_sector env (patch buf off ?w) (off + 512 * ?q) (region ?c (512 * (s + ?q)) 512) 0 (int ?r) =
          Some (patch (patch buf off ?w) (off + 512 * ?q) ?t)"
        using copy_sector_ok [of "region ?c (512 * (s + ?q)) 512" 0 ?r "off + 512 * ?q"
            "patch buf off ?w" env] rd2(2) plen room n by (simp add: region_region distrib_left)
      have "region ?c (512 * s) n = ?w @ ?t"
        using region_append_split [of ?c "512 * s" "512 * ?q" ?r] n by simp
      moreover have "length ?t = ?r" using clen inp n by (intro length_region_fits) linarith
      ultimately have "patch (patch buf off ?w) (off + 512 * ?q) ?t = patch buf off (region ?c (512 * s) n)"
        using patch_patch_adjacent [of off ?w ?t buf] wlen room n by simp
      then show ?thesis
        using False rd w left sec rd2(1) cp block_len nz
        unfolding devread_aligned_def Let_def by (simp add: nat_mult_distrib)
    qed
  qed
qed

definition quiet :: "dev_env \<Rightarrow> bool list \<Rightarrow> bool" where
  "quiet env keys \<longleftrightarrow> dv_has_keys env \<longrightarrow> True \<notin> set keys"

lemma ext2fs_devread_ok:
  assumes env: "driver_ok env" and q: "quiet env keys"
    and S: "0 \<le> sector" "sector * 2 ^ nat log2 < 2147483648"
    and len: "0 < n" "boff + n < 2147483648"
    and inp: "512 * nat (sector * 2 ^ nat log2) + boff + n \<le> length (part_content env)"
    and room: "off + n \<le> length buf"
  shows "\<exists>keys'. ext2fs_devread env sector log2 (int boff) (int n) buf off keys =
      Some (1, patch buf off (region (part_content env) (512 * nat (sector * 2 ^ nat log2) + boff) n), keys')
      \<and> quiet env keys'"
proof -
  let ?c = "part_content env" and ?L = "nat (dv_part_length env)"
  define s where "s = nat (sector * 2 ^ nat log2)"
  have s: "sector * 2 ^ nat log2 = int s" using S(1) by (simp add: s_def)
  have sb: "s < 2147483648" using S s by simp
  have clen: "length ?c = 512 * ?L" by (rule length_part_content [OF env])
  have L: "?L < 2147483648" using env by (auto simp: driver_ok_def)
  have inp': "512 * s + boff + n \<le> 512 * ?L" using inp clen by (simp add: s_def)
  have last: "s + (boff + n - 1) div 512 < ?L"
    using inp' len(1) by linarith
  have bound: "u32_of (s32 (s32 (int s) + s32 (int boff + int n - 1) div SECTOR_SIZE)) =
      int (s + (boff + n - 1) div 512)"
  proof -
    have e: "int boff + int n - 1 = int (boff + n - 1)" using len(1) by simp
    have "s32 (int (boff + n - 1)) = int (boff + n - 1)" using len by simp
    moreover have "int s + int ((boff + n - 1) div 512) < 2147483648" using last L by linarith
    ultimately show ?thesis using sb unfolding e SECTOR_SIZE_def by (simp add: zdiv_int [symmetric])
  qed
  have in_part: "\<not> (s32 (int s) < 0 \<or> dv_part_length env \<le>
      u32_of (s32 (s32 (int s) + s32 (int boff + int n - 1) div SECTOR_SIZE)))"
    unfolding bound using last sb by simp
  define keys' where "keys' = (if dv_has_keys env then tl keys else keys)"
  have q': "quiet env keys'" using q by (cases keys) (auto simp: quiet_def keys'_def)
  have no_skip: "\<not> (dv_has_keys env \<and> keys \<noteq> [] \<and> hd keys)"
    using q by (cases keys) (auto simp: quiet_def)
  let ?s = "s + boff div 512" and ?b = "boff mod 512"
  have sec: "s32 (s32 (int s) + int boff div SECTOR_SIZE) = int ?s" "int boff mod SECTOR_SIZE = int ?b"
  proof -
    have "int s + int (boff div 512) < 2147483648" using inp' L by linarith
    then show "s32 (s32 (int s) + int boff div SECTOR_SIZE) = int ?s" "int boff mod SECTOR_SIZE = int ?b"
      using sb by (simp_all add: SECTOR_SIZE_def zdiv_int zmod_int)
  qed
  have run: "ext2fs_devread env sector log2 (int boff) (int n) buf off keys =
     (if ?b \<noteq> 0
      then let minimum = min (int n) (SECTOR_SIZE - int ?b);
               r = dv_block_read env (u32_of (dv_part_offset env + int ?s)) 1
           in if fst r < 0 then Some (0, buf, keys')
              else case copy_sector env buf off (snd r) (int ?b) minimum of
                None \<Rightarrow> None
              | Some buf \<Rightarrow>
                  if int n - minimum = 0 then Some (1, buf, keys')
                  else map_option (\<lambda>(s, buf). (s, buf, keys'))
                         (devread_aligned env (s32 (int ?s + 1)) (int n - minimum) buf (off + nat minimum))
      else if int n = 0 then Some (1, buf, keys')
      else map_option (\<lambda>(s, buf). (s, buf, keys')) (devread_aligned env (int ?s) (int n) buf off))"
    using no_skip in_part
    by (simp only: ext2fs_devread_def Let_def s sec keys'_def [symmetric] if_False of_nat_eq_0_iff)
  have start: "512 * s + boff = 512 * ?s + ?b" by (simp add: distrib_left add.assoc)
  have res: "ext2fs_devread env sector log2 (int boff) (int n) buf off keys =
      Some (1, patch buf off (region ?c (512 * s + boff) n), keys')"
  proof (cases "?b = 0")
    case True
    have "devread_aligned env (int ?s) (int n) buf off = Some (1, patch buf off (region ?c (512 * ?s) n))"
      using inp' len start True room by (intro devread_aligned_ok [OF env]) linarith+
    then show ?thesis using True len(1) start unfolding run by simp
  next
    case False
    define m where "m = min n (512 - ?b)"
    have m: "min (int n) (SECTOR_SIZE - int ?b) = int m"
    proof -
      have "?b \<le> 512" using mod_less_divisor [of 512 boff] by linarith
      then have "512 - int ?b = int (512 - ?b)" by linarith
      then show ?thesis by (simp only: m_def SECTOR_SIZE_def of_nat_min)
    qed
    have mb: "0 < m" "?b + m \<le> 512" "m \<le> n" using len(1) by (auto simp: m_def min_def not_le)
    have s1: "?s + 1 \<le> ?L" using inp' len(1) start by linarith
    have rd: "dv_block_read env (u32_of (dv_part_offset env + int ?s)) 1 = (1, region ?c (512 * ?s) 512)"
      "length (region ?c (512 * ?s) 512) = 512"
      using block_read_ok [OF env, of ?s 1] s1 clen by simp_all
    let ?h = "region ?c (512 * s + boff) m"
    have cp: "copy_sector env buf off (region ?c (512 * ?s) 512) (int ?b) (int m) = Some (patch buf off ?h)"
      using copy_sector_ok [OF rd(2), of ?b m off buf env] mb room start
      by (simp add: region_region add.commute)
    show ?thesis
    proof (cases "m = n")
      case True
      then show ?thesis using False rd(1) cp unfolding run m by simp
    next
      case neq: False
      then have mn: "m < n" "m = 512 - ?b" using mb by (auto simp: m_def min_def split: if_splits)
      have "?b \<le> 512" using mod_less_divisor [of 512 boff] by simp
      then have bm: "?b + m = 512" using mn(2) by simp
      have "512 * s + boff + m = 512 * ?s + (?b + m)" unfolding start by (rule add.assoc)
      then have next_s: "512 * (?s + 1) = 512 * s + boff + m" unfolding bm by simp
      have hlen: "length ?h = m" using inp' mb clen by (intro length_region_fits) linarith
      have plen: "length (patch buf off ?h) = length buf" using room mb hlen by (intro length_patch) linarith
      have sint: "s32 (int ?s + 1) = int (?s + 1)" using s1 L by simp
      let ?t = "region ?c (512 * s + boff + m) (n - m)"
      have "devread_aligned env (int (?s + 1)) (int (n - m)) (patch buf off ?h) (off + m) =
          Some (1, patch (patch buf off ?h) (off + m) (region ?c (512 * (?s + 1)) (n - m)))"
        using inp' len mn next_s room plen by (intro devread_aligned_ok [OF env]) linarith+
      then have al: "devread_aligned env (int (?s + 1)) (int (n - m)) (patch buf off ?h) (off + m) =
          Some (1, patch (patch buf off ?h) (off + m) ?t)"
        by (simp only: next_s)
      have "region ?c (512 * s + boff) n = ?h @ ?t"
        using region_append_split [of ?c "512 * s + boff" m "n - m"] mn by simp
      moreover have "length ?t = n - m" using inp' mn clen by (intro length_region_fits) linarith
      moreover have "off + length ?h + length ?t \<le> length buf"
        using calculation(2) hlen room mn(1) by linarith
      ultimately have "patch (patch buf off ?h) (off + m) ?t = patch buf off (region ?c (512 * s + boff) n)"
        using patch_patch_adjacent [of off ?h ?t buf] hlen by (simp only:)
      moreover have "int n - int m = int (n - m)" using mn by simp
      ultimately show ?thesis
        using False rd(1) cp al mn(1) sint unfolding run m Let_def by (simp add: of_nat_diff)
    qed
  qed
  then show ?thesis using q' by (auto simp: s_def)
qed

subsection \<open>The contract of a reader\<close>

locale partition_reader =
  fixes dread :: "'e \<Rightarrow> int \<Rightarrow> int \<Rightarrow> int \<Rightarrow> int \<Rightarrow> bytes \<Rightarrow> nat \<Rightarrow> 'k \<Rightarrow> (int \<times> bytes \<times> 'k) option"
    and good :: "'e \<Rightarrow> 'k \<Rightarrow> bool" and content :: "'e \<Rightarrow> bytes"
  assumes dread_ok: "good e k \<Longrightarrow> 0 \<le> sector \<Longrightarrow> sector * 2 ^ nat log2 < 2147483648 \<Longrightarrow> 0 < n \<Longrightarrow>
    boff + n < 2147483648 \<Longrightarrow>
    512 * nat (sector * 2 ^ nat log2) + boff + n \<le> length (content e) \<Longrightarrow>
    off + n \<le> length buf \<Longrightarrow>
    \<exists>k'. dread e sector log2 (int boff) (int n) buf off k =
        Some (1, patch buf off (region (content e) (512 * nat (sector * 2 ^ nat log2) + boff) n), k') \<and>
      good e k'"
    and content_size: "good e k \<Longrightarrow> length (content e) < 1099511627776"

interpretation dev_reader: partition_reader ext2fs_devread
  "\<lambda>env keys. driver_ok env \<and> quiet env keys" part_content
proof unfold_locales
  show "length (part_content env) < 1099511627776" if "driver_ok env \<and> quiet env keys" for env keys
    using that length_part_content [of env] by (auto simp: driver_ok_def)
qed (use ext2fs_devread_ok in blast)

subsection \<open>Properties\<close>

text \<open>C11. Reading the partition is exact: with a driver that returns the sectors asked for, any piece
  that lies inside the partition, however it is aligned to sectors, arrives byte for byte at its
  place in the buffer and nothing else in the buffer changes; a piece that reaches past the end of
  the partition is refused with 0 and leaves the buffer alone.\<close>

theorem devread_exact:
  assumes "driver_ok env" "quiet env keys"
    and "0 \<le> sector" "sector * 2 ^ nat log2 < 2147483648" "0 < n" "boff + n < 2147483648"
    and "off + n \<le> length buf"
    and "nat (sector * 2 ^ nat log2) + (boff + n - 1) div 512 < 2147483648"
  shows "if 512 * nat (sector * 2 ^ nat log2) + boff + n \<le> length (part_content env)
    then \<exists>keys'. ext2fs_devread env sector log2 (int boff) (int n) buf off keys =
           Some (1, patch buf off
             (region (part_content env) (512 * nat (sector * 2 ^ nat log2) + boff) n), keys')
    else ext2fs_devread env sector log2 (int boff) (int n) buf off keys = Some (0, buf, keys)"
proof (cases "512 * nat (sector * 2 ^ nat log2) + boff + n \<le> length (part_content env)")
  case True
  then show ?thesis using ext2fs_devread_ok [OF assms(1-6) True assms(7)] by auto
next
  case False
  define s where "s = nat (sector * 2 ^ nat log2)"
  have s: "sector * 2 ^ nat log2 = int s" using assms(3) by (simp add: s_def)
  have "nat (dv_part_length env) \<le> s + (boff + n - 1) div 512"
    using False length_part_content [OF assms(1)] assms(5) unfolding s_def by linarith
  moreover have "u32_of (s32 (s32 (int s) + s32 (int boff + int n - 1) div SECTOR_SIZE)) =
      int (s + (boff + n - 1) div 512)"
  proof -
    have e: "int boff + int n - 1 = int (boff + n - 1)" using assms(5) by simp
    have "s32 (int (boff + n - 1)) = int (boff + n - 1)" using assms(5,6) by simp
    moreover have "int s + int ((boff + n - 1) div 512) < 2147483648"
      using assms(8) unfolding s_def by linarith
    ultimately show ?thesis using assms(4) s unfolding e SECTOR_SIZE_def by (simp add: zdiv_int [symmetric])
  qed
  ultimately have "dv_part_length env \<le>
      u32_of (s32 (s32 (int s) + s32 (int boff + int n - 1) div SECTOR_SIZE))" by linarith
  then show ?thesis using False by (simp add: ext2fs_devread_def s Let_def)
qed

text \<open>A disk of \<open>n\<close> sectors, sector \<open>i\<close> filled with the byte \<open>i\<close>, read by an ideal driver.\<close>

definition demo_disk :: "int \<Rightarrow> dev_env" where
  "demo_disk n = \<lparr>dv_block_read = (\<lambda>s k. (k, concat (map (\<lambda>i. replicate 512 (word_of_nat i)) [nat s..<nat (s + k)]))),
     dv_part_offset = 2, dv_part_length = n, dv_has_keys = False, dv_junk = 0\<rparr>"

lemma demo_disk_sector: "dev_sector (demo_disk n) i = replicate 512 (word_of_nat (2 + i))"
proof -
  have "[nat (2 + int i)..<nat (2 + int i + 1)] = [2 + i]"
    using upt_conv_Cons [of "2 + i" "Suc (2 + i)"] by (simp add: nat_add_distrib numeral_3_eq_3)
  then show ?thesis by (simp add: dev_sector_def demo_disk_def)
qed

lemma demo_disk_ok: "0 \<le> n \<Longrightarrow> n < 1000 \<Longrightarrow> driver_ok (demo_disk n)"
proof -
  have "map (\<lambda>i. replicate 512 (word_of_nat i :: u8)) [nat (2 + int s)..<nat (2 + int s + int k)] =
      map (dev_sector (demo_disk n)) [s..<s + k]" for s k
  proof -
    have "nat (2 + int s) = 2 + s" "nat (2 + int s + int k) = 2 + s + k" by simp_all
    then show ?thesis
      by (intro nth_equalityI) (simp_all add: demo_disk_sector del: upt_Suc)
  qed
  then show "0 \<le> n \<Longrightarrow> n < 1000 \<Longrightarrow> driver_ok (demo_disk n)"
    unfolding driver_ok_def by (simp add: demo_disk_sector) (simp add: demo_disk_def)
qed

theorem devread_exact_witness:
  "\<exists>keys'. ext2fs_devread (demo_disk 4) 1 0 511 2 [9, 9, 9] 1 [] =
     Some (1, patch [9, 9, 9] 1 (region (part_content (demo_disk 4)) 1023 2), keys')"
proof -
  have "length (part_content (demo_disk 4)) = 2048"
    using length_part_content [OF demo_disk_ok, of 4] by (simp add: demo_disk_def)
  then show ?thesis
    using devread_exact [of "demo_disk 4" "[]" 1 0 2 511 1 "[9, 9, 9]"] demo_disk_ok [of 4]
    by (simp add: quiet_def)
qed

end
