(* ===== verification/Qi_Utils.thy ===== *)
theory Qi_Utils
  imports Prelude
begin

section \<open>The small C library of the boot loader\<close>

text \<open>
  \<^verbatim>\<open>qi/src/utils.c\<close> and \<^verbatim>\<open>qi/src/utils-phase2.c\<close>.  A string argument is the bytes from its pointer on;
  reading past them, like writing past the destination, is None.  Memory for \<open>memcpy\<close> and \<open>memset\<close>
  is a function from addresses to bytes.  What is printed through \<open>putc_func\<close> is the list of bytes
  put out.  \<open>malloc\<close> moves one pointer through a pool and never gives memory back; None stands for
  its endless loop when the pool is exhausted.
\<close>

subsection \<open>Strings\<close>

fun strlen :: "bytes \<Rightarrow> nat option" where
  "strlen [] = None"
| "strlen (c # s) = (if c \<noteq> 0 then map_option Suc (strlen s) else Some 0)"

fun strcpy :: "bytes \<Rightarrow> nat \<Rightarrow> bytes \<Rightarrow> bytes option" where
  "strcpy dest pos [] = None"
| "strcpy dest pos (c # src) =
     (if length dest \<le> pos then None
      else if c \<noteq> 0 then strcpy (dest[pos := c]) (pos + 1) src
      else Some (dest[pos := 0]))"

text \<open>The loop \<open>while (*src && n--)\<close> decrements the unsigned \<open>n\<close> also when it stops because of it.\<close>

fun strncpy_loop :: "bytes \<Rightarrow> nat \<Rightarrow> bytes \<Rightarrow> u32 \<Rightarrow> (bytes \<times> nat \<times> u32) option" where
  "strncpy_loop dest pos [] n = None"
| "strncpy_loop dest pos (c # src) n =
     (if c = 0 then Some (dest, pos, n)
      else if n = 0 then Some (dest, pos, n - 1)
      else if length dest \<le> pos then None
      else strncpy_loop (dest[pos := c]) (pos + 1) src (n - 1))"

definition strncpy :: "bytes \<Rightarrow> nat \<Rightarrow> bytes \<Rightarrow> u32 \<Rightarrow> bytes option" where
  "strncpy dest pos src n =
     (case strncpy_loop dest pos src n of
        None \<Rightarrow> None
      | Some (dest, pos, n) \<Rightarrow>
          if n \<noteq> 0 then (if length dest \<le> pos then None else Some (dest[pos := 0]))
          else Some dest)"

fun strcmp :: "bytes \<Rightarrow> bytes \<Rightarrow> int option" where
  "strcmp (a # s1) (b # s2) =
     (if a \<noteq> b then Some (uint a - uint b) else if a = 0 then Some 0 else strcmp s1 s2)"
| "strcmp _ _ = None"

text \<open>\<open>strchr\<close> gives the offset of the character found.\<close>

fun strchr_from :: "nat \<Rightarrow> bytes \<Rightarrow> u8 \<Rightarrow> nat option option" where
  "strchr_from i [] c = None"
| "strchr_from i (x # s) c =
     (if x \<noteq> 0 \<and> x \<noteq> c then strchr_from (i + 1) s c
      else if x = c then Some (Some i) else Some None)"

definition strchr :: "bytes \<Rightarrow> u8 \<Rightarrow> nat option option" where
  "strchr s c = strchr_from 0 s c"

subsection \<open>Memory\<close>

fun memcpy :: "(nat \<Rightarrow> u8) \<Rightarrow> nat \<Rightarrow> nat \<Rightarrow> nat \<Rightarrow> nat \<Rightarrow> u8" where
  "memcpy mem pd ps 0 = mem"
| "memcpy mem pd ps (Suc n) = memcpy (mem(pd := mem ps)) (pd + 1) (ps + 1) n"

fun memset :: "(nat \<Rightarrow> u8) \<Rightarrow> nat \<Rightarrow> int \<Rightarrow> nat \<Rightarrow> nat \<Rightarrow> u8" where
  "memset mem p c 0 = mem"
| "memset mem p c (Suc n) = memset (mem(p := word_of_int c)) (p + 1) c n"

definition MALLOC_POOL_EXTENT :: nat where "MALLOC_POOL_EXTENT = 100 * 1024"

text \<open>The state is the offset of \<open>malloc_pointer\<close> in the pool; a request of almost 4 GB wraps.\<close>

definition malloc :: "u32 \<Rightarrow> u32 \<Rightarrow> (u32 \<times> u32) option" where
  "malloc malloc_pointer sz =
     (let malloc_pointer' = malloc_pointer + ((sz AND NOT 3) + 4)
      in if word_of_nat MALLOC_POOL_EXTENT < malloc_pointer' then None
         else Some (malloc_pointer, malloc_pointer'))"

subsection \<open>Printing\<close>

fun puts :: "bytes \<Rightarrow> bytes option" where
  "puts [] = None"
| "puts (c # s) = (if c \<noteq> 0 then map_option (\<lambda>out. c # out) (puts s) else Some [])"

definition printnybble :: "u8 \<Rightarrow> bytes" where
  "printnybble n = (if n < 10 then [0x30 + n] else [0x61 + n - 10])"

definition print8 :: "u8 \<Rightarrow> bytes" where
  "print8 n = printnybble (drop_bit 4 n AND 15) @ printnybble (n AND 15)"

definition print32 :: "u32 \<Rightarrow> bytes" where
  "print32 u = print8 (ucast (drop_bit 24 u)) @ print8 (ucast (drop_bit 16 u))
     @ print8 (ucast (drop_bit 8 u)) @ print8 (ucast u)"

definition dec_divisors :: "int list" where
  "dec_divisors = [1000000000, 100000000, 10000000, 1000000, 100000, 10000, 1000, 100, 10, 1]"

fun count_down :: "int \<Rightarrow> int \<Rightarrow> int \<Rightarrow> int \<times> int" where
  "count_down r n d = (if 0 < d \<and> d \<le> n then count_down (r + 1) (n - d) d else (r, n))"

declare count_down.simps [simp del]

fun printdec_loop :: "int list \<Rightarrow> bool \<Rightarrow> int \<Rightarrow> bytes" where
  "printdec_loop [] flag n = []"
| "printdec_loop (d # ds) flag n =
     (let (r, n) = count_down 0 n d
      in if r \<noteq> 0 \<or> flag \<or> d = 1
         then word_of_int (48 + r) # printdec_loop ds True n
         else printdec_loop ds flag n)"

definition printdec :: "int \<Rightarrow> bytes" where
  "printdec n =
     (if n < 0 then 0x2d # printdec_loop dec_divisors False (s32 (- n))
      else printdec_loop dec_divisors False n)"

definition setnybble :: "bytes \<Rightarrow> nat \<Rightarrow> u8 \<Rightarrow> bytes" where
  "setnybble buf p n = (if n < 10 then buf[p := 0x30 + n] else buf[p := 0x61 + n - 10])"

definition set8 :: "bytes \<Rightarrow> nat \<Rightarrow> u8 \<Rightarrow> bytes" where
  "set8 buf p n = setnybble (setnybble buf p (drop_bit 4 n AND 15)) (p + 1) (n AND 15)"

definition set32 :: "bytes \<Rightarrow> nat \<Rightarrow> u32 \<Rightarrow> bytes" where
  "set32 buf p u =
     set8 (set8 (set8 (set8 buf p (ucast (drop_bit 24 u))) (p + 2) (ucast (drop_bit 16 u)))
       (p + 4) (ucast (drop_bit 8 u))) (p + 6) (ucast u)"

function hexdump :: "(nat \<Rightarrow> u8) \<Rightarrow> nat \<Rightarrow> int \<Rightarrow> bytes" where
  "hexdump mem start len =
     (if 0 < len
      then print32 (word_of_nat start) @ [0x3a, 0x20]
           @ concat (map (\<lambda>n. print8 (mem (start + n)) @ [0x20]) [0..<16])
           @ [0x0a] @ hexdump mem (start + 16) (len - 16)
      else [])"
  by pat_completeness auto
termination by (relation "measure (\<lambda>(_, _, len). nat len)") auto

declare hexdump.simps [simp del]

subsection \<open>Strings: behaviour\<close>

lemma update_patch [simp]:
  "pos < length dest \<Longrightarrow> patch (dest[pos := c]) (Suc pos) ys = patch dest pos (c # ys)"
  by (simp add: patch_def upd_conv_take_nth_drop add.commute)

lemma unat_pred: "w \<noteq> 0 \<Longrightarrow> unat (w - 1 :: u32) = unat w - 1"
proof -
  assume "w \<noteq> 0"
  then have "1 \<le> unat w" by (simp add: Suc_le_eq unat_gt_0)
  then have "w - 1 = word_of_nat (unat w - 1)" by (simp add: of_nat_diff of_nat_unat)
  moreover have "unat w - 1 < 4294967296"
  proof -
    have "unat w < 4294967296" using unsigned_less [of w] by simp
    then show ?thesis by linarith
  qed
  ultimately show ?thesis by (simp only: unat_word_of_nat32)
qed

lemma strlen_correct: "0 \<notin> set s \<Longrightarrow> strlen (s @ 0 # rest) = Some (length s)"
  by (induction s) auto

lemma strcpy_correct:
  "0 \<notin> set s \<Longrightarrow> pos + length s < length dest \<Longrightarrow>
   strcpy dest pos (s @ 0 # rest) = Some (patch dest pos (s @ [0]))"
proof (induction s arbitrary: dest pos)
  case Nil
  then show ?case by (simp add: patch_def upd_conv_take_nth_drop)
next
  case (Cons c s)
  then have "strcpy dest pos ((c # s) @ 0 # rest) = Some (patch (dest[pos := c]) (pos + 1) (s @ [0]))"
    by auto
  also have "patch (dest[pos := c]) (pos + 1) (s @ [0]) = patch dest pos ((c # s) @ [0])"
    using Cons.prems by simp
  finally show ?case .
qed

lemma strncpy_loop_ends:
  assumes "0 \<notin> set s" "length s \<le> unat n" "pos + length s \<le> length dest"
  shows "strncpy_loop dest pos (s @ 0 # rest) n =
         Some (patch dest pos s, pos + length s, n - word_of_nat (length s))"
  using assms
proof (induction s arbitrary: dest pos n)
  case (Cons c s)
  then have "n \<noteq> 0" by auto
  then have n: "n \<noteq> 0" "unat (n - 1) = unat n - 1" by (simp_all add: unat_pred)
  have "strncpy_loop (dest[pos := c]) (pos + 1) (s @ 0 # rest) (n - 1) =
      Some (patch (dest[pos := c]) (pos + 1) s, pos + 1 + length s, n - 1 - word_of_nat (length s))"
    using Cons n by (intro Cons.IH) auto
  then show ?case
    using Cons.prems n by (simp add: diff_diff_eq add.commute)
qed simp

lemma strncpy_loop_cut:
  assumes "0 \<notin> set s" "unat n < length s" "pos + unat n \<le> length dest"
  shows "strncpy_loop dest pos (s @ rest) n =
         Some (patch dest pos (take (unat n) s), pos + unat n, - 1)"
  using assms
proof (induction s arbitrary: dest pos n)
  case (Cons c s)
  show ?case
  proof (cases "n = 0")
    case False
    then have n: "unat (n - 1) = unat n - 1" "0 < unat n" by (auto simp: unat_pred unat_gt_0)
    have "strncpy_loop (dest[pos := c]) (pos + 1) (s @ rest) (n - 1) =
        Some (patch (dest[pos := c]) (pos + 1) (take (unat (n - 1)) s), pos + 1 + unat (n - 1), - 1)"
      using Cons n by (intro Cons.IH) auto
    then show ?thesis
      using Cons.prems n False by (cases "unat n") simp_all
  qed (use Cons in simp)
qed simp

lemma patch_nul:
  "pos + length s < length dest \<Longrightarrow> (patch dest pos s)[pos + length s := 0] = patch dest pos (s @ [0])"
  by (simp add: patch_def list_update_append upd_conv_take_nth_drop drop_Suc [symmetric])

subsection \<open>Memory: behaviour\<close>

lemma memcpy_outside:
  "q < pd \<or> pd + n \<le> q \<Longrightarrow> memcpy mem pd ps n q = mem q"
  by (induction mem pd ps n rule: memcpy.induct) auto

lemma memcpy_down:
  assumes "pd \<le> ps \<or> ps + n \<le> pd" "i < n"
  shows "memcpy mem pd ps n (pd + i) = mem (ps + i)"
  using assms
proof (induction mem pd ps n arbitrary: i rule: memcpy.induct)
  case (2 mem pd ps n)
  show ?case
  proof (cases i)
    case 0
    then show ?thesis by (simp add: memcpy_outside)
  next
    case (Suc j)
    then have "memcpy (mem(pd := mem ps)) (pd + 1) (ps + 1) n (pd + 1 + j) =
        (mem(pd := mem ps)) (ps + 1 + j)"
      using "2.prems" by (intro "2.IH") auto
    then show ?thesis using Suc "2.prems" by auto
  qed
qed simp

lemma memset_correct:
  "memset mem p c n q = (if p \<le> q \<and> q < p + n then word_of_int c else mem q)"
proof (induction mem p c n rule: memset.induct)
  case (2 mem p c n)
  show ?case unfolding memset.simps "2.IH" by auto
qed auto

subsection \<open>Printing: behaviour\<close>

definition hex_digit :: "u8 \<Rightarrow> nat" where
  "hex_digit c = (if 0x30 \<le> c \<and> c \<le> 0x39 then unat (c - 0x30) else unat (c - 0x61 + 10))"

definition hex_value :: "bytes \<Rightarrow> nat" where
  "hex_value cs = foldl (\<lambda>v c. 16 * v + hex_digit c) 0 cs"

lemma nybble_cases:
  fixes n :: u8
  assumes "n < 16"
  shows "n \<in> {0, 1, 2, 3, 4, 5, 6, 7, 8, 9, 10, 11, 12, 13, 14, 15}"
proof -
  have "unat n < 16" using assms by (simp add: word_less_nat_alt)
  then have "unat n \<in> {0, 1, 2, 3, 4, 5, 6, 7, 8, 9, 10, 11, 12, 13, 14, 15}" by simp presburger
  moreover have "n = word_of_nat (unat n)" by (simp add: of_nat_unat)
  ultimately show ?thesis by (elim insertE) auto
qed

lemma printnybble_digit: "n < 16 \<Longrightarrow> \<exists>c. printnybble n = [c] \<and> hex_digit c = unat n"
  using nybble_cases [of n] by (auto simp: printnybble_def hex_digit_def)

lemma nybble_less: "(n :: u8) AND 15 < 16"
proof -
  have "n AND 15 = take_bit 4 n" by (simp add: take_bit_eq_mask mask_eq_exp_minus_1)
  then show ?thesis
    using take_bit_nat_less_exp [of 4 "unat n"] by (simp add: word_less_nat_alt unsigned_take_bit_eq)
qed

lemma nybbles_value: "16 * unat (drop_bit 4 n AND 15) + unat (n AND 15) = unat (n :: u8)"
proof -
  have "drop_bit 4 n AND 15 = drop_bit 4 n"
  proof -
    have m: "(15 :: u8) = mask 4" by (simp add: mask_eq_exp_minus_1)
    show ?thesis unfolding m by (rule bit_word_eqI) (auto simp: bit_simps dest: bit_imp_le_length)
  qed
  moreover have "unat (n AND 15) = unat n mod 16"
  proof -
    have "n AND 15 = take_bit 4 n" by (simp add: take_bit_eq_mask mask_eq_exp_minus_1)
    then show ?thesis by (simp only: unsigned_take_bit_eq) (simp add: take_bit_eq_mod)
  qed
  moreover have small: "unat n < 256" using unsigned_less [of n] by simp
  moreover have "unat (drop_bit 4 n) = unat n div 16"
    using small
    by (simp only: unsigned_drop_bit_eq) (simp add: drop_bit_eq_div take_bit_nat_eq_self)
  ultimately show ?thesis by simp
qed

lemma print8_value:
  "\<exists>a b. print8 n = [a, b] \<and> 16 * hex_digit a + hex_digit b = unat n"
  using printnybble_digit [OF nybble_less [of "drop_bit 4 n"]] printnybble_digit [OF nybble_less [of n]]
    nybbles_value [of n] by (auto simp: print8_def)

lemma hex_value_print8: "foldl (\<lambda>v c. 16 * v + hex_digit c) v (print8 n) = 256 * v + unat n"
  using print8_value [of n] by auto

lemma word_bytes_value:
  "256 * (256 * (256 * unat (ucast (drop_bit 24 u) :: u8) + unat (ucast (drop_bit 16 u) :: u8))
    + unat (ucast (drop_bit 8 u) :: u8)) + unat (ucast u :: u8) = unat (u :: u32)"
proof -
  let ?n = "unat u"
  have small: "?n < 4294967296" using unsigned_less [of u] by simp
  have bytes: "unat (ucast (drop_bit k u) :: u8) = ?n div 2 ^ k mod 256" for k
    using small
    by (simp only: unsigned_ucast_eq unsigned_drop_bit_eq) (simp add: drop_bit_eq_div take_bit_eq_mod)
  note small
  then have top: "?n div 16777216 mod 256 = ?n div 16777216" by (simp add: div_less_iff_less_mult)
  have "?n div 65536 = 256 * (?n div 16777216) + ?n div 65536 mod 256"
    "?n div 256 = 256 * (?n div 65536) + ?n div 256 mod 256" "?n = 256 * (?n div 256) + ?n mod 256"
    using mult_div_mod_eq [of 256 "?n div 65536"] mult_div_mod_eq [of 256 "?n div 256"]
      mult_div_mod_eq [of 256 ?n] by (simp_all add: div_mult2_eq [symmetric])
  then show ?thesis
    using bytes [of 24] bytes [of 16] bytes [of 8] bytes [of 0] top by simp
qed

lemma length_print8 [simp]: "length (print8 n) = 2"
  using print8_value [of n] by auto

lemma hex_value_print32: "hex_value (print32 u) = unat u"
  unfolding hex_value_def print32_def foldl_append hex_value_print8
  using word_bytes_value [of u] by simp

lemma setnybble_patch: "p < length buf \<Longrightarrow> setnybble buf p n = patch buf p (printnybble n)"
  by (simp add: setnybble_def printnybble_def patch_def upd_conv_take_nth_drop)

lemma length_printnybble [simp]: "length (printnybble n) = 1"
  by (simp add: printnybble_def)

lemma set8_print8: "p + 2 \<le> length buf \<Longrightarrow> set8 buf p n = patch buf p (print8 n)"
  using patch_patch_adjacent [of p "printnybble (drop_bit 4 n AND 15)" "printnybble (n AND 15)" buf]
  by (simp add: set8_def setnybble_patch print8_def)

lemma set32_print32:
  assumes "p + 8 \<le> length buf"
  shows "set32 buf p u = patch buf p (print32 u)"
proof -
  let ?b = "\<lambda>k. print8 (ucast (drop_bit k u))"
  have "set32 buf p u = patch (patch (patch (patch buf p (?b 24)) (p + 2) (?b 16)) (p + 4) (?b 8)) (p + 6) (?b 0)"
    using assms by (simp add: set32_def set8_print8)
  also have "patch (patch buf p (?b 24)) (p + 2) (?b 16) = patch buf p (?b 24 @ ?b 16)"
    using assms patch_patch_adjacent [of p "?b 24" "?b 16" buf] by simp
  also have "patch (patch buf p (?b 24 @ ?b 16)) (p + 4) (?b 8) = patch buf p (?b 24 @ ?b 16 @ ?b 8)"
    using assms patch_patch_adjacent [of p "?b 24 @ ?b 16" "?b 8" buf] by simp
  also have "patch (patch buf p (?b 24 @ ?b 16 @ ?b 8)) (p + 6) (?b 0) =
      patch buf p (?b 24 @ ?b 16 @ ?b 8 @ ?b 0)"
    using assms patch_patch_adjacent [of p "?b 24 @ ?b 16 @ ?b 8" "?b 0" buf] by simp
  finally show ?thesis by (simp add: print32_def)
qed

subsection \<open>Decimal printing\<close>

lemma count_down_correct:
  assumes "0 < d" "0 \<le> n"
  shows "count_down r n d = (r + n div d, n mod d)"
  using assms
proof (induction r n d rule: count_down.induct)
  case (1 r n d)
  show ?case
  proof (cases "d \<le> n")
    case True
    then have "count_down r n d = (r + 1 + (n - d) div d, (n - d) mod d)"
      using 1 by (subst count_down.simps) simp
    moreover have "(n - d) div d = n div d - 1" "(n - d) mod d = n mod d"
      using 1(2) div_add_self2 [of d "n - d"] mod_add_self2 [of "n - d" d] by simp_all
    ultimately show ?thesis by simp
  next
    case False
    then show ?thesis using 1 by (subst count_down.simps) simp
  qed
qed

text \<open>\<open>k\<close> digits of \<open>n\<close>, with the zeros in front.\<close>

fun digits :: "nat \<Rightarrow> nat \<Rightarrow> bytes" where
  "digits 0 n = []"
| "digits (Suc k) n = digits k (n div 10) @ [word_of_nat (48 + n mod 10)]"

lemma digits_front:
  "digits (Suc k) n = word_of_nat (48 + n div 10 ^ k mod 10) # digits k (n mod 10 ^ k)"
proof (induction k arbitrary: n)
  case (Suc k)
  have "n div 10 div 10 ^ k = n div 10 ^ Suc k" by (simp add: div_mult2_eq)
  moreover have "n mod 10 ^ Suc k div 10 = n div 10 mod 10 ^ k"
    using mod_mult2_eq [of n 10 "10 ^ k"] by (simp add: mult.commute)
  moreover have "n mod 10 ^ Suc k mod 10 = n mod 10"
    by (simp add: mod_mod_cancel)
  ultimately show ?case
    using Suc.IH [of "n div 10"] by (simp del: digits.simps(2) add: digits.simps(2) [of k] digits.simps(2) [of "Suc k"])
qed simp

lemma of_char_digit: "d < 10 \<Longrightarrow> (of_char (digit d) :: u8) = word_of_nat (48 + d)"
proof -
  assume "d < 10"
  then have "(of_char (digit d) :: nat) = 48 + d" by (simp add: digit_def)
  then show ?thesis by (metis of_nat_of_char)
qed

lemma dec_nat_digits:
  "10 ^ k \<le> n \<or> k = 0 \<Longrightarrow> n < 10 ^ Suc k \<Longrightarrow> bytes_of_string (dec_nat n) = digits (Suc k) n"
proof (induction k arbitrary: n)
  case 0
  then show ?case
    by (subst dec_nat.simps) (simp add: bytes_of_string_def of_char_digit)
next
  case (Suc k)
  then have n: "10 ^ k \<le> n div 10" "n div 10 < 10 ^ Suc k" "10 \<le> n"
    using le_trans [of 10 "10 ^ Suc k" n]
    by (simp_all add: less_eq_div_iff_mult_less_eq div_less_iff_less_mult mult.commute)
  have "bytes_of_string (dec_nat n) = bytes_of_string (dec_nat (n div 10)) @ [word_of_nat (48 + n mod 10)]"
    using n(3) by (subst dec_nat.simps) (simp add: bytes_of_string_def of_char_digit)
  then show ?case using Suc.IH [OF disjI1 [OF n(1)] n(2)] by simp
qed

fun powers :: "nat \<Rightarrow> int list" where
  "powers 0 = []"
| "powers (Suc k) = 10 ^ k # powers k"

lemma dec_divisors_powers: "dec_divisors = powers 10"
  by (simp add: dec_divisors_def eval_nat_numeral)

lemma printdec_loop_True:
  "n < 10 ^ k \<Longrightarrow> printdec_loop (powers k) True (int n) = digits k n"
proof (induction k arbitrary: n)
  case (Suc k)
  have r: "n div 10 ^ k < 10" using Suc.prems by (simp add: div_less_iff_less_mult)
  have "count_down 0 (int n) (10 ^ k) = (int (n div 10 ^ k), int (n mod 10 ^ k))"
    using count_down_correct [of "10 ^ k" "int n" 0] by (simp add: zdiv_int zmod_int)
  then show ?case
    using Suc.IH [of "n mod 10 ^ k"] r digits_front [of k n] by simp
qed simp

lemma printdec_loop_False:
  "n < 10 ^ Suc k \<Longrightarrow> printdec_loop (powers (Suc k)) False (int n) = bytes_of_string (dec_nat n)"
proof (induction k arbitrary: n)
  case 0
  have "count_down 0 (int n) 1 = (int n, 0)" using count_down_correct [of 1 "int n" 0] by simp
  then show ?case using 0 dec_nat_digits [of 0 n] by simp
next
  case (Suc k)
  have cd: "count_down 0 (int n) (10 ^ Suc k) = (int (n div 10 ^ Suc k), int (n mod 10 ^ Suc k))"
    using count_down_correct [of "10 ^ Suc k" "int n" 0] by (simp add: zdiv_int zmod_int)
  have ne: "(10 :: int) ^ Suc k \<noteq> 1" using one_less_power [of "10 :: int" "Suc k"] by simp
  show ?case
  proof (cases "n < 10 ^ Suc k")
    case True
    then show ?thesis
      using cd ne Suc.IH [OF True]
      by (simp add: Let_def del: power_Suc powers.simps add: powers.simps(2) [of "Suc k"])
  next
    case False
    then have "n div 10 ^ Suc k \<noteq> 0" by (simp add: div_eq_0_iff del: power_Suc)
    moreover have "n div 10 ^ Suc k < 10"
      using Suc.prems by (simp add: div_less_iff_less_mult)
    moreover have "printdec_loop (powers (Suc k)) True (int (n mod 10 ^ Suc k)) = digits (Suc k) (n mod 10 ^ Suc k)"
      by (rule printdec_loop_True) simp
    ultimately show ?thesis
      using cd dec_nat_digits [of "Suc k" n] False Suc.prems digits_front [of "Suc k" n]
      by (simp add: Let_def del: power_Suc digits.simps powers.simps(2) add: powers.simps(2) [of "Suc k"])
  qed
qed

lemma printdec_nonneg: "n < 4294967296 \<Longrightarrow> printdec (int n) = bytes_of_string (dec_nat n)"
  using printdec_loop_False [of n 9] unfolding printdec_def dec_divisors_powers by simp

lemma unat_push_drop_2: "unat (push_bit 2 (drop_bit 2 sz) :: u32) = unat sz div 4 * 4"
proof -
  have s: "unat sz < 4294967296" using unsigned_less [of sz] by simp
  have "unat (drop_bit 2 sz) = unat sz div 4"
    using s by (simp only: unsigned_drop_bit_eq) (simp add: drop_bit_eq_div take_bit_nat_eq_self)
  moreover have "unat sz div 4 * 4 < 4294967296" using s by linarith
  ultimately show ?thesis
    by (simp only: unsigned_push_bit_eq) (simp add: push_bit_eq_mult take_bit_nat_eq_self)
qed

subsection \<open>Properties\<close>

text \<open>Numbers are printed right: printdec puts out the decimal numeral of every int except the
  smallest one, whose negation wraps and which it prints as -0; print32 puts out the eight hex
  digits whose value is the word, and set32 stores the same eight characters.\<close>

theorem printing_correct:
  assumes "- 2147483648 \<le> n" "n < 2147483648" "p + 8 \<le> length buf"
  shows "printdec n = bytes_of_string (if n = - 2147483648 then ''-0'' else dec_int n) \<and>
         hex_value (print32 u) = unat u \<and> length (print32 u) = 8 \<and>
         set32 buf p u = patch buf p (print32 u)"
proof -
  have "printdec n = bytes_of_string (dec_int n)" if "n \<noteq> - 2147483648"
  proof (cases "n < 0")
    case True
    define m where "m = nat (- n)"
    have "- n = int m" "m < 2147483648" using True assms(1) that unfolding m_def by linarith+
    then show ?thesis
      using True printdec_nonneg [of m]
      by (simp add: printdec_def dec_int_def bytes_of_string_def)
  next
    case False
    then have "n = int (nat n)" "nat n < 4294967296" using assms(2) by linarith+
    then show ?thesis using printdec_nonneg [of "nat n"] False by (simp add: dec_int_def)
  qed
  moreover have "printdec (- 2147483648) = bytes_of_string ''-0''"
    by (simp add: printdec_def s32_def dec_divisors_def count_down.simps bytes_of_string_def)
  ultimately show ?thesis
    using hex_value_print32 set32_print32 [OF assms(3)] by (auto simp: print32_def)
qed

theorem printing_correct_witness:
  "printdec (- 2147483648) = [0x2d, 0x30] \<and>
   set32 (replicate 10 0) 1 0xdeadbeef = patch (replicate 10 0) 1 (print32 0xdeadbeef)"
  using printing_correct [where n = "- 2147483648" and p = 1 and buf = "replicate 10 0" and u = "0xdeadbeef"]
  by (simp add: bytes_of_string_def)

text \<open>The string functions of the boot loader: strlen, strcpy and a strncpy whose source is
  shorter than the limit copy exactly the string and its NUL; but a strncpy of a longer source
  writes a NUL one byte behind the n bytes it was allowed to write.\<close>

theorem string_copies:
  assumes "0 \<notin> set s" "unat n < 4294967295"
  shows "strlen (s @ 0 # rest) = Some (length s) \<and>
    (pos + length s < length dest \<longrightarrow>
       strcpy dest pos (s @ 0 # rest) = Some (patch dest pos (s @ [0]))) \<and>
    (length s < unat n \<and> pos + length s < length dest \<longrightarrow>
       strncpy dest pos (s @ 0 # rest) n = Some (patch dest pos (s @ [0]))) \<and>
    (unat n < length s \<and> pos + unat n < length dest \<longrightarrow>
       strncpy dest pos (s @ 0 # rest) n = Some (patch dest pos (take (unat n) s @ [0])))"
proof -
  have "strncpy dest pos (s @ 0 # rest) n = Some (patch dest pos (s @ [0]))"
    if l: "length s < unat n" "pos + length s < length dest"
  proof -
    have "n \<noteq> word_of_nat (length s)"
      using l(1) by (auto simp: unat_of_nat)
    then have "n - word_of_nat (length s) \<noteq> 0" by simp
    then show ?thesis
      using strncpy_loop_ends [OF assms(1), of n pos dest rest] l by (simp add: strncpy_def patch_nul)
  qed
  moreover have "strncpy dest pos (s @ 0 # rest) n = Some (patch dest pos (take (unat n) s @ [0]))"
    if l: "unat n < length s" "pos + unat n < length dest"
    using strncpy_loop_cut [OF assms(1) l(1), of pos dest "0 # rest"] l
      patch_nul [of pos "take (unat n) s" dest] by (simp add: strncpy_def)
  ultimately show ?thesis
    using strlen_correct [OF assms(1)] strcpy_correct [OF assms(1)] by blast
qed

theorem string_copies_witness:
  "strncpy [9, 9, 9, 9] 0 ([1, 2, 3] @ 0 # []) 2 = Some (patch [9, 9, 9, 9] 0 (take 2 [1, 2, 3] @ [0]))"
  using string_copies [of "[1, 2, 3]" 2 "[]" 0 "[9, 9, 9, 9]"] by simp

lemma and_not_3: "unat (sz AND NOT 3 :: u32) = unat sz div 4 * 4"
proof -
  have "sz AND NOT 3 = push_bit 2 (drop_bit 2 sz)"
  proof -
    have three: "(3 :: u32) = mask 2" by (simp add: mask_eq_exp_minus_1)
    have two: "\<not> n < 2 \<Longrightarrow> Suc (Suc (n - 2)) = n" for n :: nat by linarith
    show ?thesis unfolding three
      by (rule bit_word_eqI) (auto simp: bit_simps two)
  qed
  then show ?thesis by (simp only: unat_push_drop_2)
qed

text \<open>What a request of \<open>sz\<close> bytes takes from the pool.\<close>

definition malloc_cost :: "u32 \<Rightarrow> nat" where
  "malloc_cost sz = unat sz div 4 * 4 + 4"

lemma malloc_advance:
  assumes "unat mp + malloc_cost sz < 4294967296"
  shows "unat (mp + ((sz AND NOT 3) + 4)) = unat mp + malloc_cost sz"
proof -
  have eq: "sz AND NOT 3 = word_of_nat (unat sz div 4 * 4)"
    using and_not_3 [of sz] by (metis word_nat_unat)
  have "word_of_nat (unat mp + malloc_cost sz) =
      (word_of_nat (unat mp) + (word_of_nat (unat sz div 4 * 4) + 4) :: u32)"
    by (simp only: malloc_cost_def of_nat_add of_nat_numeral)
  then have "mp + ((sz AND NOT 3) + 4) = word_of_nat (unat mp + malloc_cost sz)"
    unfolding eq by (simp only: word_nat_unat)
  then show ?thesis using assms by (simp only: unat_word_of_nat32)
qed

lemma malloc_some:
  assumes "unat mp + malloc_cost sz \<le> MALLOC_POOL_EXTENT"
  shows "\<exists>mp'. malloc mp sz = Some (mp, mp') \<and> unat mp' = unat mp + malloc_cost sz"
proof -
  have "unat (mp + ((sz AND NOT 3) + 4)) = unat mp + malloc_cost sz"
    using assms by (intro malloc_advance) (simp add: MALLOC_POOL_EXTENT_def)
  then show ?thesis
    using assms by (simp add: malloc_def Let_def word_less_nat_alt MALLOC_POOL_EXTENT_def)
qed

text \<open>Allocation is sound: whatever two successful requests below the pool size get, each
  block lies in the pool, is 4-byte aligned when the pointer was, holds the size asked for, and the
  second starts behind the end of the first.\<close>

theorem malloc_sound:
  assumes "malloc mp a = Some (p, mp1)" "malloc mp1 b = Some (q, mp2)"
    and "unat mp \<le> MALLOC_POOL_EXTENT" "unat a < MALLOC_POOL_EXTENT" "unat b < MALLOC_POOL_EXTENT"
  shows "unat p + unat a \<le> unat q \<and> unat q + unat b \<le> MALLOC_POOL_EXTENT \<and>
    (unat mp mod 4 = 0 \<longrightarrow> unat p mod 4 = 0 \<and> unat q mod 4 = 0)"
proof -
  have step: "unat mp' = unat mp + malloc_cost sz \<and> p = mp \<and> unat mp' \<le> MALLOC_POOL_EXTENT"
    if m: "malloc mp sz = Some (p, mp')" and small: "unat mp \<le> MALLOC_POOL_EXTENT" "unat sz < MALLOC_POOL_EXTENT"
    for mp sz p mp'
  proof -
    have "unat mp + malloc_cost sz < 4294967296"
      using small by (simp add: malloc_cost_def MALLOC_POOL_EXTENT_def)
    from malloc_advance [OF this] show ?thesis
      using m by (auto simp: malloc_def Let_def word_less_nat_alt MALLOC_POOL_EXTENT_def split: if_splits)
  qed
  note s1 = step [OF assms(1,3,4)]
  then have "unat mp1 \<le> MALLOC_POOL_EXTENT" by simp
  note s2 = step [OF assms(2) this assms(5)]
  have "unat x \<le> unat x div 4 * 4 + 4" for x :: u32 by presburger
  then show ?thesis using s1 s2 by (auto simp: le_trans malloc_cost_def)
qed

theorem malloc_sound_witness: "unat (0 :: u32) + unat (10 :: u32) \<le> unat (12 :: u32)"
  using malloc_sound [of 0 10 0 12 7 12 20] by (simp add: malloc_def MALLOC_POOL_EXTENT_def)

end
