(* ===== verification/Ext2_Fs.thy ===== *)
theory Ext2_Fs
  imports Ext2_Dev Qi_Utils
begin

section \<open>The ext2 reader of the boot loader: blocks and files\<close>

text \<open>
  \<^verbatim>\<open>qi/src/fs/ext2.c\<close>, reading.  The structures on disk stay the bytes they are: a superblock is 204
  bytes, an inode 128, and the accessors below read the little-endian field at its offset.  The
  reader of the partition is the parameter \<open>dr\<close> (\<open>ext2fs_devread\<close> of \<^verbatim>\<open>dev.c\<close>) with its own state
  \<open>'k\<close>.  The state has the file-scope variables of the source: the two cached blocks of block
  numbers, the inode size, the symbolic link counter, the mounted file system and the open file,
  and the allocator.  A C int is an \<^typ>\<open>int\<close> with its wrap-around written out.  None is what has no
  result in C: the endless loop of an exhausted allocator, a division by zero or a shift by too
  much that a broken superblock causes, a write past a buffer.  Messages are not modelled.
\<close>

definition EXT2_MAGIC :: u16 where "EXT2_MAGIC = 0xEF53"
definition INDIRECT_BLOCKS :: int where "INDIRECT_BLOCKS = 12"
definition FILETYPE_UNKNOWN :: int where "FILETYPE_UNKNOWN = 0"
definition FILETYPE_REG :: int where "FILETYPE_REG = 1"
definition FILETYPE_DIRECTORY :: int where "FILETYPE_DIRECTORY = 2"
definition FILETYPE_SYMLINK :: int where "FILETYPE_SYMLINK = 7"

subsection \<open>Structures on disk\<close>

definition sizeof_sblock :: nat where "sizeof_sblock = 204"
definition sizeof_block_group :: nat where "sizeof_block_group = 32"
definition sizeof_inode :: nat where "sizeof_inode = 128"
definition sizeof_dirent :: nat where "sizeof_dirent = 8"

definition sb_first_data_block :: "bytes \<Rightarrow> u32" where "sb_first_data_block sb = get32 sb 20"
definition sb_log2_block_size :: "bytes \<Rightarrow> u32" where "sb_log2_block_size sb = get32 sb 24"
definition sb_inodes_per_group :: "bytes \<Rightarrow> u32" where "sb_inodes_per_group sb = get32 sb 40"
definition sb_magic :: "bytes \<Rightarrow> u16" where "sb_magic sb = get16 sb 56"
definition sb_revision_level :: "bytes \<Rightarrow> u32" where "sb_revision_level sb = get32 sb 76"
definition sb_inode_size :: "bytes \<Rightarrow> u16" where "sb_inode_size sb = get16 sb 88"

definition bg_inode_table_id :: "bytes \<Rightarrow> u32" where "bg_inode_table_id bg = get32 bg 8"

definition ino_mode :: "bytes \<Rightarrow> u16" where "ino_mode ino = get16 ino 0"
definition ino_size :: "bytes \<Rightarrow> u32" where "ino_size ino = get32 ino 4"
definition ino_dir_block :: "bytes \<Rightarrow> nat \<Rightarrow> u32" where "ino_dir_block ino i = get32 ino (40 + 4 * i)"
definition ino_indir_block :: "bytes \<Rightarrow> u32" where "ino_indir_block ino = get32 ino 88"
definition ino_double_indir_block :: "bytes \<Rightarrow> u32" where "ino_double_indir_block ino = get32 ino 92"
definition ino_symlink :: "bytes \<Rightarrow> bytes" where "ino_symlink ino = region ino 40 60"

definition de_inode :: "bytes \<Rightarrow> u32" where "de_inode d = get32 d 0"
definition de_direntlen :: "bytes \<Rightarrow> u16" where "de_direntlen d = get16 d 4"
definition de_namelen :: "bytes \<Rightarrow> u8" where "de_namelen d = byte_at d 6"
definition de_filetype :: "bytes \<Rightarrow> u8" where "de_filetype d = byte_at d 7"

record ext2fs_node =
  nd_sblock :: bytes \<comment> \<open>the superblock that \<open>data\<close> points to\<close>
  nd_inode :: bytes
  nd_ino :: int
  nd_inode_read :: bool

record 'k ext2_state =
  x_dev :: 'k
  x_malloc :: u32
  x_inode_size :: int
  x_root :: "ext2fs_node option"
  x_file :: "ext2fs_node option"
  x_symlinknest :: int
  x_indir1 :: "bytes option" \<comment> \<open>the allocated block; its size is \<open>indir1_size\<close>\<close>
  x_indir1_blkno :: int
  x_indir2 :: "bytes option"
  x_indir2_blkno :: int

type_synonym 'k reader = "int \<Rightarrow> int \<Rightarrow> int \<Rightarrow> int \<Rightarrow> bytes \<Rightarrow> nat \<Rightarrow> 'k \<Rightarrow> (int \<times> bytes \<times> 'k) option"

subsection \<open>Reading through the device\<close>

definition devread ::
  "'k reader \<Rightarrow> int \<Rightarrow> int \<Rightarrow> int \<Rightarrow> int \<Rightarrow> bytes \<Rightarrow> nat \<Rightarrow> 'k ext2_state \<Rightarrow>
   (int \<times> bytes \<times> 'k ext2_state) option" where
  "devread dr sector log2 boff blen buf off st =
     do { (status, buf, k) \<leftarrow> dr sector log2 boff blen buf off (x_dev st);
          Some (status, buf, st\<lparr>x_dev := k\<rparr>) }"

text \<open>\<open>LOG2_EXT2_BLOCK_SIZE\<close> and \<open>EXT2_BLOCK_SIZE\<close>; \<open>block_size_ok\<close> is where the shift is defined.\<close>

definition LOG2_EXT2_BLOCK_SIZE :: "bytes \<Rightarrow> int" where
  "LOG2_EXT2_BLOCK_SIZE sb = uint (sb_log2_block_size sb) + 1"

definition EXT2_BLOCK_SIZE :: "bytes \<Rightarrow> int" where
  "EXT2_BLOCK_SIZE sb = 2 ^ (unat (sb_log2_block_size sb) + 10)"

definition block_size_ok :: "bytes \<Rightarrow> bool" where
  "block_size_ok sb \<longleftrightarrow> unat (sb_log2_block_size sb) \<le> 20"

definition ext2fs_blockgroup ::
  "'k reader \<Rightarrow> bytes \<Rightarrow> int \<Rightarrow> bytes \<Rightarrow> 'k ext2_state \<Rightarrow> (int \<times> bytes \<times> 'k ext2_state) option" where
  "ext2fs_blockgroup dr sb grp blkgrp st =
     devread dr (s32 (uint (sb_first_data_block sb) + 1)) (LOG2_EXT2_BLOCK_SIZE sb)
       (s32 (grp * int sizeof_block_group)) (int sizeof_block_group) blkgrp 0 st"

definition ext2fs_read_inode ::
  "'k reader \<Rightarrow> bytes \<Rightarrow> int \<Rightarrow> bytes \<Rightarrow> 'k ext2_state \<Rightarrow> (int \<times> bytes \<times> 'k ext2_state) option" where
  "ext2fs_read_inode dr sb ino inode st =
     (let per_group = uint (sb_inodes_per_group sb); isz = x_inode_size st; ino = u32_of (ino - 1) in
      if per_group = 0 \<or> \<not> block_size_ok sb then None
      else do {
        (status, blkgrp, st) \<leftarrow> ext2fs_blockgroup dr sb (s32 (ino div per_group))
                                  (replicate sizeof_block_group 0) st;
        if status = 0 then Some (0, inode, st)
        else if isz = 0 \<or> EXT2_BLOCK_SIZE sb div isz = 0 then None
        else do {
          let inodes_per_block = EXT2_BLOCK_SIZE sb div isz;
          let blkno = ino mod per_group div inodes_per_block;
          let blkoff = ino mod per_group mod inodes_per_block;
          (status, inode, st) \<leftarrow> devread dr (s32 (uint (bg_inode_table_id blkgrp) + blkno))
             (LOG2_EXT2_BLOCK_SIZE sb) (s32 (isz * blkoff)) (int sizeof_inode) inode 0 st;
          Some (if status = 0 then 0 else 1, inode, st) } })"

subsection \<open>Block numbers\<close>

definition xmalloc :: "int \<Rightarrow> 'k ext2_state \<Rightarrow> 'k ext2_state option" where
  "xmalloc n st =
     map_option (\<lambda>(_, m). st\<lparr>x_malloc := m\<rparr>) (malloc (x_malloc st) (word_of_int n))"

text \<open>Allocate a cache block when there is none of the right size; the allocator returns zeroed
  memory of the pool.\<close>

definition indir1_buffer :: "int \<Rightarrow> 'k ext2_state \<Rightarrow> (bytes \<times> 'k ext2_state) option" where
  "indir1_buffer blksz st =
     (case x_indir1 st of
        Some b \<Rightarrow>
          if int (length b) = blksz then Some (b, st)
          else map_option (\<lambda>st. (replicate (nat blksz) 0,
                 st\<lparr>x_indir1 := Some (replicate (nat blksz) 0), x_indir1_blkno := - 1\<rparr>)) (xmalloc blksz st)
      | None \<Rightarrow> map_option (\<lambda>st. (replicate (nat blksz) 0,
                 st\<lparr>x_indir1 := Some (replicate (nat blksz) 0), x_indir1_blkno := - 1\<rparr>)) (xmalloc blksz st))"

definition indir2_buffer :: "int \<Rightarrow> 'k ext2_state \<Rightarrow> (bytes \<times> 'k ext2_state) option" where
  "indir2_buffer blksz st =
     (case x_indir2 st of
        Some b \<Rightarrow>
          if int (length b) = blksz then Some (b, st)
          else map_option (\<lambda>st. (replicate (nat blksz) 0,
                 st\<lparr>x_indir2 := Some (replicate (nat blksz) 0), x_indir2_blkno := - 1\<rparr>)) (xmalloc blksz st)
      | None \<Rightarrow> map_option (\<lambda>st. (replicate (nat blksz) 0,
                 st\<lparr>x_indir2 := Some (replicate (nat blksz) 0), x_indir2_blkno := - 1\<rparr>)) (xmalloc blksz st))"

text \<open>Load block \<open>blk\<close> of the file system into the cache unless it is the one held: status and the
  cached bytes.\<close>

definition load_indir1 ::
  "'k reader \<Rightarrow> int \<Rightarrow> int \<Rightarrow> u32 \<Rightarrow> 'k ext2_state \<Rightarrow> (int \<times> bytes \<times> 'k ext2_state) option" where
  "load_indir1 dr blksz log2_blksz blk st =
     do { (b, st) \<leftarrow> indir1_buffer blksz st;
          let at = u32_of (uint blk * 2 ^ nat log2_blksz);
          if at \<noteq> u32_of (x_indir1_blkno st)
          then do { (status, b, st) \<leftarrow> devread dr (s32 (uint blk)) log2_blksz 0 blksz b 0 st;
                    let st = st\<lparr>x_indir1 := Some b\<rparr>;
                    Some (if status = 0 then (0, b, st) else (1, b, st\<lparr>x_indir1_blkno := s32 at\<rparr>)) }
          else Some (1, b, st) }"

definition load_indir2 ::
  "'k reader \<Rightarrow> int \<Rightarrow> int \<Rightarrow> u32 \<Rightarrow> 'k ext2_state \<Rightarrow> (int \<times> bytes \<times> 'k ext2_state) option" where
  "load_indir2 dr blksz log2_blksz blk st =
     do { (b, st) \<leftarrow> indir2_buffer blksz st;
          let at = u32_of (uint blk * 2 ^ nat log2_blksz);
          if at \<noteq> u32_of (x_indir2_blkno st)
          then do { (status, b, st) \<leftarrow> devread dr (s32 (uint blk)) log2_blksz 0 blksz b 0 st;
                    let st = st\<lparr>x_indir2 := Some b\<rparr>;
                    Some (if status = 0 then (0, b, st) else (1, b, st\<lparr>x_indir2_blkno := s32 at\<rparr>)) }
          else Some (1, b, st) }"

definition ext2fs_read_block ::
  "'k reader \<Rightarrow> ext2fs_node \<Rightarrow> int \<Rightarrow> 'k ext2_state \<Rightarrow> (int \<times> 'k ext2_state) option" where
  "ext2fs_read_block dr node fileblock st =
     (let sb = nd_sblock node; inode = nd_inode node;
          blksz = EXT2_BLOCK_SIZE sb; log2_blksz = LOG2_EXT2_BLOCK_SIZE sb in
      if fileblock < 0 then None
      else if fileblock < INDIRECT_BLOCKS
      then Some (s32 (uint (ino_dir_block inode (nat fileblock))), st)
      else if fileblock < INDIRECT_BLOCKS + blksz div 4
      then do {
        (status, b, st) \<leftarrow> load_indir1 dr blksz log2_blksz (ino_indir_block inode) st;
        Some (if status = 0 then 0
              else s32 (uint (get32 b (4 * nat (fileblock - INDIRECT_BLOCKS)))), st) }
      else if fileblock < INDIRECT_BLOCKS + s32 (blksz div 4 * (blksz div 4 + 1))
      then do {
        let perblock = blksz div 4;
        let rblock = fileblock - (INDIRECT_BLOCKS + blksz div 4);
        (status, b1, st) \<leftarrow> load_indir1 dr blksz log2_blksz (ino_double_indir_block inode) st;
        if status = 0 then Some (- 1, st)
        else do {
          (status, b2, st) \<leftarrow> load_indir2 dr blksz log2_blksz
                                (get32 b1 (4 * nat (rblock div perblock))) st;
          if status = 0 then Some (- 1, st)
          else Some (s32 (uint (get32 b2 (4 * nat (rblock mod perblock)))), st) } }
      else Some (- 1, st))"

subsection \<open>Reading a file\<close>

text \<open>The local variables of \<open>ext2fs_read_file\<close>: the read that has been put off (\<open>delayed_*\<close>, with
  \<open>rf_prev\<close> the flag \<open>previous_block_number\<close>), the position in the destination, and the destination.\<close>

record rf_state =
  rf_prev :: int
  rf_start :: int
  rf_extent :: int
  rf_skipfirst :: int
  rf_next :: int
  rf_delayed_buf :: nat
  rf_buf :: nat
  rf_mem :: bytes

definition rf_spill ::
  "'k reader \<Rightarrow> rf_state \<Rightarrow> 'k ext2_state \<Rightarrow> (int \<times> rf_state \<times> 'k ext2_state) option" where
  "rf_spill dr r st =
     do { (status, mem, st) \<leftarrow> devread dr (rf_start r) 0 (rf_skipfirst r) (rf_extent r)
                                 (rf_mem r) (rf_delayed_buf r) st;
          Some (status, r\<lparr>rf_mem := mem\<rparr>, st) }"

definition rf_delay :: "int \<Rightarrow> int \<Rightarrow> int \<Rightarrow> rf_state \<Rightarrow> rf_state" where
  "rf_delay blknr blockend skipfirst r =
     r\<lparr>rf_prev := blknr, rf_start := blknr, rf_extent := blockend, rf_skipfirst := skipfirst,
       rf_delayed_buf := rf_buf r, rf_next := s32 (blknr + blockend div SECTOR_SIZE)\<rparr>"

text \<open>What the loop does with block number \<open>blknr\<close> (in sectors, 0 for a hole): False in the result is
  the return of -1.\<close>

definition rf_block ::
  "'k reader \<Rightarrow> int \<Rightarrow> int \<Rightarrow> int \<Rightarrow> int \<Rightarrow> rf_state \<Rightarrow> 'k ext2_state \<Rightarrow>
   (bool \<times> rf_state \<times> 'k ext2_state) option" where
  "rf_block dr blocksize blknr blockend skipfirst r st =
     (if blknr \<noteq> 0
      then if rf_prev r \<noteq> - 1
           then if rf_next r = blknr
                then Some (True, r\<lparr>rf_extent := s32 (rf_extent r + blockend),
                                   rf_next := s32 (rf_next r + blockend div SECTOR_SIZE)\<rparr>, st)
                else do { (status, r, st) \<leftarrow> rf_spill dr r st;
                          Some (if status = 0 then (False, r, st)
                                else (True, rf_delay blknr blockend skipfirst r, st)) }
           else Some (True, rf_delay blknr blockend skipfirst r, st)
      else do {
        (ok, r, st) \<leftarrow> (if rf_prev r \<noteq> - 1
                       then do { (status, r, st) \<leftarrow> rf_spill dr r st;
                                 Some (if status = 0 then (False, r, st)
                                       else (True, r\<lparr>rf_prev := - 1\<rparr>, st)) }
                       else Some (True, r, st));
        if \<not> ok then Some (False, r, st)
        else do { mem \<leftarrow> wr (rf_mem r) (rf_buf r) (replicate (nat (blocksize - skipfirst)) 0);
                  Some (True, r\<lparr>rf_mem := mem\<rparr>, st) } })"

fun rf_loop ::
  "'k reader \<Rightarrow> ext2fs_node \<Rightarrow> int \<Rightarrow> int \<Rightarrow> int \<Rightarrow> int list \<Rightarrow> rf_state \<Rightarrow> 'k ext2_state \<Rightarrow>
   (bool \<times> rf_state \<times> 'k ext2_state) option" where
  "rf_loop dr node pos len blockcnt [] r st = Some (True, r, st)"
| "rf_loop dr node pos len blockcnt (i # is) r st =
     (let log2blocksize = LOG2_EXT2_BLOCK_SIZE (nd_sblock node);
          blocksize = EXT2_BLOCK_SIZE (nd_sblock node) in
      do {
        (blknr, st) \<leftarrow> ext2fs_read_block dr node i st;
        if blknr < 0 then Some (False, r, st)
        else do {
          let blknr = s32 (blknr * 2 ^ nat log2blocksize);
          let blockend = (if i = blockcnt - 1
                          then (let e = u32_of (len + pos) mod blocksize
                                in if e = 0 then blocksize else e)
                          else blocksize);
          let skipfirst = (if i = pos div blocksize then pos mod blocksize else 0);
          (ok, r, st) \<leftarrow> rf_block dr blocksize blknr (blockend - skipfirst) skipfirst r st;
          if \<not> ok then Some (False, r, st)
          else rf_loop dr node pos len blockcnt is
                 (r\<lparr>rf_buf := rf_buf r + nat (blocksize - skipfirst)\<rparr>) st } })"

definition ext2fs_read_file ::
  "'k reader \<Rightarrow> ext2fs_node \<Rightarrow> int \<Rightarrow> int \<Rightarrow> bytes \<Rightarrow> nat \<Rightarrow> 'k ext2_state \<Rightarrow>
   (int \<times> bytes \<times> 'k ext2_state) option" where
  "ext2fs_read_file dr node pos len mem buf st =
     (let blocksize = EXT2_BLOCK_SIZE (nd_sblock node);
          filesize = uint (ino_size (nd_inode node));
          len = min len filesize;
          blockcnt = u32_of (len + pos + blocksize - 1) div blocksize in
      if pos < 0 \<or> \<not> block_size_ok (nd_sblock node) then None
      else do {
        (ok, r, st) \<leftarrow> rf_loop dr node pos len blockcnt [pos div blocksize..blockcnt - 1]
           \<lparr>rf_prev = - 1, rf_start = 0, rf_extent = 0, rf_skipfirst = 0, rf_next = 0,
            rf_delayed_buf = 0, rf_buf = buf, rf_mem = mem\<rparr> st;
        if \<not> ok then Some (- 1, rf_mem r, st)
        else if rf_prev r \<noteq> - 1
        then do { (status, r, st) \<leftarrow> rf_spill dr r st;
                  Some (if status = 0 then - 1 else s32 len, rf_mem r, st) }
        else Some (s32 len, rf_mem r, st) })"

end
