(* ===== verification/Ext2_Files.thy ===== *)
theory Ext2_Files
  imports Ext2_Fs
begin

section \<open>The ext2 reader: reading a file gives the file\<close>

text \<open>
  The abstract view of a file: the bytes of its blocks in order, a block number found directly, in
  one indirect block or through two, and 0 for a block that is not stored and reads as zeros.  The
  lemmas hold for every reader of the partition that keeps the contract \<open>partition_reader\<close>; they
  show that the cached indirect blocks never go stale while one file system is mounted, and that
  putting off and joining the reads of neighbouring blocks changes nothing in what is read.
\<close>

subsection \<open>The file as a list of blocks\<close>

definition bsize :: "bytes \<Rightarrow> nat" where "bsize sb = 2 ^ (unat (sb_log2_block_size sb) + 10)"
definition spb :: "bytes \<Rightarrow> nat" where "spb sb = 2 ^ (unat (sb_log2_block_size sb) + 1)"

definition fs_block :: "bytes \<Rightarrow> bytes \<Rightarrow> nat \<Rightarrow> bytes" where
  "fs_block disk sb b = region disk (bsize sb * b) (bsize sb)"

definition file_block :: "bytes \<Rightarrow> bytes \<Rightarrow> bytes \<Rightarrow> nat \<Rightarrow> nat" where
  "file_block disk sb inode i =
     (let p = bsize sb div 4 in
      if i < 12 then unat (ino_dir_block inode i)
      else if i < 12 + p
      then unat (get32 (fs_block disk sb (unat (ino_indir_block inode))) (4 * (i - 12)))
      else let j = i - (12 + p);
               b = unat (get32 (fs_block disk sb (unat (ino_double_indir_block inode))) (4 * (j div p)))
           in unat (get32 (fs_block disk sb b) (4 * (j mod p))))"

definition block_bytes :: "bytes \<Rightarrow> bytes \<Rightarrow> nat \<Rightarrow> bytes" where
  "block_bytes disk sb b = (if b = 0 then replicate (bsize sb) 0 else fs_block disk sb b)"

definition file_blocks :: "bytes \<Rightarrow> bytes \<Rightarrow> bytes \<Rightarrow> nat \<Rightarrow> bytes" where
  "file_blocks disk sb inode n =
     concat (map (\<lambda>i. block_bytes disk sb (file_block disk sb inode i)) [0..<n])"

text \<open>A block that lies on the partition, and a file all of whose first \<open>n\<close> blocks, and the blocks
  of block numbers needed to find them, do.\<close>

definition on_disk :: "bytes \<Rightarrow> bytes \<Rightarrow> nat \<Rightarrow> bool" where
  "on_disk disk sb b \<longleftrightarrow> bsize sb * b + bsize sb \<le> length disk"

definition index_ok :: "bytes \<Rightarrow> bytes \<Rightarrow> bytes \<Rightarrow> nat \<Rightarrow> bool" where
  "index_ok disk sb inode i \<longleftrightarrow>
     (let p = bsize sb div 4 in
      i < 12 + p + p * p \<and>
      (12 \<le> i \<and> i < 12 + p \<longrightarrow> on_disk disk sb (unat (ino_indir_block inode))) \<and>
      (12 + p \<le> i \<longrightarrow> on_disk disk sb (unat (ino_double_indir_block inode)) \<and>
         on_disk disk sb (unat (get32 (fs_block disk sb (unat (ino_double_indir_block inode)))
                                   (4 * ((i - (12 + p)) div p))))) \<and>
      on_disk disk sb (file_block disk sb inode i))"

definition sane_sb :: "bytes \<Rightarrow> bool" where
  "sane_sb sb \<longleftrightarrow> unat (sb_log2_block_size sb) \<le> 4"

lemma bsize_spb: "bsize sb = 512 * spb sb"
  by (simp add: bsize_def spb_def power_add)

lemma bsize_pos [simp]: "0 < bsize sb" "0 < spb sb"
  by (simp_all add: bsize_def spb_def)

lemma bsize_sane:
  assumes "sane_sb sb"
  shows "bsize sb \<in> {1024, 2048, 4096, 8192, 16384}"
proof -
  have "unat (sb_log2_block_size sb) \<in> {0, 1, 2, 3, 4}"
    using assms by (auto simp: sane_sb_def)
  then show ?thesis by (auto simp: bsize_def)
qed

lemma bsize_le: "sane_sb sb \<Longrightarrow> bsize sb \<le> 16384"
  using bsize_sane [of sb] by auto

lemma EXT2_BLOCK_SIZE_bsize: "EXT2_BLOCK_SIZE sb = int (bsize sb)"
  by (simp add: EXT2_BLOCK_SIZE_def bsize_def)

lemma LOG2_spb: "2 ^ nat (LOG2_EXT2_BLOCK_SIZE sb) = int (spb sb)"
proof -
  have "nat (LOG2_EXT2_BLOCK_SIZE sb) = unat (sb_log2_block_size sb) + 1"
    using int_unat_uint [of "sb_log2_block_size sb"]
    by (simp add: LOG2_EXT2_BLOCK_SIZE_def nat_add_distrib)
  then show ?thesis by (simp add: spb_def)
qed

lemma length_fs_block: "on_disk disk sb b \<Longrightarrow> length (fs_block disk sb b) = bsize sb"
  unfolding on_disk_def fs_block_def by (rule length_region_fits)

lemma length_block_bytes: "on_disk disk sb b \<Longrightarrow> length (block_bytes disk sb b) = bsize sb"
  by (simp add: block_bytes_def length_fs_block)

lemma fs_block_at: "region disk (512 * (b * spb sb)) (bsize sb) = fs_block disk sb b"
  by (simp add: fs_block_def bsize_spb ac_simps)

lemma on_disk_sector:
  assumes "on_disk disk sb b" "length disk < 1099511627776"
  shows "b * spb sb < 2147483648" "b < 2147483648"
proof -
  show "b * spb sb < 2147483648"
    using assms by (simp add: on_disk_def bsize_spb mult.commute)
  moreover have "b \<le> b * spb sb" using bsize_pos(2) [of sb] by (simp add: Suc_le_eq)
  ultimately show "b < 2147483648" by linarith
qed

subsection \<open>Cached block numbers\<close>

definition cache_holds :: "bytes \<Rightarrow> nat \<Rightarrow> bytes option \<Rightarrow> int \<Rightarrow> bool" where
  "cache_holds disk bs buf blkno \<longleftrightarrow>
     (case buf of None \<Rightarrow> True
      | Some b \<Rightarrow> length b = bs \<longrightarrow>
          blkno = - 1 \<or> (0 \<le> blkno \<and> blkno < 2147483648 \<and> b = region disk (512 * nat blkno) bs))"

text \<open>Room in the pool for the cache blocks that are not there yet, and for \<open>rsv\<close> bytes more.\<close>

definition cache_cost :: "nat \<Rightarrow> bytes option \<Rightarrow> nat" where
  "cache_cost bs buf = (case buf of Some b \<Rightarrow> if length b = bs then 0 else bs + 4 | None \<Rightarrow> bs + 4)"

definition ext2_inv :: "bytes \<Rightarrow> bytes \<Rightarrow> nat \<Rightarrow> 'k ext2_state \<Rightarrow> bool" where
  "ext2_inv disk sb rsv st \<longleftrightarrow>
     cache_holds disk (bsize sb) (x_indir1 st) (x_indir1_blkno st) \<and>
     cache_holds disk (bsize sb) (x_indir2 st) (x_indir2_blkno st) \<and>
     unat (x_malloc st) + cache_cost (bsize sb) (x_indir1 st) + cache_cost (bsize sb) (x_indir2 st)
       + rsv \<le> MALLOC_POOL_EXTENT"

text \<open>What reading blocks may change: the caches, the allocator and the device.\<close>

definition ext2_frame :: "'k ext2_state \<Rightarrow> 'k ext2_state \<Rightarrow> bool" where
  "ext2_frame st st' \<longleftrightarrow> x_inode_size st' = x_inode_size st \<and> x_root st' = x_root st \<and>
     x_file st' = x_file st \<and> x_symlinknest st' = x_symlinknest st"

lemma ext2_frame_refl [simp]: "ext2_frame st st"
  by (simp add: ext2_frame_def)

lemma ext2_frame_trans: "ext2_frame st st1 \<Longrightarrow> ext2_frame st1 st2 \<Longrightarrow> ext2_frame st st2"
  by (simp add: ext2_frame_def)

lemma malloc_cost_bsize:
  assumes "sane_sb sb"
  shows "malloc_cost (word_of_int (int (bsize sb))) = bsize sb + 4"
  using bsize_sane [OF assms] by (auto simp: malloc_cost_def)

lemma xmalloc_bsize:
  assumes "sane_sb sb" "unat (x_malloc st) + (bsize sb + 4) \<le> MALLOC_POOL_EXTENT"
  obtains m where "xmalloc (int (bsize sb)) st = Some (st\<lparr>x_malloc := m\<rparr>)"
    "unat m = unat (x_malloc st) + (bsize sb + 4)"
proof -
  let ?w = "word_of_int (int (bsize sb)) :: u32"
  obtain m where "malloc (x_malloc st) ?w = Some (x_malloc st, m)"
    "unat m = unat (x_malloc st) + malloc_cost ?w"
    using malloc_some [of "x_malloc st" ?w] assms(2) unfolding malloc_cost_bsize [OF assms(1)] by blast
  then show thesis
    using that [of m] malloc_cost_bsize [OF assms(1)] unfolding xmalloc_def by (simp only: option.map prod.case)
qed

lemma indir1_buffer_ok:
  assumes "ext2_inv disk sb rsv st" "sane_sb sb"
  shows "\<exists>b st'. indir1_buffer (int (bsize sb)) st = Some (b, st') \<and> x_indir1 st' = Some b \<and>
           length b = bsize sb \<and> ext2_inv disk sb rsv st' \<and> ext2_frame st st' \<and> x_dev st' = x_dev st"
proof (cases "\<exists>b. x_indir1 st = Some b \<and> length b = bsize sb")
  case True
  then show ?thesis using assms(1) by (auto simp: indir1_buffer_def)
next
  case False
  then have "cache_cost (bsize sb) (x_indir1 st) = bsize sb + 4"
    by (auto simp: cache_cost_def split: option.split)
  then obtain m where m: "xmalloc (int (bsize sb)) st = Some (st\<lparr>x_malloc := m\<rparr>)"
    "unat m = unat (x_malloc st) + (bsize sb + 4)"
    using xmalloc_bsize [OF assms(2), of st] assms(1) by (auto simp: ext2_inv_def)
  then show ?thesis
    using False assms(1) \<open>cache_cost _ _ = _\<close>
    by (auto simp: indir1_buffer_def ext2_inv_def cache_holds_def cache_cost_def ext2_frame_def
        split: option.split)
qed

lemma indir2_buffer_ok:
  assumes "ext2_inv disk sb rsv st" "sane_sb sb"
  shows "\<exists>b st'. indir2_buffer (int (bsize sb)) st = Some (b, st') \<and> x_indir2 st' = Some b \<and>
           length b = bsize sb \<and> ext2_inv disk sb rsv st' \<and> ext2_frame st st' \<and> x_dev st' = x_dev st"
proof (cases "\<exists>b. x_indir2 st = Some b \<and> length b = bsize sb")
  case True
  then show ?thesis using assms(1) by (auto simp: indir2_buffer_def)
next
  case False
  then have "cache_cost (bsize sb) (x_indir2 st) = bsize sb + 4"
    by (auto simp: cache_cost_def split: option.split)
  then obtain m where m: "xmalloc (int (bsize sb)) st = Some (st\<lparr>x_malloc := m\<rparr>)"
    "unat m = unat (x_malloc st) + (bsize sb + 4)"
    using xmalloc_bsize [OF assms(2), of st] assms(1) by (auto simp: ext2_inv_def)
  then show ?thesis
    using False assms(1) \<open>cache_cost _ _ = _\<close>
    by (auto simp: indir2_buffer_def ext2_inv_def cache_holds_def cache_cost_def ext2_frame_def
        split: option.split)
qed

subsection \<open>Block numbers are found\<close>

context partition_reader
begin

lemma devread_ok:
  assumes "good e (x_dev st)" "0 \<le> sector" "sector * 2 ^ nat log2 < 2147483648" "0 < n"
    and "boff + n < 2147483648"
    and "512 * nat (sector * 2 ^ nat log2) + boff + n \<le> length (content e)" "off + n \<le> length buf"
  shows "\<exists>k'. devread (dread e) sector log2 (int boff) (int n) buf off st =
      Some (1, patch buf off (region (content e) (512 * nat (sector * 2 ^ nat log2) + boff) n),
        st\<lparr>x_dev := k'\<rparr>) \<and> good e k'"
  using dread_ok [OF assms(1-6) assms(7)] by (auto simp: devread_def)

lemma devread_block:
  assumes "good e (x_dev st)" "on_disk (content e) sb (unat blk)" "sane_sb sb" "length b = bsize sb"
  shows "\<exists>k'. devread (dread e) (s32 (uint blk)) (LOG2_EXT2_BLOCK_SIZE sb) 0 (int (bsize sb)) b 0 st =
      Some (1, fs_block (content e) sb (unat blk), st\<lparr>x_dev := k'\<rparr>) \<and> good e k'"
proof -
  note lim = on_disk_sector [OF assms(2) content_size [OF assms(1)]]
  have blk: "s32 (uint blk) = int (unat blk)"
    using lim(2) unfolding int_unat_uint [symmetric] by (intro s32_id) linarith+
  have at: "int (unat blk) * 2 ^ nat (LOG2_EXT2_BLOCK_SIZE sb) = int (unat blk * spb sb)"
    by (simp only: LOG2_spb of_nat_mult)
  have "bsize sb < 2147483648" using bsize_sane [OF assms(3)] by auto
  moreover have "512 * nat (int (unat blk * spb sb)) + 0 + bsize sb \<le> length (content e)"
    using assms(2) unfolding nat_int by (simp add: on_disk_def bsize_spb ac_simps)
  moreover have "int (unat blk * spb sb) < 2147483648" using lim(1) by linarith
  ultimately obtain k' where k': "good e k'" "devread (dread e) (int (unat blk)) (LOG2_EXT2_BLOCK_SIZE sb) (int 0)
      (int (bsize sb)) b 0 st = Some (1, patch b 0 (region (content e) (512 * (unat blk * spb sb) + 0) (bsize sb)),
        st\<lparr>x_dev := k'\<rparr>)"
    using devread_ok [of e st "int (unat blk)" "LOG2_EXT2_BLOCK_SIZE sb" "bsize sb" 0 0 b, OF assms(1) of_nat_0_le_iff]
      bsize_pos(1) [of sb] assms(4)
    unfolding at nat_int by (metis add_0 order_refl)
  have "patch b 0 (region (content e) (512 * (unat blk * spb sb) + 0) (bsize sb)) = fs_block (content e) sb (unat blk)"
    using length_fs_block [OF assms(2)] assms(4) by (simp add: patch_def fs_block_at)
  with k' show ?thesis unfolding blk by auto
qed

lemma at_sector:
  assumes "on_disk disk sb (unat blk)" "length disk < 1099511627776"
  shows "u32_of (uint blk * 2 ^ nat (LOG2_EXT2_BLOCK_SIZE sb)) = int (unat blk * spb sb)"
proof -
  have "int (unat blk * spb sb) < 4294967296"
    using on_disk_sector(1) [OF assms] by linarith
  then show ?thesis
    unfolding LOG2_spb int_unat_uint [symmetric] of_nat_mult [symmetric] by (intro u32_of_id) simp_all
qed

lemma cached_block:
  assumes "cache_holds disk (bsize sb) (Some b) blkno" "length b = bsize sb"
    and "int (unat blk * spb sb) = u32_of blkno" "unat blk * spb sb < 2147483648"
  shows "b = fs_block disk sb (unat blk)"
proof -
  have "u32_of (- 1) = 4294967295" by (simp add: u32_of_def)
  moreover have "u32_of blkno < 2147483648" using assms(3,4) by linarith
  ultimately have "blkno \<noteq> - 1" by auto
  then have "0 \<le> blkno" "blkno < 2147483648" "b = region disk (512 * nat blkno) (bsize sb)"
    using assms(1,2) by (auto simp: cache_holds_def)
  moreover have "u32_of blkno = blkno" using calculation(1,2) by simp
  then have "nat blkno = unat blk * spb sb" using assms(3) by (metis nat_int)
  ultimately show ?thesis by (simp only: fs_block_at)
qed

lemma filled_cache:
  assumes "on_disk disk sb (unat blk)" "length disk < 1099511627776"
  shows "cache_holds disk (bsize sb) (Some (fs_block disk sb (unat blk))) (s32 (int (unat blk * spb sb)))"
proof -
  have "s32 (int (unat blk * spb sb)) = int (unat blk * spb sb)"
    using on_disk_sector(1) [OF assms] by (intro s32_id) linarith+
  moreover have "int (unat blk * spb sb) < 2147483648" using on_disk_sector(1) [OF assms] by linarith
  ultimately show ?thesis
    unfolding cache_holds_def option.case nat_int by (simp only: nat_int fs_block_at of_nat_0_le_iff) simp
qed

lemma load_indir1_ok:
  assumes "ext2_inv (content e) sb rsv st" "sane_sb sb" "good e (x_dev st)"
    and "on_disk (content e) sb (unat blk)"
  shows "\<exists>st'. load_indir1 (dread e) (int (bsize sb)) (LOG2_EXT2_BLOCK_SIZE sb) blk st =
      Some (1, fs_block (content e) sb (unat blk), st') \<and>
      ext2_inv (content e) sb rsv st' \<and> good e (x_dev st') \<and> ext2_frame st st'"
proof -
  note size = content_size [OF assms(3)]
  obtain b st1 where b: "indir1_buffer (int (bsize sb)) st = Some (b, st1)" "x_indir1 st1 = Some b"
    "length b = bsize sb" "ext2_inv (content e) sb rsv st1" "ext2_frame st st1" "x_dev st1 = x_dev st"
    using indir1_buffer_ok [OF assms(1,2)] by blast
  note at = at_sector [OF assms(4) size]
  have hold: "cache_holds (content e) (bsize sb) (Some b) (x_indir1_blkno st1)"
    using b(2,4) by (simp add: ext2_inv_def)
  show ?thesis
  proof (cases "int (unat blk * spb sb) = u32_of (x_indir1_blkno st1)")
    case True
    then have "b = fs_block (content e) sb (unat blk)"
      using on_disk_sector(1) [OF assms(4) size] by (rule cached_block [OF hold b(3)])
    then show ?thesis
      using b assms(3) True unfolding load_indir1_def at by (simp add: Let_def)
  next
    case False
    obtain k' where k': "good e k'" "devread (dread e) (s32 (uint blk)) (LOG2_EXT2_BLOCK_SIZE sb) 0
        (int (bsize sb)) b 0 st1 = Some (1, fs_block (content e) sb (unat blk), st1\<lparr>x_dev := k'\<rparr>)"
      using devread_block [of e st1 sb blk b] assms b(3,6) by auto
    let ?st = "st1\<lparr>x_dev := k', x_indir1 := Some (fs_block (content e) sb (unat blk)),
      x_indir1_blkno := s32 (int (unat blk * spb sb))\<rparr>"
    have "load_indir1 (dread e) (int (bsize sb)) (LOG2_EXT2_BLOCK_SIZE sb) blk st =
        Some (1, fs_block (content e) sb (unat blk), ?st)"
      using b(1) k'(2) False unfolding load_indir1_def at by (simp add: Let_def)
    moreover have "ext2_inv (content e) sb rsv ?st"
      using b(2,3,4) filled_cache [OF assms(4) size] length_fs_block [OF assms(4)]
      by (simp add: ext2_inv_def cache_cost_def)
    moreover have "ext2_frame st ?st" using b(5) by (simp add: ext2_frame_def)
    ultimately show ?thesis using k'(1) by auto
  qed
qed

lemma load_indir2_ok:
  assumes "ext2_inv (content e) sb rsv st" "sane_sb sb" "good e (x_dev st)"
    and "on_disk (content e) sb (unat blk)"
  shows "\<exists>st'. load_indir2 (dread e) (int (bsize sb)) (LOG2_EXT2_BLOCK_SIZE sb) blk st =
      Some (1, fs_block (content e) sb (unat blk), st') \<and>
      ext2_inv (content e) sb rsv st' \<and> good e (x_dev st') \<and> ext2_frame st st'"
proof -
  note size = content_size [OF assms(3)]
  obtain b st1 where b: "indir2_buffer (int (bsize sb)) st = Some (b, st1)" "x_indir2 st1 = Some b"
    "length b = bsize sb" "ext2_inv (content e) sb rsv st1" "ext2_frame st st1" "x_dev st1 = x_dev st"
    using indir2_buffer_ok [OF assms(1,2)] by blast
  note at = at_sector [OF assms(4) size]
  have hold: "cache_holds (content e) (bsize sb) (Some b) (x_indir2_blkno st1)"
    using b(2,4) by (simp add: ext2_inv_def)
  show ?thesis
  proof (cases "int (unat blk * spb sb) = u32_of (x_indir2_blkno st1)")
    case True
    then have "b = fs_block (content e) sb (unat blk)"
      using on_disk_sector(1) [OF assms(4) size] by (rule cached_block [OF hold b(3)])
    then show ?thesis
      using b assms(3) True unfolding load_indir2_def at by (simp add: Let_def)
  next
    case False
    obtain k' where k': "good e k'" "devread (dread e) (s32 (uint blk)) (LOG2_EXT2_BLOCK_SIZE sb) 0
        (int (bsize sb)) b 0 st1 = Some (1, fs_block (content e) sb (unat blk), st1\<lparr>x_dev := k'\<rparr>)"
      using devread_block [of e st1 sb blk b] assms b(3,6) by auto
    let ?st = "st1\<lparr>x_dev := k', x_indir2 := Some (fs_block (content e) sb (unat blk)),
      x_indir2_blkno := s32 (int (unat blk * spb sb))\<rparr>"
    have "load_indir2 (dread e) (int (bsize sb)) (LOG2_EXT2_BLOCK_SIZE sb) blk st =
        Some (1, fs_block (content e) sb (unat blk), ?st)"
      using b(1) k'(2) False unfolding load_indir2_def at by (simp add: Let_def)
    moreover have "ext2_inv (content e) sb rsv ?st"
      using b(2,3,4) filled_cache [OF assms(4) size] length_fs_block [OF assms(4)]
      by (simp add: ext2_inv_def cache_cost_def)
    moreover have "ext2_frame st ?st" using b(5) by (simp add: ext2_frame_def)
    ultimately show ?thesis using k'(1) by auto
  qed
qed

lemma entry_number:
  assumes "on_disk disk sb (unat blk)" "length disk < 1099511627776"
  shows "s32 (uint blk) = int (unat blk)"
  using on_disk_sector(2) [OF assms] unfolding int_unat_uint [symmetric] by (intro s32_id) linarith+

lemma read_block_ok:
  assumes inv: "ext2_inv (content e) (nd_sblock node) rsv st" "sane_sb (nd_sblock node)" "good e (x_dev st)"
    and ix: "index_ok (content e) (nd_sblock node) (nd_inode node) i"
  shows "\<exists>st'. ext2fs_read_block (dread e) node (int i) st =
      Some (int (file_block (content e) (nd_sblock node) (nd_inode node) i), st') \<and>
      ext2_inv (content e) (nd_sblock node) rsv st' \<and> good e (x_dev st') \<and> ext2_frame st st'"
proof -
  let ?sb = "nd_sblock node" and ?inode = "nd_inode node" and ?disk = "content e"
  define p where "p = bsize ?sb div 4"
  note size = content_size [OF inv(3)]
  have p: "EXT2_BLOCK_SIZE ?sb div 4 = int p" by (simp add: EXT2_BLOCK_SIZE_bsize p_def zdiv_int)
  have p_range: "0 < p" "p \<le> 4096" using bsize_sane [OF inv(2)] by (auto simp: p_def)
  have bound: "s32 (int p * (int p + 1)) = int (p * p + p)"
  proof -
    have "p * p \<le> 4096 * 4096" using p_range(2) by (intro mult_le_mono)
    then have "int (p * p + p) < 2147483648" using p_range(2) by linarith
    then have "s32 (int (p * p + p)) = int (p * p + p)" by (intro s32_id) linarith+
    then show ?thesis by (simp add: distrib_left)
  qed
  note ix' = ix [unfolded index_ok_def Let_def p_def [symmetric]]
  note fb = file_block_def [of ?disk ?sb ?inode i, unfolded Let_def p_def [symmetric]]
  have rb: "ext2fs_read_block (dread e) node (int i) st =
     (if int i < 12 then Some (s32 (uint (ino_dir_block ?inode i)), st)
      else if int i < 12 + int p
      then do {
        (status, b, st) \<leftarrow> load_indir1 (dread e) (int (bsize ?sb)) (LOG2_EXT2_BLOCK_SIZE ?sb) (ino_indir_block ?inode) st;
        Some (if status = 0 then 0 else s32 (uint (get32 b (4 * nat (int i - 12)))), st) }
      else if int i < 12 + int (p * p + p)
      then do {
        (status, b1, st) \<leftarrow> load_indir1 (dread e) (int (bsize ?sb)) (LOG2_EXT2_BLOCK_SIZE ?sb)
                              (ino_double_indir_block ?inode) st;
        if status = 0 then Some (- 1, st)
        else do {
          (status, b2, st) \<leftarrow> load_indir2 (dread e) (int (bsize ?sb)) (LOG2_EXT2_BLOCK_SIZE ?sb)
                                (get32 b1 (4 * nat ((int i - (12 + int p)) div int p))) st;
          if status = 0 then Some (- 1, st)
          else Some (s32 (uint (get32 b2 (4 * nat ((int i - (12 + int p)) mod int p)))), st) } }
      else Some (- 1, st))"
    unfolding ext2fs_read_block_def Let_def INDIRECT_BLOCKS_def p bound
    unfolding EXT2_BLOCK_SIZE_bsize by simp
  consider "i < 12" | "12 \<le> i" "i < 12 + p" | "12 + p \<le> i" by linarith
  then show ?thesis
  proof cases
    case 1
    then have "file_block ?disk ?sb ?inode i = unat (ino_dir_block ?inode i)" by (simp add: fb)
    moreover have "s32 (uint (ino_dir_block ?inode i)) = int (unat (ino_dir_block ?inode i))"
      using ix' calculation size by (intro entry_number) auto
    ultimately show ?thesis using 1 inv unfolding rb by simp
  next
    case 2
    then obtain st' where st': "load_indir1 (dread e) (int (bsize ?sb)) (LOG2_EXT2_BLOCK_SIZE ?sb)
        (ino_indir_block ?inode) st = Some (1, fs_block ?disk ?sb (unat (ino_indir_block ?inode)), st')"
      "ext2_inv ?disk ?sb rsv st'" "good e (x_dev st')" "ext2_frame st st'"
      using load_indir1_ok [OF inv] ix' by blast
    let ?w = "get32 (fs_block ?disk ?sb (unat (ino_indir_block ?inode))) (4 * (i - 12))"
    have fw: "file_block ?disk ?sb ?inode i = unat ?w" using 2 by (simp add: fb)
    then have "s32 (uint ?w) = int (unat ?w)" using ix' size by (intro entry_number) auto
    moreover have "nat (int i - 12) = i - 12" using 2 by simp
    ultimately show ?thesis using 2 st' fw unfolding rb by simp
  next
    case 3
    define j where "j = i - (12 + p)"
    let ?b1 = "fs_block ?disk ?sb (unat (ino_double_indir_block ?inode))"
    let ?w1 = "get32 ?b1 (4 * (j div p))"
    let ?w = "get32 (fs_block ?disk ?sb (unat ?w1)) (4 * (j mod p))"
    have j: "int i - (12 + int p) = int j" using 3 by (simp add: j_def)
    have jn: "nat (int j div int p) = j div p" "nat (int j mod int p) = j mod p"
      by (simp_all add: zdiv_int [symmetric] zmod_int [symmetric])
    obtain st1 where st1: "load_indir1 (dread e) (int (bsize ?sb)) (LOG2_EXT2_BLOCK_SIZE ?sb)
        (ino_double_indir_block ?inode) st = Some (1, ?b1, st1)"
      "ext2_inv ?disk ?sb rsv st1" "good e (x_dev st1)" "ext2_frame st st1"
      using load_indir1_ok [OF inv] ix' 3 by blast
    obtain st2 where st2: "load_indir2 (dread e) (int (bsize ?sb)) (LOG2_EXT2_BLOCK_SIZE ?sb) ?w1 st1 =
        Some (1, fs_block ?disk ?sb (unat ?w1), st2)"
      "ext2_inv ?disk ?sb rsv st2" "good e (x_dev st2)" "ext2_frame st1 st2"
      using load_indir2_ok [OF st1(2) inv(2) st1(3)] ix' 3 unfolding j_def by blast
    have fw: "file_block ?disk ?sb ?inode i = unat ?w" using 3 by (simp add: fb j_def)
    then have "s32 (uint ?w) = int (unat ?w)" using ix' size by (intro entry_number) auto
    moreover have "i < 12 + (p * p + p)" using ix' by simp
    then have "int i < 12 + int (p * p + p)" by linarith
    moreover have "ext2_frame st st2" using st1(4) st2(4) by (rule ext2_frame_trans)
    ultimately show ?thesis using 3 st1(1) st2(1,2,3) fw unfolding rb j jn by simp
  qed
qed

end

end
