(* ===== verification/Ext2_Read.thy ===== *)
theory Ext2_Read
  imports Ext2_Files
begin

section \<open>The ext2 reader: joined reads\<close>

text \<open>
  \<open>ext2fs_read_file\<close> puts off each read and joins it with the next when the blocks lie side by side
  on disk.  The memory that a state of its loop stands for is the memory with the pending read
  done (\<open>flushed\<close>); each pass of the loop then writes exactly the bytes of one block.
\<close>

subsection \<open>The read that has been put off\<close>

definition flushed :: "bytes \<Rightarrow> rf_state \<Rightarrow> bytes" where
  "flushed disk r =
     (if rf_prev r = - 1 then rf_mem r
      else patch (rf_mem r) (rf_delayed_buf r)
             (region disk (512 * nat (rf_start r) + nat (rf_skipfirst r)) (nat (rf_extent r))))"

text \<open>A pending read of \<open>n\<close> bytes at byte \<open>k\<close> of sector \<open>s\<close>, safe to do.\<close>

definition pending :: "bytes \<Rightarrow> rf_state \<Rightarrow> nat \<Rightarrow> nat \<Rightarrow> nat \<Rightarrow> bool" where
  "pending disk r s k n \<longleftrightarrow> rf_prev r \<noteq> - 1 \<and>
     rf_start r = int s \<and> rf_skipfirst r = int k \<and> rf_extent r = int n \<and> 0 < n \<and>
     s < 2147483648 \<and> k + n < 2147483648 \<and> 512 * s + k + n \<le> length disk \<and>
     rf_delayed_buf r + n \<le> length (rf_mem r)"

lemma flushed_pending:
  "pending disk r s k n \<Longrightarrow>
   flushed disk r = patch (rf_mem r) (rf_delayed_buf r) (region disk (512 * s + k) n)"
  by (simp add: pending_def flushed_def)

lemma length_flushed_pending: "pending disk r s k n \<Longrightarrow> length (flushed disk r) = length (rf_mem r)"
  unfolding flushed_pending by (rule length_patch) (auto simp: pending_def)

lemma region_block_bytes:
  assumes "b \<noteq> 0" "s + n \<le> bsize sb"
  shows "region (block_bytes disk sb b) s n = region disk (512 * (b * spb sb) + s) n"
  using assms by (simp add: block_bytes_def fs_block_at [symmetric] region_region)

lemma sector_bound: "512 * x \<le> l \<Longrightarrow> l < 1099511627776 \<Longrightarrow> x < (2147483648 :: nat)"
  by linarith

lemma int_not_minus_one [simp]: "int x \<noteq> - 1"
  by linarith

text \<open>A state between two passes: the pending read, if any, ends where the next byte goes in memory, and
  if the next block is block \<open>b\<close> the join condition of the code is right about it.\<close>

definition joinable :: "bytes \<Rightarrow> rf_state \<Rightarrow> nat \<Rightarrow> bool" where
  "joinable disk r upto_len \<longleftrightarrow> rf_prev r = - 1 \<or>
     (\<exists>s k n. pending disk r s k n \<and> rf_delayed_buf r + n = rf_buf r \<and> k + n \<le> upto_len)"

definition joins_right :: "bytes \<Rightarrow> rf_state \<Rightarrow> nat \<Rightarrow> bool" where
  "joins_right sb r b \<longleftrightarrow> rf_prev r \<noteq> - 1 \<longrightarrow> rf_next r = int (b * spb sb) \<longrightarrow>
     512 * rf_next r = 512 * rf_start r + rf_skipfirst r + rf_extent r"

context partition_reader
begin

lemma rf_spill_ok:
  assumes "good e (x_dev st)" "pending (content e) r s k n"
  shows "\<exists>k'. rf_spill (dread e) r st = Some (1, r\<lparr>rf_mem := flushed (content e) r\<rparr>, st\<lparr>x_dev := k'\<rparr>) \<and>
    good e k'"
proof -
  have p: "rf_start r = int s" "rf_skipfirst r = int k" "rf_extent r = int n" "0 < n" "int s < 2147483648"
    "k + n < 2147483648" "512 * s + k + n \<le> length (content e)" "rf_delayed_buf r + n \<le> length (rf_mem r)"
    using assms(2) by (simp_all add: pending_def)
  obtain k' where "good e k'" "devread (dread e) (int s) 0 (int k) (int n) (rf_mem r) (rf_delayed_buf r) st =
      Some (1, patch (rf_mem r) (rf_delayed_buf r) (region (content e) (512 * s + k) n), st\<lparr>x_dev := k'\<rparr>)"
    using devread_ok [of e st "int s" 0 n k "rf_delayed_buf r" "rf_mem r"] assms(1) p(4-8) by auto
  then show ?thesis
    unfolding rf_spill_def flushed_pending [OF assms(2)] p(1-3) by (intro exI [of _ k']) simp
qed

lemma rf_delay_pending:
  assumes "on_disk (content e) sb b" "length (content e) < 1099511627776" "sane_sb sb" "0 < b"
    and "0 < n" "skip + n \<le> bsize sb" "rf_buf r + n \<le> length (rf_mem r)"
  shows "pending (content e) (rf_delay (int (b * spb sb)) (int n) (int skip) r) (b * spb sb) skip n"
    "rf_delayed_buf (rf_delay (int (b * spb sb)) (int n) (int skip) r) = rf_buf r"
    "rf_mem (rf_delay (int (b * spb sb)) (int n) (int skip) r) = rf_mem r"
    "rf_buf (rf_delay (int (b * spb sb)) (int n) (int skip) r) = rf_buf r"
    "rf_next (rf_delay (int (b * spb sb)) (int n) (int skip) r) = int (b * spb sb + n div 512)"
proof -
  note lim = on_disk_sector(1) [OF assms(1,2)]
  have B: "bsize sb \<le> 16384" using bsize_sane [OF assms(3)] by auto
  have end_in: "512 * (b * spb sb) + skip + n \<le> length (content e)"
    using assms(1,6) by (simp add: on_disk_def bsize_spb ac_simps)
  then show "pending (content e) (rf_delay (int (b * spb sb)) (int n) (int skip) r) (b * spb sb) skip n"
    using lim B assms(4-7) unfolding pending_def rf_delay_def
    by (simp del: of_nat_mult add: int_not_minus_one)
  have "int (b * spb sb + n div 512) < 2147483648"
  proof -
    have "512 * (b * spb sb + n div 512) \<le> length (content e)" using end_in by (simp add: distrib_left)
    then have "b * spb sb + n div 512 < 2147483648" using assms(2) by (rule sector_bound)
    then show ?thesis by (simp only: of_nat_less_numeral_iff)
  qed
  then have "s32 (int (b * spb sb + n div 512)) = int (b * spb sb + n div 512)" by (intro s32_id) linarith+
  then show "rf_next (rf_delay (int (b * spb sb)) (int n) (int skip) r) = int (b * spb sb + n div 512)"
    by (simp add: rf_delay_def SECTOR_SIZE_def zdiv_int)
qed (simp_all add: rf_delay_def)

lemma rf_block_hole:
  assumes "good e (x_dev st)" "joinable (content e) r lim" "skip \<le> bsize sb"
    and "rf_buf r + (bsize sb - skip) \<le> length (rf_mem r)"
  shows "\<exists>r' k'. rf_block (dread e) (int (bsize sb)) 0 blockend (int skip) r st =
      Some (True, r', st\<lparr>x_dev := k'\<rparr>) \<and> good e k' \<and> rf_prev r' = - 1 \<and>
      rf_mem r' = patch (flushed (content e) r) (rf_buf r) (replicate (bsize sb - skip) 0) \<and>
      rf_buf r' = rf_buf r \<and> length (rf_mem r') = length (rf_mem r)"
proof -
  have m: "nat (int (bsize sb) - int skip) = bsize sb - skip" by simp
  show ?thesis
  proof (cases "rf_prev r = - 1")
    case True
    then show ?thesis
      using assms m by (intro exI [of _ "r\<lparr>rf_mem := patch (rf_mem r) (rf_buf r) (replicate (bsize sb - skip) 0)\<rparr>"]
          exI [of _ "x_dev st"]) (simp add: rf_block_def wr_def flushed_def)
  next
    case False
    then obtain s k n where p: "pending (content e) r s k n" using assms(2) by (auto simp: joinable_def)
    obtain k' where "good e k'" "rf_spill (dread e) r st =
        Some (1, r\<lparr>rf_mem := flushed (content e) r\<rparr>, st\<lparr>x_dev := k'\<rparr>)"
      using rf_spill_ok [OF assms(1) p] by auto
    moreover note length_flushed_pending [OF p]
    ultimately show ?thesis
      using assms m False by (simp add: rf_block_def wr_def) (metis ext2_state.ext_inject ext2_state.surjective)
  qed
qed

lemma rf_block_fresh:
  assumes "good e (x_dev st)" "on_disk (content e) sb b" "sane_sb sb" "0 < b"
    and "joinable (content e) r lim" "rf_next r \<noteq> int (b * spb sb) \<or> rf_prev r = - 1"
    and "0 < n" "skip + n \<le> bsize sb" "rf_buf r + n \<le> length (rf_mem r)"
  shows "\<exists>k'. rf_block (dread e) (int (bsize sb)) (int (b * spb sb)) (int n) (int skip) r st =
      Some (True, rf_delay (int (b * spb sb)) (int n) (int skip) (r\<lparr>rf_mem := flushed (content e) r\<rparr>),
        st\<lparr>x_dev := k'\<rparr>) \<and> good e k' \<and> length (flushed (content e) r) = length (rf_mem r)"
proof -
  have nz: "int (b * spb sb) \<noteq> 0" using assms(4) by simp
  show ?thesis
  proof (cases "rf_prev r = - 1")
    case True
    then show ?thesis
      using assms(1) nz by (intro exI [of _ "x_dev st"]) (simp add: rf_block_def flushed_def)
  next
    case False
    then obtain s k n' where p: "pending (content e) r s k n'" using assms(5) by (auto simp: joinable_def)
    obtain k' where k': "good e k'" "rf_spill (dread e) r st =
        Some (1, r\<lparr>rf_mem := flushed (content e) r\<rparr>, st\<lparr>x_dev := k'\<rparr>)"
      using rf_spill_ok [OF assms(1) p] by auto
    then show ?thesis
      using assms(6) nz False length_flushed_pending [OF p]
      by (intro exI [of _ k']) (simp add: rf_block_def del: of_nat_mult)
  qed
qed

lemma rf_block_join:
  assumes "on_disk (content e) sb b" "length (content e) < 1099511627776" "0 < b"
    and "pending (content e) r s k l" "rf_delayed_buf r + l = rf_buf r" "k + l + bsize sb < 2147483648"
    and "rf_next r = int (b * spb sb)" "512 * (b * spb sb) = 512 * s + k + l"
    and "0 < n" "n \<le> bsize sb" "rf_buf r + n \<le> length (rf_mem r)"
  shows "\<exists>r'. rf_block (dread e) (int (bsize sb)) (int (b * spb sb)) (int n) skip r st = Some (True, r', st) \<and>
      flushed (content e) r' = patch (flushed (content e) r) (rf_buf r) (region (content e) (512 * (b * spb sb)) n) \<and>
      pending (content e) r' s k (l + n) \<and> rf_delayed_buf r' = rf_delayed_buf r \<and> rf_buf r' = rf_buf r \<and>
      rf_mem r' = rf_mem r \<and> rf_next r' = int (b * spb sb + n div 512)"
proof -
  let ?d = "rf_delayed_buf r"
  let ?r = "r\<lparr>rf_extent := int (l + n), rf_next := int (b * spb sb + n div 512)\<rparr>"
  have end_in: "512 * (b * spb sb) + n \<le> length (content e)"
    using assms(1,10) by (simp add: on_disk_def bsize_spb ac_simps)
  have "512 * (b * spb sb + n div 512) \<le> length (content e)" using end_in by (simp add: distrib_left)
  then have "b * spb sb + n div 512 < 2147483648" using assms(2) by (rule sector_bound)
  then have "s32 (int (b * spb sb + n div 512)) = int (b * spb sb + n div 512)" by (rule s32_of_nat)
  then have nx: "s32 (int (b * spb sb) + int n div 512) = int (b * spb sb + n div 512)"
    by (simp add: zdiv_int)
  have ex: "s32 (int l + int n) = int (l + n)" using assms(6,10) by (subst s32_id) simp_all
  have nz: "int (b * spb sb) \<noteq> 0" using assms(3) by simp
  have p: "rf_prev r \<noteq> - 1" "rf_extent r = int l" using assms(4) by (simp_all add: pending_def)
  have run: "rf_block (dread e) (int (bsize sb)) (int (b * spb sb)) (int n) skip r st = Some (True, ?r, st)"
    using nz p assms(7) ex nx by (simp add: rf_block_def SECTOR_SIZE_def del: of_nat_mult of_nat_add)
  have pend: "pending (content e) ?r s k (l + n)"
    using assms(4-6,8-11) end_in unfolding pending_def by simp
  let ?x = "region (content e) (512 * s + k) l" and ?y = "region (content e) (512 * (b * spb sb)) n"
  have "length ?x = l" "length ?y = n"
    using assms(4) end_in by (auto simp: pending_def)
  moreover have "region (content e) (512 * s + k) (l + n) = ?x @ ?y"
    unfolding region_append_split assms(8) ..
  ultimately have "flushed (content e) ?r = patch (patch (rf_mem r) ?d ?x) (?d + length ?x) ?y"
    using patch_patch_adjacent [of ?d ?x ?y "rf_mem r"] assms(5,11) unfolding flushed_pending [OF pend] by simp
  then have "flushed (content e) ?r = patch (flushed (content e) r) (rf_buf r) ?y"
    using \<open>length ?x = l\<close> assms(5) unfolding flushed_pending [OF assms(4)] by simp
  with run pend show ?thesis by (intro exI [of _ ?r]) simp
qed

lemma rf_block_ok:
  assumes st: "good e (x_dev st)" "on_disk (content e) sb b" "sane_sb sb"
    and r: "joinable (content e) r lim" "rf_prev r \<noteq> - 1 \<Longrightarrow> skip = 0" "joins_right sb r b"
      "lim + bsize sb < 2147483648"
    and n: "0 < n" "skip + n \<le> bsize sb" "m = (if b = 0 then bsize sb - skip else n)"
      "rf_buf r + m \<le> length (rf_mem r)"
  shows "\<exists>r' k'. rf_block (dread e) (int (bsize sb)) (int (b * spb sb)) (int n) (int skip) r st =
      Some (True, r', st\<lparr>x_dev := k'\<rparr>) \<and> good e k' \<and>
      flushed (content e) r' = patch (flushed (content e) r) (rf_buf r) (region (block_bytes (content e) sb b) skip m) \<and>
      length (rf_mem r') = length (rf_mem r) \<and> rf_buf r' = rf_buf r \<and>
      joinable (content e) (r'\<lparr>rf_buf := rf_buf r + n\<rparr>) (lim + bsize sb) \<and>
      (skip + n = bsize sb \<longrightarrow> rf_prev r' \<noteq> - 1 \<longrightarrow>
        512 * rf_next r' = 512 * rf_start r' + rf_skipfirst r' + rf_extent r' \<or>
        (0 < skip \<and> int (b * spb sb) \<le> rf_next r' \<and> rf_next r' < int (b * spb sb + spb sb)))"
proof -
  note size = content_size [OF st(1)]
  have dvd: "bsize sb div 512 = spb sb" by (simp add: bsize_spb)
  consider "b = 0" | "0 < b" "rf_next r = int (b * spb sb)" "rf_prev r \<noteq> - 1"
    | "0 < b" "rf_next r \<noteq> int (b * spb sb) \<or> rf_prev r = - 1" by auto
  then show ?thesis
  proof cases
    case 1
    obtain r' k' where h: "rf_block (dread e) (int (bsize sb)) 0 (int n) (int skip) r st = Some (True, r', st\<lparr>x_dev := k'\<rparr>)"
      "good e k'" "rf_prev r' = - 1"
      "rf_mem r' = patch (flushed (content e) r) (rf_buf r) (replicate (bsize sb - skip) 0)"
      "rf_buf r' = rf_buf r" "length (rf_mem r') = length (rf_mem r)"
      using rf_block_hole [OF st(1) r(1), of skip sb "int n"] n 1 by auto
    moreover have "region (block_bytes (content e) sb b) skip m = replicate (bsize sb - skip) 0"
      using 1 n by (simp add: block_bytes_def region_def)
    ultimately show ?thesis using 1 by (intro exI [of _ r'] exI [of _ k']) (simp add: flushed_def joinable_def)
  next
    case 2
    then obtain s k l where p: "pending (content e) r s k l" "rf_delayed_buf r + l = rf_buf r" "k + l \<le> lim"
      using r(1) by (auto simp: joinable_def)
    have "skip = 0" using r(2) 2 by simp
    have at: "512 * (b * spb sb) = 512 * s + k + l"
    proof -
      have "int (512 * (b * spb sb)) = int (512 * s + k + l)"
        using r(3) 2 p(1) unfolding joins_right_def pending_def by simp
      then show ?thesis by (simp only: of_nat_eq_iff)
    qed
    obtain r' where h: "rf_block (dread e) (int (bsize sb)) (int (b * spb sb)) (int n) (int skip) r st = Some (True, r', st)"
      "flushed (content e) r' = patch (flushed (content e) r) (rf_buf r) (region (content e) (512 * (b * spb sb)) n)"
      "pending (content e) r' s k (l + n)" "rf_delayed_buf r' = rf_delayed_buf r" "rf_buf r' = rf_buf r"
      "rf_mem r' = rf_mem r" "rf_next r' = int (b * spb sb + n div 512)"
      using rf_block_join [OF st(2) size 2(1) p(1,2) _ 2(2) at n(1), of "int skip" st] r(4) p(3) n 2(1) by auto
    have reg: "region (block_bytes (content e) sb b) skip m = region (content e) (512 * (b * spb sb)) n"
      using region_block_bytes [of b skip n sb "content e"] 2 n \<open>skip = 0\<close> by simp
    have nx: "512 * rf_next r' = 512 * rf_start r' + rf_skipfirst r' + rf_extent r'" if "n = bsize sb"
    proof -
      have "512 * (b * spb sb + n div 512) = 512 * s + k + (l + n)"
        using at that by (simp add: dvd bsize_spb)
      then have "int (512 * (b * spb sb + n div 512)) = int (512 * s + k + (l + n))" by (simp only:)
      then show ?thesis using h(3,7) by (simp add: pending_def)
    qed
    have "pending (content e) (r'\<lparr>rf_buf := rf_buf r + n\<rparr>) s k (l + n)"
      using h(3) by (simp add: pending_def)
    then have "joinable (content e) (r'\<lparr>rf_buf := rf_buf r + n\<rparr>) (lim + bsize sb)"
      using p(2,3) h(4) n(2) unfolding joinable_def by (intro disjI2 exI [of _ s] exI [of _ k] exI [of _ "l + n"]) simp
    then show ?thesis
      using h(1,2,5,6) reg st(1) nx \<open>skip = 0\<close> by (intro exI [of _ r'] exI [of _ "x_dev st"]) simp
  next
    case 3
    let ?r = "r\<lparr>rf_mem := flushed (content e) r\<rparr>"
    let ?r' = "rf_delay (int (b * spb sb)) (int n) (int skip) ?r"
    have mn: "m = n" using n(3) 3 by simp
    obtain k' where h: "rf_block (dread e) (int (bsize sb)) (int (b * spb sb)) (int n) (int skip) r st =
        Some (True, ?r', st\<lparr>x_dev := k'\<rparr>)" "good e k'" "length (flushed (content e) r) = length (rf_mem r)"
      using rf_block_fresh [OF st 3(1) r(1) 3(2) n(1,2)] n(4) mn by auto
    have d: "pending (content e) ?r' (b * spb sb) skip n" "rf_delayed_buf ?r' = rf_buf r"
      "rf_mem ?r' = flushed (content e) r" "rf_buf ?r' = rf_buf r" "rf_next ?r' = int (b * spb sb + n div 512)"
      using rf_delay_pending [OF st(2) size st(3) 3(1) n(1,2), of ?r] h(3) n(4) mn by simp_all
    have reg: "region (block_bytes (content e) sb b) skip m = region (content e) (512 * (b * spb sb) + skip) n"
      using region_block_bytes [of b skip n sb "content e"] 3 n(2) mn by simp
    have fl: "flushed (content e) ?r' = patch (flushed (content e) r) (rf_buf r) (region (block_bytes (content e) sb b) skip m)"
      unfolding flushed_pending [OF d(1)] d(2,3) reg ..
    have nx: "512 * rf_next ?r' = 512 * rf_start ?r' + rf_skipfirst ?r' + rf_extent ?r' \<or>
        (0 < skip \<and> int (b * spb sb) \<le> rf_next ?r' \<and> rf_next ?r' < int (b * spb sb + spb sb))"
      if "skip + n = bsize sb"
    proof (cases "skip = 0")
      case True
      then have "512 * (b * spb sb + n div 512) = 512 * (b * spb sb) + skip + n"
        using that by (simp add: dvd bsize_spb)
      then have "int (512 * (b * spb sb + n div 512)) = int (512 * (b * spb sb) + skip + n)" by (simp only:)
      then show ?thesis using d(1,5) by (simp add: pending_def)
    next
      case False
      then have "n < 512 * spb sb" using that by (simp add: bsize_spb)
      then have "n div 512 < spb sb" by (simp add: div_less_iff_less_mult mult.commute)
      then show ?thesis unfolding d(5) using False by simp
    qed
    have "pending (content e) (?r'\<lparr>rf_buf := rf_buf r + n\<rparr>) (b * spb sb) skip n"
      using d(1) by (simp add: pending_def)
    then have "joinable (content e) (?r'\<lparr>rf_buf := rf_buf r + n\<rparr>) (lim + bsize sb)"
      using d(2) n(2) unfolding joinable_def
      by (intro disjI2 exI [of _ "b * spb sb"] exI [of _ skip] exI [of _ n]) simp
    then show ?thesis
      using h d(3,4) fl nx by (intro exI [of _ ?r'] exI [of _ k']) simp
  qed
qed

end

subsection \<open>The loop over the blocks\<close>

lemma region_file_blocks:
  assumes "\<And>j. j < cnt \<Longrightarrow> on_disk disk sb (file_block disk sb inode j)" "i < cnt" "s + n \<le> bsize sb"
  shows "region (file_blocks disk sb inode cnt) (i * bsize sb + s) n =
         region (block_bytes disk sb (file_block disk sb inode i)) s n"
proof -
  define cs where "cs = map (\<lambda>j. block_bytes disk sb (file_block disk sb inode j)) [0..<cnt]"
  have "map length (take i cs) = map (\<lambda>_. bsize sb) [0..<i]"
    using assms(1,2) by (simp add: cs_def take_map length_block_bytes del: upt_Suc)
  then have "sum_list (map length (take i cs)) = i * bsize sb" by (simp add: sum_list_triv)
  moreover have "cs ! i = block_bytes disk sb (file_block disk sb inode i)" "length (cs ! i) = bsize sb"
    using assms(1,2) by (simp_all add: cs_def length_block_bytes del: upt_Suc)
  ultimately have "region (concat cs) (i * bsize sb) (bsize sb) = block_bytes disk sb (file_block disk sb inode i)"
    using region_concat [of i cs "[]"] assms(2) by (simp add: cs_def del: upt_Suc)
  moreover have "region (concat cs) (i * bsize sb + s) n = region (region (concat cs) (i * bsize sb) (bsize sb)) s n"
    using assms(3) by (simp add: region_region)
  ultimately show ?thesis by (simp add: file_blocks_def cs_def)
qed

lemma length_file_blocks:
  assumes "\<And>j. j < cnt \<Longrightarrow> on_disk disk sb (file_block disk sb inode j)"
  shows "length (file_blocks disk sb inode cnt) = cnt * bsize sb"
  using concat_uniform [of "[0..<cnt]" "\<lambda>j. block_bytes disk sb (file_block disk sb inode j)" "bsize sb"] assms
  by (simp add: file_blocks_def length_block_bytes mult.commute del: upt_Suc)

text \<open>Where block \<open>i\<close> of a read of \<open>len\<close> bytes at \<open>pos\<close> starts and ends in the block.\<close>

definition blk_skip :: "nat \<Rightarrow> nat \<Rightarrow> nat \<Rightarrow> nat" where
  "blk_skip bs pos i = pos - i * bs"

definition blk_end :: "nat \<Rightarrow> nat \<Rightarrow> nat \<Rightarrow> nat \<Rightarrow> nat" where
  "blk_end bs pos len i = min bs (pos + len - i * bs)"

lemma blk_range:
  assumes "0 < bs" "0 < len" "pos div bs \<le> i" "i < (len + pos + bs - 1) div bs"
  shows "blk_skip bs pos i = (if i = pos div bs then pos mod bs else 0)"
    "blk_end bs pos len i = (if i = (len + pos + bs - 1) div bs - 1
       then (if (len + pos) mod bs = 0 then bs else (len + pos) mod bs) else bs)"
    "blk_skip bs pos i < blk_end bs pos len i" "blk_end bs pos len i \<le> bs"
    "i * bs < pos + len"
proof -
  define q where "q = (len + pos - 1) div bs"
  define t where "t = (len + pos - 1) mod bs"
  have e: "len + pos = q * bs + t + 1"
    using assms(2) div_mult_mod_eq [of "len + pos - 1" bs] by (simp add: q_def t_def)
  have t: "t < bs" using assms(1) by (simp add: t_def)
  have cnt: "(len + pos + bs - 1) div bs = q + 1"
  proof -
    have "(t + (q + 1) * bs) div bs = q + 1 + t div bs" using assms(1) by (intro div_mult_self1) simp
    moreover have "len + pos + bs - 1 = t + (q + 1) * bs" using e by simp
    moreover have "t div bs = 0" using t by simp
    ultimately show ?thesis by (simp only: add_0_right)
  qed
  have p: "pos = pos div bs * bs + pos mod bs" by simp
  have pm: "pos mod bs < bs" using assms(1) by simp
  have i: "i \<le> q" using assms(4) cnt by simp
  have after: "pos < i * bs" if "pos div bs < i"
    using that assms(1) by (simp add: div_less_iff_less_mult)
  show sk: "blk_skip bs pos i = (if i = pos div bs then pos mod bs else 0)"
    using assms(3) after p by (auto simp: blk_skip_def minus_div_mult_eq_mod)
  have lm: "(len + pos) mod bs = (if t + 1 = bs then 0 else t + 1)"
  proof (cases "t + 1 = bs")
    case True
    then have "len + pos = (q + 1) * bs" using e by simp
    then show ?thesis using True by simp
  next
    case False
    then have "t + 1 < bs" using t by simp
    moreover have "len + pos = (t + 1) + q * bs" using e by simp
    ultimately show ?thesis using False by (metis mod_less mod_mult_self1)
  qed
  have below: "i * bs + bs \<le> q * bs" if "i < q"
    using that mult_le_mono1 [of "Suc i" q bs] by simp
  show en: "blk_end bs pos len i = (if i = (len + pos + bs - 1) div bs - 1
       then (if (len + pos) mod bs = 0 then bs else (len + pos) mod bs) else bs)"
  proof (cases "i < q")
    case True
    then have "bs \<le> pos + len - i * bs" using below e by linarith
    then show ?thesis using True unfolding cnt by (simp add: blk_end_def)
  next
    case False
    then have "i = q" using i by simp
    moreover have "pos + len - q * bs = t + 1" using e by linarith
    ultimately show ?thesis using t unfolding cnt lm by (simp add: blk_end_def)
  qed
  have ib: "i * bs \<le> q * bs" using i by (rule mult_le_mono1)
  show "i * bs < pos + len" using ib e by linarith
  show "blk_end bs pos len i \<le> bs" by (simp add: blk_end_def)
  show "blk_skip bs pos i < blk_end bs pos len i"
    using \<open>i * bs < pos + len\<close> assms(2) sk pm assms(1) unfolding blk_end_def
    by (auto simp: blk_skip_def min_def split: if_splits)
qed

lemma blk_step:
  assumes "0 < bs" "0 < len" "pos div bs \<le> i" "i < (len + pos + bs - 1) div bs"
  shows "Suc i < (len + pos + bs - 1) div bs \<Longrightarrow> blk_end bs pos len i = bs \<and> Suc i * bs - pos \<le> len"
    "i * bs - pos + (bs - blk_skip bs pos i) = Suc i * bs - pos"
    "Suc i = (len + pos + bs - 1) div bs \<Longrightarrow> i * bs - pos + (blk_end bs pos len i - blk_skip bs pos i) = len"
    "len \<le> (len + pos + bs - 1) div bs * bs - pos" "i * bs + blk_skip bs pos i = pos + (i * bs - pos)"
proof -
  note r = blk_range [OF assms]
  have up: "len + pos \<le> (len + pos + bs - 1) div bs * bs"
  proof -
    have "len + pos + bs - 1 < ((len + pos + bs - 1) div bs) * bs + bs"
      using assms(1) div_mult_mod_eq [of "len + pos + bs - 1" bs] mod_less_divisor [OF assms(1), of "len + pos + bs - 1"]
      by linarith
    then show ?thesis using assms(1) by linarith
  qed
  then show "len \<le> (len + pos + bs - 1) div bs * bs - pos" by linarith
  show "i * bs + blk_skip bs pos i = pos + (i * bs - pos)" by (simp add: blk_skip_def)
  show "i * bs - pos + (bs - blk_skip bs pos i) = Suc i * bs - pos"
    using r(3,4) by (simp add: blk_skip_def)
  show "blk_end bs pos len i = bs \<and> Suc i * bs - pos \<le> len" if "Suc i < (len + pos + bs - 1) div bs"
    using blk_range(5) [OF assms(1,2) _ that] assms(3) by (simp add: blk_end_def)
  show "i * bs - pos + (blk_end bs pos len i - blk_skip bs pos i) = len"
    if "Suc i = (len + pos + bs - 1) div bs"
    using up r(3,5) unfolding that [symmetric] by (simp add: blk_end_def blk_skip_def)
qed

lemma ints_upto: "[int a..int b - 1] = map int [a..<b]"
proof (cases "a \<le> b")
  case True
  then show ?thesis
  proof (induction rule: inc_induct)
    case (step n)
    then have "[int n..int b - 1] = int n # [int n + 1..int b - 1]" by (intro upto_rec1) simp
    also have "int n + 1 = int (Suc n)" by simp
    finally show ?case using step by (simp add: upt_conv_Cons del: upt_Suc)
  qed simp
qed simp

lemma rf_loop_step:
  assumes "ext2fs_read_block dr node i st = Some (b, st1)" "\<not> b < 0"
    and "rf_block dr (EXT2_BLOCK_SIZE (nd_sblock node)) (s32 (b * 2 ^ nat (LOG2_EXT2_BLOCK_SIZE (nd_sblock node))))
           (blockend - skipfirst) skipfirst r st1 = Some (True, r1, st2)"
    and "blockend = (if i = blockcnt - 1
      then (let e = u32_of (len + pos) mod EXT2_BLOCK_SIZE (nd_sblock node)
            in if e = 0 then EXT2_BLOCK_SIZE (nd_sblock node) else e)
      else EXT2_BLOCK_SIZE (nd_sblock node))"
    and "skipfirst = (if i = pos div EXT2_BLOCK_SIZE (nd_sblock node)
      then pos mod EXT2_BLOCK_SIZE (nd_sblock node) else 0)"
  shows "rf_loop dr node pos len blockcnt (i # is) r st =
    rf_loop dr node pos len blockcnt is
      (r1\<lparr>rf_buf := rf_buf r1 + nat (EXT2_BLOCK_SIZE (nd_sblock node) - skipfirst)\<rparr>) st2"
  using assms(1-3) unfolding assms(4,5) by (simp add: Let_def)

context partition_reader
begin

lemma rf_loop_ok:
  fixes e and node :: ext2fs_node and pos len :: nat
  defines "sb \<equiv> nd_sblock node" and "inode \<equiv> nd_inode node"
  defines "B \<equiv> bsize (nd_sblock node)"
  defines "cnt \<equiv> (len + pos + B - 1) div B"
  defines "f \<equiv> file_block (content e) sb inode" and "F \<equiv> file_blocks (content e) sb inode cnt"
  defines "L \<equiv> if f (cnt - 1) = 0 then cnt * B - pos else len"
  assumes S: "sane_sb sb" and len: "0 < len" "pos + len + B < 2147483648"
    and ix: "\<And>j. j < cnt \<Longrightarrow> index_ok (content e) sb inode j"
    and distinct: "Suc (pos div B) < cnt \<Longrightarrow> B dvd pos \<or> f (pos div B) \<noteq> f (Suc (pos div B))"
    and room: "buf + L \<le> length mem"
    and i: "pos div B \<le> i" "i \<le> cnt"
    and st: "ext2_inv (content e) sb rsv st" "good e (x_dev st)" "ext2_frame st0 st"
    and r: "rf_buf r = buf + (i * B - pos)" "length (rf_mem r) = length mem"
      "i < cnt \<Longrightarrow> joinable (content e) r (i * B)"
      "i < cnt \<Longrightarrow> joins_right sb r (f i)" "i = pos div B \<Longrightarrow> rf_prev r = - 1"
      "rf_prev r \<noteq> - 1 \<Longrightarrow> i = cnt \<Longrightarrow> \<exists>s k n. pending (content e) r s k n"
      "flushed (content e) r = patch mem buf (region F pos (if i = cnt then L else i * B - pos))"
  shows "\<exists>r' st'. rf_loop (dread e) node (int pos) (int len) (int cnt) (map int [i..<cnt]) r st = Some (True, r', st') \<and>
      ext2_inv (content e) sb rsv st' \<and> good e (x_dev st') \<and> ext2_frame st0 st' \<and>
      (rf_prev r' \<noteq> - 1 \<longrightarrow> (\<exists>s k n. pending (content e) r' s k n)) \<and>
      length (rf_mem r') = length mem \<and> flushed (content e) r' = patch mem buf (region F pos L)"
  using i st r
proof (induction "cnt - i" arbitrary: i r st)
  case 0
  have ic: "i = cnt" using "0.hyps" "0.prems"(2) by linarith
  have "rf_loop (dread e) node (int pos) (int len) (int cnt) (map int [i..<cnt]) r st = Some (True, r, st)"
    unfolding ic by (simp only: upt_conv_Nil list.map rf_loop.simps order_refl)
  moreover have "flushed (content e) r = patch mem buf (region F pos L)" 
    using "0.prems"(12) unfolding if_P [OF ic] .
  moreover have "rf_prev r \<noteq> - 1 \<longrightarrow> (\<exists>s k n. pending (content e) r s k n)" using "0.prems"(11) ic by blast
  ultimately show ?case using "0.prems"(3,4,5,7) by blast
next
  case (Suc d)
  have i: "i < cnt" "pos div B \<le> i" using Suc.hyps Suc.prems(1,2) by linarith+
  note B0 = bsize_pos(1) [of "nd_sblock node", folded B_def]
  define sk where "sk = blk_skip B pos i"
  define en where "en = blk_end B pos len i"
  note range = blk_range [OF B0 len(1) i(2), folded cnt_def, OF i(1), folded sk_def en_def]
  note step = blk_step [OF B0 len(1) i(2), folded cnt_def, OF i(1), folded sk_def en_def]
  define b where "b = f i"
  define m where "m = (if b = 0 then B - sk else en - sk)"
  have ib: "on_disk (content e) sb b" using ix [OF i(1)] by (simp add: b_def f_def index_ok_def Let_def)
  note size = content_size [OF Suc.prems(4)]
  have F_len: "length F = cnt * B"
    unfolding F_def B_def sb_def [symmetric] using ix by (intro length_file_blocks) (simp add: index_ok_def Let_def)
  obtain st1 where st1: "ext2fs_read_block (dread e) node (int i) st = Some (int b, st1)"
    "ext2_inv (content e) sb rsv st1" "good e (x_dev st1)" "ext2_frame st st1"
    using read_block_ok [where e = e and node = node and st = st and i = i and rsv = rsv] Suc.prems(3,4) S ix [OF i(1)] unfolding b_def f_def sb_def inode_def by blast
  have blknr: "s32 (int b * int (spb sb)) = int (b * spb sb)"
    using on_disk_sector(1) [OF ib size] by (simp only: of_nat_mult [symmetric] s32_of_nat)
  let ?next = "if Suc i = cnt then L else Suc i * B - pos"
  have off: "i * B - pos + m = ?next"
    using step(1-3) i(1) unfolding m_def L_def by (cases "Suc i = cnt") (auto simp: b_def)
  have "?next \<le> L" using step(1,4) i(1) unfolding L_def by auto
  then have room_m: "rf_buf r + m \<le> length (rf_mem r)" using off Suc.prems(6,7) room by linarith
  have small: "i * B + B < 2147483648" using range(5) len(2) by linarith
  obtain r1 k1 where r1: "rf_block (dread e) (int B) (int (b * spb sb)) (int (en - sk)) (int sk) r st1 =
      Some (True, r1, st1\<lparr>x_dev := k1\<rparr>)" "good e k1"
      "flushed (content e) r1 = patch (flushed (content e) r) (rf_buf r) (region (block_bytes (content e) sb b) sk m)"
      "length (rf_mem r1) = length (rf_mem r)" "rf_buf r1 = rf_buf r"
      "joinable (content e) (r1\<lparr>rf_buf := rf_buf r + (en - sk)\<rparr>) (i * B + B)"
      "sk + (en - sk) = B \<longrightarrow> rf_prev r1 \<noteq> - 1 \<longrightarrow>
        512 * rf_next r1 = 512 * rf_start r1 + rf_skipfirst r1 + rf_extent r1 \<or>
        (0 < sk \<and> int (b * spb sb) \<le> rf_next r1 \<and> rf_next r1 < int (b * spb sb + spb sb))"
  proof -
    have "joinable (content e) r (i * B)" "joins_right sb r b" using Suc.prems(8,9) i(1) by (simp_all add: b_def)
    moreover have "sk = 0" if "rf_prev r \<noteq> - 1"
      using that Suc.prems(10) range(1) by auto
    ultimately show thesis
      using rf_block_ok [OF st1(3) ib S, of r "i * B" sk "en - sk" m, folded sb_def] range(3,4) small room_m that
      unfolding m_def B_def sb_def by auto
  qed
  let ?r2 = "r1\<lparr>rf_buf := rf_buf r1 + nat (int B - int sk)\<rparr>"
  let ?st2 = "st1\<lparr>x_dev := k1\<rparr>"
  have run: "rf_loop (dread e) node (int pos) (int len) (int cnt) (map int [i..<cnt]) r st =
      rf_loop (dread e) node (int pos) (int len) (int cnt) (map int [Suc i..<cnt]) ?r2 ?st2"
  proof -
    have BS: "EXT2_BLOCK_SIZE (nd_sblock node) = int B" by (simp add: EXT2_BLOCK_SIZE_bsize B_def)
    have LG: "(2 :: int) ^ nat (LOG2_EXT2_BLOCK_SIZE (nd_sblock node)) = int (spb sb)"
      by (simp only: LOG2_spb sb_def)
    have nn: "\<not> int b < 0" by simp
    have ue: "u32_of (int len + int pos) mod int B = int ((len + pos) mod B)"
      using len(2) by (simp add: zmod_int)
    have e0: "(int i = int cnt - 1) = (i = cnt - 1)" using i(1) by linarith
    have be: "(if int i = int cnt - 1 then (let e = u32_of (int len + int pos) mod int B in if e = 0 then int B else e)
        else int B) = int en"
      unfolding ue e0 range(2) Let_def by simp
    have sf: "(if int i = int pos div int B then int pos mod int B else 0) = int sk"
      unfolding range(1) by (simp add: zdiv_int [symmetric] zmod_int [symmetric])
    have ns: "int en - int sk = int (en - sk)" using range(3) by simp
    show ?thesis
      unfolding upt_conv_Cons [OF i(1)] list.map BS [symmetric]
    proof (rule rf_loop_step [OF st1(1) nn])
      show "rf_block (dread e) (EXT2_BLOCK_SIZE (nd_sblock node))
          (s32 (int b * 2 ^ nat (LOG2_EXT2_BLOCK_SIZE (nd_sblock node)))) (int en - int sk) (int sk) r st1 =
          Some (True, r1, ?st2)"
        unfolding BS LG blknr ns by (rule r1(1))
    qed (simp_all only: BS be sf)
  qed
  have buf2: "rf_buf ?r2 = buf + (Suc i * B - pos)"
  proof -
    have "nat (int B - int sk) = B - sk" using range(3,4) by linarith
    then show ?thesis using r1(5) Suc.prems(6) step(2) by simp
  qed
  have pend2: "pending (content e) ?r2 s k n = pending (content e) (r1\<lparr>rf_buf := x\<rparr>) s k n" for s k n x
    by (simp add: pending_def)
  have n_eq: "en - sk = nat (int B - int sk)" if "Suc i < cnt" using step(1) that range(3) by simp
  have join2: "joinable (content e) ?r2 (Suc i * B)" if "Suc i < cnt"
    using r1(6) unfolding n_eq [OF that] r1(5) [symmetric] by (simp add: add.commute)
  have right2: "joins_right sb ?r2 (f (Suc i))" if c: "Suc i < cnt"
  proof (unfold joins_right_def, intro impI)
    assume j: "rf_prev ?r2 \<noteq> - 1" "rf_next ?r2 = int (f (Suc i) * spb sb)"
    have "sk + (en - sk) = B" using step(1) c range(3) by simp
    then consider "512 * rf_next r1 = 512 * rf_start r1 + rf_skipfirst r1 + rf_extent r1"
      | "0 < sk" "int (b * spb sb) \<le> rf_next r1" "rf_next r1 < int (b * spb sb + spb sb)"
      using r1(7) j(1) by auto
    then show "512 * rf_next ?r2 = 512 * rf_start ?r2 + rf_skipfirst ?r2 + rf_extent ?r2"
    proof cases
      case 1
      then show ?thesis by simp
    next
      case 2
      then have first: "i = pos div B" "pos mod B \<noteq> 0" using range(1) by (auto split: if_splits)
      then have "f i \<noteq> f (Suc i)" using distinct c by (auto simp: dvd_eq_mod_eq_0)
      moreover have "b * spb sb \<le> f (Suc i) * spb sb" "f (Suc i) * spb sb < Suc b * spb sb"
        using 2(2,3) j(2) by (simp_all flip: of_nat_mult of_nat_add)
      then have "b \<le> f (Suc i)" "f (Suc i) < Suc b"
        unfolding mult_less_cancel2 mult_le_cancel2 using bsize_pos(2) [of sb] by blast+
      ultimately show ?thesis by (simp add: b_def)
    qed
  qed
  have pend3: "\<exists>s k n. pending (content e) ?r2 s k n" if "rf_prev ?r2 \<noteq> - 1"
    using r1(6) that pend2 [of _ _ _ "rf_buf r + (en - sk)"] unfolding joinable_def by auto
  have fl2: "flushed (content e) ?r2 = patch mem buf (region F pos ?next)"
  proof -
    let ?x = "region F pos (i * B - pos)"
    have d: "region (block_bytes (content e) sb b) sk m = region F (pos + (i * B - pos)) m"
    proof -
      have m: "sk + m \<le> bsize sb" using range(3,4) unfolding m_def B_def sb_def by auto
      have "on_disk (content e) sb (file_block (content e) sb inode j)" if "j < cnt" for j
        using ix [OF that] by (simp add: index_ok_def Let_def)
      from region_file_blocks [OF this i(1) m] show ?thesis
        unfolding F_def b_def f_def step(5) [symmetric] unfolding B_def sb_def by (rule sym)
    qed
    have "i * B \<le> cnt * B" using i(1) by (intro mult_le_mono1) linarith
    then have "length ?x = i * B - pos" unfolding length_region F_len by (intro min_absorb1) linarith
    moreover have "buf + length ?x + length (region F (pos + (i * B - pos)) m) \<le> length mem"
    proof -
      have "length (region F (pos + (i * B - pos)) m) \<le> m" by simp
      then show ?thesis using room_m Suc.prems(6,7) calculation by linarith
    qed
    moreover have "flushed (content e) r = patch mem buf ?x" using Suc.prems(12) i(1) by simp
    ultimately have "flushed (content e) r1 = patch mem buf (region F pos ?next)"
      using patch_patch_adjacent [of buf ?x "region F (pos + (i * B - pos)) m" mem]
      unfolding r1(3) d Suc.prems(6) off [symmetric] region_append_split by (simp only:)
    moreover have "flushed (content e) ?r2 = flushed (content e) r1" by (simp add: flushed_def)
    ultimately show ?thesis by (simp only:)
  qed
  have "\<exists>r' st'. rf_loop (dread e) node (int pos) (int len) (int cnt) (map int [Suc i..<cnt]) ?r2 ?st2 = Some (True, r', st') \<and>
      ext2_inv (content e) sb rsv st' \<and> good e (x_dev st') \<and> ext2_frame st0 st' \<and>
      (rf_prev r' \<noteq> - 1 \<longrightarrow> (\<exists>s k n. pending (content e) r' s k n)) \<and>
      length (rf_mem r') = length mem \<and> flushed (content e) r' = patch mem buf (region F pos L)"
  proof (rule Suc.hyps(1))
    show "d = cnt - Suc i" using Suc.hyps(2) by linarith
    show "ext2_inv (content e) sb rsv ?st2" using st1(2) by (simp add: ext2_inv_def)
    show "good e (x_dev ?st2)" using r1(2) by simp
    show "ext2_frame st0 ?st2" using Suc.prems(5) st1(4) by (simp add: ext2_frame_def)
    show "length (rf_mem ?r2) = length mem" using r1(4) Suc.prems(7) by simp
  qed (use i buf2 join2 right2 pend3 fl2 in \<open>auto simp del: rf_state.simps\<close>)
  then show ?case unfolding run .
qed

lemma read_file_ok:
  fixes e and node :: ext2fs_node and pos len :: nat
  defines "sb \<equiv> nd_sblock node" and "inode \<equiv> nd_inode node"
  defines "B \<equiv> bsize (nd_sblock node)"
  defines "cnt \<equiv> (len + pos + B - 1) div B"
  defines "f \<equiv> file_block (content e) sb inode" and "F \<equiv> file_blocks (content e) sb inode cnt"
  defines "L \<equiv> if f (cnt - 1) = 0 then cnt * B - pos else len"
  assumes S: "sane_sb sb" and len: "0 < len" "len \<le> unat (ino_size inode)" "pos + len + B < 2147483648"
    and ix: "\<And>j. j < cnt \<Longrightarrow> index_ok (content e) sb inode j"
    and distinct: "Suc (pos div B) < cnt \<Longrightarrow> B dvd pos \<or> f (pos div B) \<noteq> f (Suc (pos div B))"
    and room: "buf + L \<le> length mem"
    and st: "ext2_inv (content e) sb rsv st" "good e (x_dev st)"
  shows "\<exists>st'. ext2fs_read_file (dread e) node (int pos) (int len) mem buf st =
      Some (int len, patch mem buf (region F pos L), st') \<and>
      ext2_inv (content e) sb rsv st' \<and> good e (x_dev st') \<and> ext2_frame st st'"
proof -
  let ?r = "\<lparr>rf_prev = - 1, rf_start = 0, rf_extent = 0, rf_skipfirst = 0, rf_next = 0,
    rf_delayed_buf = 0, rf_buf = buf, rf_mem = mem\<rparr>"
  have B0: "0 < B" by (simp add: B_def)
  have BS: "EXT2_BLOCK_SIZE (nd_sblock node) = int B" by (simp add: EXT2_BLOCK_SIZE_bsize B_def)
  have ok: "block_size_ok (nd_sblock node)" using S by (simp add: block_size_ok_def sane_sb_def sb_def)
  have mn: "min (int len) (uint (ino_size (nd_inode node))) = int len"
    using len(2) unfolding inode_def int_unat_uint [symmetric] by (intro min_absorb1) linarith
  have bc: "u32_of (int len + int pos + int B - 1) div int B = int cnt"
  proof -
    have "int len + int pos + int B - 1 = int (len + pos + B - 1)" using B0 by simp
    moreover have "u32_of (int (len + pos + B - 1)) = int (len + pos + B - 1)"
      using len(3) by (intro u32_of_id) linarith+
    ultimately show ?thesis by (simp only: cnt_def zdiv_int)
  qed
  have "pos div B < cnt"
  proof -
    have "pos + B \<le> len + pos + B - 1" using len(1) by linarith
    then have "(pos + B) div B \<le> cnt" unfolding cnt_def by (rule div_le_mono)
    moreover have "(pos + B) div B = pos div B + 1" by (rule div_add_self2) (use B0 in linarith)
    ultimately show ?thesis by linarith
  qed
  have off: "pos div B * B - pos = 0" by simp
  obtain r' st' where run: "rf_loop (dread e) node (int pos) (int len) (int cnt) (map int [pos div B..<cnt]) ?r st =
        Some (True, r', st')"
      "ext2_inv (content e) sb rsv st'" "good e (x_dev st')" "ext2_frame st st'"
      "rf_prev r' \<noteq> - 1 \<longrightarrow> (\<exists>s k n. pending (content e) r' s k n)"
      "flushed (content e) r' = patch mem buf (region F pos L)"
  proof -
    have "joinable (content e) ?r x" "joins_right sb ?r y" for x y
      by (simp_all add: joinable_def joins_right_def)
    moreover have "flushed (content e) ?r = patch mem buf (region F pos (pos div B * B - pos))"
      by (simp add: flushed_def)
    ultimately show thesis
      using rf_loop_ok [where e = e and node = node and pos = pos and len = len and i = "pos div B" and st = st
          and st0 = st and r = ?r and mem = mem and buf = buf,
          folded B_def sb_def inode_def, folded cnt_def f_def, folded F_def L_def, OF S len(1,3) ix distinct room order_refl _ st]
        \<open>pos div B < cnt\<close> off that by force
  qed
  have "int pos div int B = int (pos div B)" by (simp add: zdiv_int)
  then have body: "ext2fs_read_file (dread e) node (int pos) (int len) mem buf st =
     (if rf_prev r' \<noteq> - 1
      then do { (status, r, st) \<leftarrow> rf_spill (dread e) r' st';
                Some (if status = 0 then - 1 else s32 (int len), rf_mem r, st) }
      else Some (s32 (int len), rf_mem r', st'))"
    using ok run(1) unfolding ext2fs_read_file_def Let_def mn BS bc ints_upto [symmetric] by simp
  have s: "s32 (int len) = int len" using len(3) by simp
  show ?thesis
  proof (cases "rf_prev r' = - 1")
    case True
    then show ?thesis using run(2-6) unfolding body s by (simp add: flushed_def)
  next
    case False
    then obtain p k n where "pending (content e) r' p k n" using run(5) by blast
    from rf_spill_ok [OF run(3) this] obtain k' where k': "good e k'"
      "rf_spill (dread e) r' st' = Some (1, r'\<lparr>rf_mem := flushed (content e) r'\<rparr>, st'\<lparr>x_dev := k'\<rparr>)" by blast
    then show ?thesis
      using False run(2,4,6) unfolding body s
      by (intro exI [of _ "st'\<lparr>x_dev := k'\<rparr>"]) (simp add: ext2_inv_def ext2_frame_def)
  qed
qed

end

end
