(* ===== verification/Ext2_Dir.thy ===== *)
theory Ext2_Dir
  imports Ext2_Fs
begin

section \<open>The ext2 reader of the boot loader: directories, paths, mounting\<close>

text \<open>
  \<^verbatim>\<open>qi/src/fs/ext2.c\<close> from \<open>ext2fs_iterate_dir\<close> on.  A node is passed by value: the only nodes the
  code changes in place have \<open>inode_read\<close> 0, whose inode is read again before each use.  A path is
  a C string without its NUL.  The loop over a directory and the loop over the parts of a path, which
  calls itself for a symbolic link, may not end (an entry of length 0), so they are partial
  functions; None also is the endless loop of the allocator when the pool is used up.  Buffers on the
  stack start as zeros.  The listing of \<open>ext2fs_ls\<close> is the list of bytes put out; other messages are
  not modelled, and \<open>free\<close>, which does nothing, has no trace.
\<close>

definition FILETYPE_INO_MASK :: u16 where "FILETYPE_INO_MASK = 0xF000"
definition FILETYPE_INO_REG :: u16 where "FILETYPE_INO_REG = 0x8000"
definition FILETYPE_INO_DIRECTORY :: u16 where "FILETYPE_INO_DIRECTORY = 0x4000"
definition FILETYPE_INO_SYMLINK :: u16 where "FILETYPE_INO_SYMLINK = 0xA000"
definition EXT2_GOOD_OLD_REV :: u32 where "EXT2_GOOD_OLD_REV = 0"
definition EXT2_GOOD_OLD_INODE_SIZE :: int where "EXT2_GOOD_OLD_INODE_SIZE = 128"

definition sizeof_node :: int where "sizeof_node = 140"
definition sizeof_data :: int where "sizeof_data = 348"
definition SLASH :: u8 where "SLASH = 0x2f"

subsection \<open>Directories\<close>

definition dirent_type :: "u8 \<Rightarrow> int" where
  "dirent_type filetype =
     (if uint filetype = FILETYPE_DIRECTORY then FILETYPE_DIRECTORY
      else if uint filetype = FILETYPE_SYMLINK then FILETYPE_SYMLINK
      else if uint filetype = FILETYPE_REG then FILETYPE_REG
      else FILETYPE_UNKNOWN)"

definition inode_type :: "bytes \<Rightarrow> int" where
  "inode_type inode =
     (let fmt = ino_mode inode AND FILETYPE_INO_MASK
      in if fmt = FILETYPE_INO_DIRECTORY then FILETYPE_DIRECTORY
         else if fmt = FILETYPE_INO_SYMLINK then FILETYPE_SYMLINK
         else if fmt = FILETYPE_INO_REG then FILETYPE_REG
         else FILETYPE_UNKNOWN)"

text \<open>The inode of a node, read unless \<open>inode_read\<close> says it has been.\<close>

definition need_inode ::
  "'k reader \<Rightarrow> ext2fs_node \<Rightarrow> 'k ext2_state \<Rightarrow> (int \<times> ext2fs_node \<times> 'k ext2_state) option" where
  "need_inode dr node st =
     (if nd_inode_read node then Some (1, node, st)
      else do { (status, inode, st) \<leftarrow> ext2fs_read_inode dr (nd_sblock node) (nd_ino node) (nd_inode node) st;
                Some (status, node\<lparr>nd_inode := inode\<rparr>, st) })"

text \<open>The new node for a directory entry and its type.\<close>

definition dirent_node ::
  "'k reader \<Rightarrow> ext2fs_node \<Rightarrow> bytes \<Rightarrow> 'k ext2_state \<Rightarrow>
   (int \<times> ext2fs_node \<times> int \<times> 'k ext2_state) option" where
  "dirent_node dr diro dirent st =
     (let fdiro = \<lparr>nd_sblock = nd_sblock diro, nd_inode = replicate sizeof_inode 0,
                   nd_ino = s32 (uint (de_inode dirent)), nd_inode_read = False\<rparr> in
      if uint (de_filetype dirent) \<noteq> FILETYPE_UNKNOWN
      then Some (1, fdiro, dirent_type (de_filetype dirent), st)
      else do {
        (status, inode, st) \<leftarrow> ext2fs_read_inode dr (nd_sblock diro) (s32 (uint (de_inode dirent)))
                                 (nd_inode fdiro) st;
        Some (status, fdiro\<lparr>nd_inode := inode, nd_inode_read := True\<rparr>, inode_type inode, st) })"

definition type_tag :: "int \<Rightarrow> bytes" where
  "type_tag t = bytes_of_string
     (if t = FILETYPE_DIRECTORY then ''<DIR> '' else if t = FILETYPE_SYMLINK then ''<SYM> ''
      else if t = FILETYPE_REG then ''      '' else ''< ? > '')"

text \<open>What the loop does with an entry that has a name: the first result is the return of
  \<open>ext2fs_iterate_dir\<close>, or None to go on.\<close>

definition dir_entry ::
  "'k reader \<Rightarrow> ext2fs_node \<Rightarrow> bytes option \<Rightarrow> bytes \<Rightarrow> int \<Rightarrow> bytes \<Rightarrow> 'k ext2_state \<Rightarrow>
   ((int \<times> (ext2fs_node \<times> int) option) option \<times> bytes \<times> 'k ext2_state) option" where
  "dir_entry dr diro name dirent fpos out st =
     do { (status, filename, st) \<leftarrow> ext2fs_read_file dr diro (s32 (fpos + int sizeof_dirent))
                                       (uint (de_namelen dirent)) (replicate 256 0) 0 st;
          if status < 1 then Some (Some (0, None), out, st)
          else do {
            st \<leftarrow> xmalloc sizeof_node st;
            let filename = filename[unat (de_namelen dirent) := 0];
            (status, fdiro, type, st) \<leftarrow> dirent_node dr diro dirent st;
            if status = 0 then Some (Some (0, None), out, st)
            else case name of
                Some name \<Rightarrow> do {
                  c \<leftarrow> strcmp filename (name @ [0]);
                  Some (if c = 0 then Some (1, Some (fdiro, type)) else None, out, st) }
              | None \<Rightarrow> do {
                  (status, fdiro, st) \<leftarrow> need_inode dr fdiro st;
                  if status = 0 then Some (Some (0, None), out, st)
                  else do {
                    line \<leftarrow> puts filename;
                    Some (None, out @ type_tag type @ printdec (s32 (uint (ino_size (nd_inode fdiro))))
                                  @ [0x20, 0x20] @ line @ [0x0a], st) } } } }"

partial_function (option) iterate_loop ::
  "'k reader \<Rightarrow> ext2fs_node \<Rightarrow> bytes option \<Rightarrow> int \<Rightarrow> bytes \<Rightarrow> 'k ext2_state \<Rightarrow>
   (int \<times> (ext2fs_node \<times> int) option \<times> bytes \<times> 'k ext2_state) option" where
  "iterate_loop dr diro name fpos out st =
     (if fpos < uint (ino_size (nd_inode diro))
      then do {
        (status, dirent, st) \<leftarrow> ext2fs_read_file dr diro (s32 fpos) (int sizeof_dirent)
                                  (replicate sizeof_dirent 0) 0 st;
        if status < 1 then Some (0, None, out, st)
        else do {
          (ret, out, st) \<leftarrow> (if de_namelen dirent \<noteq> 0
                            then dir_entry dr diro name dirent fpos out st
                            else Some (None, out, st));
          case ret of
            Some (found, node) \<Rightarrow> Some (found, node, out, st)
          | None \<Rightarrow> iterate_loop dr diro name (u32_of (fpos + uint (de_direntlen dirent))) out st } }
      else Some (0, None, out, st))"

definition ext2fs_iterate_dir ::
  "'k reader \<Rightarrow> ext2fs_node \<Rightarrow> bytes option \<Rightarrow> 'k ext2_state \<Rightarrow>
   (int \<times> (ext2fs_node \<times> int) option \<times> bytes \<times> 'k ext2_state) option" where
  "ext2fs_iterate_dir dr diro name st =
     do { (status, diro, st) \<leftarrow> need_inode dr diro st;
          if status = 0 then Some (0, None, [], st)
          else iterate_loop dr diro name 0 [] st }"

subsection \<open>Symbolic links and paths\<close>

definition ext2fs_read_symlink ::
  "'k reader \<Rightarrow> ext2fs_node \<Rightarrow> 'k ext2_state \<Rightarrow> (bytes option \<times> 'k ext2_state) option" where
  "ext2fs_read_symlink dr diro st =
     do { (status, diro, st) \<leftarrow> need_inode dr diro st;
          if status = 0 then Some (None, st)
          else do {
            let sz = uint (ino_size (nd_inode diro));
            st \<leftarrow> xmalloc (u32_of (sz + 1)) st;
            if sz < 60
            then do { symlink \<leftarrow> strncpy (replicate (nat sz + 1) 0) 0 (ino_symlink (nd_inode diro)) (word_of_int sz);
                      Some (Some (cstr_of (symlink[nat sz := 0])), st) }
            else do { (status, symlink, st) \<leftarrow> ext2fs_read_file dr diro 0 sz (replicate (nat sz + 1) 0) 0 st;
                      Some (if status = 0 then None else Some (cstr_of (symlink[nat sz := 0])), st) } } }"

text \<open>The next part of a path, and the rest of it after the slashes when there is one.\<close>

definition split_path :: "bytes \<Rightarrow> (bytes \<times> bytes option) option" where
  "split_path name =
     (case strchr (name @ [0]) SLASH of
        None \<Rightarrow> None
      | Some None \<Rightarrow> Some (name, None)
      | Some (Some i) \<Rightarrow> Some (take i name, Some (dropWhile (\<lambda>c. c = SLASH) (drop i name))))"

text \<open>\<open>find_loop\<close> is the endless loop of \<open>ext2fs_find_file1\<close>, with its call of itself for the target of
  a symbolic link written out; \<open>type\<close> of the caller, which that call leaves alone when the path is
  all slashes, is \<open>FILETYPE_SYMLINK\<close> there.\<close>

partial_function (option) find_loop ::
  "'k reader \<Rightarrow> bytes \<Rightarrow> int \<Rightarrow> ext2fs_node \<Rightarrow> 'k ext2_state \<Rightarrow>
   (int \<times> ext2fs_node \<times> int \<times> 'k ext2_state) option" where
  "find_loop dr name type currnode st =
     do { (part, nxt) \<leftarrow> split_path name;
          if type \<noteq> FILETYPE_DIRECTORY then Some (0, currnode, type, st)
          else do {
            let oldnode = currnode;
            (found, node, _, st) \<leftarrow> ext2fs_iterate_dir dr currnode (Some part) st;
            case node of
              None \<Rightarrow> Some (0, currnode, type, st)
            | Some (currnode, type) \<Rightarrow> do {
                (status, currnode, type, st) \<leftarrow>
                  (if type = FILETYPE_SYMLINK
                   then let st = st\<lparr>x_symlinknest := s32 (x_symlinknest st + 1)\<rparr> in
                        if x_symlinknest st = 8 then Some (0, currnode, type, st)
                        else do {
                          (symlink, st) \<leftarrow> ext2fs_read_symlink dr currnode st;
                          case symlink of
                            None \<Rightarrow> Some (0, currnode, type, st)
                          | Some symlink \<Rightarrow> do {
                              oldnode \<leftarrow> (if symlink \<noteq> [] \<and> hd symlink = SLASH then x_root st else Some oldnode);
                              let target = dropWhile (\<lambda>c. c = SLASH) symlink;
                              if target = [] then Some (1, oldnode, type, st)
                              else find_loop dr target FILETYPE_DIRECTORY oldnode st } }
                   else Some (1, currnode, type, st));
                if status = 0 then Some (0, currnode, type, st)
                else case nxt of
                    None \<Rightarrow> Some (1, currnode, type, st)
                  | Some nxt \<Rightarrow>
                      if nxt = [] then Some (1, currnode, type, st)
                      else find_loop dr nxt type currnode st } } }"

definition ext2fs_find_file1 ::
  "'k reader \<Rightarrow> bytes \<Rightarrow> ext2fs_node \<Rightarrow> int \<Rightarrow> 'k ext2_state \<Rightarrow>
   (int \<times> ext2fs_node \<times> int \<times> 'k ext2_state) option" where
  "ext2fs_find_file1 dr currpath currroot foundtype st =
     (let name = dropWhile (\<lambda>c. c = SLASH) currpath in
      if name = [] then Some (1, currroot, foundtype, st)
      else find_loop dr name FILETYPE_DIRECTORY currroot st)"

definition ext2fs_find_file ::
  "'k reader \<Rightarrow> bytes option \<Rightarrow> ext2fs_node \<Rightarrow> int \<Rightarrow> 'k ext2_state \<Rightarrow>
   (int \<times> ext2fs_node \<times> 'k ext2_state) option" where
  "ext2fs_find_file dr path rootnode expecttype st =
     (let st = st\<lparr>x_symlinknest := 0\<rparr> in
      case path of
        None \<Rightarrow> Some (0, rootnode, st)
      | Some path \<Rightarrow> do {
          (status, foundnode, foundtype, st) \<leftarrow>
            ext2fs_find_file1 dr path rootnode FILETYPE_DIRECTORY st;
          Some (if status = 0 then 0
                else if expecttype = FILETYPE_REG \<and> foundtype \<noteq> expecttype then 0
                else if expecttype = FILETYPE_DIRECTORY \<and> foundtype \<noteq> expecttype then 0
                else 1, foundnode, st) })"

subsection \<open>The interface of the file system\<close>

definition ext2fs_ls ::
  "'k reader \<Rightarrow> bytes \<Rightarrow> 'k ext2_state \<Rightarrow> (int \<times> bytes \<times> 'k ext2_state) option" where
  "ext2fs_ls dr dirname st =
     (case x_root st of
        None \<Rightarrow> Some (0, [], st)
      | Some root \<Rightarrow> do {
          (status, dirnode, st) \<leftarrow> ext2fs_find_file dr (Some dirname) root FILETYPE_DIRECTORY st;
          if status \<noteq> 1 then Some (1, [], st)
          else do { (_, _, out, st) \<leftarrow> ext2fs_iterate_dir dr dirnode None st;
                    Some (0, out, st) } })"

definition ext2fs_open ::
  "'k reader \<Rightarrow> bytes \<Rightarrow> 'k ext2_state \<Rightarrow> (int \<times> 'k ext2_state) option" where
  "ext2fs_open dr filename st =
     (case x_root st of
        None \<Rightarrow> Some (- 1, st)
      | Some root \<Rightarrow> do {
          let st = st\<lparr>x_file := None\<rparr>;
          (status, fdiro, st) \<leftarrow> ext2fs_find_file dr (Some filename) root FILETYPE_REG st;
          if status = 0 then Some (- 2, st)
          else do {
            (status, fdiro, st) \<leftarrow> need_inode dr fdiro st;
            if status = 0 then Some (- 3, st)
            else Some (s32 (uint (ino_size (nd_inode fdiro))), st\<lparr>x_file := Some fdiro\<rparr>) } })"

definition ext2fs_close :: "'k ext2_state \<Rightarrow> int \<times> 'k ext2_state" where
  "ext2fs_close st =
     (let st = (if x_file st \<noteq> None \<and> x_root st \<noteq> None then st\<lparr>x_file := None\<rparr> else st);
          st = st\<lparr>x_root := None\<rparr>;
          st = (if x_indir1 st \<noteq> None then st\<lparr>x_indir1 := None, x_indir1_blkno := - 1\<rparr> else st);
          st = (if x_indir2 st \<noteq> None then st\<lparr>x_indir2 := None, x_indir2_blkno := - 1\<rparr> else st)
      in (0, st))"

definition ext2fs_read ::
  "'k reader \<Rightarrow> bytes \<Rightarrow> nat \<Rightarrow> u32 \<Rightarrow> 'k ext2_state \<Rightarrow> (int \<times> bytes \<times> 'k ext2_state) option" where
  "ext2fs_read dr mem buf len st =
     (case (x_root st, x_file st) of
        (Some _, Some file) \<Rightarrow> ext2fs_read_file dr file 0 (uint len) mem buf st
      | _ \<Rightarrow> Some (0, mem, st))"

definition ext2fs_mount :: "'k reader \<Rightarrow> 'k ext2_state \<Rightarrow> (int \<times> 'k ext2_state) option" where
  "ext2fs_mount dr st =
     do { st \<leftarrow> xmalloc sizeof_data st;
          (status, sblock, st) \<leftarrow> devread dr (1 * 2) 0 0 (int sizeof_sblock) (replicate sizeof_sblock 0) 0 st;
          if status = 0 then Some (0, st\<lparr>x_root := None\<rparr>)
          else if sb_magic sblock \<noteq> EXT2_MAGIC then Some (0, st\<lparr>x_root := None\<rparr>)
          else do {
            let st = st\<lparr>x_inode_size := if sb_revision_level sblock = EXT2_GOOD_OLD_REV
                                        then EXT2_GOOD_OLD_INODE_SIZE else uint (sb_inode_size sblock)\<rparr>;
            (status, inode, st) \<leftarrow> ext2fs_read_inode dr sblock 2 (replicate sizeof_inode 0) st;
            if status = 0 then Some (0, st\<lparr>x_root := None\<rparr>)
            else Some (1, st\<lparr>x_root := Some \<lparr>nd_sblock = sblock, nd_inode = inode, nd_ino = 2,
                                           nd_inode_read = True\<rparr>\<rparr>) } }"

end
