(* ===== verification/Ext2_Names.thy ===== *)
theory Ext2_Names
  imports Ext2_Read Ext2_Dir
begin

section \<open>The ext2 reader: directories as lists of entries\<close>

text \<open>
  The abstract view of a directory: the list of its entries, parsed from the bytes of its file.  The
  scan of \<open>ext2fs_iterate_dir\<close> refines the search of that list.
\<close>

subsection \<open>Whole files\<close>

definition file_size :: "bytes \<Rightarrow> nat" where "file_size inode = unat (ino_size inode)"

definition nblocks :: "bytes \<Rightarrow> bytes \<Rightarrow> nat" where
  "nblocks sb inode = (file_size inode + bsize sb - 1) div bsize sb"

definition file_bytes :: "bytes \<Rightarrow> bytes \<Rightarrow> bytes \<Rightarrow> bytes" where
  "file_bytes disk sb inode = region (file_blocks disk sb inode (nblocks sb inode)) 0 (file_size inode)"

definition file_ok :: "bytes \<Rightarrow> bytes \<Rightarrow> bytes \<Rightarrow> bool" where
  "file_ok disk sb inode \<longleftrightarrow> sane_sb sb \<and> file_size inode < 1073741824 \<and>
     (\<forall>i < nblocks sb inode. index_ok disk sb inode i)"

text \<open>A file without holes, no block of which is used twice in a row.\<close>

definition dense :: "bytes \<Rightarrow> bytes \<Rightarrow> bytes \<Rightarrow> bool" where
  "dense disk sb inode \<longleftrightarrow> (\<forall>i < nblocks sb inode. file_block disk sb inode i \<noteq> 0 \<and>
     (Suc i < nblocks sb inode \<longrightarrow> file_block disk sb inode i \<noteq> file_block disk sb inode (Suc i)))"

lemma region_append_left: "pos + n \<le> length xs \<Longrightarrow> region (xs @ ys) pos n = region xs pos n"
  by (simp add: region_def)

lemma file_blocks_prefix:
  assumes "\<And>i. i < m \<Longrightarrow> on_disk disk sb (file_block disk sb inode i)" "m \<le> n" "pos + len \<le> m * bsize sb"
  shows "region (file_blocks disk sb inode m) pos len = region (file_blocks disk sb inode n) pos len"
proof -
  have "[0..<n] = [0..<m] @ [m..<n]" using assms(2) by (metis le_add_diff_inverse upt_add_eq_append zero_le)
  then have "file_blocks disk sb inode n = file_blocks disk sb inode m @
      concat (map (\<lambda>i. block_bytes disk sb (file_block disk sb inode i)) [m..<n])"
    unfolding file_blocks_def by (simp only: map_append concat_append)
  moreover have "length (file_blocks disk sb inode m) = m * bsize sb"
    using assms(1) by (rule length_file_blocks)
  ultimately show ?thesis using assms(3) by (simp add: region_append_left)
qed

lemma file_ok_on_disk:
  "file_ok disk sb inode \<Longrightarrow> i < nblocks sb inode \<Longrightarrow> on_disk disk sb (file_block disk sb inode i)"
  by (simp add: file_ok_def index_ok_def Let_def)

lemma div_up: "0 < b \<Longrightarrow> n \<le> (n + b - 1) div b * b" for b n :: nat
proof -
  assume "0 < b"
  then have "n + b - 1 < (n + b - 1) div b * b + b"
    using div_mult_mod_eq [of "n + b - 1" b] mod_less_divisor [of b "n + b - 1"] by linarith
  then show ?thesis using \<open>0 < b\<close> by linarith
qed

lemma length_file_bytes: "file_ok disk sb inode \<Longrightarrow> length (file_bytes disk sb inode) = file_size inode"
proof -
  assume ok: "file_ok disk sb inode"
  have "length (file_blocks disk sb inode (nblocks sb inode)) = nblocks sb inode * bsize sb"
    using file_ok_on_disk [OF ok] by (rule length_file_blocks)
  moreover have "file_size inode \<le> nblocks sb inode * bsize sb"
    unfolding nblocks_def by (rule div_up) simp
  ultimately show ?thesis unfolding file_bytes_def by (intro length_region_fits) simp
qed

context partition_reader
begin

text \<open>A read inside a file without holes delivers that piece of the file.\<close>

lemma read_piece_ok:
  assumes ok: "file_ok (content e) (nd_sblock node) (nd_inode node)"
    and dense: "dense (content e) (nd_sblock node) (nd_inode node)"
    and len: "0 < len" "pos + len \<le> file_size (nd_inode node)"
    and room: "buf + len \<le> length mem"
    and st: "ext2_inv (content e) (nd_sblock node) rsv st" "good e (x_dev st)"
  shows "\<exists>st'. ext2fs_read_file (dread e) node (int pos) (int len) mem buf st =
      Some (int len, patch mem buf (region (file_bytes (content e) (nd_sblock node) (nd_inode node)) pos len), st') \<and>
      ext2_inv (content e) (nd_sblock node) rsv st' \<and> good e (x_dev st') \<and> ext2_frame st st'"
proof -
  let ?sb = "nd_sblock node" and ?inode = "nd_inode node" and ?disk = "content e"
  define B where "B = bsize ?sb"
  define cnt where "cnt = (len + pos + B - 1) div B"
  have B0: "0 < B" by (simp add: B_def)
  have S: "sane_sb ?sb" using ok by (simp add: file_ok_def)
  have B: "B \<le> 16384" using bsize_sane [OF S] by (auto simp: B_def)
  have cn: "cnt \<le> nblocks ?sb ?inode"
    unfolding cnt_def nblocks_def B_def using len(2) by (intro div_le_mono) linarith
  have up: "pos + len \<le> cnt * B" using div_up [OF B0, of "len + pos"] by (simp add: cnt_def add.commute)
  have "cnt \<noteq> 0" using up len(1) by (intro notI) simp
  then have nz: "file_block ?disk ?sb ?inode (cnt - 1) \<noteq> 0" using dense cn by (simp add: dense_def)
  have dist: "B dvd pos \<or> file_block ?disk ?sb ?inode (pos div B) \<noteq> file_block ?disk ?sb ?inode (Suc (pos div B))"
    if "Suc (pos div B) < cnt" using dense cn that by (simp add: dense_def)
  have reg: "region (file_blocks ?disk ?sb ?inode cnt) pos len = region (file_bytes ?disk ?sb ?inode) pos len"
  proof -
    have "region (file_blocks ?disk ?sb ?inode cnt) pos len =
        region (file_blocks ?disk ?sb ?inode (nblocks ?sb ?inode)) pos len"
      using file_ok_on_disk [OF ok] cn up by (intro file_blocks_prefix) (simp_all add: B_def)
    then show ?thesis using len(2) by (simp add: file_bytes_def region_region)
  qed
  have "len \<le> unat (ino_size ?inode)" "pos + len + B < 2147483648"
    using len ok B by (simp_all add: file_size_def file_ok_def)
  moreover have "index_ok ?disk ?sb ?inode j" if "j < cnt" for j
    using that cn ok by (simp add: file_ok_def)
  ultimately show ?thesis
    using read_file_ok [where e = e and node = node and pos = pos and len = len and mem = mem and buf = buf and st = st
        and rsv = rsv, folded B_def, folded cnt_def, OF S len(1) _ _ _ dist] nz room st
    by (simp add: reg)
qed

end

subsection \<open>Directory entries\<close>

text \<open>Inode number, type and name of each entry.\<close>

function dents :: "bytes \<Rightarrow> (u32 \<times> u8 \<times> bytes) list" where
  "dents d =
     (if length d < 8 \<or> unat (de_direntlen d) < 8 then []
      else (de_inode d, de_filetype d, region d 8 (unat (de_namelen d))) # dents (drop (unat (de_direntlen d)) d))"
  by pat_completeness auto
termination by (relation "measure length") auto

function dents_ok :: "bytes \<Rightarrow> bool" where
  "dents_ok d \<longleftrightarrow> d = [] \<or>
     (8 \<le> length d \<and> 8 + unat (de_namelen d) \<le> unat (de_direntlen d) \<and> unat (de_direntlen d) \<le> length d \<and>
      (de_namelen d \<noteq> 0 \<longrightarrow> de_filetype d \<noteq> 0 \<and> 0 \<notin> set (region d 8 (unat (de_namelen d)))) \<and>
      (8 \<le> length d \<and> 8 \<le> unat (de_direntlen d) \<longrightarrow> dents_ok (drop (unat (de_direntlen d)) d)))"
  by pat_completeness auto
termination by (relation "measure length") auto

declare dents.simps [simp del] dents_ok.simps [simp del]

lemma dents_ok_Nil [simp]: "dents_ok []"
  by (subst dents_ok.simps) simp

lemma dents_Nil [simp]: "dents [] = []"
  by (subst dents.simps) simp

definition dir_find :: "bytes \<Rightarrow> bytes \<Rightarrow> (u32 \<times> u8 \<times> bytes) option" where
  "dir_find d name = find (\<lambda>(_, _, nm). nm = name) (dents d)"

definition dir_result :: "bytes \<Rightarrow> (u32 \<times> u8 \<times> bytes) option \<Rightarrow> int \<times> (ext2fs_node \<times> int) option" where
  "dir_result sb e =
     (case e of None \<Rightarrow> (0, None)
      | Some (ino, ft, _) \<Rightarrow> (1, Some (\<lparr>nd_sblock = sb, nd_inode = replicate sizeof_inode 0,
          nd_ino = s32 (uint ino), nd_inode_read = False\<rparr>, dirent_type ft)))"

definition dir_ok :: "bytes \<Rightarrow> bytes \<Rightarrow> bytes \<Rightarrow> bool" where
  "dir_ok disk sb inode \<longleftrightarrow> file_ok disk sb inode \<and> dense disk sb inode \<and> dents_ok (file_bytes disk sb inode)"

lemma byte_at_drop: "byte_at (drop p xs) i = byte_at xs (p + i)"
  by (auto simp: byte_at_def)

lemma header_of_entry:
  "de_inode (region d p 8) = de_inode (drop p d)" "de_direntlen (region d p 8) = de_direntlen (drop p d)"
  "de_namelen (region d p 8) = de_namelen (drop p d)" "de_filetype (region d p 8) = de_filetype (drop p d)"
  by (simp_all add: de_inode_def de_direntlen_def de_namelen_def de_filetype_def get32_def get16_def
      byte_at_region byte_at_drop)

lemma strcmp_correct:
  "0 \<notin> set a \<Longrightarrow> 0 \<notin> set b \<Longrightarrow> \<exists>c. strcmp (a @ 0 # r) (b @ 0 # s) = Some c \<and> (c = 0 \<longleftrightarrow> a = b)"
proof (induction a arbitrary: b)
  case Nil
  then show ?case by (cases b) (auto simp: unsigned_eq_0_iff)
next
  case (Cons x a)
  show ?case
  proof (cases b)
    case Nil
    then show ?thesis using Cons.prems by (auto simp: unsigned_eq_0_iff)
  next
    case (Cons y b')
    then show ?thesis using Cons.IH [of b'] Cons.prems by (auto simp: unsigned_eq_0_iff dest: word_uint_eqI)
  qed
qed

lemma xmalloc_node:
  assumes "ext2_inv disk sb (rsv + 144) st"
  shows "\<exists>m. xmalloc sizeof_node st = Some (st\<lparr>x_malloc := m\<rparr>) \<and> ext2_inv disk sb rsv (st\<lparr>x_malloc := m\<rparr>)"
proof -
  have c: "malloc_cost (word_of_int sizeof_node) = 144" by (simp add: malloc_cost_def sizeof_node_def)
  obtain m where "malloc (x_malloc st) (word_of_int sizeof_node) = Some (x_malloc st, m)"
    "unat m = unat (x_malloc st) + 144"
    using malloc_some [of "x_malloc st" "word_of_int sizeof_node"] assms unfolding c ext2_inv_def by fastforce
  then show ?thesis using assms by (auto simp: xmalloc_def ext2_inv_def)
qed

lemma ext2_inv_mono: "ext2_inv disk sb rsv st \<Longrightarrow> rsv' \<le> rsv \<Longrightarrow> ext2_inv disk sb rsv' st"
  by (simp add: ext2_inv_def)

lemma unat_u8_le: "unat (b :: u8) \<le> 255"
proof -
  have "unat b < 2 ^ LENGTH(8)" by (rule unsigned_less)
  then show ?thesis by simp
qed

text \<open>The name in the buffer of 256 bytes, with the NUL the code writes behind it.\<close>

lemma name_buffer:
  assumes "length nm \<le> 255"
  shows "(patch (replicate 256 0) 0 nm)[length nm := 0] = nm @ 0 # replicate (255 - length nm) (0 :: u8)"
proof -
  have "replicate (256 - length nm) (0 :: u8) = 0 # replicate (255 - length nm) 0"
    using assms by (simp flip: replicate_Suc add: Suc_diff_le)
  then show ?thesis by (simp add: patch_def list_update_append)
qed

context partition_reader
begin

lemma dir_entry_ok:
  fixes e and diro :: ext2fs_node and p :: nat
  defines "sb \<equiv> nd_sblock diro" and "D \<equiv> file_bytes (content e) (nd_sblock diro) (nd_inode diro)"
  defines "nm \<equiv> region (drop p D) 8 (unat (de_namelen (drop p D)))"
  assumes dir: "file_ok (content e) sb (nd_inode diro)" "dense (content e) sb (nd_inode diro)"
    and ent: "de_namelen (drop p D) \<noteq> 0" "de_filetype (drop p D) \<noteq> 0" "0 \<notin> set nm"
      "p + 8 + unat (de_namelen (drop p D)) \<le> length D"
    and name: "0 \<notin> set name"
    and st: "ext2_inv (content e) sb (rsv + 144) st" "good e (x_dev st)"
  shows "\<exists>st'. dir_entry (dread e) diro (Some name) (region D p 8) (int p) out st =
      Some (if nm = name then Some (dir_result sb (Some (de_inode (drop p D), de_filetype (drop p D), nm))) else None,
        out, st') \<and>
      ext2_inv (content e) sb rsv st' \<and> good e (x_dev st') \<and> ext2_frame st st'"
proof -
  let ?k = "unat (de_namelen (drop p D))"
  have k: "0 < ?k" "?k \<le> 255" using ent(1) unat_u8_le by (simp_all add: unat_gt_0)
  have size: "length D = file_size (nd_inode diro)" "file_size (nd_inode diro) < 1073741824"
    using length_file_bytes [OF dir(1)] dir(1) by (simp_all add: D_def sb_def file_ok_def)
  have nm: "nm = region D (p + 8) ?k" "length nm = ?k"
    using ent(4) by (simp_all add: nm_def region_def add.commute)
  have pos: "s32 (int p + int sizeof_dirent) = int (p + 8)"
    using ent(4) size by (simp add: sizeof_dirent_def)
  obtain st1 where st1: "ext2fs_read_file (dread e) diro (int (p + 8)) (int ?k) (replicate 256 0) 0 st =
      Some (int ?k, patch (replicate 256 0) 0 nm, st1)"
    "ext2_inv (content e) sb (rsv + 144) st1" "good e (x_dev st1)" "ext2_frame st st1"
    using read_piece_ok [where e = e and node = diro and pos = "p + 8" and len = ?k and mem = "replicate 256 0"
        and buf = 0 and st = st and rsv = "rsv + 144"] dir st k ent(4) size
    unfolding sb_def D_def [symmetric] nm(1) by auto
  obtain m where m: "xmalloc sizeof_node st1 = Some (st1\<lparr>x_malloc := m\<rparr>)"
    "ext2_inv (content e) sb rsv (st1\<lparr>x_malloc := m\<rparr>)"
    using xmalloc_node [OF st1(2)] by auto
  obtain c where c: "strcmp (nm @ 0 # replicate (255 - length nm) 0) (name @ 0 # []) = Some c" "c = 0 \<longleftrightarrow> nm = name"
    using strcmp_correct [OF ent(3) name] by blast
  have buf: "(patch (replicate 256 0) 0 nm)[?k := 0] = nm @ 0 # replicate (255 - length nm) 0"
    using name_buffer [of nm] nm(2) k(2) by simp
  have ft: "uint (de_filetype (drop p D)) \<noteq> 0" using ent(2) by (simp add: unsigned_eq_0_iff)
  have "\<not> int ?k < 1" using k(1) by linarith
  then have "dir_entry (dread e) diro (Some name) (region D p 8) (int p) out st =
      Some (if nm = name then Some (dir_result sb (Some (de_inode (drop p D), de_filetype (drop p D), nm))) else None,
        out, st1\<lparr>x_malloc := m\<rparr>)"
    using st1(1) m(1) c buf ft unfolding dir_entry_def header_of_entry pos int_unat_uint [symmetric]
    by (simp add: Let_def dirent_node_def header_of_entry FILETYPE_UNKNOWN_def dir_result_def sb_def)
  then show ?thesis using m(2) st1(3,4) by (auto simp: ext2_frame_def)
qed

lemma iterate_loop_ok:
  fixes e and diro :: ext2fs_node
  defines "sb \<equiv> nd_sblock diro" and "D \<equiv> file_bytes (content e) (nd_sblock diro) (nd_inode diro)"
  assumes dir: "file_ok (content e) sb (nd_inode diro)" "dense (content e) sb (nd_inode diro)"
    and name: "name \<noteq> []" "0 \<notin> set name"
  shows "dents_ok (drop p D) \<Longrightarrow> p \<le> length D \<Longrightarrow>
    ext2_inv (content e) sb (rsv + 144 * length (dents (drop p D))) st \<Longrightarrow> good e (x_dev st) \<Longrightarrow>
    \<exists>st' r nd. iterate_loop (dread e) diro (Some name) (int p) out st = Some (r, nd, out, st') \<and>
      (r, nd) = dir_result sb (dir_find (drop p D) name) \<and>
      ext2_inv (content e) sb rsv st' \<and> good e (x_dev st') \<and> ext2_frame st st'"
proof (induction "length D - p" arbitrary: p st rule: less_induct)
  case less
  have size: "length D = file_size (nd_inode diro)" "file_size (nd_inode diro) < 1073741824"
    using length_file_bytes [OF dir(1)] dir(1) by (simp_all add: D_def sb_def file_ok_def)
  have usize: "uint (ino_size (nd_inode diro)) = int (length D)"
    unfolding size(1) file_size_def by simp
  let ?d = "drop p D"
  let ?l = "unat (de_direntlen ?d)" and ?k = "unat (de_namelen ?d)"
  show ?case
  proof (cases "p = length D")
    case True
    then show ?thesis
      using less.prems by (subst iterate_loop.simps) (simp add: usize dir_find_def dir_result_def)
  next
    case False
    then have p: "p < length D" "?d \<noteq> []" using less.prems(2) by auto
    have ok: "8 \<le> length ?d" "8 + ?k \<le> ?l" "?l \<le> length ?d"
      "de_namelen ?d \<noteq> 0 \<Longrightarrow> de_filetype ?d \<noteq> 0 \<and> 0 \<notin> set (region ?d 8 ?k)"
      "dents_ok (drop (p + ?l) D)"
      using less.prems(1) p(2) by (subst (asm) dents_ok.simps, simp add: add.commute)+
    have ents: "dents ?d = (de_inode ?d, de_filetype ?d, region ?d 8 ?k) # dents (drop (p + ?l) D)"
      using ok(1,2) by (subst dents.simps) (simp add: add.commute)
    have s32p: "s32 (int p) = int p" using p size by simp
    obtain st1 where st1: "ext2fs_read_file (dread e) diro (int p) 8 (replicate 8 0) 0 st =
        Some (8, region D p 8, st1)"
      "ext2_inv (content e) sb (rsv + 144 * length (dents ?d)) st1" "good e (x_dev st1)" "ext2_frame st st1"
    proof -
      have "patch (replicate 8 0) 0 (region D p 8) = region D p 8"
        using ok(1) by (simp add: patch_def)
      moreover have "p + 8 \<le> file_size (nd_inode diro)" using ok(1) p(1) size(1) by simp
      ultimately show thesis
        using read_piece_ok [where e = e and node = diro and pos = p and len = 8 and mem = "replicate 8 0"
            and buf = 0 and st = st and rsv = "rsv + 144 * length (dents ?d)"] dir ok(1) size(1) less.prems(3,4) that
        unfolding sb_def D_def [symmetric] by auto
    qed
    have nxt: "u32_of (int p + uint (de_direntlen ?d)) = int (p + ?l)"
    proof -
      have "p + ?l < 4294967296" using ok(3) size p(1) by simp
      then have "u32_of (int (p + ?l)) = int (p + ?l)" by (intro u32_of_id) linarith+
      then show ?thesis unfolding int_unat_uint [symmetric] by (simp only: of_nat_add)
    qed
    have rec: "\<exists>st' r nd. iterate_loop (dread e) diro (Some name) (int (p + ?l)) out st2 = Some (r, nd, out, st') \<and>
        (r, nd) = dir_result sb (dir_find (drop (p + ?l) D) name) \<and>
        ext2_inv (content e) sb rsv st' \<and> good e (x_dev st') \<and> ext2_frame st2 st'"
      if "ext2_inv (content e) sb (rsv + 144 * length (dents (drop (p + ?l) D))) st2" "good e (x_dev st2)" for st2
      using that ok p by (intro less.hyps) auto
    have run: "iterate_loop (dread e) diro (Some name) (int p) out st =
        do { (ret, out, st) \<leftarrow> (if de_namelen ?d \<noteq> 0
                            then dir_entry (dread e) diro (Some name) (region D p 8) (int p) out st1
                            else Some (None, out, st1));
          case ret of
            Some (found, node) \<Rightarrow> Some (found, node, out, st)
          | None \<Rightarrow> iterate_loop (dread e) diro (Some name) (int (p + ?l)) out st }"
      using p st1(1) by (subst iterate_loop.simps)
        (simp add: usize s32p sizeof_dirent_def header_of_entry nxt [simplified] cong: option.case_cong)
    show ?thesis
    proof (cases "de_namelen ?d = 0")
      case True
      then have "region ?d 8 ?k = []" by simp
      then have "dir_find ?d name = dir_find (drop (p + ?l) D) name"
        using name(1) by (simp add: dir_find_def ents)
      moreover have "ext2_inv (content e) sb (rsv + 144 * length (dents (drop (p + ?l) D))) st1"
        using st1(2) by (rule ext2_inv_mono) (simp add: ents)
      ultimately show ?thesis
        using rec [of st1] st1(3,4) True ext2_frame_trans unfolding run by simp blast
    next
      case False
      have "ext2_inv (content e) sb (rsv + 144 * length (dents (drop (p + ?l) D)) + 144) st1"
        using st1(2) by (rule ext2_inv_mono) (simp add: ents)
      moreover have "p + 8 + ?k \<le> length D" using ok(2,3) p(1) by simp
      ultimately obtain st2 where st2: "dir_entry (dread e) diro (Some name) (region D p 8) (int p) out st1 =
          Some (if region ?d 8 ?k = name then Some (dir_result sb (Some (de_inode ?d, de_filetype ?d, region ?d 8 ?k)))
                else None, out, st2)"
        "ext2_inv (content e) sb (rsv + 144 * length (dents (drop (p + ?l) D))) st2" "good e (x_dev st2)"
        "ext2_frame st1 st2"
        using dir_entry_ok [where e = e and diro = diro and p = p and name = name and st = st1 and out = out
            and rsv = "rsv + 144 * length (dents (drop (p + ?l) D))", folded sb_def D_def] dir False ok name(2) st1(3) p
        by auto
      show ?thesis
      proof (cases "region ?d 8 ?k = name")
        case True
        then have "dir_find ?d name = Some (de_inode ?d, de_filetype ?d, region ?d 8 ?k)"
          by (simp add: dir_find_def ents)
        then show ?thesis
          using True False st2 ext2_frame_trans [OF st1(4) st2(4)] ext2_inv_mono [OF st2(2), of rsv]
          unfolding run by (simp add: dir_result_def)
      next
        case neq: False
        then have "dir_find ?d name = dir_find (drop (p + ?l) D) name" by (simp add: dir_find_def ents)
        then show ?thesis
          using rec [OF st2(2,3)] False neq st2(1) ext2_frame_trans [OF st1(4) st2(4)] ext2_frame_trans
          unfolding run by simp blast
      qed
    qed
  qed
qed

end

end
