(* ===== verification/Ext2_Paths.thy ===== *)
theory Ext2_Paths
  imports Ext2_Names
begin

section \<open>The ext2 reader: from a path to the bytes of the file\<close>

text \<open>
  The abstract file system: where inode \<open>ino\<close> lies on the disk, and the walk along the parts of a
  path through the directories.  The lemmas show that mounting, path lookup, opening and reading
  compute these.
\<close>

subsection \<open>Inodes\<close>

definition group_desc :: "bytes \<Rightarrow> bytes \<Rightarrow> nat \<Rightarrow> bytes" where
  "group_desc disk sb g = region disk (bsize sb * (unat (sb_first_data_block sb) + 1) + 32 * g) 32"

definition inode_group :: "bytes \<Rightarrow> nat \<Rightarrow> nat" where
  "inode_group sb ino = (ino - 1) div unat (sb_inodes_per_group sb)"

definition inode_slot :: "bytes \<Rightarrow> nat \<Rightarrow> nat" where
  "inode_slot sb ino = (ino - 1) mod unat (sb_inodes_per_group sb)"

definition inode_table :: "bytes \<Rightarrow> bytes \<Rightarrow> nat \<Rightarrow> nat" where
  "inode_table disk sb ino = unat (bg_inode_table_id (group_desc disk sb (inode_group sb ino)))"

definition inode_pos :: "bytes \<Rightarrow> bytes \<Rightarrow> nat \<Rightarrow> nat \<Rightarrow> nat" where
  "inode_pos disk sb isz ino =
     (let per = bsize sb div isz; k = inode_slot sb ino
      in bsize sb * (inode_table disk sb ino + k div per) + isz * (k mod per))"

definition inode_at :: "bytes \<Rightarrow> bytes \<Rightarrow> nat \<Rightarrow> nat \<Rightarrow> bytes" where
  "inode_at disk sb isz ino = region disk (inode_pos disk sb isz ino) 128"

definition inode_ok :: "bytes \<Rightarrow> bytes \<Rightarrow> nat \<Rightarrow> nat \<Rightarrow> bool" where
  "inode_ok disk sb isz ino \<longleftrightarrow> sane_sb sb \<and> 0 < ino \<and> ino < 2147483648 \<and>
     0 < unat (sb_inodes_per_group sb) \<and> 0 < isz \<and> isz \<le> bsize sb \<and> inode_group sb ino < 67108863 \<and>
     bsize sb * (unat (sb_first_data_block sb) + 1) + 32 * inode_group sb ino + 32 \<le> length disk \<and>
     inode_pos disk sb isz ino + 128 \<le> length disk"

lemma block_pos: "512 * (b * spb sb) + k = bsize sb * b + k"
  by (simp add: bsize_spb ac_simps)

context partition_reader
begin

text \<open>A read of \<open>n\<close> bytes at byte \<open>k\<close> of block \<open>b\<close>, into a buffer of that size.\<close>

lemma devread_at:
  assumes "good e (x_dev st)" "bsize sb * b + k + n \<le> length (content e)" "0 < n" "k + n < 2147483648"
    and "length buf = n"
  shows "\<exists>k'. devread (dread e) (int b) (LOG2_EXT2_BLOCK_SIZE sb) (int k) (int n) buf 0 st =
      Some (1, region (content e) (bsize sb * b + k) n, st\<lparr>x_dev := k'\<rparr>) \<and> good e k'"
proof -
  note size = content_size [OF assms(1)]
  have "512 * (b * spb sb) \<le> length (content e)" using assms(2) block_pos [of b sb 0] by linarith
  then have "b * spb sb < 2147483648" using size by (rule sector_bound)
  then have lim: "int b * 2 ^ nat (LOG2_EXT2_BLOCK_SIZE sb) < 2147483648"
    unfolding LOG2_spb of_nat_mult [symmetric] by (simp only: of_nat_less_numeral_iff)
  have at: "nat (int b * 2 ^ nat (LOG2_EXT2_BLOCK_SIZE sb)) = b * spb sb"
    unfolding LOG2_spb of_nat_mult [symmetric] nat_int ..
  obtain k' where k': "good e k'" "devread (dread e) (int b) (LOG2_EXT2_BLOCK_SIZE sb) (int k) (int n) buf 0 st =
      Some (1, patch buf 0 (region (content e) (512 * (b * spb sb) + k) n), st\<lparr>x_dev := k'\<rparr>)"
    using devread_ok [of e st "int b" "LOG2_EXT2_BLOCK_SIZE sb" n k 0 buf, OF assms(1) of_nat_0_le_iff lim assms(3,4)]
      assms(2,5) unfolding at block_pos by auto
  moreover have "patch buf 0 (region (content e) (bsize sb * b + k) n) = region (content e) (bsize sb * b + k) n"
    using assms(2,5) by (simp add: patch_def)
  ultimately show ?thesis unfolding block_pos by auto
qed

lemma read_inode_ok:
  assumes ok: "inode_ok (content e) sb isz ino" and isz: "x_inode_size st = int isz"
    and st: "good e (x_dev st)" and buf: "length buf = 128"
  shows "\<exists>k'. ext2fs_read_inode (dread e) sb (int ino) buf st =
      Some (1, inode_at (content e) sb isz ino, st\<lparr>x_dev := k'\<rparr>) \<and> good e k'"
proof -
  let ?disk = "content e" and ?per = "unat (sb_inodes_per_group sb)" and ?fdb = "unat (sb_first_data_block sb)"
  define g where "g = inode_group sb ino"
  define k where "k = inode_slot sb ino"
  define ipb where "ipb = bsize sb div isz"
  note ok' = ok [unfolded inode_ok_def, folded g_def]
  note size = content_size [OF st]
  have ino: "u32_of (int ino - 1) = int (ino - 1)" using ok' by (simp add: of_nat_diff)
  have per: "uint (sb_inodes_per_group sb) = int ?per" by simp
  have group_eq: "s32 (int (ino - 1) div int ?per) = int g"
  proof -
    have "s32 (int g) = int g" using ok' by (intro s32_of_nat) linarith
    then show ?thesis unfolding zdiv_int [symmetric] by (simp only: g_def inode_group_def)
  qed
  have slot: "int (ino - 1) mod int ?per = int k" by (simp add: k_def inode_slot_def zmod_int)
  have bs: "EXT2_BLOCK_SIZE sb = int (bsize sb)" by (rule EXT2_BLOCK_SIZE_bsize)
  have ipb: "int (bsize sb) div int isz = int ipb" "0 < ipb"
    using ok' by (simp_all add: ipb_def zdiv_int div_greater_zero_iff)
  have fdb: "s32 (uint (sb_first_data_block sb) + 1) = int (?fdb + 1)"
  proof -
    have "bsize sb * (?fdb + 1) \<le> length ?disk" using ok' by linarith
    then have "512 * ((?fdb + 1) * spb sb) \<le> length ?disk" using block_pos [of "?fdb + 1" sb 0] by simp
    then have "(?fdb + 1) * spb sb < 2147483648" using size by (rule sector_bound)
    then have "?fdb + 1 < 2147483648" using bsize_pos(2) [of sb] by (metis le_less_trans mult_le_mono2 mult.right_neutral Suc_leI One_nat_def)
    then have "s32 (int (?fdb + 1)) = int (?fdb + 1)" by (rule s32_of_nat)
    then show ?thesis by (simp only: of_nat_add int_unat_uint of_nat_1)
  qed
  obtain k1 where k1: "ext2fs_blockgroup (dread e) sb (int g) (replicate sizeof_block_group 0) st =
      Some (1, group_desc ?disk sb g, st\<lparr>x_dev := k1\<rparr>)" "good e k1"
  proof -
    have s: "s32 (int g * int 32) = int (32 * g)" using ok' by simp
    have "32 * g + 32 < 2147483648" using ok' by simp
    then show thesis
      using devread_at [of e st sb "?fdb + 1" "32 * g" 32 "replicate 32 0"] st ok' that
      unfolding ext2fs_blockgroup_def fdb group_desc_def sizeof_block_group_def s by auto
  qed
  let ?t = "inode_table ?disk sb ino"
  have pos: "inode_pos ?disk sb isz ino = bsize sb * (?t + k div ipb) + isz * (k mod ipb)"
    by (simp add: inode_pos_def Let_def k_def ipb_def)
  have blkoff: "isz * (k mod ipb) < bsize sb"
  proof -
    have "isz * (k mod ipb) < isz * ipb" using ipb(2) ok' by simp
    also have "\<dots> \<le> bsize sb" by (simp add: ipb_def)
    finally show ?thesis .
  qed
  have B: "bsize sb \<le> 16384" using bsize_le ok' by blast
  have off: "s32 (int isz * (int k mod int ipb)) = int (isz * (k mod ipb))"
  proof -
    have "isz * (k mod ipb) < 2147483648" using blkoff B by linarith
    then show ?thesis by (simp only: s32_of_nat zmod_int [symmetric] of_nat_mult [symmetric])
  qed
  have tab: "s32 (uint (bg_inode_table_id (group_desc ?disk sb g)) + int k div int ipb) = int (?t + k div ipb)"
  proof -
    have "bsize sb * (?t + k div ipb) \<le> length ?disk" using ok' pos by linarith
    then have "512 * ((?t + k div ipb) * spb sb) \<le> length ?disk" using block_pos [of "?t + k div ipb" sb 0] by (simp only: add_0_right)
    then have "(?t + k div ipb) * spb sb < 2147483648" using size by (rule sector_bound)
    then have "?t + k div ipb < 2147483648" using bsize_pos(2) [of sb] by (metis le_less_trans mult_le_mono2 mult.right_neutral Suc_leI One_nat_def)
    then have "s32 (int (?t + k div ipb)) = int (?t + k div ipb)" by (rule s32_of_nat)
    then show ?thesis by (simp only: inode_table_def g_def zdiv_int of_nat_add int_unat_uint)
  qed
  obtain k2 where k2: "devread (dread e) (int (?t + k div ipb)) (LOG2_EXT2_BLOCK_SIZE sb) (int (isz * (k mod ipb)))
      (int sizeof_inode) buf 0 (st\<lparr>x_dev := k1\<rparr>) = Some (1, inode_at ?disk sb isz ino, st\<lparr>x_dev := k2\<rparr>)" "good e k2"
    using devread_at [of e "st\<lparr>x_dev := k1\<rparr>" sb "?t + k div ipb" "isz * (k mod ipb)" 128 buf] k1(2) ok' buf blkoff B
    unfolding inode_at_def pos sizeof_inode_def by auto
  have "\<not> (int ?per = 0 \<or> \<not> block_size_ok sb)" "\<not> (int isz = 0 \<or> int ipb = 0)"
    using ok' ipb(2) by (simp_all only: block_size_ok_def sane_sb_def of_nat_eq_0_iff) auto
  then have "ext2fs_read_inode (dread e) sb (int ino) buf st = Some (1, inode_at ?disk sb isz ino, st\<lparr>x_dev := k2\<rparr>)"
    using k1(1) k2(1)
    unfolding ext2fs_read_inode_def Let_def ino per group_eq slot bs isz
    by (simp only: if_False bind.bind_lunit prod.case ipb(1) tab off) simp
  then show ?thesis using k2(2) by blast
qed

end

subsection \<open>Walking a path\<close>

fun join_path :: "bytes list \<Rightarrow> bytes" where
  "join_path [] = []"
| "join_path [p] = p"
| "join_path (p # q # ps) = p @ SLASH # join_path (q # ps)"

definition part_ok :: "bytes \<Rightarrow> bool" where
  "part_ok p \<longleftrightarrow> p \<noteq> [] \<and> 0 \<notin> set p \<and> SLASH \<notin> set p"

text \<open>Inode number and file type of what a path names, and when the walk meets only sound directories
  and no symbolic link.\<close>

fun walk :: "bytes \<Rightarrow> bytes \<Rightarrow> nat \<Rightarrow> bytes \<Rightarrow> bytes list \<Rightarrow> (nat \<times> u8) option" where
  "walk disk sb isz inode [] = None"
| "walk disk sb isz inode (p # ps) =
     (case dir_find (file_bytes disk sb inode) p of
        None \<Rightarrow> None
      | Some (ino, ft, _) \<Rightarrow>
          if ps = [] then Some (unat ino, ft)
          else if uint ft = FILETYPE_DIRECTORY then walk disk sb isz (inode_at disk sb isz (unat ino)) ps
          else None)"

fun walk_ok :: "bytes \<Rightarrow> bytes \<Rightarrow> nat \<Rightarrow> bytes \<Rightarrow> bytes list \<Rightarrow> bool" where
  "walk_ok disk sb isz inode [] \<longleftrightarrow> True"
| "walk_ok disk sb isz inode (p # ps) \<longleftrightarrow> part_ok p \<and> dir_ok disk sb inode \<and>
     (case dir_find (file_bytes disk sb inode) p of
        None \<Rightarrow> True
      | Some (ino, ft, _) \<Rightarrow> uint ft \<noteq> FILETYPE_SYMLINK \<and>
          (uint ft = FILETYPE_DIRECTORY \<longrightarrow> ps \<noteq> [] \<longrightarrow> inode_ok disk sb isz (unat ino) \<and>
             walk_ok disk sb isz (inode_at disk sb isz (unat ino)) ps)) \<and>
     list_all part_ok ps"

text \<open>How many directory entries the walk can pass: each takes 144 bytes of the pool.\<close>

fun walk_cost :: "bytes \<Rightarrow> bytes \<Rightarrow> nat \<Rightarrow> bytes \<Rightarrow> bytes list \<Rightarrow> nat" where
  "walk_cost disk sb isz inode [] = 0"
| "walk_cost disk sb isz inode (p # ps) = length (dents (file_bytes disk sb inode)) +
     (case dir_find (file_bytes disk sb inode) p of
        None \<Rightarrow> 0
      | Some (ino, ft, _) \<Rightarrow> walk_cost disk sb isz (inode_at disk sb isz (unat ino)) ps)"

text \<open>A node that stands for an inode, read or not yet.\<close>

definition names_inode :: "bytes \<Rightarrow> nat \<Rightarrow> ext2fs_node \<Rightarrow> bytes \<Rightarrow> bool" where
  "names_inode disk isz node inode \<longleftrightarrow>
     (if nd_inode_read node then nd_inode node = inode
      else length (nd_inode node) = 128 \<and>
        (\<exists>ino. nd_ino node = int ino \<and> inode_ok disk (nd_sblock node) isz ino \<and>
           inode = inode_at disk (nd_sblock node) isz ino))"

lemma strchr_from_found:
  "0 \<notin> set p \<Longrightarrow> c \<notin> set p \<Longrightarrow> c \<noteq> 0 \<Longrightarrow> strchr_from i (p @ c # r) c = Some (Some (i + length p))"
  by (induction p arbitrary: i) auto

lemma strchr_from_missing:
  "0 \<notin> set p \<Longrightarrow> c \<notin> set p \<Longrightarrow> c \<noteq> 0 \<Longrightarrow> strchr_from i (p @ [0]) c = Some None"
  by (induction p arbitrary: i) auto

lemma split_path_last: "part_ok p \<Longrightarrow> split_path p = Some (p, None)"
  by (simp add: split_path_def part_ok_def strchr_def strchr_from_missing SLASH_def)

lemma join_path_no_slash:
  assumes "part_ok p"
  shows "dropWhile (\<lambda>c. c = SLASH) (join_path (p # ps)) = join_path (p # ps)" "join_path (p # ps) \<noteq> []"
proof -
  have "\<exists>x xs. join_path (p # ps) = x # xs \<and> x \<noteq> SLASH"
    using assms by (cases p; cases ps) (auto simp: part_ok_def)
  then show "dropWhile (\<lambda>c. c = SLASH) (join_path (p # ps)) = join_path (p # ps)" "join_path (p # ps) \<noteq> []"
    by auto
qed

lemma split_path_join:
  assumes "part_ok p" "part_ok q"
  shows "split_path (join_path (p # q # ps)) = Some (p, Some (join_path (q # ps)))"
proof -
  have "strchr (join_path (p # q # ps) @ [0]) SLASH = Some (Some (length p))"
    using assms(1) strchr_from_found [of p SLASH 0 "join_path (q # ps) @ [0]"]
    by (simp add: strchr_def part_ok_def SLASH_def)
  then show ?thesis using join_path_no_slash(1) [OF assms(2)] by (simp add: split_path_def)
qed

lemma dirent_type_cases:
  "dirent_type ft = FILETYPE_DIRECTORY \<longleftrightarrow> uint ft = FILETYPE_DIRECTORY"
  "dirent_type ft = FILETYPE_SYMLINK \<longleftrightarrow> uint ft = FILETYPE_SYMLINK"
  "dirent_type ft = FILETYPE_REG \<longleftrightarrow> uint ft = FILETYPE_REG"
  by (simp_all add: dirent_type_def FILETYPE_DIRECTORY_def FILETYPE_SYMLINK_def FILETYPE_REG_def FILETYPE_UNKNOWN_def)

context partition_reader
begin

lemma need_inode_ok:
  assumes "names_inode (content e) isz node inode" "x_inode_size st = int isz" "good e (x_dev st)"
  shows "\<exists>k'. need_inode (dread e) node st = Some (1, node\<lparr>nd_inode := inode\<rparr>, st\<lparr>x_dev := k'\<rparr>) \<and> good e k'"
proof (cases "nd_inode_read node")
  case True
  then show ?thesis using assms by (intro exI [of _ "x_dev st"]) (simp add: need_inode_def names_inode_def)
next
  case False
  then obtain ino where "nd_ino node = int ino" "inode_ok (content e) (nd_sblock node) isz ino"
    "inode = inode_at (content e) (nd_sblock node) isz ino" "length (nd_inode node) = 128"
    using assms(1) by (auto simp: names_inode_def)
  then show ?thesis
    using read_inode_ok [of e "nd_sblock node" isz ino st "nd_inode node"] False assms(2,3)
    by (auto simp: need_inode_def)
qed

lemma iterate_dir_ok:
  assumes "names_inode (content e) isz node inode" "dir_ok (content e) (nd_sblock node) inode" "part_ok name"
    and "ext2_inv (content e) (nd_sblock node)
      (rsv + 144 * length (dents (file_bytes (content e) (nd_sblock node) inode))) st"
    and "x_inode_size st = int isz" "good e (x_dev st)"
  shows "\<exists>st' r nd. ext2fs_iterate_dir (dread e) node (Some name) st = Some (r, nd, [], st') \<and>
      (r, nd) = dir_result (nd_sblock node) (dir_find (file_bytes (content e) (nd_sblock node) inode) name) \<and>
      ext2_inv (content e) (nd_sblock node) rsv st' \<and> good e (x_dev st') \<and> ext2_frame st st'"
proof -
  obtain k' where k': "need_inode (dread e) node st = Some (1, node\<lparr>nd_inode := inode\<rparr>, st\<lparr>x_dev := k'\<rparr>)"
    "good e k'"
    using need_inode_ok [OF assms(1,5,6)] by blast
  have "ext2_inv (content e) (nd_sblock node)
      (rsv + 144 * length (dents (file_bytes (content e) (nd_sblock node) inode))) (st\<lparr>x_dev := k'\<rparr>)"
    using assms(4) by (simp add: ext2_inv_def)
  then show ?thesis
    using iterate_loop_ok [where e = e and diro = "node\<lparr>nd_inode := inode\<rparr>" and name = name and p = 0
        and st = "st\<lparr>x_dev := k'\<rparr>" and rsv = rsv and out = "[]"] assms(2,3) k'
    by (auto simp: ext2fs_iterate_dir_def dir_ok_def part_ok_def ext2_frame_def)
qed

text \<open>The rest of a path behind something that is not a directory is not found.\<close>

lemma find_loop_not_dir:
  "list_all part_ok (q # ps) \<Longrightarrow> t \<noteq> FILETYPE_DIRECTORY \<Longrightarrow>
   find_loop dr (join_path (q # ps)) t node st = Some (0, node, t, st)"
  by (subst find_loop.simps, cases ps) (simp_all add: split_path_last split_path_join del: join_path.simps(3))

text \<open>One pass of the loop of \<open>ext2fs_find_file1\<close> when the entry is no symbolic link.\<close>

lemma find_loop_step:
  assumes "split_path name = Some (part, nxt)"
    and "ext2fs_iterate_dir dr node (Some part) st = Some (r, nd, out, st1)"
    and "(r, nd) = dir_result sb e"
    and "\<And>ino ft nm. e = Some (ino, ft, nm) \<Longrightarrow> uint ft \<noteq> FILETYPE_SYMLINK"
  shows "find_loop dr name FILETYPE_DIRECTORY node st =
    (case e of
       None \<Rightarrow> Some (0, node, FILETYPE_DIRECTORY, st1)
     | Some (ino, ft, _) \<Rightarrow>
         let node1 = \<lparr>nd_sblock = sb, nd_inode = replicate sizeof_inode 0, nd_ino = s32 (uint ino), nd_inode_read = False\<rparr>
         in case nxt of
              None \<Rightarrow> Some (1, node1, dirent_type ft, st1)
            | Some nxt \<Rightarrow> if nxt = [] then Some (1, node1, dirent_type ft, st1)
                          else find_loop dr nxt (dirent_type ft) node1 st1)"
proof (cases e)
  case None
  then show ?thesis using assms by (subst find_loop.simps) (simp add: dir_result_def)
next
  case (Some a)
  then obtain ino ft nm where e: "e = Some (ino, ft, nm)" by (cases a) auto
  then have "dirent_type ft \<noteq> FILETYPE_SYMLINK" using assms(4) by (simp add: dirent_type_cases)
  then show ?thesis
    using assms(1-3) e by (subst find_loop.simps) (simp add: dir_result_def Let_def cong: option.case_cong)
qed

lemma find_loop_ok:
  assumes "names_inode (content e) isz node inode" "walk_ok (content e) (nd_sblock node) isz inode (p # ps)"
    and "ext2_inv (content e) (nd_sblock node)
      (rsv + 144 * walk_cost (content e) (nd_sblock node) isz inode (p # ps)) st"
    and "x_inode_size st = int isz" "good e (x_dev st)"
  shows "\<exists>st' s node' t. find_loop (dread e) (join_path (p # ps)) FILETYPE_DIRECTORY node st = Some (s, node', t, st') \<and>
      (case walk (content e) (nd_sblock node) isz inode (p # ps) of
         None \<Rightarrow> s = 0
       | Some (ino, ft) \<Rightarrow> s = 1 \<and> t = dirent_type ft \<and>
           node' = \<lparr>nd_sblock = nd_sblock node, nd_inode = replicate sizeof_inode 0,
                    nd_ino = s32 (int ino), nd_inode_read = False\<rparr>) \<and>
      ext2_inv (content e) (nd_sblock node) rsv st' \<and> good e (x_dev st') \<and> ext2_frame st st'"
  using assms
proof (induction ps arbitrary: p inode node st)
  case Nil
  let ?sb = "nd_sblock node"
  let ?f = "dir_find (file_bytes (content e) ?sb inode) p"
  have ok: "part_ok p" "dir_ok (content e) ?sb inode"
    "\<And>ino ft nm. ?f = Some (ino, ft, nm) \<Longrightarrow> uint ft \<noteq> FILETYPE_SYMLINK"
    using Nil.prems(2) by auto
  have "ext2_inv (content e) ?sb (rsv + 144 * length (dents (file_bytes (content e) ?sb inode))) st"
    using Nil.prems(3) by (rule ext2_inv_mono) simp
  then obtain st1 r nd where it: "ext2fs_iterate_dir (dread e) node (Some p) st = Some (r, nd, [], st1)"
    "(r, nd) = dir_result ?sb ?f" "ext2_inv (content e) ?sb rsv st1" "good e (x_dev st1)" "ext2_frame st st1"
    using iterate_dir_ok [OF Nil.prems(1) ok(2,1)] Nil.prems(4,5) by blast
  have "find_loop (dread e) p FILETYPE_DIRECTORY node st = (case ?f of
       None \<Rightarrow> Some (0, node, FILETYPE_DIRECTORY, st1)
     | Some (ino, ft, _) \<Rightarrow> Some (1, \<lparr>nd_sblock = ?sb, nd_inode = replicate sizeof_inode 0,
         nd_ino = s32 (uint ino), nd_inode_read = False\<rparr>, dirent_type ft, st1))"
    using find_loop_step [OF split_path_last [OF ok(1)] it(1,2) ok(3)] by (simp add: Let_def split: option.splits)
  then show ?case using it(3-5) by (auto split: option.split)
next
  case (Cons q ps)
  let ?sb = "nd_sblock node"
  let ?f = "dir_find (file_bytes (content e) ?sb inode) p"
  have ok: "part_ok p" "dir_ok (content e) ?sb inode"
    "\<And>ino ft nm. ?f = Some (ino, ft, nm) \<Longrightarrow> uint ft \<noteq> FILETYPE_SYMLINK" "list_all part_ok (q # ps)"
    using Cons.prems(2) by auto
  let ?next = "case ?f of None \<Rightarrow> 0
    | Some (ino, ft, _) \<Rightarrow> walk_cost (content e) ?sb isz (inode_at (content e) ?sb isz (unat ino)) (q # ps)"
  have "ext2_inv (content e) ?sb (rsv + 144 * ?next + 144 * length (dents (file_bytes (content e) ?sb inode))) st"
    using Cons.prems(3) by (rule ext2_inv_mono) (simp add: distrib_left)
  then obtain st1 r nd where it: "ext2fs_iterate_dir (dread e) node (Some p) st = Some (r, nd, [], st1)"
    "(r, nd) = dir_result ?sb ?f" "ext2_inv (content e) ?sb (rsv + 144 * ?next) st1" "good e (x_dev st1)"
    "ext2_frame st st1"
    using iterate_dir_ok [OF Cons.prems(1) ok(2,1)] Cons.prems(4,5) by blast
  have isz: "x_inode_size st1 = int isz" using it(5) Cons.prems(4) by (simp add: ext2_frame_def)
  have inv: "ext2_inv (content e) ?sb rsv st1" using it(3) by (rule ext2_inv_mono) simp
  have q: "part_ok q" using ok(4) by simp
  note run = find_loop_step [OF split_path_join [OF ok(1) q, of ps] it(1,2) ok(3)]
  show ?case
  proof (cases ?f)
    case None
    then show ?thesis using run inv it(4,5) by simp
  next
    case (Some a)
    then obtain ino ft nm where f: "?f = Some (ino, ft, nm)" by (cases a) auto
    define node1 where "node1 = \<lparr>nd_sblock = ?sb, nd_inode = replicate sizeof_inode 0,
      nd_ino = s32 (uint ino), nd_inode_read = False\<rparr>"
    have run1: "find_loop (dread e) (join_path (p # q # ps)) FILETYPE_DIRECTORY node st =
        find_loop (dread e) (join_path (q # ps)) (dirent_type ft) node1 st1"
      using run f join_path_no_slash(2) [OF q, of ps] by (simp add: Let_def node1_def del: join_path.simps)
    show ?thesis
    proof (cases "uint ft = FILETYPE_DIRECTORY")
      case True
      then have d: "inode_ok (content e) ?sb isz (unat ino)"
        "walk_ok (content e) ?sb isz (inode_at (content e) ?sb isz (unat ino)) (q # ps)"
        using Cons.prems(2) f by auto
      have small: "unat ino < 2147483648" using d(1) by (simp add: inode_ok_def)
      have num: "s32 (uint ino) = int (unat ino)" unfolding int_unat_uint [symmetric] by (rule s32_of_nat [OF small])
      have sb1: "nd_sblock node1 = ?sb" by (simp add: node1_def)
      have names: "names_inode (content e) isz node1 (inode_at (content e) ?sb isz (unat ino))"
        using d(1) unfolding names_inode_def node1_def num
        by (auto simp: sizeof_inode_def intro!: exI [of _ "unat ino"])
      have "\<exists>st' s node' t. find_loop (dread e) (join_path (q # ps)) FILETYPE_DIRECTORY node1 st1 = Some (s, node', t, st') \<and>
          (case walk (content e) ?sb isz (inode_at (content e) ?sb isz (unat ino)) (q # ps) of
             None \<Rightarrow> s = 0
           | Some (ino, ft) \<Rightarrow> s = 1 \<and> t = dirent_type ft \<and>
               node' = \<lparr>nd_sblock = ?sb, nd_inode = replicate sizeof_inode 0,
                        nd_ino = s32 (int ino), nd_inode_read = False\<rparr>) \<and>
          ext2_inv (content e) ?sb rsv st' \<and> good e (x_dev st') \<and> ext2_frame st1 st'"
        using Cons.IH [of node1 "inode_at (content e) ?sb isz (unat ino)" q st1] names d(2) it(3,4) isz f
        unfolding sb1 by simp
      moreover have "dirent_type ft = FILETYPE_DIRECTORY" using True by (simp add: dirent_type_cases)
      moreover have "walk (content e) ?sb isz inode (p # q # ps) =
          walk (content e) ?sb isz (inode_at (content e) ?sb isz (unat ino)) (q # ps)"
        using f True by simp
      ultimately show ?thesis unfolding run1 using ext2_frame_trans [OF it(5)] by metis
    next
      case False
      then have "dirent_type ft \<noteq> FILETYPE_DIRECTORY" by (simp add: dirent_type_cases)
      then have "find_loop (dread e) (join_path (p # q # ps)) FILETYPE_DIRECTORY node st =
          Some (0, node1, dirent_type ft, st1)"
        unfolding run1 by (intro find_loop_not_dir [OF ok(4)])
      moreover have "walk (content e) ?sb isz inode (p # q # ps) = None" using f False by simp
      ultimately show ?thesis using inv it(4,5) by simp
    qed
  qed
qed

end

end
