(* ===== verification/Ext2_Boot.thy ===== *)
theory Ext2_Boot
  imports Ext2_Paths
begin

section \<open>The ext2 reader: mounting, opening and reading\<close>

text \<open>
  What \<open>read_file\<close> of the boot loader relies on: after a mount, the file a path names is opened and
  its bytes are read.  The lemmas hold for every reader of the partition; the properties are those of
  \<open>ext2fs_devread\<close>.
\<close>

definition superblock :: "bytes \<Rightarrow> bytes" where "superblock disk = region disk 1024 204"

definition disk_inode_size :: "bytes \<Rightarrow> nat" where
  "disk_inode_size disk =
     (if sb_revision_level (superblock disk) = EXT2_GOOD_OLD_REV then 128 else unat (sb_inode_size (superblock disk)))"

definition root_inode :: "bytes \<Rightarrow> bytes" where
  "root_inode disk = inode_at disk (superblock disk) (disk_inode_size disk) 2"

definition root_node :: "bytes \<Rightarrow> ext2fs_node" where
  "root_node disk = \<lparr>nd_sblock = superblock disk, nd_inode = root_inode disk, nd_ino = 2, nd_inode_read = True\<rparr>"

definition ext2_disk :: "bytes \<Rightarrow> bool" where
  "ext2_disk disk \<longleftrightarrow> 1228 \<le> length disk \<and> sb_magic (superblock disk) = EXT2_MAGIC \<and>
     inode_ok disk (superblock disk) (disk_inode_size disk) 2"

text \<open>The state of the file-scope variables before the first mount.\<close>

definition ext2_start :: "'k \<Rightarrow> 'k ext2_state" where
  "ext2_start k = \<lparr>x_dev = k, x_malloc = 0, x_inode_size = 128, x_root = None, x_file = None,
     x_symlinknest = 0, x_indir1 = None, x_indir1_blkno = - 1, x_indir2 = None, x_indir2_blkno = - 1\<rparr>"

lemma ext2_start_simps [simp]:
  "x_dev (ext2_start k) = k" "x_inode_size (ext2_start k) = 128" "x_malloc (ext2_start k) = 0"
  "x_root (ext2_start k) = None" "x_file (ext2_start k) = None"
  "x_indir1 (ext2_start k) = None" "x_indir2 (ext2_start k) = None"
  by (simp_all add: ext2_start_def)

definition read_pad :: "bytes \<Rightarrow> bytes \<Rightarrow> bytes \<Rightarrow> nat" where
  "read_pad disk sb inode =
     (if file_block disk sb inode (nblocks sb inode - 1) = 0 then nblocks sb inode * bsize sb - file_size inode else 0)"

lemma ext2fs_read_file_clamp:
  "file_size (nd_inode node) \<le> len \<Longrightarrow>
   ext2fs_read_file dr node pos (int len) mem buf st =
   ext2fs_read_file dr node pos (int (file_size (nd_inode node))) mem buf st"
  unfolding ext2fs_read_file_def file_size_def int_unat_uint [symmetric] Let_def
  by (simp only: min.absorb2 min.idem of_nat_le_iff)

context partition_reader
begin

lemma mount_ok:
  assumes "good e (x_dev st)" "ext2_disk (content e)" "unat (x_malloc st) + 352 \<le> MALLOC_POOL_EXTENT"
  shows "\<exists>m k'. ext2fs_mount (dread e) st = Some (1, st\<lparr>x_malloc := m, x_dev := k',
      x_inode_size := int (disk_inode_size (content e)), x_root := Some (root_node (content e))\<rparr>) \<and>
    unat m = unat (x_malloc st) + 352 \<and> good e k'"
proof -
  let ?disk = "content e" and ?sb = "superblock (content e)"
  have c: "malloc_cost (word_of_int sizeof_data) = 352" by (simp add: malloc_cost_def sizeof_data_def)
  obtain m where m: "malloc (x_malloc st) (word_of_int sizeof_data) = Some (x_malloc st, m)"
    "unat m = unat (x_malloc st) + 352"
    using malloc_some [of "x_malloc st" "word_of_int sizeof_data"] assms(3) unfolding c by auto
  have z: "(2 :: int) * 2 ^ nat 0 = 2" by simp
  obtain k1 where k1: "devread (dread e) 2 0 0 204 (replicate 204 0) 0 (st\<lparr>x_malloc := m\<rparr>) =
      Some (1, ?sb, st\<lparr>x_malloc := m, x_dev := k1\<rparr>)" "good e k1"
  proof -
    have "patch (replicate 204 0) 0 (region ?disk 1024 204) = region ?disk 1024 204"
      using assms(2) by (auto simp: patch_def ext2_disk_def)
    then show thesis
      using devread_ok [of e "st\<lparr>x_malloc := m\<rparr>" 2 0 204 0 0 "replicate 204 0"] assms(1,2) that
      by (auto simp: ext2_disk_def superblock_def)
  qed
  let ?st = "st\<lparr>x_malloc := m, x_dev := k1, x_inode_size := int (disk_inode_size ?disk)\<rparr>"
  obtain k2 where k2: "ext2fs_read_inode (dread e) ?sb 2 (replicate 128 0) ?st =
      Some (1, root_inode ?disk, ?st\<lparr>x_dev := k2\<rparr>)" "good e k2"
    using read_inode_ok [of e ?sb "disk_inode_size ?disk" 2 ?st "replicate 128 0"] assms(2) k1(2)
    by (auto simp: ext2_disk_def root_inode_def)
  have isz: "(if sb_revision_level ?sb = EXT2_GOOD_OLD_REV then EXT2_GOOD_OLD_INODE_SIZE else uint (sb_inode_size ?sb))
      = int (disk_inode_size ?disk)"
    by (simp add: disk_inode_size_def EXT2_GOOD_OLD_INODE_SIZE_def)
  have "ext2fs_mount (dread e) st = Some (1, st\<lparr>x_malloc := m, x_dev := k2,
      x_inode_size := int (disk_inode_size ?disk), x_root := Some (root_node ?disk)\<rparr>)"
    using m(1) k1(1) k2(1) assms(2)
    unfolding ext2fs_mount_def xmalloc_def sizeof_sblock_def sizeof_inode_def
    by (simp add: ext2_disk_def Let_def isz root_node_def)
  then show ?thesis using m(2) k2(2) by blast
qed

lemma open_ok:
  fixes e and root :: ext2fs_node
  defines "sb \<equiv> nd_sblock root"
  assumes root: "x_root st = Some root" "nd_inode_read root" "x_inode_size st = int isz"
    and walk: "walk_ok (content e) sb isz (nd_inode root) (p # ps)"
    and inv: "ext2_inv (content e) sb (rsv + 144 * walk_cost (content e) sb isz (nd_inode root) (p # ps)) st"
      "good e (x_dev st)"
    and reg: "\<And>ino. walk (content e) sb isz (nd_inode root) (p # ps) = Some (ino, 1) \<Longrightarrow> inode_ok (content e) sb isz ino"
  shows "\<exists>st'. ext2fs_open (dread e) (replicate k SLASH @ join_path (p # ps)) st =
      Some (case walk (content e) sb isz (nd_inode root) (p # ps) of
              Some (ino, ft) \<Rightarrow> if ft = 1 then s32 (int (file_size (inode_at (content e) sb isz ino))) else - 2
            | None \<Rightarrow> - 2, st') \<and>
      (\<forall>ino. walk (content e) sb isz (nd_inode root) (p # ps) = Some (ino, 1) \<longrightarrow>
         (\<exists>node. x_file st' = Some node \<and> nd_sblock node = sb \<and> nd_inode node = inode_at (content e) sb isz ino)) \<and>
      x_root st' = Some root \<and> ext2_inv (content e) sb rsv st' \<and> good e (x_dev st')"
proof -
  let ?w = "walk (content e) sb isz (nd_inode root) (p # ps)"
  let ?st = "st\<lparr>x_file := None, x_symlinknest := 0\<rparr>"
  have p: "part_ok p" using walk by simp
  have strip: "dropWhile (\<lambda>c. c = SLASH) (replicate k SLASH @ join_path (p # ps)) = join_path (p # ps)"
    using join_path_no_slash(1) [OF p, of ps] by (subst dropWhile_append2) auto
  have "names_inode (content e) isz root (nd_inode root)" using root(2) by (simp add: names_inode_def)
  then obtain st1 s node t where f: "find_loop (dread e) (join_path (p # ps)) FILETYPE_DIRECTORY root ?st = Some (s, node, t, st1)"
    "case ?w of None \<Rightarrow> s = 0 | Some (ino, ft) \<Rightarrow> s = 1 \<and> t = dirent_type ft \<and>
       node = \<lparr>nd_sblock = sb, nd_inode = replicate sizeof_inode 0, nd_ino = s32 (int ino), nd_inode_read = False\<rparr>"
    "ext2_inv (content e) sb rsv st1" "good e (x_dev st1)" "ext2_frame ?st st1"
    using find_loop_ok [of e isz root "nd_inode root" p ps rsv ?st] walk inv root(3)
    unfolding sb_def by (auto simp: ext2_inv_def)
  have fr: "x_root st1 = Some root" "x_inode_size st1 = int isz" "x_file st1 = None"
    using f(5) root by (simp_all add: ext2_frame_def)
  have run: "ext2fs_open (dread e) (replicate k SLASH @ join_path (p # ps)) st =
     (if s = 0 \<or> t \<noteq> FILETYPE_REG then Some (- 2, st1)
      else do {
        (status, fdiro, st) \<leftarrow> need_inode (dread e) node st1;
        if status = 0 then Some (- 3, st)
        else Some (s32 (uint (ino_size (nd_inode fdiro))), st\<lparr>x_file := Some fdiro\<rparr>) })"
    using root(1) f(1) strip join_path_no_slash(2) [OF p, of ps]
    by (simp add: ext2fs_open_def ext2fs_find_file_def ext2fs_find_file1_def Let_def FILETYPE_REG_def
        FILETYPE_DIRECTORY_def)
  show ?thesis
  proof (cases "\<exists>ino. ?w = Some (ino, 1)")
    case False
    have "s = 0 \<or> t \<noteq> FILETYPE_REG"
    proof (cases ?w)
      case (Some a)
      then obtain ino ft where a: "?w = Some (ino, ft)" "ft \<noteq> 1" using False by (cases a) auto
      then have "uint ft \<noteq> 1" by (metis uint_1 word_uint_eqI)
      then show ?thesis using a f(2) dirent_type_cases(3) [of ft] by (simp add: FILETYPE_REG_def)
    qed (use f(2) in simp)
    then show ?thesis
      using run False fr f(3,4) by (intro exI [of _ st1]) (auto split: option.split)
  next
    case True
    then obtain ino where w: "?w = Some (ino, 1)" by blast
    have ok: "inode_ok (content e) sb isz ino" by (rule reg [OF w])
    have "ino < 2147483648" using ok by (simp add: inode_ok_def)
    then have num: "s32 (int ino) = int ino" by (rule s32_of_nat)
    have st: "s = 1" "t = FILETYPE_REG" "node = \<lparr>nd_sblock = sb, nd_inode = replicate sizeof_inode 0,
        nd_ino = int ino, nd_inode_read = False\<rparr>"
      using f(2) w num by (simp_all add: dirent_type_def FILETYPE_REG_def FILETYPE_DIRECTORY_def FILETYPE_SYMLINK_def)
    have "names_inode (content e) isz node (inode_at (content e) sb isz ino)"
      using ok by (auto simp: names_inode_def st(3) sizeof_inode_def)
    then obtain k' where k': "need_inode (dread e) node st1 =
        Some (1, node\<lparr>nd_inode := inode_at (content e) sb isz ino\<rparr>, st1\<lparr>x_dev := k'\<rparr>)" "good e k'"
      using need_inode_ok [of e isz node _ st1] fr(2) f(4) by blast
    then show ?thesis
      using run st w fr f(3) unfolding file_size_def int_unat_uint
      by (intro exI [of _ "st1\<lparr>x_dev := k', x_file := Some (node\<lparr>nd_inode := inode_at (content e) sb isz ino\<rparr>)\<rparr>"])
        (simp add: ext2_inv_def)
  qed
qed

lemma read_all_ok:
  assumes ok: "file_ok (content e) (nd_sblock node) (nd_inode node)" "0 < file_size (nd_inode node)"
    and len: "file_size (nd_inode node) \<le> len"
    and room: "buf + file_size (nd_inode node) + read_pad (content e) (nd_sblock node) (nd_inode node) \<le> length mem"
    and st: "ext2_inv (content e) (nd_sblock node) rsv st" "good e (x_dev st)"
  shows "\<exists>st'. ext2fs_read_file (dread e) node 0 (int len) mem buf st =
      Some (int (file_size (nd_inode node)),
        patch mem buf (file_bytes (content e) (nd_sblock node) (nd_inode node) @
          replicate (read_pad (content e) (nd_sblock node) (nd_inode node)) 0), st') \<and>
      ext2_inv (content e) (nd_sblock node) rsv st' \<and> good e (x_dev st') \<and> ext2_frame st st'"
proof -
  let ?sb = "nd_sblock node" and ?inode = "nd_inode node" and ?disk = "content e"
  define B where "B = bsize ?sb"
  define n where "n = file_size ?inode"
  define cnt where "cnt = nblocks ?sb ?inode"
  define F where "F = file_blocks ?disk ?sb ?inode cnt"
  have B0: "0 < B" by (simp add: B_def)
  have S: "sane_sb ?sb" using ok by (simp add: file_ok_def)
  have B: "B \<le> 16384" using bsize_le [OF S] by (simp add: B_def)
  have cnt: "(n + 0 + B - 1) div B = cnt" by (simp add: cnt_def nblocks_def n_def B_def)
  have up: "n \<le> cnt * B" using div_up [OF B0, of n] cnt by simp
  have last: "(cnt - 1) * B < n" "0 < cnt"
  proof -
    have "(n - 1) div B = cnt - 1"
    proof -
      have "n + B - 1 = (n - 1) + B" using ok(2) by (simp add: n_def)
      then have "cnt = (n - 1 + B) div B" using cnt by simp
      moreover have "(n - 1 + B) div B = (n - 1) div B + 1" by (rule div_add_self2) (use B0 in linarith)
      ultimately show ?thesis by linarith
    qed
    then have "(cnt - 1) * B \<le> n - 1" by (metis div_times_less_eq_dividend)
    then show "(cnt - 1) * B < n" using ok(2) by (simp add: n_def)
    show "0 < cnt" using up ok(2) by (intro Suc_leI Nat.gr0I) (simp add: n_def)
  qed
  have pad: "region F 0 (if file_block ?disk ?sb ?inode (cnt - 1) = 0 then cnt * B - 0 else n) =
      file_bytes ?disk ?sb ?inode @ replicate (read_pad ?disk ?sb ?inode) 0"
  proof (cases "file_block ?disk ?sb ?inode (cnt - 1) = 0")
    case False
    then show ?thesis by (simp add: file_bytes_def F_def cnt_def n_def read_pad_def)
  next
    case True
    have sum: "cnt * B = n + (cnt * B - n)" using up by simp
    have at: "n = (cnt - 1) * B + (n - (cnt - 1) * B)" using last(1) by simp
    have "n - (cnt - 1) * B + (cnt * B - n) = B" using last up by (cases cnt) auto
    then have "region F n (cnt * B - n) = region (block_bytes ?disk ?sb 0) (n - (cnt - 1) * B) (cnt * B - n)"
      using region_file_blocks [of cnt ?disk ?sb ?inode "cnt - 1" "n - (cnt - 1) * B" "cnt * B - n"]
        file_ok_on_disk [OF ok(1)] last(2) True at unfolding F_def cnt_def B_def by simp
    also have "\<dots> = replicate (cnt * B - n) 0"
      using \<open>n - (cnt - 1) * B + (cnt * B - n) = B\<close>
      by (simp add: block_bytes_def region_def B_def [symmetric] min_def)
    finally have "region F 0 (cnt * B) = region F 0 n @ replicate (cnt * B - n) 0"
      by (subst sum) (simp add: region_append_split)
    then show ?thesis using True by (simp add: file_bytes_def F_def cnt_def n_def read_pad_def B_def)
  qed
  have room': "buf + (if file_block ?disk ?sb ?inode (cnt - 1) = 0 then cnt * B - 0 else n) \<le> length mem"
    using room up by (auto simp: read_pad_def cnt_def B_def n_def)
  have ix: "index_ok ?disk ?sb ?inode j" if "j < cnt" for j using that ok(1) by (simp add: file_ok_def cnt_def)
  have small: "0 + n + B < 2147483648" using ok(1) B by (simp add: file_ok_def n_def)
  have le: "n \<le> unat (ino_size ?inode)" by (simp add: n_def file_size_def)
  have pos: "0 < n" using ok(2) by (simp add: n_def)
  have "\<exists>st'. ext2fs_read_file (dread e) node (int 0) (int n) mem buf st =
      Some (int n, patch mem buf (region F 0 (if file_block ?disk ?sb ?inode (cnt - 1) = 0 then cnt * B - 0 else n)), st') \<and>
      ext2_inv ?disk ?sb rsv st' \<and> good e (x_dev st') \<and> ext2_frame st st'"
    using read_file_ok [where e = e and node = node and pos = 0 and len = n and mem = mem and buf = buf and st = st
        and rsv = rsv, folded B_def, unfolded cnt, folded F_def, OF S pos le small ix _ room' st]
    by (simp add: F_def)
  then show ?thesis unfolding pad ext2fs_read_file_clamp [OF len] by (simp add: n_def)
qed

text \<open>Mount, open, read: the boot loader gets the file.\<close>

lemma boot_read_ok:
  fixes e
  defines "disk \<equiv> content e"
  defines "sb \<equiv> superblock disk" and "isz \<equiv> disk_inode_size disk"
  assumes k: "good e k" and fs: "ext2_disk disk" "walk_ok disk sb isz (root_inode disk) (p # ps)"
    and pool: "352 + 2 * (bsize sb + 4) + 144 * walk_cost disk sb isz (root_inode disk) (p # ps) \<le> MALLOC_POOL_EXTENT"
    and w: "walk disk sb isz (root_inode disk) (p # ps) = Some (ino, 1)" "inode_ok disk sb isz ino"
    and f: "file_ok disk sb (inode_at disk sb isz ino)" "0 < file_size (inode_at disk sb isz ino)"
    and len: "file_size (inode_at disk sb isz ino) \<le> unat len"
    and room: "buf + file_size (inode_at disk sb isz ino) + read_pad disk sb (inode_at disk sb isz ino) \<le> length mem"
  shows "\<exists>st1 st2 st3. ext2fs_mount (dread e) (ext2_start k) = Some (1, st1) \<and>
      ext2fs_open (dread e) (replicate j SLASH @ join_path (p # ps)) st1 =
        Some (int (file_size (inode_at disk sb isz ino)), st2) \<and>
      ext2fs_read (dread e) mem buf len st2 =
        Some (int (file_size (inode_at disk sb isz ino)),
          patch mem buf (file_bytes disk sb (inode_at disk sb isz ino) @
            replicate (read_pad disk sb (inode_at disk sb isz ino)) 0), st3)"
proof -
  let ?root = "root_node disk" and ?inode = "inode_at disk sb isz ino"
  let ?cost = "walk_cost disk sb isz (root_inode disk) (p # ps)"
  obtain m k1 where m: "ext2fs_mount (dread e) (ext2_start k) = Some (1, (ext2_start k)\<lparr>x_malloc := m, x_dev := k1,
      x_inode_size := int isz, x_root := Some ?root\<rparr>)" "unat m = 352" "good e k1"
    using mount_ok [of e "ext2_start k"] k fs(1) unfolding disk_def isz_def
    by (auto simp: ext2_start_def MALLOC_POOL_EXTENT_def)
  let ?st1 = "(ext2_start k)\<lparr>x_malloc := m, x_dev := k1, x_inode_size := int isz, x_root := Some ?root\<rparr>"
  have root: "nd_sblock ?root = sb" "nd_inode ?root = root_inode disk" "nd_inode_read ?root"
    by (simp_all add: root_node_def sb_def)
  have inv: "ext2_inv disk sb (0 + 144 * ?cost) ?st1"
    using pool m(2) by (simp add: ext2_inv_def ext2_start_def cache_holds_def cache_cost_def)
  have st1: "x_root ?st1 = Some ?root" "x_inode_size ?st1 = int isz" "good e (x_dev ?st1)"
    using m(3) by simp_all
  have only: "\<And>i. walk disk sb isz (root_inode disk) (p # ps) = Some (i, 1) \<Longrightarrow> inode_ok disk sb isz i"
    using w by simp
  obtain st2 node where st2: "ext2fs_open (dread e) (replicate j SLASH @ join_path (p # ps)) ?st1 =
      Some (s32 (int (file_size ?inode)), st2)" "x_file st2 = Some node" "nd_sblock node = sb"
    "nd_inode node = ?inode" "x_root st2 = Some ?root" "ext2_inv disk sb 0 st2" "good e (x_dev st2)"
    using open_ok [of ?st1 ?root isz e p ps 0 j, unfolded root, folded disk_def, OF st1(1) root(3) st1(2) fs(2) inv st1(3) only] w(1)
    by auto
  have "file_size ?inode < 2147483648" using f(1) by (simp add: file_ok_def)
  then have sz: "s32 (int (file_size ?inode)) = int (file_size ?inode)" by (rule s32_of_nat)
  obtain st3 where "ext2fs_read_file (dread e) node 0 (int (unat len)) mem buf st2 =
      Some (int (file_size ?inode), patch mem buf (file_bytes disk sb ?inode @ replicate (read_pad disk sb ?inode) 0), st3)"
    using read_all_ok [of e node "unat len" buf mem 0 st2, unfolded st2(3,4), folded disk_def, OF f len room st2(6,7)] by blast
  then have "ext2fs_read (dread e) mem buf len st2 =
      Some (int (file_size ?inode), patch mem buf (file_bytes disk sb ?inode @ replicate (read_pad disk sb ?inode) 0), st3)"
    using st2(2,5) by (simp add: ext2fs_read_def)
  then show ?thesis using m(1) st2(1) unfolding sz by blast
qed

end

end
