(* ===== verification/Ext2_Demo.thy ===== *)
theory Ext2_Demo
  imports Ext2_Boot Crc32
begin

section \<open>A small ext2 file system\<close>

text \<open>
  A disk of seven blocks of 1024 bytes on which the hypotheses of the properties hold: its first sector
  has a partition table, whose first partition is the whole disk; the root directory has two entries, the
  file \<open>k\<close> with the content \<open>hello\<close> and the file \<open>u\<close> with a kernel image.  The driver reads the disk
  image.
\<close>

definition ram_env :: "bytes \<Rightarrow> dev_env" where
  "ram_env disk = \<lparr>dv_block_read = (\<lambda>s n. (n, region disk (512 * nat s) (512 * nat n))),
     dv_part_offset = 0, dv_part_length = int (length disk div 512), dv_has_keys = False, dv_junk = 0\<rparr>"

lemma ram_env_sector: "dev_sector (ram_env disk) i = region disk (512 * i) 512"
  by (simp add: dev_sector_def ram_env_def)

lemma concat_sectors: "concat (map (\<lambda>i. region disk (512 * i) 512) [s..<s + n]) = region disk (512 * s) (512 * n)"
proof (induction n)
  case (Suc n)
  have "512 * Suc n = 512 * n + 512" by simp
  then show ?case
    using Suc region_append_split [of disk "512 * s" "512 * n" 512] by (simp only:) (simp add: distrib_left)
qed simp

lemma ram_env_ok:
  assumes "length disk mod 512 = 0" "length disk < 1000000"
  shows "driver_ok (ram_env disk)" "part_content (ram_env disk) = disk" "quiet (ram_env disk) keys"
proof -
  have len: "length disk = 512 * (length disk div 512)" using assms(1) by auto
  have "concat (map (dev_sector (ram_env disk)) [s..<s + n]) = region disk (512 * s) (512 * n)" for s n
    unfolding ram_env_sector by (rule concat_sectors)
  then show "driver_ok (ram_env disk)"
    using assms(2) len unfolding driver_ok_def ram_env_sector by (auto simp: ram_env_def)
  have "part_content (ram_env disk) = region disk 0 (512 * (length disk div 512))"
    using concat_sectors [of disk 0 "length disk div 512"]
    unfolding part_content_def ram_env_sector by (simp add: ram_env_def)
  then show "part_content (ram_env disk) = disk" using len region_whole [of disk] by simp
  show "quiet (ram_env disk) keys" by (simp add: quiet_def ram_env_def)
qed

definition put32_be :: "u32 \<Rightarrow> bytes" where "put32_be w = rev (put32 w)"

lemma length_put32_be [simp]: "length (put32_be w) = 4"
  by (simp add: put32_be_def)

text \<open>A kernel image: the header and one byte, with its checksum.\<close>

definition demo_image :: bytes where
  "demo_image = put32_be 0x27051956 @ replicate 8 0 @ put32_be 1 @ replicate 8 0 @
     put32_be (crc32 (\<lambda>_. 7) 0 0 1) @ replicate 36 0 @ [7]"

lemma length_demo_image [simp]: "length demo_image = 65"
  by (simp add: demo_image_def)

definition demo_mbr :: bytes where
  "demo_mbr = replicate 454 0 @ put32 0 @ put32 14 @ replicate 48 0 @ [0x55, 0xaa]"

definition demo_blocks :: "bytes list" where
  "demo_blocks =
     [demo_mbr @ replicate 512 0,
      replicate 20 0 @ put32 1 @ put32 0 @ replicate 12 0 @ put32 16 @ replicate 12 0 @ put16 0xEF53 @ replicate 966 0,
      replicate 8 0 @ put32 3 @ replicate 1012 0,
      replicate 128 0 @
        (replicate 4 0 @ put32 1024 @ replicate 32 0 @ put32 4 @ replicate 84 0) @
        (replicate 4 0 @ put32 5 @ replicate 32 0 @ put32 5 @ replicate 84 0) @
        (replicate 4 0 @ put32 65 @ replicate 32 0 @ put32 6 @ replicate 84 0) @ replicate 512 0,
      put32 3 @ put16 16 @ [1, 1, 0x6b] @ replicate 7 0 @ put32 4 @ put16 1008 @ [1, 1, 0x75] @ replicate 999 0,
      [0x68, 0x65, 0x6c, 0x6c, 0x6f] @ replicate 1019 0,
      demo_image @ replicate 959 0]"

definition demo_fs :: bytes where "demo_fs = concat demo_blocks"

lemma demo_lengths: "map length demo_blocks = [1024, 1024, 1024, 1024, 1024, 1024, 1024]"
  by (simp add: demo_blocks_def demo_mbr_def)

lemma length_demo_fs: "length demo_fs = 7168"
  by (simp add: demo_fs_def length_concat demo_lengths)

lemma demo_region:
  assumes "i < 7" "k + n \<le> 1024"
  shows "region demo_fs (1024 * i + k) n = region (demo_blocks ! i) k n"
proof -
  have seven: "length demo_blocks = 7" by (simp add: demo_blocks_def)
  have lens: "length (demo_blocks ! j) = 1024" if "j < 7" for j
  proof -
    have "map length demo_blocks ! j = 1024"
      unfolding demo_lengths using that by (auto simp: less_Suc_eq eval_nat_numeral)
    then show ?thesis using that seven by simp
  qed
  have "map length (take i demo_blocks) = map (\<lambda>_. 1024) [0..<i]"
    using assms(1) seven lens by (intro nth_equalityI) simp_all
  then have "sum_list (map length (take i demo_blocks)) = 1024 * i" by (simp add: sum_list_triv)
  then have "region demo_fs (1024 * i) 1024 = demo_blocks ! i"
    using region_concat [of i demo_blocks "[]"] assms(1) seven lens [OF assms(1)] by (simp add: demo_fs_def)
  moreover have "region demo_fs (1024 * i + k) n = region (region demo_fs (1024 * i) 1024) k n"
    using assms(2) by (simp add: region_region)
  ultimately show ?thesis by simp
qed

lemma get16_append:
  "off + 2 \<le> length xs \<Longrightarrow> get16 (xs @ ys) off = get16 xs off"
  "length xs \<le> off \<Longrightarrow> get16 (xs @ ys) off = get16 ys (off - length xs)"
  "off + 2 \<le> n \<Longrightarrow> get16 (region xs pos n) off = get16 xs (pos + off)"
  by (simp_all add: get16_def byte_at_append byte_at_region add.assoc Suc_diff_le)

lemma get16_put16: "get16 (put16 w) 0 = w"
proof (rule bit_word_eqI)
  fix n assume "n < LENGTH(16)"
  then show "bit (get16 (put16 w) 0) n = bit w n"
    by (cases "n < 8") (auto simp: get16_def put16_def byte_at_def bit_simps)
qed

lemma get_zeros: "get32 (replicate n 0) off = 0" "get16 (replicate n 0) off = 0" "byte_at (replicate n 0) off = 0"
proof -
  show z: "byte_at (replicate n 0) k = 0" for k by (simp add: byte_at_def)
  show "get32 (replicate n 0) off = 0" "get16 (replicate n 0) off = 0" by (simp_all add: get32_def get16_def z)
qed

lemma byte_at_Cons: "byte_at (x # xs) i = (if i = 0 then x else byte_at xs (i - 1))"
  by (cases i) (simp_all add: byte_at_def)

lemmas reads = get32_region get32_append_right get32_append_left get32_put32 get16_append get16_put16
  get_zeros byte_at_append byte_at_region byte_at_Cons

definition demo_sb :: bytes where "demo_sb = superblock demo_fs"

lemma demo_sb: "demo_sb = region (demo_blocks ! 1) 0 204"
  using demo_region [of 1 0 204] by (simp add: demo_sb_def superblock_def)

lemma demo_sb_fields:
  "sb_first_data_block demo_sb = 1" "sb_log2_block_size demo_sb = 0" "sb_inodes_per_group demo_sb = 16"
  "sb_magic demo_sb = EXT2_MAGIC" "sb_revision_level demo_sb = 0"
  by (simp_all add: demo_sb demo_blocks_def sb_first_data_block_def sb_log2_block_size_def
      sb_inodes_per_group_def sb_magic_def sb_revision_level_def EXT2_MAGIC_def reads)

lemma demo_geometry: "bsize demo_sb = 1024" "sane_sb demo_sb" "disk_inode_size demo_fs = 128"
  by (simp_all add: bsize_def sane_sb_def disk_inode_size_def demo_sb_def [symmetric] demo_sb_fields
      EXT2_GOOD_OLD_REV_def)

lemma demo_block: "i < 7 \<Longrightarrow> fs_block demo_fs demo_sb i = region (demo_blocks ! i) 0 1024"
  using demo_region [of i 0 1024] by (simp add: fs_block_def demo_geometry)

lemma demo_on_disk: "i < 7 \<Longrightarrow> on_disk demo_fs demo_sb i"
  by (simp add: on_disk_def demo_geometry length_demo_fs)

lemma demo_inode_table: "ino \<le> 16 \<Longrightarrow> inode_table demo_fs demo_sb ino = 3"
proof -
  assume "ino \<le> 16"
  then have "group_desc demo_fs demo_sb (inode_group demo_sb ino) = region demo_fs (1024 * 2 + 0) 32"
    by (simp add: group_desc_def inode_group_def demo_sb_fields demo_geometry)
  then have "group_desc demo_fs demo_sb (inode_group demo_sb ino) = region (demo_blocks ! 2) 0 32"
    using demo_region [of 2 0 32] by simp
  then show ?thesis
    unfolding inode_table_def by (simp only:) (simp add: demo_blocks_def bg_inode_table_id_def reads)
qed

lemma demo_inode:
  assumes "0 < ino" "ino \<le> 8"
  shows "inode_at demo_fs demo_sb 128 ino = region (demo_blocks ! 3) (128 * (ino - 1)) 128"
    "inode_ok demo_fs demo_sb 128 ino"
proof -
  have pos: "inode_pos demo_fs demo_sb 128 ino = 1024 * 3 + 128 * (ino - 1)"
    using assms by (simp add: inode_pos_def demo_inode_table demo_geometry inode_slot_def demo_sb_fields Let_def)
  show "inode_at demo_fs demo_sb 128 ino = region (demo_blocks ! 3) (128 * (ino - 1)) 128"
    unfolding inode_at_def pos using assms by (intro demo_region) simp_all
  show "inode_ok demo_fs demo_sb 128 ino"
    using assms pos by (simp add: inode_ok_def demo_geometry demo_sb_fields inode_group_def length_demo_fs)
qed

definition demo_root :: bytes where "demo_root = inode_at demo_fs demo_sb 128 2"
definition demo_file :: bytes where "demo_file = inode_at demo_fs demo_sb 128 3"
definition demo_kernel :: bytes where "demo_kernel = inode_at demo_fs demo_sb 128 4"

lemma demo_inode_fields:
  "file_size demo_root = 1024" "ino_dir_block demo_root 0 = 4"
  "file_size demo_file = 5" "ino_dir_block demo_file 0 = 5"
  "file_size demo_kernel = 65" "ino_dir_block demo_kernel 0 = 6"
  unfolding demo_root_def demo_file_def demo_kernel_def
  using demo_inode(1) [of 2] demo_inode(1) [of 3] demo_inode(1) [of 4]
  by (simp_all add: file_size_def ino_size_def ino_dir_block_def demo_blocks_def reads)

lemma demo_nblocks: "nblocks demo_sb demo_root = 1" "nblocks demo_sb demo_file = 1" "nblocks demo_sb demo_kernel = 1"
  by (simp_all add: nblocks_def demo_geometry demo_inode_fields)

lemma demo_file_block:
  "file_block demo_fs demo_sb demo_root 0 = 4" "file_block demo_fs demo_sb demo_file 0 = 5"
  "file_block demo_fs demo_sb demo_kernel 0 = 6"
  by (simp_all add: file_block_def demo_inode_fields Let_def)

lemma demo_file_bytes:
  "file_bytes demo_fs demo_sb demo_root =
     put32 3 @ put16 16 @ [1, 1, 0x6b] @ replicate 7 0 @ put32 4 @ put16 1008 @ [1, 1, 0x75] @ replicate 999 0"
  "file_bytes demo_fs demo_sb demo_file = [0x68, 0x65, 0x6c, 0x6c, 0x6f]"
  "file_bytes demo_fs demo_sb demo_kernel = demo_image"
  by (simp_all add: file_bytes_def demo_nblocks file_blocks_def demo_file_block block_bytes_def demo_block
      demo_inode_fields) (simp_all add: region_def demo_blocks_def)

lemma demo_files_ok: "file_ok demo_fs demo_sb demo_root" "file_ok demo_fs demo_sb demo_file"
  "dense demo_fs demo_sb demo_root" "file_ok demo_fs demo_sb demo_kernel" "dense demo_fs demo_sb demo_file"
  "dense demo_fs demo_sb demo_kernel"
  by (simp_all add: file_ok_def dense_def demo_geometry demo_inode_fields demo_nblocks index_ok_def Let_def
      demo_file_block demo_on_disk)

lemma demo_dir:
  "dents (file_bytes demo_fs demo_sb demo_root) = [(3, 1, [0x6b]), (4, 1, [0x75])]"
  "dents_ok (file_bytes demo_fs demo_sb demo_root)"
proof -
  let ?d = "file_bytes demo_fs demo_sb demo_root"
  let ?e = "put32 4 @ put16 1008 @ [1, 1, 0x75] @ replicate 999 0"
  have e: "drop 16 ?d = ?e" by (simp add: demo_file_bytes)
  have h: "de_direntlen ?d = 16" "de_inode ?d = 3" "de_namelen ?d = 1" "de_filetype ?d = 1"
    "region ?d 8 1 = [0x6b]" "length ?d = 1024"
    unfolding demo_file_bytes de_direntlen_def de_inode_def de_namelen_def de_filetype_def
    by (simp_all add: reads) (simp add: region_def put32_def put16_def)
  have h2: "de_direntlen ?e = 1008" "de_inode ?e = 4" "de_namelen ?e = 1" "de_filetype ?e = 1"
    "region ?e 8 1 = [0x75]" "length ?e = 1008"
    unfolding de_direntlen_def de_inode_def de_namelen_def de_filetype_def
    by (simp_all add: reads) (simp add: region_def put32_def put16_def)
  have "dents ?e = [(4, 1, [0x75])]" "dents_ok ?e"
    using h2 by (subst dents.simps dents_ok.simps, simp)+
  then show "dents ?d = [(3, 1, [0x6b]), (4, 1, [0x75])]" "dents_ok ?d"
    using h by (subst dents.simps dents_ok.simps, simp add: e)+
qed

lemma demo_walk:
  "walk demo_fs demo_sb 128 demo_root [[0x6b]] = Some (3, 1)" "walk_ok demo_fs demo_sb 128 demo_root [[0x6b]]"
  "walk_cost demo_fs demo_sb 128 demo_root [[0x6b]] = 2"
  "walk demo_fs demo_sb 128 demo_root [[0x75]] = Some (4, 1)" "walk_ok demo_fs demo_sb 128 demo_root [[0x75]]"
  "walk_cost demo_fs demo_sb 128 demo_root [[0x75]] = 2"
  "walk demo_fs demo_sb 128 demo_root [[0x6e]] = None" "walk_ok demo_fs demo_sb 128 demo_root [[0x6e]]"
  "walk_cost demo_fs demo_sb 128 demo_root [[0x6e]] = 2"
  by (simp_all add: dir_find_def demo_dir dir_ok_def demo_files_ok part_ok_def SLASH_def FILETYPE_SYMLINK_def
      FILETYPE_DIRECTORY_def)

lemma demo_ext2_disk: "ext2_disk demo_fs" "root_inode demo_fs = demo_root" "superblock demo_fs = demo_sb"
  using demo_inode(2) [of 2]
  by (simp_all add: ext2_disk_def length_demo_fs demo_sb_def [symmetric] demo_sb_fields demo_geometry
      root_inode_def demo_root_def)

lemma demo_driver: "driver_ok (ram_env demo_fs)" "part_content (ram_env demo_fs) = demo_fs" "quiet (ram_env demo_fs) []"
  using ram_env_ok [of demo_fs] by (simp_all add: length_demo_fs)

end
