(* ===== verification/Ext2_Props.thy ===== *)
theory Ext2_Props
  imports Ext2_Demo
begin

section \<open>The ext2 reader: properties\<close>

text \<open>
  The contract of a partition reader holds for \<open>ext2fs_devread\<close> on a sound driver (the interpretation
  \<open>dev_reader\<close>), so the lemmas about blocks, files, paths and mounting become facts about the boot
  loader's own stack of functions.  The witnesses run on the demo disk.
\<close>

text \<open>C12. Block numbers: with the caches of block numbers in order, ext2fs_read_block finds the number
  of any block of a file, directly, through one indirect block or through two, from the cache or from
  the disk, and leaves the caches in order and the open file, the root and the inode size alone.\<close>

theorem read_block_exact:
  assumes "driver_ok env" "quiet env (x_dev st)" "sane_sb (nd_sblock node)"
    and "ext2_inv (part_content env) (nd_sblock node) rsv st"
    and "index_ok (part_content env) (nd_sblock node) (nd_inode node) i"
  shows "\<exists>st'. ext2fs_read_block (ext2fs_devread env) node (int i) st =
      Some (int (file_block (part_content env) (nd_sblock node) (nd_inode node) i), st') \<and>
      ext2_inv (part_content env) (nd_sblock node) rsv st' \<and> quiet env (x_dev st') \<and> ext2_frame st st'"
  using dev_reader.read_block_ok [OF assms(4,3) _ assms(5)] assms(1,2) by blast

theorem read_block_exact_witness:
  "\<exists>st'. ext2fs_read_block (ext2fs_devread (ram_env demo_fs)) (root_node demo_fs) 0 (ext2_start []) = Some (4, st')"
proof -
  have n: "nd_sblock (root_node demo_fs) = demo_sb" "nd_inode (root_node demo_fs) = demo_root"
    by (simp_all add: root_node_def demo_ext2_disk)
  have "ext2_inv demo_fs demo_sb 0 (ext2_start [])"
    by (simp add: ext2_inv_def ext2_start_def cache_holds_def cache_cost_def MALLOC_POOL_EXTENT_def demo_geometry)
  moreover have "index_ok demo_fs demo_sb demo_root 0"
    using demo_files_ok(1) by (simp add: file_ok_def demo_nblocks)
  ultimately show ?thesis
    using read_block_exact [of "ram_env demo_fs" "ext2_start []" "root_node demo_fs" 0 0]
    by (auto simp: demo_driver n demo_geometry demo_file_block)
qed

text \<open>C13. Reading a piece of a file: len bytes at pos of a file whose blocks lie on the partition arrive
  in the buffer as they stand in the blocks of the file, in order, and nothing else in memory changes,
  except that a last block that is a hole writes zeros up to its end; putting off and joining the device
  reads changes nothing.  Only when the piece starts inside a block must the next block differ from it.\<close>

theorem read_file_exact:
  fixes env and node :: ext2fs_node and pos len :: nat
  defines "disk \<equiv> part_content env" and "sb \<equiv> nd_sblock node" and "inode \<equiv> nd_inode node"
  defines "cnt \<equiv> (len + pos + bsize (nd_sblock node) - 1) div bsize (nd_sblock node)"
  assumes "driver_ok env" "quiet env (x_dev st)" "sane_sb sb" "ext2_inv disk sb rsv st"
    and "0 < len" "len \<le> file_size inode" "pos + len + bsize sb < 2147483648"
    and "\<And>j. j < cnt \<Longrightarrow> index_ok disk sb inode j"
    and "Suc (pos div bsize sb) < cnt \<Longrightarrow> bsize sb dvd pos \<or>
      file_block disk sb inode (pos div bsize sb) \<noteq> file_block disk sb inode (Suc (pos div bsize sb))"
    and "buf + (if file_block disk sb inode (cnt - 1) = 0 then cnt * bsize sb - pos else len) \<le> length mem"
  shows "\<exists>st'. ext2fs_read_file (ext2fs_devread env) node (int pos) (int len) mem buf st =
      Some (int len, patch mem buf (region (file_blocks disk sb inode cnt) pos
        (if file_block disk sb inode (cnt - 1) = 0 then cnt * bsize sb - pos else len)), st') \<and>
      ext2_inv disk sb rsv st' \<and> quiet env (x_dev st') \<and> ext2_frame st st'"
  using dev_reader.read_file_ok [where e = env and node = node and pos = pos and len = len and st = st and buf = buf
      and mem = mem and rsv = rsv] assms(5-) unfolding disk_def sb_def inode_def cnt_def file_size_def by blast

theorem read_file_exact_witness:
  "\<exists>st'. ext2fs_read_file (ext2fs_devread (ram_env demo_fs))
     \<lparr>nd_sblock = demo_sb, nd_inode = demo_file, nd_ino = 3, nd_inode_read = True\<rparr> 1 3 [9, 9, 9, 9] 1 (ext2_start []) =
     Some (3, patch [9, 9, 9, 9] 1 (region (file_blocks demo_fs demo_sb demo_file 1) 1 3), st')"
proof -
  have "ext2_inv demo_fs demo_sb 0 (ext2_start [])"
    by (simp add: ext2_inv_def ext2_start_def cache_holds_def cache_cost_def MALLOC_POOL_EXTENT_def demo_geometry)
  moreover have "index_ok demo_fs demo_sb demo_file 0"
    using demo_files_ok(2) by (simp add: file_ok_def demo_nblocks)
  ultimately show ?thesis
    using read_file_exact [where env = "ram_env demo_fs" and st = "ext2_start []" and rsv = 0 and pos = 1 and len = 3
        and node = "\<lparr>nd_sblock = demo_sb, nd_inode = demo_file, nd_ino = 3, nd_inode_read = True\<rparr>"
        and buf = 1 and mem = "[9, 9, 9, 9]"]
    by (auto simp: demo_driver demo_geometry demo_inode_fields demo_file_block)
qed

text \<open>C14. Opening a file refines the walk along its path: with sound directories and no symbolic link on
  the way, ext2fs_open of a path, whatever number of slashes it starts with, gives the size of the file
  the walk finds and makes it the open file; it gives -2 when the walk finds nothing or something that
  is not a regular file.  The 144 bytes each directory entry passed takes from the pool must be there.\<close>

theorem open_refines_walk:
  fixes env and root :: ext2fs_node
  defines "disk \<equiv> part_content env" and "sb \<equiv> nd_sblock root"
  assumes "driver_ok env" "quiet env (x_dev st)"
    and "x_root st = Some root" "nd_inode_read root" "x_inode_size st = int isz"
    and "walk_ok disk sb isz (nd_inode root) (p # ps)"
    and "ext2_inv disk sb (rsv + 144 * walk_cost disk sb isz (nd_inode root) (p # ps)) st"
    and "\<And>ino. walk disk sb isz (nd_inode root) (p # ps) = Some (ino, 1) \<Longrightarrow> inode_ok disk sb isz ino"
  shows "\<exists>st'. ext2fs_open (ext2fs_devread env) (replicate k SLASH @ join_path (p # ps)) st =
      Some (case walk disk sb isz (nd_inode root) (p # ps) of
              Some (ino, ft) \<Rightarrow> if ft = 1 then s32 (int (file_size (inode_at disk sb isz ino))) else - 2
            | None \<Rightarrow> - 2, st') \<and>
      (\<forall>ino. walk disk sb isz (nd_inode root) (p # ps) = Some (ino, 1) \<longrightarrow>
         (\<exists>node. x_file st' = Some node \<and> nd_sblock node = sb \<and> nd_inode node = inode_at disk sb isz ino)) \<and>
      x_root st' = Some root \<and> ext2_inv disk sb rsv st' \<and> quiet env (x_dev st')"
  using dev_reader.open_ok [where e = env and root = root and st = st and isz = isz and p = p and ps = ps and k = k
      and rsv = rsv] assms(3-) unfolding disk_def sb_def by blast

theorem open_refines_walk_witness:
  "\<exists>st'. ext2fs_open (ext2fs_devread (ram_env demo_fs)) [SLASH, SLASH, 0x6b]
     (ext2_start []\<lparr>x_root := Some (root_node demo_fs)\<rparr>) = Some (5, st')"
proof -
  have n: "nd_sblock (root_node demo_fs) = demo_sb" "nd_inode (root_node demo_fs) = demo_root"
    "nd_inode_read (root_node demo_fs)"
    by (simp_all add: root_node_def demo_ext2_disk)
  have inv: "ext2_inv demo_fs demo_sb (0 + 144 * 2) (ext2_start []\<lparr>x_root := Some (root_node demo_fs)\<rparr>)"
    by (simp add: ext2_inv_def ext2_start_def cache_holds_def cache_cost_def MALLOC_POOL_EXTENT_def demo_geometry)
  have "replicate 2 SLASH @ join_path ([0x6b] # []) = [SLASH, SLASH, 0x6b]" by (simp add: numeral_2_eq_2)
  moreover have "file_size (inode_at demo_fs demo_sb 128 3) = 5" using demo_inode_fields(3) by (simp add: demo_file_def)
  ultimately show ?thesis
    using open_refines_walk [where env = "ram_env demo_fs" and root = "root_node demo_fs" and isz = 128 and k = 2
        and p = "[0x6b]" and ps = "[]" and rsv = 0 and st = "ext2_start []\<lparr>x_root := Some (root_node demo_fs)\<rparr>"]
      demo_walk inv demo_inode(2) [of 3]
    by (auto simp: demo_driver n simp del: walk.simps walk_ok.simps walk_cost.simps)
qed

text \<open>C15. Mount, open, read: from the start of the boot loader, on a partition with a sound ext2 file
  system, mounting succeeds, opening the path of a regular file gives its size, and reading it with at
  least that length puts exactly the bytes of the file into memory (and zeros behind them, up to the end
  of the block, when the last block is a hole).\<close>

theorem boot_reads_file:
  fixes env
  defines "disk \<equiv> part_content env"
  defines "sb \<equiv> superblock disk" and "isz \<equiv> disk_inode_size disk"
  assumes "driver_ok env" "quiet env keys" "ext2_disk disk" "walk_ok disk sb isz (root_inode disk) (p # ps)"
    and "352 + 2 * (bsize sb + 4) + 144 * walk_cost disk sb isz (root_inode disk) (p # ps) \<le> MALLOC_POOL_EXTENT"
    and "walk disk sb isz (root_inode disk) (p # ps) = Some (ino, 1)" "inode_ok disk sb isz ino"
    and "file_ok disk sb (inode_at disk sb isz ino)" "0 < file_size (inode_at disk sb isz ino)"
    and "file_size (inode_at disk sb isz ino) \<le> unat len"
    and "buf + file_size (inode_at disk sb isz ino) + read_pad disk sb (inode_at disk sb isz ino) \<le> length mem"
  shows "\<exists>st1 st2 st3. ext2fs_mount (ext2fs_devread env) (ext2_start keys) = Some (1, st1) \<and>
      ext2fs_open (ext2fs_devread env) (replicate k SLASH @ join_path (p # ps)) st1 =
        Some (int (file_size (inode_at disk sb isz ino)), st2) \<and>
      ext2fs_read (ext2fs_devread env) mem buf len st2 =
        Some (int (file_size (inode_at disk sb isz ino)),
          patch mem buf (file_bytes disk sb (inode_at disk sb isz ino) @
            replicate (read_pad disk sb (inode_at disk sb isz ino)) 0), st3)"
  using dev_reader.boot_read_ok [where e = env and k = keys and p = p and ps = ps and ino = ino and len = len
      and buf = buf and mem = mem and j = k] assms(4-) unfolding disk_def sb_def isz_def by blast

theorem boot_reads_file_witness:
  "\<exists>st1 st2 st3. ext2fs_mount (ext2fs_devread (ram_env demo_fs)) (ext2_start []) = Some (1, st1) \<and>
     ext2fs_open (ext2fs_devread (ram_env demo_fs)) [0x6b] st1 = Some (5, st2) \<and>
     ext2fs_read (ext2fs_devread (ram_env demo_fs)) [1, 2, 3, 4, 5, 6, 7] 1 100 st2 =
       Some (5, patch [1, 2, 3, 4, 5, 6, 7] 1 [0x68, 0x65, 0x6c, 0x6c, 0x6f], st3)"
proof -
  have f: "inode_at demo_fs demo_sb 128 3 = demo_file" by (simp add: demo_file_def)
  have pad: "read_pad demo_fs demo_sb demo_file = 0"
    by (simp add: read_pad_def demo_nblocks demo_file_block)
  show ?thesis
    using boot_reads_file [where env = "ram_env demo_fs" and keys = "[]" and p = "[0x6b]" and ps = "[]" and ino = 3
        and len = 100 and buf = 1 and mem = "[1, 2, 3, 4, 5, 6, 7]" and k = 0]
      demo_walk demo_inode(2) [of 3] demo_files_ok(2)
    by (simp add: demo_driver demo_ext2_disk demo_geometry f pad demo_inode_fields demo_file_bytes
        MALLOC_POOL_EXTENT_def)
qed

subsection \<open>Where the reader fails\<close>

text \<open>A whole block that is not stored is read as zeros.\<close>

lemma read_zero_block:
  fixes node :: ext2fs_node and i buf :: nat
  defines "B \<equiv> bsize (nd_sblock node)"
  assumes S: "sane_sb (nd_sblock node)" and i: "i < 4200" and sz: "B \<le> file_size (nd_inode node)"
    and rb: "ext2fs_read_block dr node (int i) st = Some (0, st')" and "buf + B \<le> length mem"
  shows "ext2fs_read_file dr node (int (i * B)) (int B) mem buf st = Some (int B, patch mem buf (replicate B 0), st')"
proof -
  have B: "0 < B" "B \<le> 16384" using bsize_le [OF S] by (simp_all add: B_def)
  have BS: "EXT2_BLOCK_SIZE (nd_sblock node) = int B" by (simp add: EXT2_BLOCK_SIZE_bsize B_def)
  have "i * B + B \<le> 4200 * 16384" using i B(2) mult_le_mono [of "i + 1" 4200 B 16384] by simp
  then have iB: "int (i * B) + int B < 2147483648" by linarith
  have pos: "int (i * B) div int B = int i" "int (i * B) mod int B = 0" using B(1) by simp_all
  have mn: "min (int B) (uint (ino_size (nd_inode node))) = int B"
    using sz unfolding file_size_def int_unat_uint [symmetric] by (intro min_absorb1) linarith
  have "int B + int (i * B) + int B - 1 = (int B - 1) + (int i + 1) * int B" by (simp add: algebra_simps)
  moreover have "((int B - 1) + (int i + 1) * int B) div int B = int i + 1"
    using B(1) div_mult_self1 [of "int B" "int B - 1" "int i + 1"] by simp
  moreover have "u32_of (int B + int (i * B) + int B - 1) = int B + int (i * B) + int B - 1"
    using iB B by (intro u32_of_id) linarith+
  ultimately have cnt: "u32_of (int B + int (i * B) + int B - 1) div int B = int i + 1" by (simp only:)
  have one: "[int i..int i + 1 - 1] = [int i]" by simp
  have "u32_of (int B + int (i * B)) = int B + int (i * B)" using iB by (intro u32_of_id) linarith+
  then have m: "u32_of (int B + int (i * B)) mod int B = 0" by simp
  have blockend: "int B = (if int i = int i + 1 - 1 then (let r = u32_of (int B + int (i * B)) mod EXT2_BLOCK_SIZE (nd_sblock node)
        in if r = 0 then EXT2_BLOCK_SIZE (nd_sblock node) else r) else EXT2_BLOCK_SIZE (nd_sblock node))"
    using m by (simp add: BS Let_def)
  have skip: "0 = (if int i = int (i * B) div EXT2_BLOCK_SIZE (nd_sblock node)
      then int (i * B) mod EXT2_BLOCK_SIZE (nd_sblock node) else 0)"
    unfolding BS pos by simp
  define r where "r = \<lparr>rf_prev = - 1, rf_start = 0, rf_extent = 0, rf_skipfirst = 0, rf_next = 0,
    rf_delayed_buf = 0, rf_buf = buf, rf_mem = mem\<rparr>"
  have bl: "rf_block dr (EXT2_BLOCK_SIZE (nd_sblock node)) (s32 (0 * 2 ^ nat (LOG2_EXT2_BLOCK_SIZE (nd_sblock node))))
      (int B - 0) 0 r st' = Some (True, r\<lparr>rf_mem := patch mem buf (replicate B 0)\<rparr>, st')"
    using assms(6) by (simp add: rf_block_def BS wr_def r_def)
  have "block_size_ok (nd_sblock node)" "\<not> int (i * B) < 0" "s32 (int B) = int B"
    using S B by (simp_all add: block_size_ok_def sane_sb_def not_less)
  then show ?thesis
    using rf_loop_step [OF rb _ bl blockend skip, of "[]"]
    unfolding ext2fs_read_file_def Let_def BS mn cnt pos(1) one r_def by simp
qed

text \<open>C16. A device error on an indirect block is not reported: when the read of the block of block numbers
  fails, ext2fs_read_block answers 0, the number of a hole, and reading that block of the file reports
  success and fills memory with zeros.\<close>

theorem indirect_error_reads_zeros:
  fixes node :: ext2fs_node and i buf :: nat
  defines "B \<equiv> bsize (nd_sblock node)" and "blk \<equiv> ino_indir_block (nd_inode node)"
  assumes "sane_sb (nd_sblock node)" "12 \<le> i" "i < 12 + B div 4" "B \<le> file_size (nd_inode node)"
    and "x_indir1 st = Some b" "length b = B"
    and "u32_of (uint blk * 2 ^ nat (LOG2_EXT2_BLOCK_SIZE (nd_sblock node))) \<noteq> u32_of (x_indir1_blkno st)"
    and "dr (s32 (uint blk)) (LOG2_EXT2_BLOCK_SIZE (nd_sblock node)) 0 (int B) b 0 (x_dev st) = Some (0, b', k)"
    and "buf + B \<le> length mem"
  shows "\<exists>st'. ext2fs_read_block dr node (int i) st = Some (0, st') \<and>
    ext2fs_read_file dr node (int (i * B)) (int B) mem buf st = Some (int B, patch mem buf (replicate B 0), st')"
proof -
  let ?st = "st\<lparr>x_dev := k, x_indir1 := Some b'\<rparr>"
  have B: "0 < B" "B \<le> 16384" using bsize_le [OF assms(3)] by (simp_all add: B_def)
  have BS: "EXT2_BLOCK_SIZE (nd_sblock node) = int B" by (simp add: EXT2_BLOCK_SIZE_bsize B_def)
  have li: "load_indir1 dr (int B) (LOG2_EXT2_BLOCK_SIZE (nd_sblock node)) blk st = Some (0, b', ?st)"
    using assms(7-10) by (simp add: load_indir1_def indir1_buffer_def devread_def Let_def)
  have "\<not> int i < 12" "int i < 12 + int B div 4" using assms(4,5) by linarith+
  then have rb: "ext2fs_read_block dr node (int i) st = Some (0, ?st)"
    using li unfolding ext2fs_read_block_def Let_def INDIRECT_BLOCKS_def BS blk_def [symmetric] by simp
  have "i < 4200" using assms(5) B(2) by simp
  from read_zero_block [OF assms(3) this _ rb, of buf mem] show ?thesis
    using rb assms(6,11) unfolding B_def by auto
qed

theorem indirect_error_reads_zeros_witness:
  "\<exists>st'. ext2fs_read_block (\<lambda>sec lg boff n buf off k. Some (0, buf, k))
      \<lparr>nd_sblock = demo_sb, nd_inode = replicate 4 0 @ put32 1048576 @ replicate 120 0, nd_ino = 3, nd_inode_read = True\<rparr>
      12 (ext2_start ()\<lparr>x_indir1 := Some (replicate 1024 0)\<rparr>) = Some (0, st')"
proof -
  let ?ino = "replicate 4 0 @ put32 1048576 @ replicate 120 0"
  have f: "file_size ?ino = 1048576" "ino_indir_block ?ino = 0"
    by (simp_all add: file_size_def ino_size_def ino_indir_block_def reads)
  show ?thesis
    using indirect_error_reads_zeros [where i = 12 and buf = 0 and mem = "replicate 1024 1" and b = "replicate 1024 0"
        and node = "\<lparr>nd_sblock = demo_sb, nd_inode = ?ino, nd_ino = 3, nd_inode_read = True\<rparr>"
        and st = "ext2_start ()\<lparr>x_indir1 := Some (replicate 1024 0)\<rparr>" and k = "()" and b' = "replicate 1024 0"
        and dr = "\<lambda>sec lg boff n buf off k. Some (0, buf, k)"]
    by (auto simp: demo_geometry f u32_of_def ext2_start_def)
qed

text \<open>A scan that reads the same header for ever does not return.\<close>

lemma iterate_same_place:
  fixes dr :: "'k reader" and p :: nat
  assumes header: "\<And>st. I st \<Longrightarrow> \<exists>st'. ext2fs_read_file dr diro (int p) 8 (replicate 8 0) 0 st = Some (8, h, st') \<and> I st'"
    and "de_namelen h = 0" "de_direntlen h = 0" "int p < uint (ino_size (nd_inode diro))" "p < 2147483648" and "I st"
  shows "iterate_loop dr diro name (int p) out st = None"
proof (rule ccontr)
  let ?P = "\<lambda>dr' di nm fp o' s y. \<not> (dr' = dr \<and> di = diro \<and> fp = int p \<and> I s)"
  have never: "?P dr' di nm fp o' s y" if "iterate_loop dr' di nm fp o' s = Some y" for dr' di nm fp o' s y
    using _ that
  proof (rule iterate_loop.raw_induct [where P = ?P])
    fix loop :: "'k reader \<Rightarrow> ext2fs_node \<Rightarrow> bytes option \<Rightarrow> int \<Rightarrow> bytes \<Rightarrow> 'k ext2_state \<Rightarrow>
        (int \<times> (ext2fs_node \<times> int) option \<times> bytes \<times> 'k ext2_state) option"
      and dr' :: "'k reader" and di :: ext2fs_node and nm :: "bytes option" and fp :: int and o' :: bytes
      and s :: "'k ext2_state" and y
    assume IH: "\<And>dr di nm fp o' s y. loop dr di nm fp o' s = Some y \<Longrightarrow> ?P dr di nm fp o' s y"
    assume body: "(if fp < uint (ino_size (nd_inode di))
      then do {
        (status, dirent, st) \<leftarrow> ext2fs_read_file dr' di (s32 fp) (int sizeof_dirent)
                                  (replicate sizeof_dirent 0) 0 s;
        if status < 1 then Some (0, None, o', st)
        else do {
          (ret, out, st) \<leftarrow> (if de_namelen dirent \<noteq> 0
                            then dir_entry dr' di nm dirent fp o' st
                            else Some (None, o', st));
          case ret of
            Some (found, node) \<Rightarrow> Some (found, node, out, st)
          | None \<Rightarrow> loop dr' di nm (u32_of (fp + uint (de_direntlen dirent))) out st } }
      else Some (0, None, o', s)) = Some y"
    show "?P dr' di nm fp o' s y"
    proof
      assume c: "dr' = dr \<and> di = diro \<and> fp = int p \<and> I s"
      then have "I s" by simp
      from header [OF this] obtain s1
        where s1: "ext2fs_read_file dr diro (int p) 8 (replicate 8 0) 0 s = Some (8, h, s1)" "I s1" by auto
      have "s32 (int p) = int p" "u32_of (int p) = int p" using assms(5) by simp_all
      then have "loop dr diro nm (int p) o' s1 = Some y"
        using body [unfolded c [THEN conjunct1] c [THEN conjunct2, THEN conjunct1]] c s1(1) assms(2-4)
        by (simp add: sizeof_dirent_def cong: option.case_cong)
      from IH [OF this] show False using c s1(2) by simp
    qed
  qed
  assume "iterate_loop dr diro name (int p) out st \<noteq> None"
  then show False using never [of dr diro name "int p" out st] assms(6) by auto
qed

text \<open>C17. A directory with an entry of length 0 hangs the boot loader: when the scan reaches such an
  entry (without a name, so that it is not looked at), it never returns, whatever name is searched.\<close>

theorem zero_entry_hangs:
  fixes env and diro :: ext2fs_node and p :: nat
  defines "disk \<equiv> part_content env"
  defines "d \<equiv> file_bytes (part_content env) (nd_sblock diro) (nd_inode diro)"
  assumes "driver_ok env" "file_ok disk (nd_sblock diro) (nd_inode diro)" "dense disk (nd_sblock diro) (nd_inode diro)"
    and "p + 8 \<le> length d" "de_namelen (drop p d) = 0" "de_direntlen (drop p d) = 0"
    and "ext2_inv disk (nd_sblock diro) rsv st" "quiet env (x_dev st)"
  shows "iterate_loop (ext2fs_devread env) diro name (int p) out st = None"
proof -
  have size: "length d = file_size (nd_inode diro)" "file_size (nd_inode diro) < 1073741824"
    using length_file_bytes [OF assms(4) [unfolded disk_def]] assms(4) by (simp_all add: d_def file_ok_def)
  have inside: "int p < uint (ino_size (nd_inode diro))" "p < 2147483648"
    using assms(6) size unfolding file_size_def int_unat_uint [symmetric] by linarith+
  have "\<exists>st'. ext2fs_read_file (ext2fs_devread env) diro (int p) 8 (replicate 8 0) 0 st = Some (8, region d p 8, st') \<and>
      ext2_inv disk (nd_sblock diro) rsv st' \<and> quiet env (x_dev st')"
    if "ext2_inv disk (nd_sblock diro) rsv st \<and> quiet env (x_dev st)" for st
  proof -
    have "patch (replicate 8 0) 0 (region d p 8) = region d p 8" using assms(6) by (simp add: patch_def)
    then show ?thesis
      using dev_reader.read_piece_ok [where e = env and node = diro and pos = p and len = 8 and mem = "replicate 8 0"
          and buf = 0 and st = st and rsv = rsv] assms(3-6) size(1) that
      unfolding disk_def d_def by auto
  qed
  from iterate_same_place [OF this _ _ inside] show ?thesis
    using assms(6-10) by (simp add: header_of_entry)
qed

theorem zero_entry_hangs_witness:
  "iterate_loop (ext2fs_devread (ram_env demo_fs))
     \<lparr>nd_sblock = demo_sb, nd_inode = demo_root, nd_ino = 2, nd_inode_read = True\<rparr> None 32 [] (ext2_start []) = None"
proof -
  have "drop 32 (file_bytes demo_fs demo_sb demo_root) = replicate 992 0"
    by (simp add: demo_file_bytes put32_def put16_def)
  then have h: "de_namelen (drop 32 (file_bytes demo_fs demo_sb demo_root)) = 0"
    "de_direntlen (drop 32 (file_bytes demo_fs demo_sb demo_root)) = 0"
    by (simp_all add: de_namelen_def de_direntlen_def get_zeros)
  have "ext2_inv demo_fs demo_sb 0 (ext2_start [])"
    by (simp add: ext2_inv_def cache_holds_def cache_cost_def MALLOC_POOL_EXTENT_def demo_geometry)
  then show ?thesis
    using zero_entry_hangs [where env = "ram_env demo_fs" and p = 32 and name = None and out = "[]" and rsv = 0
        and diro = "\<lparr>nd_sblock = demo_sb, nd_inode = demo_root, nd_ino = 2, nd_inode_read = True\<rparr>"
        and st = "ext2_start []"] h demo_files_ok(1,3)
    by (simp add: demo_driver demo_file_bytes)
qed

end
