(* ===== verification/Qi_Phase2.thy ===== *)
theory Qi_Phase2
  imports Ext2_Boot Crc32
begin

section \<open>The second phase of the boot loader\<close>

text \<open>
  \<^verbatim>\<open>qi/src/phase2.c\<close>: the kernel sources of a board are tried in order.  Each is initialised, its
  partition found, the kernel read, checked and started with a list of tags in memory.  RAM is a list of
  bytes that starts at \<open>linux_mem_start\<close>; the files come through the ext2 reader.  The block drivers,
  the results of their initialisation, the keys and the text a board appends to the command line are
  parameters.  What the code shows on the LED (\<open>indicate\<close>) is logged; messages are not modelled.
  None is an access outside the RAM or a buffer, a NULL file name, or a hang in the ext2 reader.
\<close>

datatype filesystem = FS_RAW | FS_FAT | FS_EXT2

datatype ui_indication =
    UI_IND_UPDATE_ONLY | UI_IND_MOUNT_PART | UI_IND_MOUNT_FAIL | UI_IND_SKIPPING
  | UI_IND_KERNEL_PULL | UI_IND_KERNEL_PULL_OK | UI_IND_KERNEL_PULL_FAIL
  | UI_IND_INITRAMFS_PULL | UI_IND_INITRAMFS_PULL_OK | UI_IND_INITRAMFS_PULL_FAIL
  | UI_IND_KERNEL_START | UI_IND_MEM_TEST

text \<open>Driver functions are named by numbers; \<open>ks_name\<close>, which is only printed, is left out.\<close>

record kernel_source =
  ks_filepath :: "bytes option"
  ks_initramfs_filepath :: "bytes option"
  ks_block_init :: "nat option"
  ks_block_read :: nat
  ks_partition_index :: int
  ks_offset_blocks512 :: int
  ks_filesystem :: filesystem
  ks_commandline_append :: "bytes option"

record board_api =
  bd_linux_mem_start :: u32
  bd_linux_mem_size :: u32
  bd_linux_tag_placement :: u32
  bd_commandline_board :: bytes
  bd_commandline_board_debug :: "bytes option"
  bd_noboot :: bytes
  bd_append :: bytes
  bd_machine_revision :: u32
  bd_append_device_specific_cmdline :: "bytes option" \<comment> \<open>the text the function appends\<close>
  bd_get_ui_keys :: bool
  bd_get_ui_debug :: "bool option" \<comment> \<open>what the function returns\<close>
  bd_set_ui_indication :: bool
  bd_kernel_source :: "kernel_source list"

record phase2_env =
  pv_block_init :: "nat \<Rightarrow> int"
  pv_block_read :: "nat \<Rightarrow> int \<Rightarrow> int \<Rightarrow> int \<times> bytes"
  pv_junk :: u8

record phase2 =
  p_ram :: bytes
  p_append :: bytes \<comment> \<open>the static \<open>commandline_rootfs_append\<close>\<close>
  p_partition_offset_blocks :: u32
  p_partition_length_blocks :: u32
  p_fs :: "bool list ext2_state"
  p_last_block_init :: "nat option"
  p_last_block_init_result :: int
  p_ui :: "ui_indication list"

definition INITRD_OFFSET :: nat where "INITRD_OFFSET = 8 * 1024 * 1024"
definition KERNEL_OFFSET :: nat where "KERNEL_OFFSET = 0x8000"

definition indicate :: "board_api \<Rightarrow> ui_indication \<Rightarrow> phase2 \<Rightarrow> phase2" where
  "indicate brd ui st = (if bd_set_ui_indication brd then st\<lparr>p_ui := p_ui st @ [ui]\<rparr> else st)"

subsection \<open>Reading a file or a raw device\<close>

definition dev_of :: "phase2_env \<Rightarrow> board_api \<Rightarrow> kernel_source \<Rightarrow> phase2 \<Rightarrow> dev_env" where
  "dev_of env brd ks st =
     \<lparr>dv_block_read = pv_block_read env (ks_block_read ks),
      dv_part_offset = uint (p_partition_offset_blocks st),
      dv_part_length = uint (p_partition_length_blocks st),
      dv_has_keys = bd_get_ui_keys brd, dv_junk = pv_junk env\<rparr>"

definition read_file ::
  "phase2_env \<Rightarrow> board_api \<Rightarrow> kernel_source \<Rightarrow> bytes option \<Rightarrow> bytes \<Rightarrow> nat \<Rightarrow> int \<Rightarrow> phase2 \<Rightarrow>
   (int \<times> bytes \<times> phase2) option" where
  "read_file env brd ks filepath mem destination sz st =
     (case ks_filesystem ks of
        FS_EXT2 \<Rightarrow> do {
          let dr = ext2fs_devread (dev_of env brd ks st);
          (ok, fs) \<leftarrow> ext2fs_mount dr (p_fs st);
          if ok = 0 then Some (- 2, mem, indicate brd UI_IND_MOUNT_FAIL (st\<lparr>p_fs := fs\<rparr>))
          else case filepath of
              None \<Rightarrow> None
            | Some filepath \<Rightarrow> do {
                (len, fs) \<leftarrow> ext2fs_open dr filepath fs;
                if len < 0 then Some (- 1, mem, st\<lparr>p_fs := fs\<rparr>)
                else do {
                  (ret, mem, fs) \<leftarrow> ext2fs_read dr mem destination (word_of_int sz) fs;
                  Some (if ret < 0 then - 1 else len, mem, st\<lparr>p_fs := fs\<rparr>) } } }
      | _ \<Rightarrow>
          if filepath \<noteq> None then Some (- 1, mem, st)
          else do {
            let r = pv_block_read env (ks_block_read ks) (uint (p_partition_offset_blocks st)) (sz div 512);
            mem \<leftarrow> wr mem destination (snd r);
            Some (if fst r < 0 then - 1 else sz, mem, st) })"

definition do_block_init :: "phase2_env \<Rightarrow> board_api \<Rightarrow> kernel_source \<Rightarrow> phase2 \<Rightarrow> bool \<times> phase2" where
  "do_block_init env brd ks st =
     (case ks_block_init ks of
        None \<Rightarrow> (True, st)
      | Some f \<Rightarrow>
          let fresh = (p_last_block_init st \<noteq> Some f);
              st = (if fresh then st\<lparr>p_last_block_init := Some f, p_last_block_init_result := pv_block_init env f\<rparr> else st)
          in if p_last_block_init_result st \<noteq> 0
             then (False, if fresh then indicate brd UI_IND_MOUNT_FAIL st else st)
             else (True, st\<lparr>p_last_block_init := Some f\<rparr>))"

definition do_partitions ::
  "phase2_env \<Rightarrow> board_api \<Rightarrow> kernel_source \<Rightarrow> nat \<Rightarrow> phase2 \<Rightarrow> (bool \<times> phase2) option" where
  "do_partitions env brd ks kernel_dram st =
     (if ks_partition_index ks = 0
      then Some (True, st\<lparr>p_partition_offset_blocks := word_of_int (ks_offset_blocks512 ks)\<rparr>)
      else do {
        let r = pv_block_read env (ks_block_read ks) 0 4;
        ram \<leftarrow> wr (p_ram st) kernel_dram (snd r);
        let st = st\<lparr>p_ram := ram\<rparr>;
        let p = int kernel_dram + 0x1be + 8 + 0x10 * (ks_partition_index ks - 1);
        if fst r < 0 then Some (False, indicate brd UI_IND_MOUNT_FAIL st)
        else if byte_at ram (kernel_dram + 0x1fe) \<noteq> 0x55 \<or> byte_at ram (kernel_dram + 0x1ff) \<noteq> 0xaa
        then Some (False, indicate brd UI_IND_MOUNT_FAIL st)
        else if p < 0 \<or> int (length ram) < p + 8 then None
        else Some (True, st\<lparr>p_partition_offset_blocks := get32 ram (nat p),
                            p_partition_length_blocks := get32 ram (nat p + 4)\<rparr>) })"

subsection \<open>The tags for the kernel\<close>

definition ATAG_NONE :: u32 where "ATAG_NONE = 0"
definition ATAG_CORE :: u32 where "ATAG_CORE = 0x54410001"
definition ATAG_MEM :: u32 where "ATAG_MEM = 0x54410002"
definition ATAG_INITRD2 :: u32 where "ATAG_INITRD2 = 0x54420005"
definition ATAG_REVISION :: u32 where "ATAG_REVISION = 0x54410007"
definition ATAG_CMDLINE :: u32 where "ATAG_CMDLINE = 0x54410009"

text \<open>A tag of fixed size: its header, then the words of its structure; with the place of the next.\<close>

definition put_tag :: "u32 \<Rightarrow> u32 list \<Rightarrow> bytes \<times> nat \<Rightarrow> (bytes \<times> nat) option" where
  "put_tag tag ws s =
     (let words = word_of_nat (2 + length ws) # tag # ws
      in map_option (\<lambda>ram. (ram, snd s + 4 * length words)) (wr (fst s) (snd s) (concat (map put32 words))))"

text \<open>\<open>cmdline += strlen(strcpy(cmdline, src))\<close>\<close>

definition add_text :: "bytes \<Rightarrow> bytes \<times> nat \<Rightarrow> (bytes \<times> nat) option" where
  "add_text src s =
     do { ram \<leftarrow> strcpy (fst s) (snd s) src;
          n \<leftarrow> strlen (drop (snd s) ram);
          Some (ram, snd s + n) }"

fun trim_newlines :: "bytes \<Rightarrow> nat \<Rightarrow> nat option" where
  "trim_newlines ram 0 = None"
| "trim_newlines ram (Suc n) = (if byte_at ram n = 0x0a then trim_newlines ram n else Some (Suc n))"

definition do_params ::
  "board_api \<Rightarrow> kernel_source \<Rightarrow> u32 \<Rightarrow> bytes \<Rightarrow> bytes \<Rightarrow> bytes option" where
  "do_params brd ks initramfs_len commandline_rootfs_append ram =
     do { let params = nat (uint (bd_linux_tag_placement brd - bd_linux_mem_start brd));
          let p = dropWhile (\<lambda>c. c = 0x20) (bd_commandline_board brd);
          s \<leftarrow> put_tag ATAG_CORE [0, 0, 0] (ram, params);
          s \<leftarrow> put_tag ATAG_REVISION [bd_machine_revision brd] s;
          s \<leftarrow> put_tag ATAG_MEM [bd_linux_mem_size brd, bd_linux_mem_start brd] s;
          (ram, params) \<leftarrow> (if ks_initramfs_filepath ks \<noteq> None
            then put_tag ATAG_INITRD2 [bd_linux_mem_start brd + word_of_nat INITRD_OFFSET, initramfs_len] s
            else Some s);
          let start = params + 8;
          s \<leftarrow> add_text (p @ [0]) (ram, start);
          s \<leftarrow> (case bd_append_device_specific_cmdline brd of None \<Rightarrow> Some s | Some t \<Rightarrow> add_text (t @ [0]) s);
          s \<leftarrow> (case ks_commandline_append ks of None \<Rightarrow> Some s | Some t \<Rightarrow> add_text (t @ [0]) s);
          (ram, cmdline) \<leftarrow> (if byte_at commandline_rootfs_append 0 \<noteq> 0
                             then add_text commandline_rootfs_append s else Some s);
          cmdline \<leftarrow> trim_newlines ram cmdline;
          ram \<leftarrow> wr ram cmdline [0];
          (ram, _) \<leftarrow> (case (bd_commandline_board_debug brd, bd_get_ui_debug brd) of
              (Some t, Some True) \<Rightarrow> add_text (t @ [0]) (ram, cmdline)
            | _ \<Rightarrow> Some (ram, cmdline));
          n \<leftarrow> strlen (drop start ram);
          let words = (8 + n + 1 + 4) div 4;
          ram \<leftarrow> wr ram params (put32 (word_of_nat words) @ put32 ATAG_CMDLINE);
          wr ram (params + 4 * words) (put32 0 @ put32 ATAG_NONE) }"

subsection \<open>Loading and starting a kernel\<close>

definition IH_MAGIC :: u32 where "IH_MAGIC = 0x27051956"
definition sizeof_image_header :: nat where "sizeof_image_header = 64"

definition ih_magic :: "bytes \<Rightarrow> nat \<Rightarrow> u32" where "ih_magic ram hdr = get32_be ram hdr"
definition ih_size :: "bytes \<Rightarrow> nat \<Rightarrow> u32" where "ih_size ram hdr = get32_be ram (hdr + 12)"
definition ih_dcrc :: "bytes \<Rightarrow> nat \<Rightarrow> u32" where "ih_dcrc ram hdr = get32_be ram (hdr + 24)"

definition do_crc :: "bytes \<Rightarrow> nat \<Rightarrow> bool option" where
  "do_crc ram hdr =
     (let len = unat (ih_size ram hdr); data = hdr + sizeof_image_header
      in if length ram < data + len then None
         else Some (crc32 (byte_at ram) 0 data len = ih_dcrc ram hdr))"

definition load_uimage ::
  "phase2_env \<Rightarrow> board_api \<Rightarrow> kernel_source \<Rightarrow> nat \<Rightarrow> phase2 \<Rightarrow> (nat option \<times> phase2) option" where
  "load_uimage env brd ks kernel_dram st =
     (if ih_magic (p_ram st) kernel_dram \<noteq> IH_MAGIC then Some (None, st)
      else do {
        let kernel_size = (ih_size (p_ram st) kernel_dram + word_of_nat sizeof_image_header + 2048) AND NOT 2047;
        (got, ram, st) \<leftarrow> read_file env brd ks (ks_filepath ks) (p_ram st) kernel_dram (sint kernel_size) st;
        let st = st\<lparr>p_ram := ram\<rparr>;
        if got < 0 then Some (None, indicate brd UI_IND_KERNEL_PULL_FAIL st)
        else do {
          let st = indicate brd UI_IND_KERNEL_PULL_OK st;
          ok \<leftarrow> do_crc (p_ram st) kernel_dram;
          Some (if ok then Some (kernel_dram + sizeof_image_header) else None, st) } })"

definition load_zimage ::
  "phase2_env \<Rightarrow> board_api \<Rightarrow> kernel_source \<Rightarrow> nat \<Rightarrow> phase2 \<Rightarrow> (nat option \<times> phase2) option" where
  "load_zimage env brd ks kernel_dram st =
     (let magic = get32 (p_ram st) (kernel_dram + 0x24); sz = get32 (p_ram st) (kernel_dram + 0x2c)
      in if magic \<noteq> 0x016f2818 then Some (None, st)
         else do {
           (got, ram, st) \<leftarrow> read_file env brd ks (ks_filepath ks) (p_ram st) kernel_dram (sint sz) st;
           let st = st\<lparr>p_ram := ram\<rparr>;
           if got < 0 then Some (None, indicate brd UI_IND_KERNEL_PULL_FAIL st)
           else if u32_of got \<noteq> uint sz then Some (None, st)
           else Some (Some kernel_dram, indicate brd UI_IND_KERNEL_PULL_OK st) })"

text \<open>The result is the offset in RAM of the entry point, when the kernel is started.  The test
  \<open>initramfs_len < 0\<close> is on an unsigned number.\<close>

definition start_kernel ::
  "phase2_env \<Rightarrow> board_api \<Rightarrow> kernel_source \<Rightarrow> nat \<Rightarrow> phase2 \<Rightarrow> (nat option \<times> phase2) option" where
  "start_kernel env brd ks the_kernel st =
     do { (initramfs_len, st) \<leftarrow>
            (if ks_initramfs_filepath ks \<noteq> None
             then do {
               let st = indicate brd UI_IND_INITRAMFS_PULL st;
               (len, ram, st) \<leftarrow> read_file env brd ks (ks_initramfs_filepath ks) (p_ram st) INITRD_OFFSET
                                   (16 * 1024 * 1024) st;
               Some (word_of_int len :: u32, indicate brd UI_IND_INITRAMFS_PULL_OK (st\<lparr>p_ram := ram\<rparr>)) }
             else Some (0, st));
          ram \<leftarrow> do_params brd ks initramfs_len (p_append st) (p_ram st);
          Some (Some the_kernel, indicate brd UI_IND_KERNEL_START (st\<lparr>p_ram := ram\<rparr>)) }"

definition try_this_kernel ::
  "phase2_env \<Rightarrow> board_api \<Rightarrow> kernel_source \<Rightarrow> phase2 \<Rightarrow> (nat option \<times> phase2) option" where
  "try_this_kernel env brd ks st =
     do { let st = indicate brd UI_IND_MOUNT_PART
                     (st\<lparr>p_partition_offset_blocks := 0, p_partition_length_blocks := 0\<rparr>);
          let (ok, st) = do_block_init env brd ks st;
          if \<not> ok then Some (None, st)
          else do {
            (ok, st) \<leftarrow> do_partitions env brd ks KERNEL_OFFSET st;
            if \<not> ok then Some (None, st)
            else do {
              (ret, ram, st) \<leftarrow> read_file env brd ks (Some (bd_noboot brd)) (p_ram st) KERNEL_OFFSET 512 st;
              let st = st\<lparr>p_ram := ram\<rparr>;
              if ret \<noteq> - 1 then Some (None, if 0 \<le> ret then indicate brd UI_IND_SKIPPING st else st)
              else do {
                (_, app, st) \<leftarrow> read_file env brd ks (Some (bd_append brd)) ((p_append st)[0 := 0]) 0 512 st;
                let st = indicate brd UI_IND_KERNEL_PULL (st\<lparr>p_append := app\<rparr>);
                (ret, ram, st) \<leftarrow> read_file env brd ks (ks_filepath ks) (p_ram st) KERNEL_OFFSET 4096 st;
                let st = st\<lparr>p_ram := ram\<rparr>;
                if ret < 0 then Some (None, st)
                else do {
                  (the_kernel, st) \<leftarrow> load_uimage env brd ks KERNEL_OFFSET st;
                  (the_kernel, st) \<leftarrow> (case the_kernel of
                                          None \<Rightarrow> load_zimage env brd ks KERNEL_OFFSET st
                                        | Some k \<Rightarrow> Some (Some k, st));
                  case the_kernel of
                    None \<Rightarrow> Some (None, st)
                  | Some k \<Rightarrow> start_kernel env brd ks k st } } } } }"

datatype outcome = Started nat phase2 | Memory_test phase2

fun try_kernels :: "phase2_env \<Rightarrow> board_api \<Rightarrow> kernel_source list \<Rightarrow> phase2 \<Rightarrow> outcome option" where
  "try_kernels env brd [] st = Some (Memory_test (indicate brd UI_IND_MEM_TEST st))"
| "try_kernels env brd (ks # rest) st =
     do { (k, st) \<leftarrow> try_this_kernel env brd ks st;
          case k of
            Some k \<Rightarrow> Some (Started k st)
          | None \<Rightarrow> try_kernels env brd rest st }"

definition bootloader_second_phase :: "phase2_env \<Rightarrow> board_api \<Rightarrow> phase2 \<Rightarrow> outcome option" where
  "bootloader_second_phase env brd st = try_kernels env brd (bd_kernel_source brd) st"

end
