(* ===== verification/Qi_Tags.thy ===== *)
theory Qi_Tags
  imports Qi_Phase2
begin

section \<open>The second phase: the tags the kernel gets\<close>

text \<open>
  A reader of the list of tags as the kernel reads it (\<open>for_each_tag\<close>), and the proof that what
  \<open>do_params\<close> writes is read back as the list of tags that was meant.
\<close>

subsection \<open>Reading tags\<close>

text \<open>At most \<open>n\<close> tags: type and payload, up to the tag of size 0.\<close>

fun parse_tags :: "nat \<Rightarrow> bytes \<Rightarrow> nat \<Rightarrow> (u32 \<times> bytes) list" where
  "parse_tags 0 ram p = []"
| "parse_tags (Suc n) ram p =
     (let words = unat (get32 ram p) in
      if words = 0 then []
      else (get32 ram (p + 4), region ram (p + 8) (4 * words - 8)) # parse_tags n ram (p + 4 * words))"

definition holds :: "bytes \<Rightarrow> nat \<Rightarrow> bytes \<Rightarrow> bool" where
  "holds ram pos bs \<longleftrightarrow> pos + length bs \<le> length ram \<and> region ram pos (length bs) = bs"

lemma holds_Nil: "pos \<le> length ram \<Longrightarrow> holds ram pos []"
  by (simp add: holds_def)

lemma holds_append: "holds ram pos (xs @ ys) \<longleftrightarrow> holds ram pos xs \<and> holds ram (pos + length xs) ys"
  by (auto simp: holds_def region_append_split)

lemma holds_patch_same: "pos + length bs \<le> length ram \<Longrightarrow> holds (patch ram pos bs) pos bs"
  by (simp add: holds_def region_patch_same)

lemma holds_patch_other:
  "holds ram p bs \<Longrightarrow> pos + length xs \<le> length ram \<Longrightarrow> p + length bs \<le> pos \<or> pos + length xs \<le> p \<Longrightarrow>
   holds (patch ram pos xs) p bs"
  by (simp add: holds_def region_patch_disjoint)

lemma holds_extend:
  "holds ram p bs \<Longrightarrow> p + length bs + length xs \<le> length ram \<Longrightarrow> holds (patch ram (p + length bs) xs) p (bs @ xs)"
  unfolding holds_append by (auto intro: holds_patch_other holds_patch_same)

lemma get32_holds: "holds ram p bs \<Longrightarrow> off + 4 \<le> length bs \<Longrightarrow> get32 ram (p + off) = get32 bs off"
  by (metis get32_region holds_def)

lemma region_holds: "holds ram p bs \<Longrightarrow> off + n \<le> length bs \<Longrightarrow> region ram (p + off) n = region bs off n"
  by (metis region_region holds_def)

subsection \<open>Writing tags\<close>

lemma length_concat_put32 [simp]: "length (concat (map put32 ws)) = 4 * length ws"
  by (induction ws) auto

lemma put_tag_ok:
  assumes "pos + 8 + 4 * length ws \<le> length ram"
  shows "put_tag t ws (ram, pos) =
    Some (patch ram pos (concat (map put32 (word_of_nat (2 + length ws) # t # ws))), pos + 8 + 4 * length ws)"
  using assms by (simp add: put_tag_def Let_def wr_def)

lemma strlen_drop:
  "holds ram pos (t @ [0]) \<Longrightarrow> 0 \<notin> set t \<Longrightarrow> strlen (drop pos ram) = Some (length t)"
proof -
  assume h: "holds ram pos (t @ [0])" and t: "0 \<notin> set t"
  have "drop pos ram = region ram pos (length t + 1) @ drop (length t + 1) (drop pos ram)"
    by (simp add: region_def del: drop_drop)
  moreover have "region ram pos (length t + 1) = t @ [0]" using h by (simp add: holds_def)
  ultimately have "drop pos ram = t @ 0 # drop (length t + 1) (drop pos ram)" by simp
  then show ?thesis using strlen_correct [OF t] by metis
qed

lemma add_text_ok:
  assumes "0 \<notin> set t" "pos + length t < length ram"
  shows "add_text (t @ 0 # rest) (ram, pos) = Some (patch ram pos (t @ [0]), pos + length t)"
proof -
  have "strcpy ram pos (t @ 0 # rest) = Some (patch ram pos (t @ [0]))" by (rule strcpy_correct [OF assms])
  moreover have "strlen (drop pos (patch ram pos (t @ [0]))) = Some (length t)"
    using assms by (intro strlen_drop holds_patch_same) simp_all
  ultimately show ?thesis by (simp add: add_text_def)
qed

text \<open>Text appended behind text: the NUL of the first is overwritten.\<close>

lemma add_text_step:
  assumes "holds ram start xs" "0 \<notin> set t" "start + length xs + length t < length ram"
  shows "\<exists>ram'. add_text (t @ 0 # rest) (ram, start + length xs) = Some (ram', start + length (xs @ t)) \<and>
    holds ram' start (xs @ t @ [0]) \<and> length ram' = length ram \<and>
    (\<forall>p bs. holds ram p bs \<longrightarrow> p + length bs \<le> start \<or> start + length (xs @ t) < p \<longrightarrow> holds ram' p bs)"
proof -
  have "holds (patch ram (start + length xs) (t @ [0])) start (xs @ t @ [0])"
    using assms by (intro holds_extend) simp_all
  moreover have "length (patch ram (start + length xs) (t @ [0])) = length ram"
    using assms(3) by (intro length_patch) simp
  moreover have "\<forall>p bs. holds ram p bs \<longrightarrow> p + length bs \<le> start \<or> start + length (xs @ t) < p \<longrightarrow> holds (patch ram (start + length xs) (t @ [0])) p bs"
    using assms(3) by (auto intro!: holds_patch_other)
  ultimately show ?thesis
    using add_text_ok [OF assms(2), of "start + length xs" ram rest] assms(3) by (auto simp: add.assoc)
qed

text \<open>The text without the newlines at its end.\<close>

definition rstrip :: "bytes \<Rightarrow> bytes" where
  "rstrip t = rev (dropWhile (\<lambda>c. c = 0x0a) (rev t))"

lemma rstrip_snoc: "rstrip (t @ [c]) = (if c = 0x0a then rstrip t else t @ [c])"
  by (simp add: rstrip_def)

lemma rstrip_prefix: "\<exists>ys. t = rstrip t @ ys"
proof -
  have "rev t = takeWhile (\<lambda>c. c = 0x0a) (rev t) @ dropWhile (\<lambda>c. c = 0x0a) (rev t)" by simp
  then have "t = rev (dropWhile (\<lambda>c. c = 0x0a) (rev t)) @ rev (takeWhile (\<lambda>c. c = 0x0a) (rev t))"
    by (metis rev_append rev_rev_ident)
  then show ?thesis unfolding rstrip_def by blast
qed

lemma trim_newlines_ok:
  "holds ram start t \<Longrightarrow> rstrip t \<noteq> [] \<Longrightarrow> trim_newlines ram (start + length t) = Some (start + length (rstrip t))"
proof (induction t rule: rev_induct)
  case Nil
  then show ?case by (simp add: rstrip_def)
next
  case (snoc c t)
  have h: "holds ram start t" using snoc.prems(1) by (simp add: holds_append)
  have "byte_at ram (start + length t) = c"
  proof -
    have "holds ram (start + length t) [c]" using snoc.prems(1) by (simp only: holds_append)
    then have "region ram (start + length t) 1 = [c]" by (simp add: holds_def)
    then have "byte_at (region ram (start + length t) 1) 0 = c" by (simp add: byte_at_def)
    then show ?thesis by (simp add: byte_at_region)
  qed
  then show ?case
    using snoc.IH [OF h] snoc.prems(2) by (cases "c = 0x0a") (simp_all add: rstrip_snoc)
qed

subsection \<open>The whole list\<close>

definition tag_bytes :: "u32 \<Rightarrow> u32 list \<Rightarrow> bytes" where
  "tag_bytes t ws = concat (map put32 (word_of_nat (2 + length ws) # t # ws))"

lemma length_tag_bytes [simp]: "length (tag_bytes t ws) = 8 + 4 * length ws"
  by (simp add: tag_bytes_def)

lemma put_tag_step:
  assumes "holds ram p xs" "p + length xs + length (tag_bytes t ws) \<le> length ram"
  shows "\<exists>ram'. put_tag t ws (ram, p + length xs) = Some (ram', p + length (xs @ tag_bytes t ws)) \<and>
    holds ram' p (xs @ tag_bytes t ws) \<and> length ram' = length ram \<and>
    (\<forall>q bs. holds ram q bs \<longrightarrow> q + length bs \<le> p \<or> p + length (xs @ tag_bytes t ws) \<le> q \<longrightarrow> holds ram' q bs)"
proof -
  let ?r = "patch ram (p + length xs) (tag_bytes t ws)"
  have "\<forall>q bs. holds ram q bs \<longrightarrow> q + length bs \<le> p \<or> p + length (xs @ tag_bytes t ws) \<le> q \<longrightarrow> holds ?r q bs"
    using assms(2) by (auto intro!: holds_patch_other)
  then show ?thesis
    using put_tag_ok [of "p + length xs" ws ram t] holds_extend [OF assms] assms(2)
    by (simp add: tag_bytes_def add.assoc)
qed

lemma parse_tag_step:
  assumes "holds ram p (tag_bytes t ws)" "2 + length ws < 4294967296"
  shows "parse_tags (Suc n) ram p = (t, concat (map put32 ws)) # parse_tags n ram (p + (8 + 4 * length ws))"
proof -
  define w :: u32 where "w = word_of_nat (2 + length ws)"
  have w: "unat w = 2 + length ws" unfolding w_def by (rule unat_word_of_nat32 [OF assms(2)])
  let ?b = "put32 w @ put32 t @ concat (map put32 ws)"
  have h: "holds ram p ?b" using assms(1) by (simp add: tag_bytes_def w_def)
  have "get32 ?b 0 = w" "get32 ?b 4 = t"
    by (simp_all add: get32_append_left get32_append_right get32_put32)
  moreover have "get32 ram (p + 0) = get32 ?b 0" "get32 ram (p + 4) = get32 ?b 4"
    using h by (intro get32_holds; simp)+
  moreover have "region ram (p + 8) (4 * length ws) = region ?b 8 (4 * length ws)"
    using h by (intro region_holds) simp_all
  moreover have "region ?b 8 (4 * length ws) = concat (map put32 ws)" by (simp add: region_def)
  ultimately show ?thesis using w by (simp add: Let_def distrib_left)
qed

lemma parse_tag_num:
  "holds ram p (tag_bytes t ws) \<Longrightarrow> 2 + length ws < 4294967296 \<Longrightarrow> 0 < n \<Longrightarrow>
   parse_tags n ram p = (t, concat (map put32 ws)) # parse_tags (n - 1) ram (p + (8 + 4 * length ws))"
  using parse_tag_step [of ram p t ws "n - 1"] by simp

definition opt_text :: "bytes option \<Rightarrow> bytes" where
  "opt_text t = (case t of None \<Rightarrow> [] | Some t \<Rightarrow> t)"

definition debug_text :: "board_api \<Rightarrow> bytes" where
  "debug_text brd =
     (case (bd_commandline_board_debug brd, bd_get_ui_debug brd) of (Some t, Some True) \<Rightarrow> t | _ \<Rightarrow> [])"

definition long_text :: "board_api \<Rightarrow> kernel_source \<Rightarrow> bytes \<Rightarrow> bytes" where
  "long_text brd ks app = dropWhile (\<lambda>c. c = 0x20) (bd_commandline_board brd) @
     opt_text (bd_append_device_specific_cmdline brd) @ opt_text (ks_commandline_append ks) @ cstr_of app"

text \<open>The command line and the tags that are meant.\<close>

definition command_line :: "board_api \<Rightarrow> kernel_source \<Rightarrow> bytes \<Rightarrow> bytes" where
  "command_line brd ks app = rstrip (long_text brd ks app) @ debug_text brd"

definition fixed_tags :: "board_api \<Rightarrow> kernel_source \<Rightarrow> u32 \<Rightarrow> (u32 \<times> u32 list) list" where
  "fixed_tags brd ks len =
     [(ATAG_CORE, [0, 0, 0]), (ATAG_REVISION, [bd_machine_revision brd]),
      (ATAG_MEM, [bd_linux_mem_size brd, bd_linux_mem_start brd])] @
     (if ks_initramfs_filepath ks \<noteq> None
      then [(ATAG_INITRD2, [bd_linux_mem_start brd + word_of_nat INITRD_OFFSET, len])] else [])"

definition tag_place :: "board_api \<Rightarrow> nat" where
  "tag_place brd = nat (uint (bd_linux_tag_placement brd - bd_linux_mem_start brd))"

lemma add_opt_step:
  assumes "holds ram start xs" "0 \<notin> set (opt_text o')" "start + length xs + length (opt_text o') < length ram"
  shows "\<exists>ram'. (case o' of None \<Rightarrow> Some (ram, start + length xs) | Some t \<Rightarrow> add_text (t @ [0]) (ram, start + length xs)) =
      Some (ram', start + length (xs @ opt_text o')) \<and>
    holds ram' start (xs @ opt_text o') \<and> length ram' = length ram \<and>
    (\<forall>p bs. holds ram p bs \<longrightarrow> p + length bs \<le> start \<or> start + length (xs @ opt_text o') < p \<longrightarrow> holds ram' p bs)"
proof (cases o')
  case None
  then show ?thesis using assms by (simp add: opt_text_def)
next
  case (Some t)
  then show ?thesis
    using add_text_step [of ram start xs t "[]"] assms by (auto simp: opt_text_def holds_append)
qed

lemma rootfs_append_step:
  assumes "holds ram start xs" "0 \<in> set app" "start + length xs + length (cstr_of app) < length ram"
  shows "\<exists>ram'. (if byte_at app 0 \<noteq> 0 then add_text app (ram, start + length xs) else Some (ram, start + length xs)) =
      Some (ram', start + length (xs @ cstr_of app)) \<and>
    holds ram' start (xs @ cstr_of app) \<and> length ram' = length ram \<and>
    (\<forall>p bs. holds ram p bs \<longrightarrow> p + length bs \<le> start \<or> start + length (xs @ cstr_of app) < p \<longrightarrow> holds ram' p bs)"
proof (cases "byte_at app 0 = 0")
  case True
  then have "cstr_of app = []" using assms(2) by (cases app) (auto simp: cstr_of_def byte_at_def)
  then show ?thesis using True assms(1) by simp
next
  case False
  have "\<exists>rest. app = cstr_of app @ 0 # rest"
    using assms(2) by (metis (mono_tags, lifting) cstr_of_def dropWhile_eq_Cons_conv dropWhile_eq_Nil_conv
        takeWhile_dropWhile_id neq_Nil_conv)
  then obtain rest where "app = cstr_of app @ 0 # rest" by blast
  moreover have "0 \<notin> set (cstr_of app)" by (auto simp: cstr_of_def dest: set_takeWhileD)
  ultimately show ?thesis
    using add_text_step [of ram start xs "cstr_of app" rest] assms(1,3) False by (auto simp: holds_append)
qed

definition fixed_bytes :: "board_api \<Rightarrow> kernel_source \<Rightarrow> u32 \<Rightarrow> bytes" where
  "fixed_bytes brd ks len = concat (map (\<lambda>(t, ws). tag_bytes t ws) (fixed_tags brd ks len))"

lemma length_fixed_bytes: "length (fixed_bytes brd ks len) \<le> 64"
  by (simp add: fixed_bytes_def fixed_tags_def)

lemma fixed_tags_written:
  assumes "pos + 64 \<le> length ram"
  shows "\<exists>ram'. do { s \<leftarrow> put_tag ATAG_CORE [0, 0, 0] (ram, pos);
          s \<leftarrow> put_tag ATAG_REVISION [bd_machine_revision brd] s;
          s \<leftarrow> put_tag ATAG_MEM [bd_linux_mem_size brd, bd_linux_mem_start brd] s;
          (if ks_initramfs_filepath ks \<noteq> None
            then put_tag ATAG_INITRD2 [bd_linux_mem_start brd + word_of_nat INITRD_OFFSET, len] s
            else Some s) } = Some (ram', pos + length (fixed_bytes brd ks len)) \<and>
    holds ram' pos (fixed_bytes brd ks len) \<and> length ram' = length ram \<and>
    (\<forall>q bs. holds ram q bs \<longrightarrow> q + length bs \<le> pos \<or> pos + 64 \<le> q \<longrightarrow> holds ram' q bs)"
proof -
  obtain r1 where r1: "put_tag ATAG_CORE [0, 0, 0] (ram, pos + length ([] :: bytes)) =
      Some (r1, pos + length ([] @ tag_bytes ATAG_CORE [0, 0, 0]))"
    "holds r1 pos ([] @ tag_bytes ATAG_CORE [0, 0, 0])" "length r1 = length ram"
    "\<forall>q bs. holds ram q bs \<longrightarrow> q + length bs \<le> pos \<or> pos + 64 \<le> q \<longrightarrow> holds r1 q bs"
    using put_tag_step [of ram pos "[]" ATAG_CORE "[0, 0, 0]"] assms by (auto simp: holds_Nil)
  obtain r2 where r2: "put_tag ATAG_REVISION [bd_machine_revision brd] (r1, pos + length ([] @ tag_bytes ATAG_CORE [0, 0, 0])) =
      Some (r2, pos + length (([] @ tag_bytes ATAG_CORE [0, 0, 0]) @ tag_bytes ATAG_REVISION [bd_machine_revision brd]))"
    "holds r2 pos (([] @ tag_bytes ATAG_CORE [0, 0, 0]) @ tag_bytes ATAG_REVISION [bd_machine_revision brd])"
    "length r2 = length ram" "\<forall>q bs. holds r1 q bs \<longrightarrow> q + length bs \<le> pos \<or> pos + 64 \<le> q \<longrightarrow> holds r2 q bs"
    using put_tag_step [OF r1(2), of ATAG_REVISION "[bd_machine_revision brd]"] assms r1(3) by auto
  let ?xs = "([] @ tag_bytes ATAG_CORE [0, 0, 0]) @ tag_bytes ATAG_REVISION [bd_machine_revision brd]"
  let ?m = "tag_bytes ATAG_MEM [bd_linux_mem_size brd, bd_linux_mem_start brd]"
  obtain r3 where r3: "put_tag ATAG_MEM [bd_linux_mem_size brd, bd_linux_mem_start brd] (r2, pos + length ?xs) =
      Some (r3, pos + length (?xs @ ?m))" "holds r3 pos (?xs @ ?m)" "length r3 = length ram"
    "\<forall>q bs. holds r2 q bs \<longrightarrow> q + length bs \<le> pos \<or> pos + 64 \<le> q \<longrightarrow> holds r3 q bs"
    using put_tag_step [OF r2(2), of ATAG_MEM "[bd_linux_mem_size brd, bd_linux_mem_start brd]"] assms r2(3) by auto
  note run = r1(1) [unfolded append_Nil list.size(3) add_0_right] r2(1) [unfolded append_Nil] r3(1) [unfolded append_Nil]
  show ?thesis
  proof (cases "ks_initramfs_filepath ks = None")
    case True
    then show ?thesis using run r3(2,3) r1(4) r2(4) r3(4) by (simp add: fixed_bytes_def fixed_tags_def)
  next
    case False
    let ?i = "[bd_linux_mem_start brd + word_of_nat INITRD_OFFSET, len]"
    obtain r4 where r4: "put_tag ATAG_INITRD2 ?i (r3, pos + length (?xs @ ?m)) =
        Some (r4, pos + length ((?xs @ ?m) @ tag_bytes ATAG_INITRD2 ?i))"
      "holds r4 pos ((?xs @ ?m) @ tag_bytes ATAG_INITRD2 ?i)" "length r4 = length ram"
      "\<forall>q bs. holds r3 q bs \<longrightarrow> q + length bs \<le> pos \<or> pos + 64 \<le> q \<longrightarrow> holds r4 q bs"
      using put_tag_step [OF r3(2), of ATAG_INITRD2 ?i] assms r3(3) by auto
    then show ?thesis using False run r1(4) r2(4) r3(4) by (simp add: fixed_bytes_def fixed_tags_def)
  qed
qed

lemma text_written:
  assumes room: "start + length (long_text brd ks app) + length (debug_text brd) < length ram"
    and nul: "0 \<notin> set (bd_commandline_board brd)" "0 \<notin> set (opt_text (bd_append_device_specific_cmdline brd))"
      "0 \<notin> set (opt_text (ks_commandline_append ks))" "0 \<in> set app" "0 \<notin> set (debug_text brd)"
    and ne: "rstrip (long_text brd ks app) \<noteq> []"
  shows "\<exists>ram'. do { s \<leftarrow> add_text (dropWhile (\<lambda>c. c = 0x20) (bd_commandline_board brd) @ [0]) (ram, start);
          s \<leftarrow> (case bd_append_device_specific_cmdline brd of None \<Rightarrow> Some s | Some t \<Rightarrow> add_text (t @ [0]) s);
          s \<leftarrow> (case ks_commandline_append ks of None \<Rightarrow> Some s | Some t \<Rightarrow> add_text (t @ [0]) s);
          (ram, cmdline) \<leftarrow> (if byte_at app 0 \<noteq> 0 then add_text app s else Some s);
          cmdline \<leftarrow> trim_newlines ram cmdline;
          ram \<leftarrow> wr ram cmdline [0];
          (ram, _) \<leftarrow> (case (bd_commandline_board_debug brd, bd_get_ui_debug brd) of
              (Some t, Some True) \<Rightarrow> add_text (t @ [0]) (ram, cmdline)
            | _ \<Rightarrow> Some (ram, cmdline));
          Some ram } = Some ram' \<and>
    holds ram' start (command_line brd ks app @ [0]) \<and> length ram' = length ram \<and>
    (\<forall>p bs. holds ram p bs \<longrightarrow> p + length bs \<le> start \<or> start + length (long_text brd ks app) + length (debug_text brd) < p \<longrightarrow> holds ram' p bs)"
proof -
  define a where "a = dropWhile (\<lambda>c. c = 0x20) (bd_commandline_board brd)"
  define b where "b = opt_text (bd_append_device_specific_cmdline brd)"
  define c where "c = opt_text (ks_commandline_append ks)"
  define d where "d = cstr_of app"
  have T: "long_text brd ks app = a @ b @ c @ d" by (simp add: long_text_def a_def b_def c_def d_def)
  have a0: "0 \<notin> set a" using nul(1) unfolding a_def by (meson set_dropWhileD)
  obtain r1 where r1: "add_text (a @ 0 # []) (ram, start + length ([] :: bytes)) = Some (r1, start + length ([] @ a))"
    "holds r1 start ([] @ a @ [0])" "length r1 = length ram"
    "\<forall>p bs. holds ram p bs \<longrightarrow> p + length bs \<le> start \<or> start + length (long_text brd ks app) + length (debug_text brd) < p \<longrightarrow> holds r1 p bs"
    using add_text_step [of ram start "[]" a "[]"] a0 room T by (auto simp: holds_Nil)
  have h1: "holds r1 start a" using r1(2) by (simp add: holds_append)
  obtain r2 where r2: "(case bd_append_device_specific_cmdline brd of None \<Rightarrow> Some (r1, start + length a)
      | Some t \<Rightarrow> add_text (t @ [0]) (r1, start + length a)) = Some (r2, start + length (a @ b))"
    "holds r2 start (a @ b)" "length r2 = length ram"
    "\<forall>p bs. holds r1 p bs \<longrightarrow> p + length bs \<le> start \<or> start + length (long_text brd ks app) + length (debug_text brd) < p \<longrightarrow> holds r2 p bs"
    using add_opt_step [OF h1 nul(2)] room T r1(3) unfolding b_def by auto
  obtain r3 where r3: "(case ks_commandline_append ks of None \<Rightarrow> Some (r2, start + length (a @ b))
      | Some t \<Rightarrow> add_text (t @ [0]) (r2, start + length (a @ b))) = Some (r3, start + length ((a @ b) @ c))"
    "holds r3 start ((a @ b) @ c)" "length r3 = length ram"
    "\<forall>p bs. holds r2 p bs \<longrightarrow> p + length bs \<le> start \<or> start + length (long_text brd ks app) + length (debug_text brd) < p \<longrightarrow> holds r3 p bs"
    using add_opt_step [OF r2(2) nul(3)] room T r2(3) unfolding c_def by auto
  obtain r4 where r4: "(if byte_at app 0 \<noteq> 0 then add_text app (r3, start + length ((a @ b) @ c))
      else Some (r3, start + length ((a @ b) @ c))) = Some (r4, start + length (((a @ b) @ c) @ d))"
    "holds r4 start (((a @ b) @ c) @ d)" "length r4 = length ram"
    "\<forall>p bs. holds r3 p bs \<longrightarrow> p + length bs \<le> start \<or> start + length (long_text brd ks app) + length (debug_text brd) < p \<longrightarrow> holds r4 p bs"
    using rootfs_append_step [OF r3(2) nul(4)] room T r3(3) unfolding d_def by auto
  let ?T = "long_text brd ks app"
  let ?R = "rstrip ?T"
  have h4: "holds r4 start ?T" using r4(2) by (simp add: T)
  have t4: "trim_newlines r4 (start + length (((a @ b) @ c) @ d)) = Some (start + length ?R)"
    using trim_newlines_ok [OF h4 ne] by (simp add: T)
  obtain ys where ys: "?T = ?R @ ys" using rstrip_prefix by blast
  then have Rlen: "length ?R \<le> length ?T" by (metis le_add1 length_append)
  have h4R: "holds r4 start ?R" using h4 ys by (metis holds_append)
  let ?r5 = "patch r4 (start + length ?R) [0]"
  have r5: "wr r4 (start + length ?R) [0] = Some ?r5" "length ?r5 = length ram" "holds ?r5 start (?R @ [0])"
    using room Rlen r4(3) holds_extend [OF h4R, of "[0]"] by (simp_all add: wr_def)
  have fr5: "\<forall>p bs. holds r4 p bs \<longrightarrow> p + length bs \<le> start \<or> start + length (long_text brd ks app) + length (debug_text brd) < p \<longrightarrow> holds ?r5 p bs"
    using room Rlen r4(3) by (auto intro!: holds_patch_other)
  obtain r6 x where r6: "(case (bd_commandline_board_debug brd, bd_get_ui_debug brd) of
              (Some t, Some True) \<Rightarrow> add_text (t @ [0]) (?r5, start + length ?R)
            | _ \<Rightarrow> Some (?r5, start + length ?R)) = Some (r6, x)"
    "holds r6 start (?R @ debug_text brd @ [0])" "length r6 = length ram"
    "\<forall>p bs. holds ?r5 p bs \<longrightarrow> p + length bs \<le> start \<or> start + length (long_text brd ks app) + length (debug_text brd) < p \<longrightarrow> holds r6 p bs"
  proof (cases "bd_commandline_board_debug brd = None \<or> bd_get_ui_debug brd \<noteq> Some True")
    case True
    then have "debug_text brd = []" "(case (bd_commandline_board_debug brd, bd_get_ui_debug brd) of
              (Some t, Some True) \<Rightarrow> add_text (t @ [0]) (?r5, start + length ?R)
            | _ \<Rightarrow> Some (?r5, start + length ?R)) = Some (?r5, start + length ?R)"
      by (auto simp: debug_text_def split: option.splits bool.splits)
    then show thesis using that [of ?r5 "start + length ?R"] r5(2,3) by simp
  next
    case False
    then obtain t where t: "bd_commandline_board_debug brd = Some t" "bd_get_ui_debug brd = Some True" by auto
    have "holds ?r5 start ?R" using r5(3) by (simp add: holds_append)
    then show thesis
      using add_text_step [of ?r5 start ?R t "[]"] t nul(5) room Rlen r5(2) that
      by (auto simp: debug_text_def)
  qed
  have "\<forall>p bs. holds ram p bs \<longrightarrow> p + length bs \<le> start \<or> start + length (long_text brd ks app) + length (debug_text brd) < p \<longrightarrow> holds r6 p bs"
    using r1(4) r2(4) r3(4) r4(4) fr5 r6(4) by blast
  moreover have "holds r6 start ((?R @ debug_text brd) @ [0])" using r6(2) by simp
  ultimately show ?thesis
    using r6(3) unfolding a_def [symmetric] command_line_def
    by (intro exI [of _ r6] conjI)
      (simp_all only: r1(1) [unfolded append_Nil list.size(3) add_0_right] r2(1) r3(1) r4(1) t4 r5(1)
        r6(1) [unfolded prod.case] bind.bind_lunit prod.case)
qed

lemma do_params_split:
  "do_params brd ks len app ram =
     do { (ram, params) \<leftarrow> do { s \<leftarrow> put_tag ATAG_CORE [0, 0, 0] (ram, tag_place brd);
            s \<leftarrow> put_tag ATAG_REVISION [bd_machine_revision brd] s;
            s \<leftarrow> put_tag ATAG_MEM [bd_linux_mem_size brd, bd_linux_mem_start brd] s;
            (if ks_initramfs_filepath ks \<noteq> None
              then put_tag ATAG_INITRD2 [bd_linux_mem_start brd + word_of_nat INITRD_OFFSET, len] s
              else Some s) };
          ram \<leftarrow> do { s \<leftarrow> add_text (dropWhile (\<lambda>c. c = 0x20) (bd_commandline_board brd) @ [0]) (ram, params + 8);
            s \<leftarrow> (case bd_append_device_specific_cmdline brd of None \<Rightarrow> Some s | Some t \<Rightarrow> add_text (t @ [0]) s);
            s \<leftarrow> (case ks_commandline_append ks of None \<Rightarrow> Some s | Some t \<Rightarrow> add_text (t @ [0]) s);
            (ram, cmdline) \<leftarrow> (if byte_at app 0 \<noteq> 0 then add_text app s else Some s);
            cmdline \<leftarrow> trim_newlines ram cmdline;
            ram \<leftarrow> wr ram cmdline [0];
            (ram, _) \<leftarrow> (case (bd_commandline_board_debug brd, bd_get_ui_debug brd) of
                (Some t, Some True) \<Rightarrow> add_text (t @ [0]) (ram, cmdline)
              | _ \<Rightarrow> Some (ram, cmdline));
            Some ram };
          n \<leftarrow> strlen (drop (params + 8) ram);
          let words = (8 + n + 1 + 4) div 4;
          ram \<leftarrow> wr ram params (put32 (word_of_nat words) @ put32 ATAG_CMDLINE);
          wr ram (params + 4 * words) (put32 0 @ put32 ATAG_NONE) }"
  by (simp add: do_params_def tag_place_def Let_def split_def Option.bind_assoc)

lemma parse_fixed_tags:
  assumes "holds ram p (fixed_bytes brd ks len)"
  shows "parse_tags 6 ram p = map (\<lambda>(t, ws). (t, concat (map put32 ws))) (fixed_tags brd ks len) @
    parse_tags (6 - length (fixed_tags brd ks len)) ram (p + length (fixed_bytes brd ks len))"
proof -
  have h: "holds ram p (tag_bytes ATAG_CORE [0, 0, 0])" "holds ram (p + 20) (tag_bytes ATAG_REVISION [bd_machine_revision brd])"
    "holds ram (p + 32) (tag_bytes ATAG_MEM [bd_linux_mem_size brd, bd_linux_mem_start brd])"
    "ks_initramfs_filepath ks \<noteq> None \<Longrightarrow>
      holds ram (p + 48) (tag_bytes ATAG_INITRD2 [bd_linux_mem_start brd + word_of_nat INITRD_OFFSET, len])"
    using assms by (auto simp: fixed_bytes_def fixed_tags_def holds_append add.commute add.assoc)
  have s1: "parse_tags 6 ram p = (ATAG_CORE, concat (map put32 [0, 0, 0])) # parse_tags 5 ram (p + 20)"
    using parse_tag_num [OF h(1), of 6] by simp
  have s2: "parse_tags 5 ram (p + 20) = (ATAG_REVISION, concat (map put32 [bd_machine_revision brd])) # parse_tags 4 ram (p + 32)"
    using parse_tag_num [OF h(2), of 5] by (simp add: add.commute)
  have s3: "parse_tags 4 ram (p + 32) =
      (ATAG_MEM, concat (map put32 [bd_linux_mem_size brd, bd_linux_mem_start brd])) # parse_tags 3 ram (p + 48)"
    using parse_tag_num [OF h(3), of 4] by (simp add: add.commute)
  show ?thesis
  proof (cases "ks_initramfs_filepath ks = None")
    case True
    then show ?thesis unfolding s1 s2 s3 by (simp add: fixed_bytes_def fixed_tags_def add.assoc)
  next
    case False
    have "parse_tags 3 ram (p + 48) = (ATAG_INITRD2, concat (map put32 [bd_linux_mem_start brd + word_of_nat INITRD_OFFSET, len])) #
        parse_tags 2 ram (p + 64)"
      using parse_tag_num [OF h(4) [OF False], of 3] by (simp add: add.commute)
    then show ?thesis unfolding s1 s2 s3 using False by (simp add: fixed_bytes_def fixed_tags_def add.assoc)
  qed
qed

lemma cmdline_bytes:
  assumes "holds ram start (t @ [0])" "0 \<notin> set t" "length t + 1 \<le> n"
  shows "cstr_of (region ram start n) = t"
proof -
  have "region ram start n = region ram start (length t + 1) @ region ram (start + (length t + 1)) (n - (length t + 1))"
    using region_append_split [of ram start "length t + 1" "n - (length t + 1)"] assms(3) by simp
  also have "region ram start (length t + 1) = t @ [0]" using assms(1) by (simp add: holds_def)
  finally show ?thesis using cstr_of_terminated [OF assms(2)] by simp
qed

lemma do_params_ok:
  assumes room: "tag_place brd + 90 + length (long_text brd ks app) + length (debug_text brd) \<le> length ram"
      "length ram < 4294967296"
    and nul: "0 \<notin> set (bd_commandline_board brd)" "0 \<notin> set (opt_text (bd_append_device_specific_cmdline brd))"
      "0 \<notin> set (opt_text (ks_commandline_append ks))" "0 \<in> set app" "0 \<notin> set (debug_text brd)"
    and ne: "rstrip (long_text brd ks app) \<noteq> []"
  shows "\<exists>ram' body. do_params brd ks len app ram = Some ram' \<and> length ram' = length ram \<and>
    parse_tags 6 ram' (tag_place brd) =
      map (\<lambda>(t, ws). (t, concat (map put32 ws))) (fixed_tags brd ks len) @ [(ATAG_CMDLINE, body)] \<and>
    cstr_of body = command_line brd ks app \<and>
    (\<forall>p bs. holds ram p bs \<longrightarrow> p + length bs \<le> tag_place brd \<or>
       tag_place brd + 90 + length (long_text brd ks app) + length (debug_text brd) \<le> p \<longrightarrow> holds ram' p bs)"
proof -
  define P where "P = tag_place brd"
  define F where "F = fixed_bytes brd ks len"
  define Q where "Q = P + length F"
  define T where "T = command_line brd ks app"
  have F: "length F \<le> 64" using length_fixed_bytes by (simp add: F_def)
  note step1 = fixed_tags_written [of P ram brd ks len, folded F_def Q_def]
  obtain r1 where r1: "do { s \<leftarrow> put_tag ATAG_CORE [0, 0, 0] (ram, P);
          s \<leftarrow> put_tag ATAG_REVISION [bd_machine_revision brd] s;
          s \<leftarrow> put_tag ATAG_MEM [bd_linux_mem_size brd, bd_linux_mem_start brd] s;
          (if ks_initramfs_filepath ks \<noteq> None
            then put_tag ATAG_INITRD2 [bd_linux_mem_start brd + word_of_nat INITRD_OFFSET, len] s
            else Some s) } = Some (r1, Q)" "holds r1 P F" "length r1 = length ram"
    "\<forall>q bs. holds ram q bs \<longrightarrow> q + length bs \<le> P \<or> P + 64 \<le> q \<longrightarrow> holds r1 q bs"
    using step1 room(1) unfolding P_def by auto
  have T_parts: "T = rstrip (long_text brd ks app) @ debug_text brd" by (simp add: T_def command_line_def)
  obtain ys where ys: "long_text brd ks app = rstrip (long_text brd ks app) @ ys" using rstrip_prefix by blast
  have Rlen: "length (rstrip (long_text brd ks app)) \<le> length (long_text brd ks app)"
    using arg_cong [OF ys, of length] by simp
  have Tlen: "length T \<le> length (long_text brd ks app) + length (debug_text brd)" using Rlen by (simp add: T_parts)
  have T0: "0 \<notin> set T"
  proof -
    have "0 \<notin> set (long_text brd ks app)"
      using nul by (auto simp: long_text_def cstr_of_def dest: set_takeWhileD set_dropWhileD)
    then have "0 \<notin> set (rstrip (long_text brd ks app))" by (metis Un_iff set_append ys)
    then show ?thesis using nul(5) by (simp add: T_parts)
  qed
  obtain r2 where r2: "do { s \<leftarrow> add_text (dropWhile (\<lambda>c. c = 0x20) (bd_commandline_board brd) @ [0]) (r1, Q + 8);
            s \<leftarrow> (case bd_append_device_specific_cmdline brd of None \<Rightarrow> Some s | Some t \<Rightarrow> add_text (t @ [0]) s);
            s \<leftarrow> (case ks_commandline_append ks of None \<Rightarrow> Some s | Some t \<Rightarrow> add_text (t @ [0]) s);
            (ram, cmdline) \<leftarrow> (if byte_at app 0 \<noteq> 0 then add_text app s else Some s);
            cmdline \<leftarrow> trim_newlines ram cmdline;
            ram \<leftarrow> wr ram cmdline [0];
            (ram, _) \<leftarrow> (case (bd_commandline_board_debug brd, bd_get_ui_debug brd) of
                (Some t, Some True) \<Rightarrow> add_text (t @ [0]) (ram, cmdline)
              | _ \<Rightarrow> Some (ram, cmdline));
            Some ram } = Some r2" "holds r2 (Q + 8) (T @ [0])" "length r2 = length ram"
    "\<forall>p bs. holds r1 p bs \<longrightarrow> p + length bs \<le> Q + 8 \<or>
      Q + 8 + length (long_text brd ks app) + length (debug_text brd) < p \<longrightarrow> holds r2 p bs"
    using text_written [of "Q + 8" brd ks app r1, OF _ nul ne] room(1) F r1(3) unfolding T_def Q_def P_def by auto
  have h2: "holds r2 P F" using r2(4) r1(2) by (simp add: Q_def)
  define w where "w = (8 + length T + 1 + 4) div 4"
  have w: "8 + length T + 1 \<le> 4 * w" "4 * w \<le> length T + 13" "0 < w" unfolding w_def by linarith+
  have sl: "strlen (drop (Q + 8) r2) = Some (length T)" using r2(2) T0 by (rule strlen_drop)
  let ?h = "put32 (word_of_nat w) @ put32 ATAG_CMDLINE"
  let ?r3 = "patch r2 Q ?h" and ?e = "put32 0 @ put32 ATAG_NONE"
  have fits: "Q + 8 \<le> length r2" "Q + 4 * w + 8 \<le> length r2"
    using room(1) F r2(3) w(2) Tlen unfolding Q_def P_def by linarith+
  have r3: "length ?r3 = length ram" "holds ?r3 P F" "holds ?r3 Q ?h" "holds ?r3 (Q + 8) (T @ [0])"
    using fits r2(3) h2 r2(2) by (auto intro!: holds_patch_other holds_patch_same simp: Q_def)
  let ?r4 = "patch ?r3 (Q + 4 * w) ?e"
  have r4: "length ?r4 = length ram" "holds ?r4 P F" "holds ?r4 Q ?h" "holds ?r4 (Q + 8) (T @ [0])"
    "holds ?r4 (Q + 4 * w) ?e"
    using fits r2(3) r3 w(1) by (auto intro!: holds_patch_other holds_patch_same simp: Q_def)
  have run: "do_params brd ks len app ram = Some ?r4"
  proof -
    have "wr r2 Q ?h = Some ?r3" "wr ?r3 (Q + 4 * w) ?e = Some ?r4"
      using fits r3(1) r2(3) by (simp_all add: wr_def)
    then show ?thesis
      by (simp only: do_params_split P_def [symmetric] r1(1) bind.bind_lunit prod.case r2(1) [unfolded prod.case] sl
          Let_def w_def)
  qed
  have "get32 ?h 0 = word_of_nat w" "get32 ?h 4 = ATAG_CMDLINE" "get32 ?e 0 = 0"
    by (simp_all add: get32_append_left get32_append_right get32_put32)
  moreover have "get32 ?r4 (Q + 0) = get32 ?h 0" "get32 ?r4 (Q + 4) = get32 ?h 4" "get32 ?r4 (Q + 4 * w + 0) = get32 ?e 0"
    using r4(3,5) by (intro get32_holds; simp)+
  moreover have "unat (word_of_nat w :: u32) = w" using fits(2) r2(3) room(2) by (intro unat_word_of_nat32) linarith
  ultimately have tail: "parse_tags (Suc (Suc n)) ?r4 Q = [(ATAG_CMDLINE, region ?r4 (Q + 8) (4 * w - 8))]" for n
    using w(3) by (simp add: Let_def)
  have "cstr_of (region ?r4 (Q + 8) (4 * w - 8)) = T"
    using r4(4) T0 w(1) by (intro cmdline_bytes) linarith+
  moreover have "\<exists>n. 6 - length (fixed_tags brd ks len) = Suc (Suc n)" by (simp add: fixed_tags_def)
  then obtain n where "6 - length (fixed_tags brd ks len) = Suc (Suc n)" by blast
  then have "parse_tags 6 ?r4 P = map (\<lambda>(t, ws). (t, concat (map put32 ws))) (fixed_tags brd ks len) @
      [(ATAG_CMDLINE, region ?r4 (Q + 8) (4 * w - 8))]"
    using parse_fixed_tags [of ?r4 P brd ks len] r4(2) tail unfolding F_def [symmetric] Q_def [symmetric] by simp
  moreover have "holds ?r4 p bs"
    if h: "holds ram p bs" "p + length bs \<le> P \<or> P + 90 + length (long_text brd ks app) + length (debug_text brd) \<le> p" for p bs
  proof -
    have "holds r2 p bs" using r1(4) r2(4) h F by (auto simp: Q_def)
    moreover have "p + length bs \<le> Q \<or> Q + 8 \<le> p" using h(2) F by (auto simp: Q_def)
    ultimately have "holds ?r3 p bs" using fits by (auto intro!: holds_patch_other)
    moreover have "p + length bs \<le> Q + 4 * w \<or> Q + 4 * w + 8 \<le> p" using h(2) F w(2) Tlen by (auto simp: Q_def)
    ultimately show ?thesis using fits r3(1) r2(3) by (auto intro!: holds_patch_other)
  qed
  ultimately show ?thesis using run r4(1) unfolding P_def T_def by blast
qed

end
