(* ===== verification/Two_Wire.thy ===== *)
theory Two_Wire
  imports Prelude
begin

section \<open>A two-wire bus as a device sees it\<close>

text \<open>
  The boot loader (\<^verbatim>\<open>qi/src/drivers/i2c-bitbang.c\<close>) and the tool for the crypto chip
  (\<^verbatim>\<open>fw-utils/ll_port.c\<close>) drive a clock and a data line.  This theory reads a sequence of levels of the
  two lines as the start, stop and byte symbols of the bus protocol; the properties of both drivers are
  stated with it.
\<close>

text \<open>A device sees a bit when the clock rises, and a start or a stop when the data line changes while the
  clock is high; \<open>set\<close> changes the clock line first.  The bits before a start or a stop that do not make
  a byte and its acknowledge bit are dropped.\<close>

datatype i2c_event = Ev_Bit bool | Ev_Start | Ev_Stop

fun wire_events :: "bool \<times> bool \<Rightarrow> (bool \<times> bool) list \<Rightarrow> i2c_event list" where
  "wire_events (c, d) [] = []"
| "wire_events (c, d) ((c', d') # ws) =
     (if \<not> c \<and> c' then [Ev_Bit d] else []) @
     (if c' \<and> d \<and> \<not> d' then [Ev_Start] else if c' \<and> \<not> d \<and> d' then [Ev_Stop] else []) @
     wire_events (c', d') ws"

datatype i2c_symbol = Sym_Start | Sym_Stop | Sym_Byte "bool list" bool

fun symbols :: "bool list \<Rightarrow> i2c_event list \<Rightarrow> i2c_symbol list" where
  "symbols acc [] = []"
| "symbols acc (Ev_Start # es) = Sym_Start # symbols [] es"
| "symbols acc (Ev_Stop # es) = Sym_Stop # symbols [] es"
| "symbols acc (Ev_Bit b # es) =
     (if length acc = 8 then Sym_Byte acc b # symbols [] es else symbols (acc @ [b]) es)"

definition bits_of :: "u8 \<Rightarrow> bool list" where "bits_of w = map (\<lambda>i. bit w (7 - i)) [0..<8]"

definition bus_symbols :: "(bool \<times> bool) list \<Rightarrow> i2c_symbol list" where
  "bus_symbols ws = symbols [] (wire_events (True, True) ws)"

text \<open>The bits since the last start, stop or acknowledge bit.\<close>

fun rest_bits :: "bool list \<Rightarrow> i2c_event list \<Rightarrow> bool list" where
  "rest_bits acc [] = acc"
| "rest_bits acc (Ev_Bit b # es) = (if length acc = 8 then rest_bits [] es else rest_bits (acc @ [b]) es)"
| "rest_bits acc (e # es) = rest_bits [] es"

definition bus_pending :: "(bool \<times> bool) list \<Rightarrow> nat" where
  "bus_pending ws = length (rest_bits [] (wire_events (True, True) ws))"

text \<open>A device acknowledges every byte: with eight bits sent and the clock low, it holds the data line low.\<close>

definition acknowledges :: "((bool \<times> bool) list \<Rightarrow> bool) \<Rightarrow> bool" where
  "acknowledges sda \<longleftrightarrow> (\<forall>ws. bus_pending ws = 8 \<longrightarrow> \<not> fst (last ws) \<longrightarrow> \<not> sda ws)"

lemma wire_events_append:
  "wire_events s (xs @ ys) = wire_events s xs @ wire_events (if xs = [] then s else last xs) ys"
  by (induction xs arbitrary: s) (auto split: prod.splits)

lemma symbols_bits:
  "length acc + length bs \<le> 8 \<Longrightarrow> symbols acc (map Ev_Bit bs @ es) = symbols (acc @ bs) es"
  "length acc + length bs \<le> 8 \<Longrightarrow> rest_bits acc (map Ev_Bit bs @ es) = rest_bits (acc @ bs) es"
  by (induction bs arbitrary: acc) auto

text \<open>The bus between bytes: the clock is low, and the device has seen the symbols \<open>ss\<close>.\<close>

definition at_bus :: "(bool \<times> bool) list \<Rightarrow> i2c_symbol list \<Rightarrow> bool \<Rightarrow> bool" where
  "at_bus ws ss d \<longleftrightarrow> ws \<noteq> [] \<and> last ws = (False, d) \<and> bus_symbols ws = ss \<and> rest_bits [] (wire_events (True, True) ws) = []"

lemma symbols_append: "symbols acc (es @ fs) = symbols acc es @ symbols (rest_bits acc es) fs"
  and rest_bits_append: "rest_bits acc (es @ fs) = rest_bits (rest_bits acc es) fs"
  by (induction acc es rule: symbols.induct) auto

lemma at_bus_append:
  assumes "at_bus ws ss d"
  shows "bus_symbols (ws @ xs) = ss @ symbols [] (wire_events (False, d) xs)"
    "rest_bits [] (wire_events (True, True) (ws @ xs)) = rest_bits [] (wire_events (False, d) xs)"
  using assms by (auto simp: at_bus_def bus_symbols_def wire_events_append symbols_append rest_bits_append)

end
