(* ===== verification/Qi_I2c.thy ===== *)
theory Qi_I2c
  imports Two_Wire
begin

section \<open>The I2C state machine of the boot loader\<close>

text \<open>
  \<^verbatim>\<open>qi/src/drivers/i2c-bitbang.c\<close>: a register of an I2C device is read or written by driving two lines.
  The calls of \<open>set\<close> are logged in \<open>ib_wire\<close>, as pairs of clock and data (True is a released line); the
  level that \<open>read_sda\<close> finds is a parameter, a function of what has been driven so far.  None is an
  access outside the array \<open>data\<close> or a transaction that does not end.
\<close>

datatype i2c_bitbang_states =
    IBS_INIT | IBS_START1 | IBS_START2
  | IBS_ADS_TX_S | IBS_ADS_TX_H | IBS_ADS_TX_L | IBS_ADS_TX_ACK_H | IBS_ADS_TX_ACK_L
  | IBS_DATA_RX_S | IBS_DATA_RX_H | IBS_DATA_RX_L | IBS_DATA_RX_ACK_H | IBS_DATA_RX_ACK_L
  | IBS_STOP1 | IBS_STOP2 | IBS_STOP3 | IBS_STOP4

definition IBCONTROL_DO_START :: u32 where "IBCONTROL_DO_START = - 1"
definition IBCONTROL_DO_STOP :: u32 where "IBCONTROL_DO_STOP = - 2"
definition IBCONTROL_DO_READ :: u32 where "IBCONTROL_DO_READ = - 3"
definition IBCONTROL_COMPLETE :: u32 where "IBCONTROL_COMPLETE = - 4"

lemmas ibcontrol_defs = IBCONTROL_DO_START_def IBCONTROL_DO_STOP_def IBCONTROL_DO_READ_def IBCONTROL_COMPLETE_def

record i2c_bitbang =
  ib_state :: i2c_bitbang_states
  ib_count :: int
  ib_data :: "u32 list"
  ib_index :: nat
  ib_index_read :: nat
  ib_wire :: "(bool \<times> bool) list"

definition ib_set :: "bool \<Rightarrow> bool \<Rightarrow> i2c_bitbang \<Rightarrow> i2c_bitbang" where
  "ib_set clock d bb = bb\<lparr>ib_wire := ib_wire bb @ [(clock, d)]\<rparr>"

definition ib_get :: "i2c_bitbang \<Rightarrow> nat \<Rightarrow> u32 option" where
  "ib_get bb i = (if i < length (ib_data bb) then Some (ib_data bb ! i) else None)"

definition ib_put :: "nat \<Rightarrow> u32 \<Rightarrow> i2c_bitbang \<Rightarrow> i2c_bitbang option" where
  "ib_put i w bb = (if i < length (ib_data bb) then Some (bb\<lparr>ib_data := (ib_data bb)[i := w]\<rparr>) else None)"

definition i2c_read :: "u8 \<Rightarrow> u8 \<Rightarrow> i2c_bitbang \<Rightarrow> i2c_bitbang" where
  "i2c_read ads7 reg bb =
     bb\<lparr>ib_data := [push_bit 1 (ucast ads7), ucast reg, IBCONTROL_DO_START, push_bit 1 (ucast ads7) OR 1,
          IBCONTROL_DO_READ, IBCONTROL_DO_STOP, IBCONTROL_COMPLETE] @ drop 7 (ib_data bb), ib_state := IBS_INIT\<rparr>"

definition i2c_write :: "u8 \<Rightarrow> u8 \<Rightarrow> u8 \<Rightarrow> i2c_bitbang \<Rightarrow> i2c_bitbang" where
  "i2c_write ads7 reg b bb =
     bb\<lparr>ib_data := [push_bit 1 (ucast ads7), ucast reg, ucast b, IBCONTROL_DO_STOP, IBCONTROL_COMPLETE] @
          drop 5 (ib_data bb), ib_state := IBS_INIT\<rparr>"

text \<open>The switch on the next item of \<open>data\<close>, the same after a byte sent and after a byte received.\<close>

definition next_item :: "i2c_bitbang \<Rightarrow> (int \<times> i2c_bitbang) option" where
  "next_item bb =
     do { w \<leftarrow> ib_get bb (ib_index bb);
          if w = IBCONTROL_DO_START then Some (0, bb\<lparr>ib_state := IBS_START1, ib_index := ib_index bb + 1\<rparr>)
          else if w = IBCONTROL_DO_STOP then Some (0, bb\<lparr>ib_state := IBS_STOP1, ib_index := ib_index bb + 1\<rparr>)
          else if w = IBCONTROL_DO_READ then do {
            bb \<leftarrow> ib_put (ib_index_read bb) 0 bb;
            Some (0, bb\<lparr>ib_state := IBS_DATA_RX_S\<rparr>) }
          else if w = IBCONTROL_COMPLETE then Some (1, bb)
          else Some (0, bb\<lparr>ib_state := IBS_ADS_TX_S\<rparr>) }"

definition i2c_next_state :: "((bool \<times> bool) list \<Rightarrow> bool) \<Rightarrow> i2c_bitbang \<Rightarrow> (int \<times> i2c_bitbang) option" where
  "i2c_next_state sda bb =
     (case ib_state bb of
        IBS_INIT \<Rightarrow> Some (0, (ib_set True True (bb\<lparr>ib_index := 0, ib_index_read := 0\<rparr>))\<lparr>ib_state := IBS_START1\<rparr>)
      | IBS_START1 \<Rightarrow> Some (0, (ib_set True False bb)\<lparr>ib_state := IBS_START2\<rparr>)
      | IBS_START2 \<Rightarrow> Some (0, (ib_set False False bb)\<lparr>ib_count := 8, ib_state := IBS_ADS_TX_S\<rparr>)
      | IBS_ADS_TX_S \<Rightarrow> do {
          w \<leftarrow> ib_get bb (ib_index bb);
          Some (0, (ib_set False (bit w 7) bb)\<lparr>ib_state := IBS_ADS_TX_H\<rparr>) }
      | IBS_ADS_TX_H \<Rightarrow> do {
          w \<leftarrow> ib_get bb (ib_index bb);
          Some (0, (ib_set True (bit w 7) bb)\<lparr>ib_state := IBS_ADS_TX_L\<rparr>) }
      | IBS_ADS_TX_L \<Rightarrow> do {
          w \<leftarrow> ib_get bb (ib_index bb);
          bb \<leftarrow> ib_put (ib_index bb) (push_bit 1 w) (ib_set False (bit w 7) bb);
          let bb = bb\<lparr>ib_count := ib_count bb - 1\<rparr>;
          Some (0, if ib_count bb \<noteq> 0 then bb\<lparr>ib_state := IBS_ADS_TX_S\<rparr>
                   else (ib_set False True bb)\<lparr>ib_state := IBS_ADS_TX_ACK_H\<rparr>) }
      | IBS_ADS_TX_ACK_H \<Rightarrow>
          Some (if sda (ib_wire bb) then (- 1, bb) else (0, (ib_set True True bb)\<lparr>ib_state := IBS_ADS_TX_ACK_L\<rparr>))
      | IBS_ADS_TX_ACK_L \<Rightarrow>
          next_item ((ib_set False True bb)\<lparr>ib_count := 8, ib_index := ib_index bb + 1\<rparr>)
      | IBS_DATA_RX_S \<Rightarrow> Some (0, (ib_set False True bb)\<lparr>ib_state := IBS_DATA_RX_H\<rparr>)
      | IBS_DATA_RX_H \<Rightarrow> Some (0, (ib_set True True bb)\<lparr>ib_state := IBS_DATA_RX_L\<rparr>)
      | IBS_DATA_RX_L \<Rightarrow> do {
          w \<leftarrow> ib_get bb (ib_index_read bb);
          bb \<leftarrow> ib_put (ib_index_read bb) (push_bit 1 w OR of_bool (sda (ib_wire bb))) bb;
          let bb = bb\<lparr>ib_count := ib_count bb - 1\<rparr>;
          if ib_count bb \<noteq> 0 then Some (0, (ib_set False True bb)\<lparr>ib_state := IBS_DATA_RX_S\<rparr>)
          else do {
            next \<leftarrow> ib_get bb (ib_index bb + 1);
            Some (0, (ib_set False (next \<noteq> IBCONTROL_DO_READ) bb)\<lparr>ib_state := IBS_DATA_RX_ACK_H\<rparr>) } }
      | IBS_DATA_RX_ACK_H \<Rightarrow> do {
          next \<leftarrow> ib_get bb (ib_index bb + 1);
          Some (0, (ib_set True (next \<noteq> IBCONTROL_DO_READ) bb)\<lparr>ib_state := IBS_DATA_RX_ACK_L\<rparr>) }
      | IBS_DATA_RX_ACK_L \<Rightarrow> do {
          next \<leftarrow> ib_get bb (ib_index bb + 1);
          next_item ((ib_set False (next \<noteq> IBCONTROL_DO_READ) bb)
            \<lparr>ib_index_read := ib_index_read bb + 1, ib_index := ib_index bb + 1\<rparr>) }
      | IBS_STOP1 \<Rightarrow> Some (0, (ib_set False False bb)\<lparr>ib_state := IBS_STOP2\<rparr>)
      | IBS_STOP2 \<Rightarrow> Some (0, (ib_set True False bb)\<lparr>ib_state := IBS_STOP3\<rparr>)
      | IBS_STOP3 \<Rightarrow> Some (0, (ib_set True True bb)\<lparr>ib_state := IBS_STOP4\<rparr>)
      | IBS_STOP4 \<Rightarrow> Some (1, ib_set True True bb))"

partial_function (option) i2c_complete_synchronously ::
  "((bool \<times> bool) list \<Rightarrow> bool) \<Rightarrow> i2c_bitbang \<Rightarrow> (int \<times> i2c_bitbang) option" where
  "i2c_complete_synchronously sda bb =
     do { (ret, bb) \<leftarrow> i2c_next_state sda bb;
          if ret = 0 then i2c_complete_synchronously sda bb else Some (ret, bb) }"

definition i2c_read_sync ::
  "((bool \<times> bool) list \<Rightarrow> bool) \<Rightarrow> u8 \<Rightarrow> u8 \<Rightarrow> i2c_bitbang \<Rightarrow> (int \<times> i2c_bitbang) option" where
  "i2c_read_sync sda ads7 reg bb =
     do { (ret, bb) \<leftarrow> i2c_complete_synchronously sda (i2c_read ads7 reg bb);
          if ret < 0 then Some (- 1, bb)
          else do { w \<leftarrow> ib_get bb 0; Some (sint w, bb) } }"

definition i2c_write_sync ::
  "((bool \<times> bool) list \<Rightarrow> bool) \<Rightarrow> u8 \<Rightarrow> u8 \<Rightarrow> u8 \<Rightarrow> i2c_bitbang \<Rightarrow> i2c_bitbang option" where
  "i2c_write_sync sda ads7 reg b bb = map_option snd (i2c_complete_synchronously sda (i2c_write ads7 reg b bb))"

subsection \<open>What a device sees\<close>

text \<open>What is sent to write a register, and to ask for one.\<close>

definition write_symbols :: "u8 \<Rightarrow> u8 \<Rightarrow> u8 \<Rightarrow> i2c_symbol list" where
  "write_symbols ads7 reg b =
     [Sym_Start, Sym_Byte (bits_of (push_bit 1 ads7)) True, Sym_Byte (bits_of reg) True, Sym_Byte (bits_of b) True, Sym_Stop]"

definition ask_symbols :: "u8 \<Rightarrow> u8 \<Rightarrow> i2c_symbol list" where
  "ask_symbols ads7 reg =
     [Sym_Start, Sym_Byte (bits_of (push_bit 1 ads7)) True, Sym_Byte (bits_of reg) True,
      Sym_Start, Sym_Byte (bits_of (push_bit 1 ads7 OR 1)) True]"

text \<open>A device answers with \<open>v\<close>: while the clock is high, the data line carries the bits of \<open>v\<close>.\<close>

definition answers :: "((bool \<times> bool) list \<Rightarrow> bool) \<Rightarrow> u8 \<Rightarrow> u8 \<Rightarrow> u8 \<Rightarrow> bool" where
  "answers sda ads7 reg v \<longleftrightarrow>
     (\<forall>ws k. bus_symbols ws = ask_symbols ads7 reg \<longrightarrow> bus_pending ws = Suc k \<longrightarrow> fst (last ws) \<longrightarrow>
        sda ws = bit v (7 - k))"

subsection \<open>Steps\<close>

lemma complete_step:
  "i2c_next_state sda bb = Some (0, bb') \<Longrightarrow> i2c_complete_synchronously sda bb = i2c_complete_synchronously sda bb'"
  by (subst i2c_complete_synchronously.simps) simp

lemma complete_done:
  "i2c_next_state sda bb = Some (r, bb') \<Longrightarrow> r \<noteq> 0 \<Longrightarrow> i2c_complete_synchronously sda bb = Some (r, bb')"
  by (subst i2c_complete_synchronously.simps) simp

text \<open>The lines while the top \<open>n\<close> bits of an item are sent.\<close>

fun bits_wire :: "nat \<Rightarrow> u32 \<Rightarrow> (bool \<times> bool) list" where
  "bits_wire 0 w = []"
| "bits_wire (Suc n) w = [(False, bit w 7), (True, bit w 7), (False, bit w 7)] @ bits_wire n (push_bit 1 w)"

lemma tx_bit:
  assumes "ib_state bb = IBS_ADS_TX_S" "ib_index bb < length (ib_data bb)"
  defines "w \<equiv> ib_data bb ! ib_index bb"
  shows "i2c_complete_synchronously sda bb = i2c_complete_synchronously sda
    (bb\<lparr>ib_state := if ib_count bb = 1 then IBS_ADS_TX_ACK_H else IBS_ADS_TX_S, ib_count := ib_count bb - 1,
       ib_data := (ib_data bb)[ib_index bb := push_bit 1 w],
       ib_wire := ib_wire bb @ bits_wire 1 w @ (if ib_count bb = 1 then [(False, True)] else [])\<rparr>)"
proof -
  define b1 where "b1 = bb\<lparr>ib_state := IBS_ADS_TX_H, ib_wire := ib_wire bb @ [(False, bit w 7)]\<rparr>"
  define b2 where "b2 = b1\<lparr>ib_state := IBS_ADS_TX_L, ib_wire := ib_wire b1 @ [(True, bit w 7)]\<rparr>"
  let ?b3 = "bb\<lparr>ib_state := if ib_count bb = 1 then IBS_ADS_TX_ACK_H else IBS_ADS_TX_S, ib_count := ib_count bb - 1,
       ib_data := (ib_data bb)[ib_index bb := push_bit 1 w],
       ib_wire := ib_wire bb @ bits_wire 1 w @ (if ib_count bb = 1 then [(False, True)] else [])\<rparr>"
  have "i2c_next_state sda bb = Some (0, b1)"
    using assms by (simp add: i2c_next_state_def ib_get_def ib_set_def b1_def)
  moreover have "i2c_next_state sda b1 = Some (0, b2)"
    using assms by (simp add: i2c_next_state_def ib_get_def ib_set_def b1_def b2_def)
  moreover have "i2c_next_state sda b2 = Some (0, ?b3)"
    using assms by (simp add: i2c_next_state_def ib_get_def ib_set_def ib_put_def b1_def b2_def Let_def)
  ultimately show ?thesis by (metis complete_step)
qed

lemma tx_bits:
  assumes "ib_state bb = IBS_ADS_TX_S" "ib_count bb = int (Suc n)" "ib_index bb < length (ib_data bb)"
  shows "i2c_complete_synchronously sda bb = i2c_complete_synchronously sda
      (bb\<lparr>ib_state := IBS_ADS_TX_ACK_H, ib_count := 0,
         ib_data := (ib_data bb)[ib_index bb := push_bit (Suc n) (ib_data bb ! ib_index bb)],
         ib_wire := ib_wire bb @ bits_wire (Suc n) (ib_data bb ! ib_index bb) @ [(False, True)]\<rparr>)"
  using assms
proof (induction n arbitrary: bb)
  case (0 bb)
  then show ?case using tx_bit [of bb sda] by simp
next
  case (Suc n bb)
  let ?w = "ib_data bb ! ib_index bb"
  let ?b = "bb\<lparr>ib_state := IBS_ADS_TX_S, ib_count := int (Suc n), ib_data := (ib_data bb)[ib_index bb := push_bit 1 ?w],
     ib_wire := ib_wire bb @ bits_wire 1 ?w\<rparr>"
  have one: "i2c_complete_synchronously sda bb = i2c_complete_synchronously sda ?b"
  proof -
    have "ib_count bb - 1 = int (Suc n)" "ib_count bb \<noteq> 1" using Suc.prems(2) by simp_all
    then show ?thesis using tx_bit [OF Suc.prems(1,3), of sda] Suc.prems(1) by simp
  qed
  have "push_bit (Suc n) (push_bit 1 ?w) = push_bit (Suc (Suc n)) ?w" by (simp add: push_bit_push_bit)
  then show ?case
    using Suc.IH [of ?b] Suc.prems unfolding one by (simp del: push_bit_Suc push_bit_of_1)
qed

definition ack_wire :: "(bool \<times> bool) list" where "ack_wire = [(False, True), (True, True), (False, True)]"

definition continue ::
  "((bool \<times> bool) list \<Rightarrow> bool) \<Rightarrow> (int \<times> i2c_bitbang) option \<Rightarrow> (int \<times> i2c_bitbang) option" where
  "continue sda r = do { (ret, bb) \<leftarrow> r; if ret = 0 then i2c_complete_synchronously sda bb else Some (ret, bb) }"

lemma complete_continue: "i2c_complete_synchronously sda bb = continue sda (i2c_next_state sda bb)"
  unfolding continue_def by (rule i2c_complete_synchronously.simps)

lemma continue_simps [simp]:
  "continue sda (Some (0, bb)) = i2c_complete_synchronously sda bb"
  "r \<noteq> 0 \<Longrightarrow> continue sda (Some (r, bb)) = Some (r, bb)"
  by (simp_all add: continue_def)

lemma start_phase:
  assumes "ib_state bb = IBS_START1"
  shows "i2c_complete_synchronously sda bb = i2c_complete_synchronously sda
    (bb\<lparr>ib_count := 8, ib_wire := ib_wire bb @ [(True, False), (False, False)], ib_state := IBS_ADS_TX_S\<rparr>)"
proof -
  let ?b = "bb\<lparr>ib_state := IBS_START2, ib_wire := ib_wire bb @ [(True, False)]\<rparr>"
  have "i2c_next_state sda bb = Some (0, ?b)" "i2c_next_state sda ?b = Some (0,
      bb\<lparr>ib_count := 8, ib_wire := ib_wire bb @ [(True, False), (False, False)], ib_state := IBS_ADS_TX_S\<rparr>)"
    using assms by (simp_all add: i2c_next_state_def ib_set_def)
  then show ?thesis by (metis complete_step)
qed

lemma stop_phase:
  assumes "ib_state bb = IBS_STOP1"
  shows "i2c_complete_synchronously sda bb = Some (1, bb\<lparr>ib_state := IBS_STOP4,
    ib_wire := ib_wire bb @ [(False, False), (True, False), (True, True), (True, True)]\<rparr>)"
  using assms by (simp add: i2c_next_state_def ib_set_def complete_continue)

lemma tx_phase:
  fixes sda and bb
  defines "w \<equiv> ib_data bb ! ib_index bb"
  assumes "ib_state bb = IBS_ADS_TX_S" "ib_count bb = 8" "ib_index bb < length (ib_data bb)"
  shows "i2c_complete_synchronously sda bb =
    (if sda (ib_wire bb @ bits_wire 8 w @ [(False, True)])
     then Some (- 1, bb\<lparr>ib_state := IBS_ADS_TX_ACK_H, ib_count := 0,
       ib_data := (ib_data bb)[ib_index bb := push_bit 8 w], ib_wire := ib_wire bb @ bits_wire 8 w @ [(False, True)]\<rparr>)
     else continue sda (next_item (bb\<lparr>ib_state := IBS_ADS_TX_ACK_L, ib_count := 8,
       ib_data := (ib_data bb)[ib_index bb := push_bit 8 w], ib_index := ib_index bb + 1,
       ib_wire := ib_wire bb @ bits_wire 8 w @ ack_wire\<rparr>)))"
proof -
  let ?b = "bb\<lparr>ib_state := IBS_ADS_TX_ACK_H, ib_count := 0,
         ib_data := (ib_data bb)[ib_index bb := push_bit 8 w],
         ib_wire := ib_wire bb @ bits_wire 8 w @ [(False, True)]\<rparr>"
  have "i2c_complete_synchronously sda bb = i2c_complete_synchronously sda ?b"
    using tx_bits [of bb 7 sda] assms(2-) unfolding w_def by simp
  also have "\<dots> = (if sda (ib_wire bb @ bits_wire 8 w @ [(False, True)]) then Some (- 1, ?b)
      else continue sda (next_item (bb\<lparr>ib_state := IBS_ADS_TX_ACK_L, ib_count := 8,
       ib_data := (ib_data bb)[ib_index bb := push_bit 8 w], ib_index := ib_index bb + 1,
       ib_wire := ib_wire bb @ bits_wire 8 w @ ack_wire\<rparr>)))"
  proof (cases "sda (ib_wire bb @ bits_wire 8 w @ [(False, True)])")
    case True
    then show ?thesis by (simp add: complete_continue i2c_next_state_def)
  next
    case False
    let ?b2 = "?b\<lparr>ib_state := IBS_ADS_TX_ACK_L, ib_wire := ib_wire ?b @ [(True, True)]\<rparr>"
    have "i2c_next_state sda ?b = Some (0, ?b2)" using False by (simp add: i2c_next_state_def ib_set_def)
    then have "i2c_complete_synchronously sda ?b = continue sda (i2c_next_state sda ?b2)"
      unfolding complete_continue [symmetric] by (rule complete_step)
    moreover have "i2c_next_state sda ?b2 = next_item (bb\<lparr>ib_state := IBS_ADS_TX_ACK_L, ib_count := 8,
       ib_data := (ib_data bb)[ib_index bb := push_bit 8 w], ib_index := ib_index bb + 1,
       ib_wire := ib_wire bb @ bits_wire 8 w @ ack_wire\<rparr>)"
      unfolding i2c_next_state_def by (simp, rule arg_cong [where f = next_item], simp add: ib_set_def ack_wire_def)
    ultimately show ?thesis using False by simp
  qed
  finally show ?thesis .
qed

subsection \<open>Receiving\<close>

fun rx_wire :: "nat \<Rightarrow> (bool \<times> bool) list" where
  "rx_wire 0 = []"
| "rx_wire (Suc n) = [(False, True), (True, True), (False, True)] @ rx_wire n"

fun rx_value :: "((bool \<times> bool) list \<Rightarrow> bool) \<Rightarrow> (bool \<times> bool) list \<Rightarrow> nat \<Rightarrow> u32 \<Rightarrow> u32" where
  "rx_value sda ws 0 w = w"
| "rx_value sda ws (Suc n) w = rx_value sda (ws @ rx_wire 1) n
     (push_bit 1 w OR of_bool (sda (ws @ [(False, True), (True, True)])))"

lemma rx_bit:
  assumes "ib_state bb = IBS_DATA_RX_S" "ib_index_read bb < length (ib_data bb)" "Suc (ib_index bb) < length (ib_data bb)"
    "ib_index_read bb \<noteq> Suc (ib_index bb)"
  defines "w \<equiv> ib_data bb ! ib_index_read bb" and "nak \<equiv> ib_data bb ! Suc (ib_index bb) \<noteq> IBCONTROL_DO_READ"
  shows "i2c_complete_synchronously sda bb = i2c_complete_synchronously sda
    (bb\<lparr>ib_state := if ib_count bb = 1 then IBS_DATA_RX_ACK_H else IBS_DATA_RX_S, ib_count := ib_count bb - 1,
       ib_data := (ib_data bb)[ib_index_read bb := push_bit 1 w OR of_bool (sda (ib_wire bb @ [(False, True), (True, True)]))],
       ib_wire := ib_wire bb @ [(False, True), (True, True), (False, ib_count bb = 1 \<longrightarrow> nak)]\<rparr>)"
proof -
  define b1 where "b1 = bb\<lparr>ib_state := IBS_DATA_RX_H, ib_wire := ib_wire bb @ [(False, True)]\<rparr>"
  define b2 where "b2 = b1\<lparr>ib_state := IBS_DATA_RX_L, ib_wire := ib_wire b1 @ [(True, True)]\<rparr>"
  let ?b3 = "bb\<lparr>ib_state := if ib_count bb = 1 then IBS_DATA_RX_ACK_H else IBS_DATA_RX_S, ib_count := ib_count bb - 1,
       ib_data := (ib_data bb)[ib_index_read bb := push_bit 1 w OR of_bool (sda (ib_wire bb @ [(False, True), (True, True)]))],
       ib_wire := ib_wire bb @ [(False, True), (True, True), (False, ib_count bb = 1 \<longrightarrow> nak)]\<rparr>"
  have "i2c_next_state sda bb = Some (0, b1)"
    using assms by (simp add: i2c_next_state_def ib_set_def b1_def)
  moreover have "i2c_next_state sda b1 = Some (0, b2)"
    using assms by (simp add: i2c_next_state_def ib_set_def b1_def b2_def)
  moreover have "i2c_next_state sda b2 = Some (0, ?b3)"
    using assms by (simp add: i2c_next_state_def ib_get_def ib_set_def ib_put_def b1_def b2_def Let_def)
  ultimately show ?thesis by (metis complete_step)
qed

lemma rx_bits:
  assumes "ib_state bb = IBS_DATA_RX_S" "ib_index_read bb < length (ib_data bb)" "Suc (ib_index bb) < length (ib_data bb)"
    "ib_index_read bb \<noteq> Suc (ib_index bb)" "ib_count bb = int (Suc n)"
  shows "i2c_complete_synchronously sda bb = i2c_complete_synchronously sda
    (bb\<lparr>ib_state := IBS_DATA_RX_ACK_H, ib_count := 0,
       ib_data := (ib_data bb)[ib_index_read bb := rx_value sda (ib_wire bb) (Suc n) (ib_data bb ! ib_index_read bb)],
       ib_wire := ib_wire bb @ rx_wire n @
         [(False, True), (True, True), (False, ib_data bb ! Suc (ib_index bb) \<noteq> IBCONTROL_DO_READ)]\<rparr>)"
  using assms
proof (induction n arbitrary: bb)
  case (0 bb)
  then show ?case using rx_bit [of bb sda] by simp
next
  case (Suc n bb)
  let ?w = "ib_data bb ! ib_index_read bb"
  let ?v = "push_bit 1 ?w OR of_bool (sda (ib_wire bb @ [(False, True), (True, True)]))"
  let ?b = "bb\<lparr>ib_state := IBS_DATA_RX_S, ib_count := int (Suc n), ib_data := (ib_data bb)[ib_index_read bb := ?v],
     ib_wire := ib_wire bb @ rx_wire 1\<rparr>"
  have one: "i2c_complete_synchronously sda bb = i2c_complete_synchronously sda ?b"
  proof -
    have "ib_count bb - 1 = int (Suc n)" "ib_count bb \<noteq> 1" using Suc.prems(5) by simp_all
    then show ?thesis using rx_bit [OF Suc.prems(1-4), of sda] Suc.prems(1) by simp
  qed
  show ?case
    using Suc.IH [of ?b] Suc.prems unfolding one by (simp del: push_bit_Suc push_bit_of_1)
qed

lemma rx_phase:
  fixes sda and bb
  defines "nak \<equiv> ib_data bb ! Suc (ib_index bb) \<noteq> IBCONTROL_DO_READ"
  assumes "ib_state bb = IBS_DATA_RX_S" "ib_index_read bb < length (ib_data bb)" "Suc (ib_index bb) < length (ib_data bb)"
    "ib_index_read bb \<noteq> Suc (ib_index bb)" "ib_count bb = 8"
  shows "i2c_complete_synchronously sda bb = continue sda (next_item
    (bb\<lparr>ib_count := 0,
       ib_data := (ib_data bb)[ib_index_read bb := rx_value sda (ib_wire bb) 8 (ib_data bb ! ib_index_read bb)],
       ib_state := IBS_DATA_RX_ACK_L,
       ib_wire := ib_wire bb @ rx_wire 7 @ [(False, True), (True, True), (False, nak), (True, nak), (False, nak)],
       ib_index_read := ib_index_read bb + 1, ib_index := ib_index bb + 1\<rparr>))"
proof -
  let ?d = "(ib_data bb)[ib_index_read bb := rx_value sda (ib_wire bb) 8 (ib_data bb ! ib_index_read bb)]"
  let ?b = "bb\<lparr>ib_state := IBS_DATA_RX_ACK_H, ib_count := 0, ib_data := ?d,
       ib_wire := ib_wire bb @ rx_wire 7 @ [(False, True), (True, True), (False, nak)]\<rparr>"
  let ?b2 = "?b\<lparr>ib_state := IBS_DATA_RX_ACK_L, ib_wire := ib_wire ?b @ [(True, nak)]\<rparr>"
  have n: "?d ! Suc (ib_index bb) = ib_data bb ! Suc (ib_index bb)" using assms(5) by simp
  have "i2c_complete_synchronously sda bb = i2c_complete_synchronously sda ?b"
    using rx_bits [of bb 7 sda] assms(2-) unfolding nak_def by simp
  also have "\<dots> = i2c_complete_synchronously sda ?b2"
    using assms(4) n by (intro complete_step) (simp add: i2c_next_state_def ib_set_def ib_get_def nak_def)
  also have "\<dots> = continue sda (i2c_next_state sda ?b2)" by (rule complete_continue)
  finally show ?thesis
    using assms(4) n by (simp add: i2c_next_state_def ib_set_def ib_get_def nak_def)
qed

lemma rx_value_bits:
  assumes "\<And>i. i < n \<Longrightarrow> sda (ws @ rx_wire i @ [(False, True), (True, True)]) = bit v (n - 1 - i)"
  shows "rx_value sda ws n w = push_bit n w OR take_bit n v"
  using assms
proof (induction n arbitrary: ws w)
  case (Suc n)
  have 1: "sda (ws @ [(False, True), (True, True)]) = bit v n" using Suc.prems [of 0] by simp
  have 2: "sda ((ws @ rx_wire 1) @ rx_wire i @ [(False, True), (True, True)]) = bit v (n - 1 - i)" if "i < n" for i
    using Suc.prems [of "Suc i"] that by simp
  have "rx_value sda ws (Suc n) w = push_bit n (push_bit 1 w OR of_bool (bit v n)) OR take_bit n v"
    using Suc.IH [OF 2] 1 by simp
  also have "\<dots> = push_bit (Suc n) w OR take_bit (Suc n) v"
    by (rule bit_word_eqI) (auto simp: bit_simps less_Suc_eq simp del: push_bit_Suc push_bit_of_1)
  finally show ?case .
qed simp

subsection \<open>The steps on the bus\<close>

definition w8_bits :: "nat \<Rightarrow> u32 \<Rightarrow> bool list" where "w8_bits n w = map (\<lambda>i. bit w (7 - i)) [0..<n]"

lemma wire_events_bits:
  "n \<le> 8 \<Longrightarrow> \<exists>d'. wire_events (False, d) (bits_wire n w @ ws) = map Ev_Bit (w8_bits n w) @ wire_events (False, d') ws"
proof (induction n arbitrary: w d)
  case (Suc n)
  then obtain d' where "wire_events (False, bit w 7) (bits_wire n (push_bit 1 w) @ ws) =
      map Ev_Bit (w8_bits n (push_bit 1 w)) @ wire_events (False, d') ws"
    by fastforce
  moreover have "w8_bits (Suc n) w = bit w 7 # w8_bits n (push_bit 1 w)"
  proof -
    have "[0..<Suc n] = 0 # map Suc [0..<n]" by (simp add: upt_conv_Cons map_Suc_upt)
    moreover have "bit (push_bit 1 w) (7 - i) = bit w (7 - Suc i)" if "i < n" for i
    proof -
      have "7 - i = Suc (7 - Suc i)" using that Suc.prems by simp
      moreover have "6 - i < 31" by simp
      ultimately show ?thesis using that Suc.prems unfolding bit_push_bit_iff by simp
    qed
    ultimately show ?thesis by (simp add: w8_bits_def)
  qed
  ultimately show ?case by auto
qed (auto simp: w8_bits_def)

lemma events_byte:
  "wire_events (False, d) (bits_wire 8 w @ ack_wire @ ws) =
   map Ev_Bit (w8_bits 8 w) @ Ev_Bit True # wire_events (False, True) ws"
  using wire_events_bits [of 8 d w "ack_wire @ ws"] by (auto simp: ack_wire_def)

lemma length_w8_bits [simp]: "length (w8_bits n w) = n"
  by (simp add: w8_bits_def)

lemma w8_bits_of: "(\<And>i. i < 8 \<Longrightarrow> bit w i = bit v i) \<Longrightarrow> w8_bits 8 w = bits_of v"
  by (simp add: w8_bits_def bits_of_def)

lemma address_bits:
  "w8_bits 8 (push_bit 1 (ucast ads7)) = bits_of (push_bit 1 ads7)"
  "w8_bits 8 (push_bit 1 (ucast ads7) OR 1) = bits_of (push_bit 1 ads7 OR 1)"
  "w8_bits 8 (ucast (r :: u8)) = bits_of r"
  by (intro w8_bits_of; unfold bit_or_iff bit_push_bit_iff bit_ucast_iff bit_1_iff; auto)+

lemma at_bus_first: "at_bus [(True, True), (True, False), (False, False)] [Sym_Start] False"
  by (simp add: at_bus_def bus_symbols_def)

lemma at_bus_again: "at_bus ws ss True \<Longrightarrow> at_bus (ws @ [(True, False), (False, False)]) (ss @ [Sym_Start]) False"
  using at_bus_append [of ws ss True "[(True, False), (False, False)]"] by (auto simp: at_bus_def)

lemma at_bus_stop:
  "at_bus ws ss d \<Longrightarrow> bus_symbols (ws @ [(False, False), (True, False), (True, True), (True, True)]) = ss @ [Sym_Stop]"
  by (simp add: at_bus_append)

lemma at_bus_byte:
  assumes "at_bus ws ss d"
  shows "at_bus (ws @ bits_wire 8 w @ ack_wire) (ss @ [Sym_Byte (w8_bits 8 w) True]) True"
    "bus_pending (ws @ bits_wire 8 w @ [(False, True)]) = 8"
    "bus_symbols (ws @ bits_wire 8 w @ [(False, True)]) = ss"
proof -
  show "at_bus (ws @ bits_wire 8 w @ ack_wire) (ss @ [Sym_Byte (w8_bits 8 w) True]) True"
    using at_bus_append [OF assms, of "bits_wire 8 w @ ack_wire"] assms events_byte [of d w "[]"]
    by (simp add: at_bus_def symbols_bits) (simp add: ack_wire_def)
  obtain d' where "wire_events (False, d) (bits_wire 8 w @ [(False, True)]) = map Ev_Bit (w8_bits 8 w) @ wire_events (False, d') [(False, True)]"
    using wire_events_bits [of 8 d w "[(False, True)]"] by auto
  then show "bus_pending (ws @ bits_wire 8 w @ [(False, True)]) = 8"
    "bus_symbols (ws @ bits_wire 8 w @ [(False, True)]) = ss"
    using symbols_bits [of "[]" "w8_bits 8 w" "[]"]
    by (simp_all add: bus_pending_def at_bus_append [OF assms])
qed

lemma rx_events: "wire_events (False, True) (rx_wire n @ ws) = map Ev_Bit (replicate n True) @ wire_events (False, True) ws"
  by (induction n) auto

lemma at_bus_rx:
  assumes "at_bus ws ss True"
  shows "i < 8 \<Longrightarrow> bus_symbols (ws @ rx_wire i @ [(False, True), (True, True)]) = ss"
    "i < 8 \<Longrightarrow> bus_pending (ws @ rx_wire i @ [(False, True), (True, True)]) = Suc i"
    "at_bus (ws @ rx_wire 7 @ [(False, True), (True, True), (False, True), (True, True), (False, True)])
       (ss @ [Sym_Byte (replicate 8 True) True]) True"
proof -
  note ap = at_bus_append [OF assms]
  show "bus_symbols (ws @ rx_wire i @ [(False, True), (True, True)]) = ss" if "i < 8"
    using that symbols_bits(1) [of "[]" "replicate i True" "[Ev_Bit True]"] by (simp add: ap rx_events)
  show "bus_pending (ws @ rx_wire i @ [(False, True), (True, True)]) = Suc i" if "i < 8"
    using that symbols_bits(2) [of "[]" "replicate i True" "[Ev_Bit True]"] by (simp add: ap rx_events bus_pending_def)
  have "map Ev_Bit (replicate 7 True) @ [Ev_Bit True] = map Ev_Bit (replicate 8 True)"
    by (simp add: replicate_append_same [symmetric] eval_nat_numeral)
  show "at_bus (ws @ rx_wire 7 @ [(False, True), (True, True), (False, True), (True, True), (False, True)])
       (ss @ [Sym_Byte (replicate 8 True) True]) True"
    by (simp add: at_bus_def ap rx_events) (simp add: eval_nat_numeral)
qed

subsection \<open>Transactions\<close>

lemma item_not_control:
  "w = ucast (r :: u8) \<or> w = push_bit 1 (ucast r) OR 1 \<Longrightarrow>
   w \<noteq> IBCONTROL_DO_START \<and> w \<noteq> IBCONTROL_DO_STOP \<and> w \<noteq> IBCONTROL_DO_READ \<and> (w :: u32) \<noteq> IBCONTROL_COMPLETE"
proof -
  assume w: "w = ucast r \<or> w = push_bit 1 (ucast r) OR 1"
  have "\<not> bit r n" if "8 \<le> n" for n using bit_imp_le_length [of r n] that by auto
  then have "\<not> bit (ucast r :: u32) 31" "\<not> bit (push_bit 1 (ucast r) OR 1 :: u32) 31"
    unfolding bit_or_iff bit_push_bit_iff bit_ucast_iff bit_1_iff by simp_all
  then have "\<not> bit w 31" using w by metis
  moreover have "bit IBCONTROL_DO_START 31" "bit IBCONTROL_DO_STOP 31" "bit IBCONTROL_DO_READ 31" "bit IBCONTROL_COMPLETE 31"
    by (simp_all add: ibcontrol_defs)
  ultimately show ?thesis by metis
qed

lemma controls_differ [simp]:
  "IBCONTROL_DO_STOP \<noteq> IBCONTROL_DO_START" "IBCONTROL_DO_READ \<noteq> IBCONTROL_DO_START"
  "IBCONTROL_DO_READ \<noteq> IBCONTROL_DO_STOP" "IBCONTROL_COMPLETE \<noteq> IBCONTROL_DO_READ"
  "IBCONTROL_DO_STOP \<noteq> IBCONTROL_DO_READ"
  by (simp_all add: ibcontrol_defs)

lemma init_phase:
  assumes "ib_state bb = IBS_INIT"
  shows "i2c_complete_synchronously sda bb = i2c_complete_synchronously sda
    (bb\<lparr>ib_index := 0, ib_index_read := 0, ib_count := 8,
       ib_wire := ib_wire bb @ [(True, True), (True, False), (False, False)], ib_state := IBS_ADS_TX_S\<rparr>)"
proof -
  let ?b = "bb\<lparr>ib_state := IBS_START1, ib_index := 0, ib_index_read := 0, ib_wire := ib_wire bb @ [(True, True)]\<rparr>"
  have "i2c_next_state sda bb = Some (0, ?b)" using assms by (simp add: i2c_next_state_def ib_set_def)
  then have "i2c_complete_synchronously sda bb = i2c_complete_synchronously sda ?b" by (rule complete_step)
  then show ?thesis using start_phase [of ?b sda] by simp
qed

text \<open>One byte sent and acknowledged, with the bus in order, and what comes next.\<close>

lemma sent:
  assumes "ib_state bb = IBS_ADS_TX_S" "ib_count bb = 8" "Suc (ib_index bb) < length (ib_data bb)"
    and "at_bus (ib_wire bb) ss d" "acknowledges sda"
  shows "\<exists>bb'. i2c_complete_synchronously sda bb = continue sda (next_item bb') \<and>
    at_bus (ib_wire bb') (ss @ [Sym_Byte (w8_bits 8 (ib_data bb ! ib_index bb)) True]) True \<and>
    ib_count bb' = 8 \<and> ib_index bb' = Suc (ib_index bb) \<and> ib_index_read bb' = ib_index_read bb \<and>
    length (ib_data bb') = length (ib_data bb) \<and> (\<forall>i. i \<noteq> ib_index bb \<longrightarrow> ib_data bb' ! i = ib_data bb ! i)"
proof -
  let ?w = "ib_data bb ! ib_index bb"
  have "\<not> sda (ib_wire bb @ bits_wire 8 ?w @ [(False, True)])"
    using assms(5) at_bus_byte(2) [OF assms(4), of ?w] by (simp add: acknowledges_def)
  then have "i2c_complete_synchronously sda bb = continue sda (next_item (bb\<lparr>ib_state := IBS_ADS_TX_ACK_L, ib_count := 8,
       ib_data := (ib_data bb)[ib_index bb := push_bit 8 ?w], ib_index := ib_index bb + 1,
       ib_wire := ib_wire bb @ bits_wire 8 ?w @ ack_wire\<rparr>))"
    using tx_phase [OF assms(1,2), of sda] assms(3) by simp
  then show ?thesis using at_bus_byte(1) [OF assms(4), of ?w] by (intro exI conjI) (assumption, simp_all)
qed

lemma sent_next:
  assumes "ib_count bb = 8" "Suc (ib_index bb) < length (ib_data bb)" "at_bus (ib_wire bb) ss d" "acknowledges sda"
  shows "\<exists>bb'. i2c_complete_synchronously sda (bb\<lparr>ib_state := IBS_ADS_TX_S\<rparr>) = continue sda (next_item bb') \<and>
    at_bus (ib_wire bb') (ss @ [Sym_Byte (w8_bits 8 (ib_data bb ! ib_index bb)) True]) True \<and>
    ib_count bb' = 8 \<and> ib_index bb' = Suc (ib_index bb) \<and> ib_index_read bb' = ib_index_read bb \<and>
    length (ib_data bb') = length (ib_data bb) \<and> (\<forall>i. i \<noteq> ib_index bb \<longrightarrow> ib_data bb' ! i = ib_data bb ! i)"
  using sent [of "bb\<lparr>ib_state := IBS_ADS_TX_S\<rparr>" ss d sda] assms by simp

lemma next_item_byte:
  assumes "ib_index bb < length (ib_data bb)" "w = ib_data bb ! ib_index bb"
    "w = ucast (r :: u8) \<or> w = push_bit 1 (ucast r) OR 1"
  shows "next_item bb = Some (0, bb\<lparr>ib_state := IBS_ADS_TX_S\<rparr>)"
  using item_not_control [OF assms(3)] assms(1,2) by (simp add: next_item_def ib_get_def)

lemma sint_small: "uint (w :: u32) < 2147483648 \<Longrightarrow> sint w = uint w"
proof -
  assume "uint w < 2147483648"
  moreover have "- 2147483648 \<le> uint w" by (rule order_trans [OF _ uint_ge_0]) simp
  ultimately have "signed_take_bit 31 (uint w) = uint w" by (intro signed_take_bit_int_eq_self) simp_all
  then show ?thesis by (simp add: sint_uint)
qed

text \<open>Every transaction starts with the address and the register.\<close>

lemma address_register:
  assumes "ib_state bb = IBS_INIT" "ib_wire bb = []" "acknowledges sda" "2 < length (ib_data bb)"
    and "ib_data bb ! 0 = push_bit 1 (ucast ads7)" "ib_data bb ! 1 = ucast reg"
  shows "\<exists>b2. i2c_complete_synchronously sda bb = continue sda (next_item b2) \<and>
    at_bus (ib_wire b2) [Sym_Start, Sym_Byte (bits_of (push_bit 1 ads7)) True, Sym_Byte (bits_of reg) True] True \<and>
    ib_count b2 = 8 \<and> ib_index b2 = 2 \<and> ib_index_read b2 = 0 \<and> length (ib_data b2) = length (ib_data bb) \<and>
    (\<forall>i. 2 \<le> i \<longrightarrow> ib_data b2 ! i = ib_data bb ! i)"
proof -
  define b0 where "b0 = bb\<lparr>ib_index := 0, ib_index_read := 0, ib_count := 8,
    ib_wire := [(True, True), (True, False), (False, False)], ib_state := IBS_ADS_TX_S\<rparr>"
  have run: "i2c_complete_synchronously sda bb = i2c_complete_synchronously sda b0"
    using init_phase [of bb sda] assms(1,2) by (simp add: b0_def)
  have s0: "ib_state b0 = IBS_ADS_TX_S" "ib_count b0 = 8" "Suc (ib_index b0) < length (ib_data b0)" "ib_index b0 = 0"
    "ib_index_read b0 = 0" "ib_data b0 = ib_data bb" "at_bus (ib_wire b0) [Sym_Start] False"
    using assms(4) at_bus_first by (simp_all add: b0_def)
  obtain b1 where b1: "i2c_complete_synchronously sda b0 = continue sda (next_item b1)"
    "at_bus (ib_wire b1) [Sym_Start, Sym_Byte (bits_of (push_bit 1 ads7)) True] True"
    "ib_count b1 = 8" "ib_index b1 = 1" "ib_index_read b1 = 0" "length (ib_data b1) = length (ib_data bb)"
    "\<forall>i. i \<noteq> 0 \<longrightarrow> ib_data b1 ! i = ib_data bb ! i"
    using sent [OF s0(1-3,7) assms(3)] s0(4-6) assms(5) address_bits(1) [of ads7] by auto
  have n1: "next_item b1 = Some (0, b1\<lparr>ib_state := IBS_ADS_TX_S\<rparr>)"
    using b1 assms(4,6) by (intro next_item_byte) auto
  obtain b2 where b2: "i2c_complete_synchronously sda (b1\<lparr>ib_state := IBS_ADS_TX_S\<rparr>) = continue sda (next_item b2)"
    "at_bus (ib_wire b2) ([Sym_Start, Sym_Byte (bits_of (push_bit 1 ads7)) True] @ [Sym_Byte (bits_of reg) True]) True"
    "ib_count b2 = 8" "ib_index b2 = 2" "ib_index_read b2 = 0" "length (ib_data b2) = length (ib_data bb)"
    "\<forall>i. i \<noteq> 1 \<longrightarrow> ib_data b2 ! i = ib_data b1 ! i"
    using sent_next [OF b1(3) _ b1(2) assms(3)] b1 assms(4,6) address_bits(3) [of reg] by auto
  show ?thesis
    using b2 b1(1,7) n1 run by (intro exI [of _ b2]) simp
qed

text \<open>Whatever the line does, a byte is refused or it is sent and the next item is looked at.\<close>

lemma sent_or_refused:
  assumes "ib_count bb = 8" "Suc (ib_index bb) < length (ib_data bb)"
  shows "(\<exists>x. i2c_complete_synchronously sda (bb\<lparr>ib_state := IBS_ADS_TX_S\<rparr>) = Some (- 1, x)) \<or>
    (\<exists>bb'. i2c_complete_synchronously sda (bb\<lparr>ib_state := IBS_ADS_TX_S\<rparr>) = continue sda (next_item bb') \<and>
    ib_count bb' = 8 \<and> ib_index bb' = Suc (ib_index bb) \<and> ib_index_read bb' = ib_index_read bb \<and>
    length (ib_data bb') = length (ib_data bb) \<and> (\<forall>i. i \<noteq> ib_index bb \<longrightarrow> ib_data bb' ! i = ib_data bb ! i))"
    (is "?refused \<or> ?sent")
proof -
  define w where "w = ib_data bb ! ib_index bb"
  define b1 where "b1 = bb\<lparr>ib_state := IBS_ADS_TX_ACK_L, ib_count := 8, ib_data := (ib_data bb)[ib_index bb := push_bit 8 w],
     ib_index := ib_index bb + 1, ib_wire := ib_wire bb @ bits_wire 8 w @ ack_wire\<rparr>"
  have b1: "ib_count b1 = 8" "ib_index b1 = Suc (ib_index bb)" "ib_index_read b1 = ib_index_read bb"
    "length (ib_data b1) = length (ib_data bb)" "\<forall>i. i \<noteq> ib_index bb \<longrightarrow> ib_data b1 ! i = ib_data bb ! i"
    by (simp_all add: b1_def)
  show ?thesis
  proof (cases "sda (ib_wire bb @ bits_wire 8 w @ [(False, True)])")
    case True
    then have ?refused using tx_phase [of "bb\<lparr>ib_state := IBS_ADS_TX_S\<rparr>" sda] assms unfolding w_def by auto
    then show ?thesis ..
  next
    case False
    then have "i2c_complete_synchronously sda (bb\<lparr>ib_state := IBS_ADS_TX_S\<rparr>) = continue sda (next_item b1)"
      using tx_phase [of "bb\<lparr>ib_state := IBS_ADS_TX_S\<rparr>" sda] assms unfolding b1_def w_def by auto
    then show ?thesis using b1 by blast
  qed
qed

lemma rx_value_bound: "\<exists>v. rx_value sda ws n w = push_bit n w OR take_bit n v"
proof (induction n arbitrary: ws w)
  case (Suc n)
  let ?b = "sda (ws @ [(False, True), (True, True)])"
  obtain v where "rx_value sda ws (Suc n) w = push_bit n (push_bit 1 w OR of_bool ?b) OR take_bit n v"
    using Suc.IH [of "ws @ rx_wire 1" "push_bit 1 w OR of_bool ?b"] by (simp only: rx_value.simps) blast
  also have "\<dots> = push_bit (Suc n) w OR take_bit (Suc n) (take_bit n v OR push_bit n (of_bool ?b))"
    by (rule bit_word_eqI) (auto simp: bit_simps less_Suc_eq simp del: push_bit_Suc push_bit_of_1)
  finally show ?case by blast
qed (intro exI [of _ 0], simp)

lemma transaction_starts:
  assumes "ib_state bb = IBS_INIT" "2 < length (ib_data bb)" "ib_data bb ! 1 = ucast (reg :: u8)"
  shows "(\<exists>x. i2c_complete_synchronously sda bb = Some (- 1, x)) \<or>
    (\<exists>b2. i2c_complete_synchronously sda bb = continue sda (next_item b2) \<and> ib_count b2 = 8 \<and> ib_index b2 = 2 \<and>
    ib_index_read b2 = 0 \<and> length (ib_data b2) = length (ib_data bb) \<and> (\<forall>i. 2 \<le> i \<longrightarrow> ib_data b2 ! i = ib_data bb ! i))"
    (is "?refused \<or> ?sent")
proof -
  define b0 where "b0 = bb\<lparr>ib_index := 0, ib_index_read := 0, ib_count := 8,
    ib_wire := ib_wire bb @ [(True, True), (True, False), (False, False)]\<rparr>"
  have run: "i2c_complete_synchronously sda bb = i2c_complete_synchronously sda (b0\<lparr>ib_state := IBS_ADS_TX_S\<rparr>)"
    using init_phase [of bb sda] assms(1) by (simp add: b0_def)
  have s0: "ib_count b0 = 8" "Suc (ib_index b0) < length (ib_data b0)" "ib_index b0 = 0" "ib_index_read b0 = 0"
    "ib_data b0 = ib_data bb"
    using assms(2) by (simp_all add: b0_def)
  show ?thesis
    using sent_or_refused [OF s0(1,2), of sda]
  proof (elim disjE exE conjE)
    fix b1 assume b1: "i2c_complete_synchronously sda (b0\<lparr>ib_state := IBS_ADS_TX_S\<rparr>) = continue sda (next_item b1)"
      "ib_count b1 = 8" "ib_index b1 = Suc (ib_index b0)" "ib_index_read b1 = ib_index_read b0"
      "length (ib_data b1) = length (ib_data b0)" "\<forall>i. i \<noteq> ib_index b0 \<longrightarrow> ib_data b1 ! i = ib_data b0 ! i"
    have n1: "next_item b1 = Some (0, b1\<lparr>ib_state := IBS_ADS_TX_S\<rparr>)"
      using b1 s0 assms(2,3) by (intro next_item_byte) auto
    have "Suc (ib_index b1) < length (ib_data b1)" using b1 s0 assms(2) by simp
    from sent_or_refused [OF b1(2) this, of sda] show ?thesis
      using run b1 n1 s0 by (elim disjE exE) (auto simp: numeral_2_eq_2)
  qed (use run in simp)
qed

text \<open>A device with the value \<open>v\<close> in the register \<open>reg\<close>.\<close>

definition demo_device :: "u8 \<Rightarrow> u8 \<Rightarrow> u8 \<Rightarrow> (bool \<times> bool) list \<Rightarrow> bool" where
  "demo_device ads7 reg v ws =
     (if bus_pending ws = 8 \<and> \<not> fst (last ws) then False
      else if bus_symbols ws = ask_symbols ads7 reg \<and> fst (last ws) then bit v (8 - bus_pending ws) else True)"

lemma demo_device_ok: "acknowledges (demo_device ads7 reg v)" "answers (demo_device ads7 reg v) ads7 reg v"
  by (simp_all add: acknowledges_def answers_def demo_device_def)

definition demo_bb :: i2c_bitbang where
  "demo_bb = \<lparr>ib_state = IBS_INIT, ib_count = 0, ib_data = replicate 8 0, ib_index = 0, ib_index_read = 0, ib_wire = []\<rparr>"

lemma demo_bb_ok: "length (ib_data demo_bb) = 8" "ib_wire demo_bb = []"
  by (simp_all add: demo_bb_def)

subsection \<open>Properties\<close>

text \<open>C18. Writing a register: on an idle bus with a device that acknowledges every byte, i2c_write_sync
  ends, and what the device sees on the two lines is a start, the address with the write bit, the register,
  the value, each with the data line released for the acknowledge bit, and a stop.\<close>

theorem i2c_write_sends:
  assumes "length (ib_data bb) = 8" "ib_wire bb = []" "acknowledges sda"
  shows "\<exists>bb'. i2c_write_sync sda ads7 reg b bb = Some bb' \<and> bus_symbols (ib_wire bb') = write_symbols ads7 reg b"
proof -
  obtain b2 where b2: "i2c_complete_synchronously sda (i2c_write ads7 reg b bb) = continue sda (next_item b2)"
    "at_bus (ib_wire b2) [Sym_Start, Sym_Byte (bits_of (push_bit 1 ads7)) True, Sym_Byte (bits_of reg) True] True"
    "ib_count b2 = 8" "ib_index b2 = 2" "length (ib_data b2) = 8" "ib_data b2 ! 2 = ucast b"
    "ib_data b2 ! 3 = IBCONTROL_DO_STOP"
    using address_register [of "i2c_write ads7 reg b bb" sda ads7 reg] assms by (auto simp: i2c_write_def)
  have n2: "next_item b2 = Some (0, b2\<lparr>ib_state := IBS_ADS_TX_S\<rparr>)"
    using b2 by (intro next_item_byte) auto
  obtain b3 where b3: "i2c_complete_synchronously sda (b2\<lparr>ib_state := IBS_ADS_TX_S\<rparr>) = continue sda (next_item b3)"
    "at_bus (ib_wire b3) [Sym_Start, Sym_Byte (bits_of (push_bit 1 ads7)) True, Sym_Byte (bits_of reg) True,
       Sym_Byte (bits_of b) True] True"
    "ib_index b3 = 3" "length (ib_data b3) = 8" "ib_data b3 ! 3 = IBCONTROL_DO_STOP"
    using sent_next [OF b2(3) _ b2(2) assms(3)] b2 address_bits(3) [of b] by auto
  have n3: "next_item b3 = Some (0, b3\<lparr>ib_state := IBS_STOP1, ib_index := 4\<rparr>)"
    using b3 by (simp add: next_item_def ib_get_def)
  show ?thesis
    using b2(1) b3(1) n2 n3 at_bus_stop [OF b3(2)]
    by (simp add: i2c_write_sync_def stop_phase write_symbols_def)
qed

theorem i2c_write_sends_witness:
  "\<exists>bb'. i2c_write_sync (demo_device 0x73 2 0xA5) 0x73 7 0x3C demo_bb = Some bb' \<and>
     bus_symbols (ib_wire bb') = write_symbols 0x73 7 0x3C"
  using i2c_write_sends [OF demo_bb_ok demo_device_ok(1)] by blast

text \<open>A read up to the place where the device puts its byte on the bus: address and register, the repeated
  start, and the address again with the read bit.\<close>

lemma asked_for_register:
  assumes "length (ib_data bb) = 8" "ib_wire bb = []" "acknowledges sda"
  obtains b4 where "i2c_complete_synchronously sda (i2c_read ads7 reg bb) = continue sda (next_item b4)"
    "at_bus (ib_wire b4) (ask_symbols ads7 reg) True" "ib_count b4 = 8" "ib_index b4 = 4" "ib_index_read b4 = 0"
    "length (ib_data b4) = 8" "ib_data b4 ! 4 = IBCONTROL_DO_READ" "ib_data b4 ! 5 = IBCONTROL_DO_STOP"
proof -
  obtain b2 where b2: "i2c_complete_synchronously sda (i2c_read ads7 reg bb) = continue sda (next_item b2)"
    "at_bus (ib_wire b2) [Sym_Start, Sym_Byte (bits_of (push_bit 1 ads7)) True, Sym_Byte (bits_of reg) True] True"
    "ib_count b2 = 8" "ib_index b2 = 2" "ib_index_read b2 = 0" "length (ib_data b2) = 8"
    "ib_data b2 ! 2 = IBCONTROL_DO_START" "ib_data b2 ! 3 = push_bit 1 (ucast ads7) OR 1"
    "ib_data b2 ! 4 = IBCONTROL_DO_READ" "ib_data b2 ! 5 = IBCONTROL_DO_STOP"
    using address_register [of "i2c_read ads7 reg bb" sda ads7 reg] assms by (auto simp: i2c_read_def)
  define b3 where "b3 = b2\<lparr>ib_index := 3, ib_count := 8,
    ib_wire := ib_wire b2 @ [(True, False), (False, False)], ib_state := IBS_ADS_TX_S\<rparr>"
  have n2: "next_item b2 = Some (0, b2\<lparr>ib_state := IBS_START1, ib_index := 3\<rparr>)"
    using b2 by (simp add: next_item_def ib_get_def)
  have run3: "i2c_complete_synchronously sda (b2\<lparr>ib_state := IBS_START1, ib_index := 3\<rparr>) = i2c_complete_synchronously sda b3"
    using start_phase [of "b2\<lparr>ib_state := IBS_START1, ib_index := 3\<rparr>" sda] by (simp add: b3_def)
  have s3: "at_bus (ib_wire b3) [Sym_Start, Sym_Byte (bits_of (push_bit 1 ads7)) True, Sym_Byte (bits_of reg) True, Sym_Start] False"
    using at_bus_again [OF b2(2)] by (simp add: b3_def)
  obtain b4 where "i2c_complete_synchronously sda b3 = continue sda (next_item b4)"
    "at_bus (ib_wire b4) (ask_symbols ads7 reg) True" "ib_count b4 = 8" "ib_index b4 = 4" "ib_index_read b4 = 0"
    "length (ib_data b4) = 8" "ib_data b4 ! 4 = IBCONTROL_DO_READ" "ib_data b4 ! 5 = IBCONTROL_DO_STOP"
    using sent [of b3 _ False sda, OF _ _ _ s3 assms(3)] b2 address_bits(2) [of ads7] by (auto simp: b3_def ask_symbols_def)
  then show ?thesis
    using b2(1) n2 run3 by (intro that) simp_all
qed

text \<open>The byte that comes in is the one that the device puts out.\<close>

lemma received_byte:
  assumes "at_bus ws (ask_symbols ads7 reg) True" "answers sda ads7 reg v"
  shows "rx_value sda ws 8 0 = ucast v"
proof -
  have "sda (ws @ rx_wire i @ [(False, True), (True, True)]) = bit (ucast v :: u32) (8 - 1 - i)" if "i < 8" for i
  proof -
    have "7 - i < 32" by simp
    then show ?thesis
      using at_bus_rx(1,2) [OF assms(1) that] that assms(2) by (simp add: answers_def bit_ucast_iff)
  qed
  then have "rx_value sda ws 8 0 = push_bit 8 0 OR take_bit 8 (ucast v :: u32)" by (intro rx_value_bits) simp
  also have "\<dots> = ucast v"
    by (rule bit_word_eqI) (auto simp: bit_simps dest: bit_imp_le_length)
  finally show ?thesis .
qed

lemma sint_byte: "sint (ucast (v :: u8) :: u32) = uint v"
proof -
  have "uint v < 256" using uint_lt2p [of v] by simp
  then show ?thesis using sint_small [of "ucast v :: u32"] by (simp add: unsigned_ucast_eq take_bit_int_eq_self)
qed

text \<open>C19. Reading a register: with a device that acknowledges every byte and answers the request for the
  register with the bits of a value, i2c_read_sync ends and returns that value, and the lines show the
  request with its repeated start, a byte during which the data line is released and which is not
  acknowledged, and a stop.\<close>

theorem i2c_read_gets:
  assumes "length (ib_data bb) = 8" "ib_wire bb = []" "acknowledges sda" "answers sda ads7 reg v"
  shows "\<exists>bb'. i2c_read_sync sda ads7 reg bb = Some (uint v, bb') \<and>
    bus_symbols (ib_wire bb') = ask_symbols ads7 reg @ [Sym_Byte (replicate 8 True) True, Sym_Stop]"
proof -
  obtain b4 where b4: "i2c_complete_synchronously sda (i2c_read ads7 reg bb) = continue sda (next_item b4)"
    "at_bus (ib_wire b4) (ask_symbols ads7 reg) True" "ib_count b4 = 8" "ib_index b4 = 4" "ib_index_read b4 = 0"
    "length (ib_data b4) = 8" "ib_data b4 ! 4 = IBCONTROL_DO_READ" "ib_data b4 ! 5 = IBCONTROL_DO_STOP"
    using asked_for_register [OF assms(1-3), of ads7 reg] by blast
  define b5 where "b5 = b4\<lparr>ib_data := (ib_data b4)[0 := 0], ib_state := IBS_DATA_RX_S\<rparr>"
  have n4: "next_item b4 = Some (0, b5)"
    using b4 by (simp add: next_item_def ib_get_def ib_put_def b5_def)
  have got: "rx_value sda (ib_wire b5) 8 0 = ucast v"
    using received_byte [OF b4(2) assms(4)] by (simp add: b5_def)
  let ?w = "ib_wire b5 @ rx_wire 7 @ [(False, True), (True, True), (False, True), (True, True), (False, True)]"
  let ?b6 = "b5\<lparr>ib_count := 0, ib_data := (ib_data b5)[0 := ucast v], ib_state := IBS_DATA_RX_ACK_L,
       ib_wire := ?w, ib_index_read := 1, ib_index := 5\<rparr>"
  have "i2c_complete_synchronously sda b5 = continue sda (next_item ?b6)"
    using rx_phase [of b5 sda] b4 got by (simp add: b5_def)
  moreover have "next_item ?b6 = Some (0, ?b6\<lparr>ib_state := IBS_STOP1, ib_index := 6\<rparr>)"
    using b4 by (simp add: next_item_def ib_get_def b5_def)
  moreover have "bus_symbols (?w @ [(False, False), (True, False), (True, True), (True, True)]) =
      ask_symbols ads7 reg @ [Sym_Byte (replicate 8 True) True, Sym_Stop]"
    using at_bus_stop [OF at_bus_rx(3) [OF b4(2)]] by (simp add: b5_def)
  moreover have "ib_data b4 \<noteq> []" using b4(6) by auto
  ultimately show ?thesis
    using b4(1,6) n4 by (simp add: i2c_read_sync_def stop_phase ib_get_def b5_def sint_byte)
qed

theorem i2c_read_gets_witness:
  "\<exists>bb'. i2c_read_sync (demo_device 0x73 2 0xA5) 0x73 2 demo_bb = Some (0xA5, bb')"
  using i2c_read_gets [OF demo_bb_ok demo_device_ok, of "0x73" 2 "0xA5"] by auto

text \<open>The synchronous read always ends: whatever the data line does, i2c_read_sync stays inside its
  array of items, comes to an end and returns -1 or a byte.\<close>

theorem i2c_read_total:
  assumes "length (ib_data bb) = 8"
  shows "\<exists>r bb'. i2c_read_sync sda ads7 reg bb = Some (r, bb') \<and> - 1 \<le> r \<and> r \<le> 255"
proof -
  have d: "length (ib_data (i2c_read ads7 reg bb)) = 8" "ib_data (i2c_read ads7 reg bb) ! 2 = IBCONTROL_DO_START"
    "ib_data (i2c_read ads7 reg bb) ! 1 = ucast reg" "ib_state (i2c_read ads7 reg bb) = IBS_INIT"
    "ib_data (i2c_read ads7 reg bb) ! 4 = IBCONTROL_DO_READ" "ib_data (i2c_read ads7 reg bb) ! 5 = IBCONTROL_DO_STOP"
    using assms by (simp_all add: i2c_read_def)
  have "2 < length (ib_data (i2c_read ads7 reg bb))" using d(1) by simp
  from transaction_starts [OF d(4) this d(3), of sda] show ?thesis
  proof (elim disjE exE conjE)
    fix b2 assume b2: "i2c_complete_synchronously sda (i2c_read ads7 reg bb) = continue sda (next_item b2)"
      "ib_count b2 = 8" "ib_index b2 = 2" "ib_index_read b2 = 0"
      "length (ib_data b2) = length (ib_data (i2c_read ads7 reg bb))"
      "\<forall>i. 2 \<le> i \<longrightarrow> ib_data b2 ! i = ib_data (i2c_read ads7 reg bb) ! i"
    define b3 where "b3 = b2\<lparr>ib_index := 3, ib_count := 8, ib_wire := ib_wire b2 @ [(True, False), (False, False)]\<rparr>"
    have n2: "next_item b2 = Some (0, b2\<lparr>ib_state := IBS_START1, ib_index := 3\<rparr>)"
      using b2 d by (simp add: next_item_def ib_get_def)
    have run3: "i2c_complete_synchronously sda (b2\<lparr>ib_state := IBS_START1, ib_index := 3\<rparr>) =
        i2c_complete_synchronously sda (b3\<lparr>ib_state := IBS_ADS_TX_S\<rparr>)"
      using start_phase [of "b2\<lparr>ib_state := IBS_START1, ib_index := 3\<rparr>" sda] by (simp add: b3_def)
    have s3: "ib_count b3 = 8" "Suc (ib_index b3) < length (ib_data b3)" using b2 d by (simp_all add: b3_def)
    from sent_or_refused [OF s3, of sda] show ?thesis
    proof (elim disjE exE conjE)
      fix x assume "i2c_complete_synchronously sda (b3\<lparr>ib_state := IBS_ADS_TX_S\<rparr>) = Some (- 1, x)"
      then show ?thesis using b2(1) n2 run3 by (simp add: i2c_read_sync_def)
    next
      fix b4 assume b4: "i2c_complete_synchronously sda (b3\<lparr>ib_state := IBS_ADS_TX_S\<rparr>) = continue sda (next_item b4)"
        "ib_count b4 = 8" "ib_index b4 = Suc (ib_index b3)" "ib_index_read b4 = ib_index_read b3"
        "length (ib_data b4) = length (ib_data b3)" "\<forall>i. i \<noteq> ib_index b3 \<longrightarrow> ib_data b4 ! i = ib_data b3 ! i"
      have b4': "ib_index b4 = 4" "ib_index_read b4 = 0" "length (ib_data b4) = 8"
        "ib_data b4 ! 4 = IBCONTROL_DO_READ" "ib_data b4 ! 5 = IBCONTROL_DO_STOP"
        using b4 b2 d by (simp_all add: b3_def)
      define b5 where "b5 = b4\<lparr>ib_data := (ib_data b4)[0 := 0], ib_state := IBS_DATA_RX_S\<rparr>"
      define w where "w = ib_wire b5 @ rx_wire 7 @ [(False, True), (True, True), (False, True), (True, True), (False, True)]"
      define v where "v = rx_value sda (ib_wire b5) 8 0"
      define b6 where "b6 = b5\<lparr>ib_count := 0, ib_data := (ib_data b5)[0 := v], ib_state := IBS_DATA_RX_ACK_L,
         ib_wire := w, ib_index_read := 1, ib_index := 5\<rparr>"
      have n4: "next_item b4 = Some (0, b5)"
        using b4' by (simp add: next_item_def ib_get_def ib_put_def b5_def)
      have n6: "next_item b6 = Some (0, b6\<lparr>ib_state := IBS_STOP1, ib_index := 6\<rparr>)"
        using b4' by (simp add: next_item_def ib_get_def b5_def b6_def)
      have run5: "i2c_complete_synchronously sda b5 = continue sda (next_item b6)"
        using rx_phase [of b5 sda] b4(2) b4' by (simp add: b5_def b6_def v_def w_def)
      have "sint v \<le> 255 \<and> 0 \<le> sint v"
      proof -
        obtain u where "v = take_bit 8 u" using rx_value_bound [of sda "ib_wire b5" 8 0] by (auto simp: v_def)
        then have "uint v = take_bit 8 (uint u)" by (simp only: unsigned_take_bit_eq)
        then have "uint v < 256" using take_bit_int_less_exp [of 8 "uint u"] by simp
        then have "sint v = uint v" by (intro sint_small) simp
        then show ?thesis using \<open>uint v < 256\<close> by simp
      qed
      moreover have nonempty: "ib_data b4 \<noteq> []" using b4'(3) by auto
      moreover have "i2c_read_sync sda ads7 reg bb =
          Some (sint v, b6\<lparr>ib_state := IBS_STOP4, ib_index := 6,
            ib_wire := w @ [(False, False), (True, False), (True, True), (True, True)]\<rparr>)"
        using b2(1) n2 run3 b4(1) n4 n6 run5 b4'(3) nonempty
        by (simp add: i2c_read_sync_def stop_phase ib_get_def b5_def b6_def)
      ultimately show ?thesis by simp
    qed
  qed (simp add: i2c_read_sync_def)
qed

theorem i2c_read_total_witness:
  "\<exists>r bb'. i2c_read_sync (\<lambda>ws. odd (length ws)) 0x73 2 demo_bb = Some (r, bb') \<and> - 1 \<le> r \<and> r \<le> 255"
  by (rule i2c_read_total [OF demo_bb_ok(1)])

text \<open>Without a device the transaction is broken off after the address, i2c_read_sync returns -1 and
  i2c_write_sync just returns; the bus is left after its start, with no stop.\<close>

theorem i2c_no_device:
  "length (ib_data bb) = 8 \<Longrightarrow> ib_wire bb = [] \<Longrightarrow>
   (\<exists>bb'. i2c_read_sync (\<lambda>_. True) ads7 reg bb = Some (- 1, bb') \<and> bus_symbols (ib_wire bb') = [Sym_Start]) \<and>
   (\<exists>bb'. i2c_write_sync (\<lambda>_. True) ads7 reg b bb = Some bb' \<and> bus_symbols (ib_wire bb') = [Sym_Start])"
proof -
  assume len: "length (ib_data bb) = 8" "ib_wire bb = []"
  have "\<exists>bb'. i2c_complete_synchronously (\<lambda>_. True) t = Some (- 1, bb') \<and> bus_symbols (ib_wire bb') = [Sym_Start]"
    if t: "ib_state t = IBS_INIT" "ib_wire t = []" "length (ib_data t) = 8" for t
  proof -
    let ?b = "t\<lparr>ib_index := 0, ib_index_read := 0, ib_count := 8,
        ib_wire := [(True, True), (True, False), (False, False)], ib_state := IBS_ADS_TX_S\<rparr>"
    have "i2c_complete_synchronously (\<lambda>_. True) t = i2c_complete_synchronously (\<lambda>_. True) ?b"
      using init_phase [OF t(1), of "\<lambda>_. True"] t(2) by simp
    then show ?thesis
      using tx_phase [of ?b "\<lambda>_. True"] t(3) at_bus_byte(3) [OF at_bus_first, of "ib_data t ! 0"] by auto
  qed
  from this [of "i2c_read ads7 reg bb"] this [of "i2c_write ads7 reg b bb"] len show ?thesis
    by (auto simp: i2c_read_def i2c_write_def i2c_read_sync_def i2c_write_sync_def)
qed

theorem i2c_no_device_witness:
  "(\<exists>bb'. i2c_read_sync (\<lambda>_. True) 0x73 2 demo_bb = Some (- 1, bb') \<and> bus_symbols (ib_wire bb') = [Sym_Start]) \<and>
   (\<exists>bb'. i2c_write_sync (\<lambda>_. True) 0x73 2 9 demo_bb = Some bb' \<and> bus_symbols (ib_wire bb') = [Sym_Start])"
  by (rule i2c_no_device [OF demo_bb_ok])

end
