(* ===== verification/Qi_Memtest.thy ===== *)
theory Qi_Memtest
  imports Prelude
begin

section \<open>The memory test of the boot loader\<close>

text \<open>
  \<^verbatim>\<open>qi/src/memory-test.c\<close>, run when no kernel starts.  The memory is a parameter: a state with a function
  to read the word at an address and one to write it.  Addresses are natural numbers, as pointers of C do
  not wrap.  The addresses that are printed as errors are collected; the other messages are not modelled.
\<close>

record 'm word_memory =
  wm_read :: "'m \<Rightarrow> nat \<Rightarrow> u32"
  wm_write :: "'m \<Rightarrow> nat \<Rightarrow> u32 \<Rightarrow> 'm"

text \<open>\<open>while (p < pend) *p++ = ...\<close>\<close>

function fill_words :: "'m word_memory \<Rightarrow> (nat \<Rightarrow> u32) \<Rightarrow> nat \<Rightarrow> nat \<Rightarrow> 'm \<Rightarrow> 'm" where
  "fill_words ops f p pend m =
     (if p < pend then fill_words ops f (p + 4) pend (wm_write ops m p (f p)) else m)"
  by pat_completeness auto
termination by (relation "measure (\<lambda>(ops, f, p, pend, m). pend - p)") auto

declare fill_words.simps [simp del]

fun check_count :: "'m word_memory \<Rightarrow> nat \<Rightarrow> nat \<Rightarrow> u32 \<Rightarrow> 'm \<Rightarrow> int \<times> nat list \<Rightarrow> int \<times> nat list" where
  "check_count ops p 0 val m (errors, log) = (errors, log)"
| "check_count ops p (Suc count) val m (errors, log) =
     check_count ops (p + 4) count val m
       (if wm_read ops m p \<noteq> val then (s32 (errors + 1), log @ [p]) else (errors, log))"

text \<open>A test takes the memory and the addresses reported so far, and gives its number of errors.\<close>

definition memory_test_const32 ::
  "'m word_memory \<Rightarrow> nat \<Rightarrow> u32 \<Rightarrow> u32 \<Rightarrow> 'm \<times> nat list \<Rightarrow> int \<times> 'm \<times> nat list" where
  "memory_test_const32 ops start len val st =
     (let m = fill_words ops (\<lambda>_. val) start (start + unat len) (fst st);
          (errors, log) = check_count ops start (unat (drop_bit 2 len)) val m (0, snd st)
      in (errors, m, log))"

definition ads_value :: "u32 \<Rightarrow> nat \<Rightarrow> u32" where
  "ads_value msk p = (if word_of_nat p AND msk \<noteq> 0 then 0xffffffff else 0)"

function check_ads :: "'m word_memory \<Rightarrow> u32 \<Rightarrow> nat \<Rightarrow> nat \<Rightarrow> 'm \<Rightarrow> int \<times> nat list \<Rightarrow> int \<times> nat list" where
  "check_ads ops msk p pend m e =
     (if p < pend
      then check_ads ops msk (p + 4) pend m
        (if word_of_nat p AND msk \<noteq> 0
         then (if wm_read ops m p \<noteq> 0xffffffff then (s32 (fst e + 1), snd e @ [p]) else e)
         else (if wm_read ops m p \<noteq> 0 then (s32 (fst e + 1), snd e @ [p]) else e))
      else e)"
  by pat_completeness auto
termination by (relation "measure (\<lambda>(ops, msk, p, pend, m, e). pend - p)") auto

declare check_ads.simps [simp del]

definition memory_test_ads ::
  "'m word_memory \<Rightarrow> nat \<Rightarrow> u32 \<Rightarrow> u32 \<Rightarrow> 'm \<times> nat list \<Rightarrow> int \<times> 'm \<times> nat list" where
  "memory_test_ads ops start len msk st =
     (let m = fill_words ops (ads_value msk) start (start + unat len) (fst st);
          (errors, log) = check_ads ops msk start (start + unat len) m (0, snd st)
      in (errors, m, log))"

text \<open>\<open>errors += \<dots>\<close>\<close>

definition add_errors :: "('s \<Rightarrow> int \<times> 's) \<Rightarrow> int \<times> 's \<Rightarrow> int \<times> 's" where
  "add_errors test es = (let (errors, st) = test (snd es) in (s32 (fst es + errors), st))"

text \<open>The loop over the 32 values of a walking one ends when the last shift leaves 0.\<close>

lemma nonzero_bit: "w \<noteq> 0 \<Longrightarrow> \<exists>k. bit (w :: u32) k"
proof (rule ccontr)
  assume "w \<noteq> 0" "\<not> (\<exists>k. bit w k)"
  moreover from this have "w = 0" by (intro bit_word_eqI) simp
  ultimately show False by simp
qed

lemma card_bits_above_shift:
  fixes w :: u32
  assumes "w \<noteq> 0"
  shows "card {i. i < 32 \<and> (\<exists>j\<le>i. bit (push_bit 1 w) j)} < card {i. i < 32 \<and> (\<exists>j\<le>i. bit w j)}"
proof (rule psubset_card_mono)
  obtain k where k: "bit w k" "\<And>j. j < k \<Longrightarrow> \<not> bit w j" using nonzero_bit [OF assms] exists_least_iff [of "bit w"] by metis
  have "k < 32" using bit_imp_le_length [OF k(1)] by simp
  then have "k \<in> {i. i < 32 \<and> (\<exists>j\<le>i. bit w j)}" using k(1) by auto
  moreover have "k \<notin> {i. i < 32 \<and> (\<exists>j\<le>i. bit (push_bit 1 w) j)}"
    unfolding bit_push_bit_iff using k(2) by auto
  moreover have "\<exists>j\<le>i. bit w j" if "bit (push_bit 1 w) j" "j \<le> i" for i j
    using that unfolding bit_push_bit_iff by (intro exI [of _ "j - 1"]) auto
  then have "{i. i < 32 \<and> (\<exists>j\<le>i. bit (push_bit 1 w) j)} \<subseteq> {i. i < 32 \<and> (\<exists>j\<le>i. bit w j)}" by blast
  ultimately show "{i. i < 32 \<and> (\<exists>j\<le>i. bit (push_bit 1 w) j)} \<subset> {i. i < 32 \<and> (\<exists>j\<le>i. bit w j)}" by blast
qed simp

function walking_loop ::
  "'m word_memory \<Rightarrow> nat \<Rightarrow> u32 \<Rightarrow> u32 \<Rightarrow> int \<times> 'm \<times> nat list \<Rightarrow> int \<times> 'm \<times> nat list" where
  "walking_loop ops start len val es =
     (if val = 0 then es
      else walking_loop ops start len (push_bit 1 val) (add_errors (memory_test_const32 ops start len val) es))"
  by pat_completeness auto
termination
  by (relation "measure (\<lambda>(ops, start, len, val, es). card {i. i < 32 \<and> (\<exists>j\<le>i. bit val j)})")
    (simp, simp only: in_measure prod.case, rule card_bits_above_shift)

declare walking_loop.simps [simp del]

definition memory_test_walking1 ::
  "'m word_memory \<Rightarrow> nat \<Rightarrow> u32 \<Rightarrow> 'm \<times> nat list \<Rightarrow> int \<times> 'm \<times> nat list" where
  "memory_test_walking1 ops start len st = walking_loop ops start len 1 (0, st)"

text \<open>\<open>while (! (length & mask))\<close>: without end when the length is 0.\<close>

partial_function (option) mask_loop ::
  "'m word_memory \<Rightarrow> nat \<Rightarrow> u32 \<Rightarrow> u32 \<Rightarrow> int \<times> 'm \<times> nat list \<Rightarrow> (int \<times> 'm \<times> nat list) option" where
  "mask_loop ops start len msk es =
     (if len AND msk = 0
      then mask_loop ops start len (push_bit 1 msk) (add_errors (memory_test_ads ops start len msk) es)
      else Some es)"

text \<open>One turn of the endless loop of \<open>__memory_test\<close>, then a number of them; the test never returns.\<close>

definition test_series ::
  "'m word_memory \<Rightarrow> nat \<Rightarrow> u32 \<Rightarrow> int \<times> 'm \<times> nat list \<Rightarrow> (int \<times> 'm \<times> nat list) option" where
  "test_series ops start len es =
     (let es = add_errors (memory_test_const32 ops start len 0x55555555) es;
          es = add_errors (memory_test_const32 ops start len 0xaaaaaaaa) es;
          es = add_errors (memory_test_const32 ops start len 0x55aa55aa) es;
          es = add_errors (memory_test_const32 ops start len 0xaa55aa55) es;
          es = add_errors (memory_test_const32 ops start len 0x00ff00ff) es;
          es = add_errors (memory_test_const32 ops start len 0xff00ff00) es;
          es = add_errors (memory_test_walking1 ops start len) es
      in mask_loop ops start len 1 es)"

fun memory_test ::
  "nat \<Rightarrow> 'm word_memory \<Rightarrow> nat \<Rightarrow> u32 \<Rightarrow> int \<times> 'm \<times> nat list \<Rightarrow> (int \<times> 'm \<times> nat list) option" where
  "memory_test 0 ops start len es = Some es"
| "memory_test (Suc n) ops start len es = do { es \<leftarrow> test_series ops start len es; memory_test n ops start len es }"

subsection \<open>The tests of a series\<close>

definition lowest_bit :: "u32 \<Rightarrow> nat" where "lowest_bit w = (LEAST k. bit w k)"

lemma lowest_bit:
  assumes "w \<noteq> 0"
  shows "bit w (lowest_bit w)" "k < lowest_bit w \<Longrightarrow> \<not> bit w k" "lowest_bit w < 32"
proof -
  have "\<exists>k. bit w k" using assms by (rule nonzero_bit)
  then show 1: "bit w (lowest_bit w)" unfolding lowest_bit_def by (rule LeastI_ex)
  show "k < lowest_bit w \<Longrightarrow> \<not> bit w k" unfolding lowest_bit_def by (rule not_less_Least)
  show "lowest_bit w < 32" using bit_imp_le_length [OF 1] by simp
qed

lemma and_shifted_one: "w AND push_bit k 1 \<noteq> (0 :: u32) \<longleftrightarrow> bit w k"
proof -
  have "bit (w AND push_bit k 1) n = (n = k \<and> bit w k)" for n
    unfolding bit_and_iff bit_push_bit_iff bit_1_iff by (auto dest: bit_imp_le_length)
  then show ?thesis using nonzero_bit [of "w AND push_bit k 1"] by (metis bit_0_eq bot_apply bot_bool_def)
qed

lemma mask_loop_fold:
  assumes "len \<noteq> 0"
  shows "k \<le> lowest_bit len \<Longrightarrow> mask_loop ops start len (push_bit k 1) es =
    Some (fold (\<lambda>i. add_errors (memory_test_ads ops start len (push_bit i 1))) [k..<lowest_bit len] es)"
proof (induction "lowest_bit len - k" arbitrary: k es)
  case 0
  then show ?case
    using lowest_bit(1) [OF assms] and_shifted_one [of len k] by (subst mask_loop.simps) simp
next
  case (Suc n)
  then have k: "k < lowest_bit len" by simp
  have "len AND push_bit k 1 = 0" using lowest_bit(2) [OF assms k] and_shifted_one [of len k] by blast
  moreover have "push_bit 1 (push_bit k (1 :: u32)) = push_bit (Suc k) 1" by (simp add: push_bit_push_bit)
  ultimately show ?case
    using Suc.hyps(1) [of "Suc k"] Suc.hyps(2) k
    by (subst mask_loop.simps) (simp add: upt_conv_Cons del: push_bit_Suc push_bit_of_1)
qed

lemma walking_loop_fold:
  "k \<le> 32 \<Longrightarrow> walking_loop ops start len (push_bit k 1) es =
    fold (\<lambda>i. add_errors (memory_test_const32 ops start len (push_bit i 1))) [k..<32] es"
proof (induction "32 - k" arbitrary: k es)
  case 0
  then have "push_bit k (1 :: u32) = 0" by (intro bit_word_eqI) (unfold bit_push_bit_iff, simp)
  then show ?case using 0 by (subst walking_loop.simps) simp
next
  case (Suc n)
  then have "bit (push_bit k (1 :: u32)) k" unfolding bit_push_bit_iff by simp
  then have "push_bit k (1 :: u32) \<noteq> 0" by (metis bit_0_eq bot_apply bot_bool_def)
  moreover have "push_bit 1 (push_bit k (1 :: u32)) = push_bit (Suc k) 1" by (simp add: push_bit_push_bit)
  moreover have "k < 32" using Suc.hyps(2) by simp
  ultimately show ?case
    using Suc.hyps(1) [of "Suc k"] Suc.hyps(2)
    by (subst walking_loop.simps) (simp add: upt_conv_Cons del: push_bit_Suc push_bit_of_1)
qed

text \<open>What a series does before the address tests, and the address tests.\<close>

definition data_tests :: "'m word_memory \<Rightarrow> nat \<Rightarrow> u32 \<Rightarrow> ('m \<times> nat list \<Rightarrow> int \<times> 'm \<times> nat list) list" where
  "data_tests ops start len = map (memory_test_const32 ops start len)
     [0x55555555, 0xaaaaaaaa, 0x55aa55aa, 0xaa55aa55, 0x00ff00ff, 0xff00ff00] @ [memory_test_walking1 ops start len]"

definition address_tests :: "'m word_memory \<Rightarrow> nat \<Rightarrow> u32 \<Rightarrow> ('m \<times> nat list \<Rightarrow> int \<times> 'm \<times> nat list) list" where
  "address_tests ops start len = map (\<lambda>i. memory_test_ads ops start len (push_bit i 1)) [0..<lowest_bit len]"

lemma test_series_fold:
  assumes "len \<noteq> 0"
  shows "test_series ops start len es = Some (fold add_errors (data_tests ops start len @ address_tests ops start len) es)"
  using mask_loop_fold [OF assms, of 0 ops start]
  by (simp add: test_series_def data_tests_def address_tests_def Let_def fold_map o_def)

subsection \<open>What is reported\<close>

text \<open>The words a loop visits.\<close>

definition tested :: "nat \<Rightarrow> nat \<Rightarrow> nat set" where
  "tested p pend = {a. p \<le> a \<and> a < pend \<and> (a - p) mod 4 = 0}"

lemma tested_step: "tested p pend = (if p < pend then insert p (tested (p + 4) pend) else {})"
proof (cases "p < pend")
  case True
  have "a \<in> tested p pend \<longleftrightarrow> a \<in> insert p (tested (p + 4) pend)" for a
  proof -
    have "p \<le> a \<and> (a - p) mod 4 = 0 \<longleftrightarrow> a = p \<or> p + 4 \<le> a \<and> (a - (p + 4)) mod 4 = 0" by presburger
    moreover have "a = p \<longrightarrow> a < pend" using True by simp
    ultimately show ?thesis unfolding tested_def mem_Collect_eq insert_iff by argo
  qed
  then have "tested p pend = insert p (tested (p + 4) pend)" by (rule set_eqI)
  then show ?thesis using True by (simp only: if_True)
next
  case False
  then show ?thesis by (auto simp: tested_def)
qed

lemma check_count_log:
  "\<exists>xs. snd (check_count ops p n val m e) = snd e @ xs \<and> set xs = {a \<in> tested p (p + 4 * n). wm_read ops m a \<noteq> val} \<and>
    (xs = [] \<longrightarrow> fst (check_count ops p n val m e) = fst e)"
proof (induction n arbitrary: p e)
  case 0
  then show ?case using tested_step [of p p] by (cases e) simp
next
  case (Suc n p e)
  let ?e = "if wm_read ops m p \<noteq> val then (s32 (fst e + 1), snd e @ [p]) else e"
  have "tested p (p + 4 * Suc n) = insert p (tested (p + 4) (p + 4 + 4 * n))"
    using tested_step [of p "p + 4 * Suc n"] by (simp add: add.assoc)
  moreover obtain xs where "snd (check_count ops (p + 4) n val m ?e) = snd ?e @ xs"
    "set xs = {a \<in> tested (p + 4) (p + 4 + 4 * n). wm_read ops m a \<noteq> val}"
    "xs = [] \<longrightarrow> fst (check_count ops (p + 4) n val m ?e) = fst ?e"
    using Suc.IH by blast
  ultimately show ?case
    by (intro exI [of _ "(if wm_read ops m p \<noteq> val then [p] else []) @ xs"]) (cases e, auto)
qed

lemma check_ads_log:
  "\<exists>xs. snd (check_ads ops msk p pend m e) = snd e @ xs \<and> set xs = {a \<in> tested p pend. wm_read ops m a \<noteq> ads_value msk a} \<and>
    (xs = [] \<longrightarrow> fst (check_ads ops msk p pend m e) = fst e)"
proof (induction ops msk p pend m e rule: check_ads.induct)
  case (1 ops msk p pend m e)
  show ?case
  proof (cases "p < pend")
    case False
    then show ?thesis using tested_step [of p pend] by (subst (1 2) check_ads.simps) simp
  next
    case True
    let ?e = "if wm_read ops m p \<noteq> ads_value msk p then (s32 (fst e + 1), snd e @ [p]) else e"
    have "check_ads ops msk p pend m e = check_ads ops msk (p + 4) pend m ?e"
      using True by (subst check_ads.simps) (simp add: ads_value_def)
    moreover obtain xs where "snd (check_ads ops msk (p + 4) pend m ?e) = snd ?e @ xs"
      "set xs = {a \<in> tested (p + 4) pend. wm_read ops m a \<noteq> ads_value msk a}"
      "xs = [] \<longrightarrow> fst (check_ads ops msk (p + 4) pend m ?e) = fst ?e"
    proof -
      have "?e = (if word_of_nat p AND msk \<noteq> 0
         then (if wm_read ops m p \<noteq> 0xffffffff then (s32 (fst e + 1), snd e @ [p]) else e)
         else (if wm_read ops m p \<noteq> 0 then (s32 (fst e + 1), snd e @ [p]) else e))"
        by (simp add: ads_value_def)
      then show thesis using "1.IH" [OF True] that unfolding \<open>?e = _\<close> by blast
    qed
    moreover have "tested p pend = insert p (tested (p + 4) pend)" using True tested_step [of p pend] by simp
    ultimately show ?thesis
      by (intro exI [of _ "(if wm_read ops m p \<noteq> ads_value msk p then [p] else []) @ xs"]) auto
  qed
qed

lemma const32_log:
  "\<exists>xs m. snd (memory_test_const32 ops start len val st) = (m, snd st @ xs) \<and>
     m = fill_words ops (\<lambda>_. val) start (start + unat len) (fst st) \<and>
     set xs = {a \<in> tested start (start + 4 * (unat len div 4)). wm_read ops m a \<noteq> val} \<and>
     (xs = [] \<longrightarrow> fst (memory_test_const32 ops start len val st) = 0)"
proof -
  have "unat (drop_bit 2 len) = unat len div 4" by (simp add: drop_bit_eq_div unat_div_distrib)
  then show ?thesis
    using check_count_log [of ops start "unat len div 4" val "fill_words ops (\<lambda>_. val) start (start + unat len) (fst st)" "(0, snd st)"]
    by (auto simp: memory_test_const32_def Let_def split: prod.splits)
qed

lemma ads_log:
  "\<exists>xs m. snd (memory_test_ads ops start len msk st) = (m, snd st @ xs) \<and>
     m = fill_words ops (ads_value msk) start (start + unat len) (fst st) \<and>
     set xs = {a \<in> tested start (start + unat len). wm_read ops m a \<noteq> ads_value msk a} \<and>
     (xs = [] \<longrightarrow> fst (memory_test_ads ops start len msk st) = 0)"
  using check_ads_log [of ops msk start "start + unat len" "fill_words ops (ads_value msk) start (start + unat len) (fst st)" "(0, snd st)"]
  by (auto simp: memory_test_ads_def Let_def split: prod.splits)

text \<open>A test that keeps what was reported before.\<close>

definition keeps :: "('m \<times> nat list \<Rightarrow> int \<times> 'm \<times> nat list) \<Rightarrow> bool" where
  "keeps t \<longleftrightarrow> (\<forall>st. set (snd st) \<subseteq> set (snd (snd (t st))))"

lemma fold_keeps:
  "(\<And>t. t \<in> set ts \<Longrightarrow> keeps t) \<Longrightarrow> set (snd (snd es)) \<subseteq> set (snd (snd (fold add_errors ts es)))"
proof (induction ts arbitrary: es)
  case (Cons t ts)
  have "set (snd (snd es)) \<subseteq> set (snd (snd (add_errors t es)))"
  proof -
    have "keeps t" using Cons.prems [of t] by simp
    then have "set (snd (snd es)) \<subseteq> set (snd (snd (t (snd es))))" unfolding keeps_def by blast
    then show ?thesis by (cases "t (snd es)") (simp add: add_errors_def)
  qed
  moreover have "set (snd (snd (add_errors t es))) \<subseteq> set (snd (snd (fold add_errors ts (add_errors t es))))"
    by (rule Cons.IH) (simp add: Cons.prems)
  ultimately show ?case by (simp only: fold_simps(2))
qed simp

lemma fold_reports:
  assumes "t \<in> set ts" "\<And>t. t \<in> set ts \<Longrightarrow> keeps t" "\<And>st. A \<inter> set (snd (snd (t st))) \<noteq> {}"
  shows "A \<inter> set (snd (snd (fold add_errors ts es))) \<noteq> {}"
proof -
  obtain xs ys where ts: "ts = xs @ t # ys" using assms(1) by (auto dest: split_list)
  let ?es = "add_errors t (fold add_errors xs es)"
  have "A \<inter> set (snd (snd ?es)) \<noteq> {}"
    using assms(3) [of "snd (fold add_errors xs es)"] by (auto simp: add_errors_def split: prod.splits)
  moreover have "set (snd (snd ?es)) \<subseteq> set (snd (snd (fold add_errors ys ?es)))"
    using assms(2) unfolding ts by (intro fold_keeps) auto
  ultimately show ?thesis unfolding ts by auto
qed

lemma keepsI: "(\<And>st. \<exists>xs m. snd (t st) = (m, snd st @ xs) \<and> P st xs m) \<Longrightarrow> keeps t"
  unfolding keeps_def by (metis Un_upper1 set_append snd_conv)

lemma const32_keeps: "keeps (memory_test_const32 ops start len val)"
  by (rule keepsI, rule const32_log)

lemma ads_keeps: "keeps (memory_test_ads ops start len msk)"
  by (rule keepsI, rule ads_log)

lemma walking1_fold:
  "memory_test_walking1 ops start len st =
   fold add_errors (map (\<lambda>i. memory_test_const32 ops start len (push_bit i 1)) [0..<32]) (0, st)"
  using walking_loop_fold [of 0 ops start len "(0, st)"]
  by (simp add: memory_test_walking1_def fold_map o_def)

lemma walking1_keeps: "keeps (memory_test_walking1 ops start len)"
  unfolding keeps_def walking1_fold
proof
  fix st :: "'a \<times> nat list"
  have "set (snd (snd (0 :: int, st))) \<subseteq> set (snd (snd (fold add_errors
      (map (\<lambda>i. memory_test_const32 ops start len (push_bit i 1)) [0..<32]) (0, st))))"
    by (intro fold_keeps) (auto simp: const32_keeps)
  then show "set (snd st) \<subseteq> set (snd (snd (fold add_errors
      (map (\<lambda>i. memory_test_const32 ops start len (push_bit i 1)) [0..<32]) (0, st))))"
    by simp
qed

lemma series_keeps: "t \<in> set (data_tests ops start len @ address_tests ops start len) \<Longrightarrow> keeps t"
  by (auto simp: data_tests_def address_tests_def const32_keeps ads_keeps walking1_keeps)

subsection \<open>Sound memory\<close>

locale sound_memory =
  fixes ops :: "'m word_memory" and ok :: "'m \<Rightarrow> bool" and cells :: "nat set"
  assumes write_ok: "ok m \<Longrightarrow> a \<in> cells \<Longrightarrow> ok (wm_write ops m a v)"
    and read_same: "ok m \<Longrightarrow> a \<in> cells \<Longrightarrow> wm_read ops (wm_write ops m a v) a = v"
    and read_other: "ok m \<Longrightarrow> a \<in> cells \<Longrightarrow> b \<in> cells \<Longrightarrow> a \<noteq> b \<Longrightarrow>
      wm_read ops (wm_write ops m a v) b = wm_read ops m b"
begin

lemma fill_words_ok:
  "ok m \<Longrightarrow> tested p pend \<subseteq> cells \<Longrightarrow>
   ok (fill_words ops f p pend m) \<and>
   (\<forall>a\<in>cells. wm_read ops (fill_words ops f p pend m) a = (if a \<in> tested p pend then f a else wm_read ops m a))"
proof (induction "pend - p" arbitrary: p m rule: less_induct)
  case less
  show ?case
  proof (cases "p < pend")
    case False
    then show ?thesis using less.prems tested_step [of p pend] by (subst (1 2) fill_words.simps) simp
  next
    case True
    have T: "tested p pend = insert p (tested (p + 4) pend)" using True tested_step [of p pend] by simp
    let ?m = "wm_write ops m p (f p)"
    have m: "ok ?m" "tested (p + 4) pend \<subseteq> cells" "p \<in> cells" using less.prems T write_ok by auto
    have r: "fill_words ops f p pend m = fill_words ops f (p + 4) pend ?m"
      using True by (subst fill_words.simps) simp
    have "p \<notin> tested (p + 4) pend" by (simp add: tested_def)
    then show ?thesis
      using less.hyps [OF _ m(1,2)] True T m(3) less.prems(1) read_same read_other unfolding r by (auto split: if_splits)
  qed
qed

lemma const32_sound:
  assumes "ok (fst st)" "tested start (start + unat len) \<subseteq> cells"
  shows "\<exists>m. memory_test_const32 ops start len val st = (0, m, snd st) \<and> ok m"
proof -
  obtain xs m where x: "snd (memory_test_const32 ops start len val st) = (m, snd st @ xs)"
    "m = fill_words ops (\<lambda>_. val) start (start + unat len) (fst st)"
    "set xs = {a \<in> tested start (start + 4 * (unat len div 4)). wm_read ops m a \<noteq> val}"
    "xs = [] \<longrightarrow> fst (memory_test_const32 ops start len val st) = 0"
    using const32_log [of ops start len val st] by blast
  have sub: "tested start (start + 4 * (unat len div 4)) \<subseteq> tested start (start + unat len)" by (auto simp: tested_def)
  then have "wm_read ops m a = val" if "a \<in> tested start (start + 4 * (unat len div 4))" for a
  proof -
    have "a \<in> tested start (start + unat len)" "a \<in> cells" using that sub assms(2) by blast+
    then show ?thesis using fill_words_ok [OF assms, of "\<lambda>_. val"] x(2) by simp
  qed
  then have "set xs = {}" unfolding x(3) by blast
  then have "xs = []" by simp
  then have "memory_test_const32 ops start len val st = (0, m, snd st)" using x(1,4) by (intro prod_eqI) simp_all
  moreover have "ok m" unfolding x(2) using fill_words_ok [OF assms] by blast
  ultimately show ?thesis by blast
qed

lemma ads_sound:
  assumes "ok (fst st)" "tested start (start + unat len) \<subseteq> cells"
  shows "\<exists>m. memory_test_ads ops start len msk st = (0, m, snd st) \<and> ok m"
proof -
  obtain xs m where x: "snd (memory_test_ads ops start len msk st) = (m, snd st @ xs)"
    "m = fill_words ops (ads_value msk) start (start + unat len) (fst st)"
    "set xs = {a \<in> tested start (start + unat len). wm_read ops m a \<noteq> ads_value msk a}"
    "xs = [] \<longrightarrow> fst (memory_test_ads ops start len msk st) = 0"
    using ads_log [of ops start len msk st] by blast
  have "wm_read ops m a = ads_value msk a" if "a \<in> tested start (start + unat len)" for a
    using fill_words_ok [OF assms, of "ads_value msk"] that assms(2) unfolding x(2) by (simp add: subset_iff)
  then have "set xs = {}" unfolding x(3) by blast
  then have "xs = []" by simp
  then have "memory_test_ads ops start len msk st = (0, m, snd st)" using x(1,4) by (intro prod_eqI) simp_all
  moreover have "ok m" unfolding x(2) using fill_words_ok [OF assms] by blast
  ultimately show ?thesis by blast
qed

lemma fold_sound:
  assumes "\<forall>t\<in>set ts. \<forall>st. ok (fst st) \<longrightarrow> (\<exists>m. t st = (0, m, snd st) \<and> ok m)" "ok m"
  shows "\<exists>m'. fold add_errors ts (0, m, log) = (0, m', log) \<and> ok m'"
  using assms
proof (induction ts arbitrary: m)
  case (Cons t ts)
  obtain m1 where "t (m, log) = (0, m1, log)" "ok m1" 
  proof -
    have "ok (fst (m, log)) \<longrightarrow> (\<exists>m1. t (m, log) = (0, m1, snd (m, log)) \<and> ok m1)"
      using Cons.prems(1) list.set_intros(1) [of t ts] by blast
    then show thesis using Cons.prems(2) that by auto
  qed
  then show ?case using Cons.IH [of m1] Cons.prems(1) by (simp add: add_errors_def)
qed simp

lemma series_sound:
  assumes "ok m" "tested start (start + unat len) \<subseteq> cells" "len \<noteq> 0"
  shows "\<exists>m'. test_series ops start len (0, m, log) = Some (0, m', log) \<and> ok m'"
proof -
  have walk: "\<exists>m. memory_test_walking1 ops start len st = (0, m, snd st) \<and> ok m" if "ok (fst st)" for st
  proof -
    let ?ts = "map (\<lambda>i. memory_test_const32 ops start len (push_bit i 1)) [0..<32]"
    have "\<forall>t\<in>set ?ts. \<forall>st. ok (fst st) \<longrightarrow> (\<exists>m. t st = (0, m, snd st) \<and> ok m)"
    proof (intro ballI allI impI)
      fix t and st :: "'m \<times> nat list" assume "t \<in> set ?ts" "ok (fst st)"
      then show "\<exists>m. t st = (0, m, snd st) \<and> ok m" using const32_sound [OF \<open>ok (fst st)\<close> assms(2)] by auto
    qed
    from fold_sound [of ?ts "fst st" "snd st", OF this that] show ?thesis unfolding walking1_fold by simp
  qed
  let ?ts = "data_tests ops start len @ address_tests ops start len"
  have "\<forall>t\<in>set ?ts. \<forall>st. ok (fst st) \<longrightarrow> (\<exists>m. t st = (0, m, snd st) \<and> ok m)"
  proof (intro ballI allI impI)
    fix t and st :: "'m \<times> nat list" assume "t \<in> set ?ts" and st: "ok (fst st)"
    then show "\<exists>m. t st = (0, m, snd st) \<and> ok m"
      using const32_sound [OF st assms(2)] ads_sound [OF st assms(2)] walk [OF st]
      by (auto simp: data_tests_def address_tests_def)
  qed
  from fold_sound [of ?ts m log, OF this assms(1)] show ?thesis unfolding test_series_fold [OF assms(3)] by simp
qed

end

lemma words_apart: "x mod 4 = 0 \<Longrightarrow> y mod 4 = 0 \<Longrightarrow> x \<noteq> y \<Longrightarrow> y + 4 \<le> x \<or> x + 4 \<le> (y :: nat)"
  by presburger

text \<open>The RAM of the boot loader, from the address \<open>base\<close> on, is such a memory.\<close>

definition ram_memory :: "nat \<Rightarrow> bytes word_memory" where
  "ram_memory base = \<lparr>wm_read = (\<lambda>m a. get32 m (a - base)), wm_write = (\<lambda>m a v. patch m (a - base) (put32 v))\<rparr>"

definition ram_cells :: "nat \<Rightarrow> nat \<Rightarrow> nat set" where
  "ram_cells base n = {a. base \<le> a \<and> (a - base) mod 4 = 0 \<and> a + 4 \<le> base + n}"

interpretation ram_words: sound_memory "ram_memory base" "\<lambda>m. length m = n" "ram_cells base n" for base n
proof unfold_locales
  fix m :: bytes and a b :: nat and v :: u32
  assume m: "length m = n" and a: "a \<in> ram_cells base n"
  have fits: "a - base + length (put32 v) \<le> length m" using m a by (auto simp: ram_cells_def)
  show "length (wm_write (ram_memory base) m a v) = n"
    using fits m by (simp add: ram_memory_def)
  have "get32 (region (patch m (a - base) (put32 v)) (a - base) 4) 0 = v"
    using region_patch_same [OF fits] by (simp add: get32_put32)
  then show "wm_read (ram_memory base) (wm_write (ram_memory base) m a v) a = v"
    by (simp add: ram_memory_def get32_region)
  assume b: "b \<in> ram_cells base n" "a \<noteq> b"
  have "b - base + 4 \<le> a - base \<or> a - base + 4 \<le> b - base"
  proof -
    have "(a - base) mod 4 = 0" "(b - base) mod 4 = 0" "a - base \<noteq> b - base"
      using a b by (auto simp: ram_cells_def)
    then show ?thesis by (rule words_apart)
  qed
  then have "region (patch m (a - base) (put32 v)) (b - base) 4 = region m (b - base) 4"
    using fits by (intro region_patch_disjoint) auto
  then have "get32 (region (patch m (a - base) (put32 v)) (b - base) 4) 0 = get32 (region m (b - base) 4) 0"
    by simp
  then show "wm_read (ram_memory base) (wm_write (ram_memory base) m a v) b = wm_read (ram_memory base) m b"
    by (simp add: ram_memory_def get32_region)
qed

subsection \<open>Properties\<close>

text \<open>C20. Sound memory passes: with RAM that keeps what is written to it, any number of series of the
  memory test over it ends each time with no error counted and no address reported.\<close>

theorem memory_test_passes:
  assumes "len \<noteq> 0" "unat len mod 4 = 0" "unat len \<le> length ram"
  shows "\<exists>ram'. memory_test n (ram_memory base) base len (0, ram, log) = Some (0, ram', log) \<and> length ram' = length ram"
  using assms(3)
proof (induction n arbitrary: ram)
  case (Suc n)
  have "tested base (base + unat len) \<subseteq> ram_cells base (length ram)"
    using assms(2) Suc.prems unfolding tested_def ram_cells_def by (auto, presburger)
  then obtain r1 where "test_series (ram_memory base) base len (0, ram, log) = Some (0, r1, log)" "length r1 = length ram"
    using ram_words.series_sound [of ram "length ram" base len base log] assms(1) by auto
  then show ?case using Suc.IH [of r1] Suc.prems by simp
qed simp

theorem memory_test_passes_witness:
  "\<exists>ram'. memory_test 2 (ram_memory 0x50000000) 0x50000000 8 (0, [1, 2, 3, 4, 5, 6, 7, 8, 9], []) = Some (0, ram', [])"
  using memory_test_passes [of 8 "[1, 2, 3, 4, 5, 6, 7, 8, 9]" 2 "0x50000000" "[]"] by auto

text \<open>A stuck bit is found: when one bit of a tested word always reads the same, every series of the
  memory test reports the address of that word, whatever else is wrong with the memory.\<close>

theorem stuck_bit_reported:
  assumes "len \<noteq> 0" "k < unat len div 4" "i < 32"
    and stuck: "\<And>m. bit (wm_read ops m (start + 4 * k)) i = b"
  shows "\<exists>e m log. test_series ops start len es = Some (e, m, log) \<and> start + 4 * k \<in> set log"
proof -
  define val :: u32 where "val = (if even i = b then 0xaaaaaaaa else 0x55555555)"
  have bits: "bit (0xaaaaaaaa :: u32) i = odd i" "bit (0x55555555 :: u32) i = even i"
  proof -
    have "map (bit (0xaaaaaaaa :: u32)) [0..<32] = map odd [0..<32]" "map (bit (0x55555555 :: u32)) [0..<32] = map even [0..<32]"
      by code_simp+
    then show "bit (0xaaaaaaaa :: u32) i = odd i" "bit (0x55555555 :: u32) i = even i"
      using assms(3) by (simp_all only: map_eq_conv set_upt atLeastLessThan_iff) simp_all
  qed
  have "bit val i \<noteq> b" using bits by (auto simp: val_def)
  then have differs: "wm_read ops m (start + 4 * k) \<noteq> val" for m using stuck [of m] by auto
  let ?ts = "data_tests ops start len @ address_tests ops start len"
  have "memory_test_const32 ops start len val \<in> set ?ts" by (simp add: data_tests_def val_def)
  moreover have "{start + 4 * k} \<inter> set (snd (snd (memory_test_const32 ops start len val st))) \<noteq> {}" for st
  proof -
    have "start + 4 * k \<in> tested start (start + 4 * (unat len div 4))" using assms(2) by (simp add: tested_def)
    then show ?thesis using const32_log [of ops start len val st] differs by fastforce
  qed
  ultimately have "{start + 4 * k} \<inter> set (snd (snd (fold add_errors ?ts es))) \<noteq> {}"
    using series_keeps by (intro fold_reports) blast+
  then show ?thesis unfolding test_series_fold [OF assms(1)] by (cases "fold add_errors ?ts es") auto
qed

theorem stuck_bit_reported_witness:
  "\<exists>e m log. test_series \<lparr>wm_read = (\<lambda>m a. if a = 0x1004 then set_bit 5 (m a) else m a), wm_write = (\<lambda>m a v. m(a := v))\<rparr>
     0x1000 16 (0, (\<lambda>_. 0), []) = Some (e, m, log) \<and> 0x1004 \<in> set log"
  using stuck_bit_reported [where len = 16 and k = 1 and i = 5 and b = True and start = "0x1000"
      and ops = "\<lparr>wm_read = (\<lambda>m a. if a = 0x1004 then set_bit 5 (m a) else m a), wm_write = (\<lambda>m a v. m(a := v))\<rparr>"]
  by (simp add: bit_set_bit_iff)

text \<open>A broken address line is found: when two tested words that differ in an address bit below the
  lowest set bit of the length always read the same, every series reports one of the two addresses.\<close>

theorem address_fault_reported:
  assumes "len \<noteq> 0" "a \<in> tested start (start + unat len)" "c \<in> tested start (start + unat len)"
    and "i < lowest_bit len" "bit a i \<noteq> bit c i"
    and same: "\<And>m. wm_read ops m a = wm_read ops m c"
  shows "\<exists>e m log. test_series ops start len es = Some (e, m, log) \<and> (a \<in> set log \<or> c \<in> set log)"
proof -
  let ?msk = "push_bit i (1 :: u32)"
  have i: "i < 32" using assms(4) lowest_bit(3) [OF assms(1)] by simp
  have "ads_value ?msk a \<noteq> ads_value ?msk c"
    using assms(5) i unfolding ads_value_def and_shifted_one by (auto simp: bit_of_nat_iff)
  then have differs: "wm_read ops m a \<noteq> ads_value ?msk a \<or> wm_read ops m c \<noteq> ads_value ?msk c" for m
    using same [of m] by auto
  let ?ts = "data_tests ops start len @ address_tests ops start len"
  have "memory_test_ads ops start len ?msk \<in> set ?ts"
    unfolding address_tests_def set_append using assms(4) by (intro UnI2) simp
  moreover have "{a, c} \<inter> set (snd (snd (memory_test_ads ops start len ?msk st))) \<noteq> {}" for st
  proof -
    obtain xs m where "snd (memory_test_ads ops start len ?msk st) = (m, snd st @ xs)"
      "set xs = {a \<in> tested start (start + unat len). wm_read ops m a \<noteq> ads_value ?msk a}"
      using ads_log [of ops start len ?msk st] by blast
    then show ?thesis using differs [of m] assms(2,3) by simp
  qed
  ultimately have "{a, c} \<inter> set (snd (snd (fold add_errors ?ts es))) \<noteq> {}"
    using series_keeps by (intro fold_reports) blast+
  then show ?thesis unfolding test_series_fold [OF assms(1)] by (cases "fold add_errors ?ts es") auto
qed

lemma Least_eq_4: "(LEAST k. k = (4 :: nat)) = 4"
  by (rule Least_equality) simp_all

theorem address_fault_reported_witness:
  "\<exists>e m log. test_series \<lparr>wm_read = (\<lambda>m a. m (if a = 0x100c then 0x1004 else a)), wm_write = (\<lambda>m a v. m((if a = 0x100c then 0x1004 else a) := v))\<rparr>
     0x1000 16 (0, (\<lambda>_. 0), []) = Some (e, m, log) \<and> (0x1004 \<in> set log \<or> 0x100c \<in> set log)"
proof -
  have "lowest_bit 16 = 4"
  proof -
    have "(16 :: u32) = push_bit 4 1" by simp
    then have "bit (16 :: u32) k \<longleftrightarrow> k = 4" for k by (simp only: bit_push_bit_iff bit_1_iff) auto
    then have "bit (16 :: u32) = (\<lambda>k. k = 4)" by blast
    then show ?thesis unfolding lowest_bit_def by (simp only: Least_eq_4)
  qed
  moreover have "bit (0x1004 :: nat) 3 \<noteq> bit (0x100c :: nat) 3"
    by (simp add: bit_iff_odd)
  ultimately show ?thesis
    using address_fault_reported [where len = 16 and a = "0x1004" and c = "0x100c" and start = "0x1000" and i = 3
        and ops = "\<lparr>wm_read = (\<lambda>m a. m (if a = 0x100c then 0x1004 else a)), wm_write = (\<lambda>m a v. m((if a = 0x100c then 0x1004 else a) := v))\<rparr>"]
    by (simp add: tested_def)
qed

end
