(* ===== verification/LL_Port.thy ===== *)
theory LL_Port
  imports Two_Wire
begin

section \<open>The port of the crypto chip\<close>

text \<open>
  \<^verbatim>\<open>fw-utils/ll_port.c\<close>: the two-wire port through which the firmware tools talk to the crypto memory.
  The state is the sequence of levels of the clock and the data line: every \<open>ioctl\<close> appends the new pair,
  also the one that only reads the data line.  What it reads is a parameter, a function of that sequence.
  The delays are not modelled.
\<close>

type_synonym wires = "(bool \<times> bool) list"

definition levels :: "wires \<Rightarrow> bool \<times> bool" where "levels ws = (if ws = [] then (True, True) else last ws)"

definition scl :: "bool \<Rightarrow> wires \<Rightarrow> wires" where "scl c ws = ws @ [(c, snd (levels ws))]"
definition sdl :: "bool \<Rightarrow> wires \<Rightarrow> wires" where "sdl d ws = ws @ [(fst (levels ws), d)]"

definition gpio_init :: "wires \<Rightarrow> wires" where "gpio_init ws = sdl True (scl True ws)"

definition ll_Clockhigh :: "wires \<Rightarrow> wires" where "ll_Clockhigh ws = scl True ws"
definition ll_Clocklow :: "wires \<Rightarrow> wires" where "ll_Clocklow ws = scl False ws"
definition ll_ClockCycle :: "wires \<Rightarrow> wires" where "ll_ClockCycle ws = ll_Clockhigh (ll_Clocklow ws)"
definition ll_ClockCycles :: "u8 \<Rightarrow> wires \<Rightarrow> wires" where "ll_ClockCycles n ws = (ll_ClockCycle ^^ unat n) ws"
definition ll_Datahigh :: "wires \<Rightarrow> wires" where "ll_Datahigh ws = sdl True ws"
definition ll_Datalow :: "wires \<Rightarrow> wires" where "ll_Datalow ws = sdl False ws"

definition ll_Data :: "(wires \<Rightarrow> bool) \<Rightarrow> wires \<Rightarrow> bool \<times> wires" where
  "ll_Data sda ws = (sda ws, ws @ [levels ws])"

definition ll_Start :: "wires \<Rightarrow> wires" where
  "ll_Start ws = ll_Clocklow (ll_Datalow (ll_Clockhigh (ll_Datahigh (ll_Clocklow ws))))"

definition ll_Stop :: "wires \<Rightarrow> wires" where
  "ll_Stop ws = ll_Datahigh (ll_Clockhigh (ll_Datalow (ll_Clocklow ws)))"

definition ll_AckNak :: "bool \<Rightarrow> wires \<Rightarrow> wires" where
  "ll_AckNak ucAck ws =
     ll_Clocklow (ll_Clockhigh ((if ucAck then ll_Datalow else ll_Datahigh) (ll_Clocklow ws)))"

definition LL_PWRON_CLKS :: u8 where "LL_PWRON_CLKS = 15"
definition LL_ACK_TRIES :: nat where "LL_ACK_TRIES = 8"
definition LL_START_TRIES :: nat where "LL_START_TRIES = 10"

definition ll_PowerOn :: "wires \<Rightarrow> wires" where
  "ll_PowerOn ws = ll_ClockCycles LL_PWRON_CLKS (ll_Clocklow (ll_Datahigh (gpio_init ws)))"

fun write_bits :: "nat \<Rightarrow> u8 \<Rightarrow> wires \<Rightarrow> wires" where
  "write_bits 0 ucData ws = ws"
| "write_bits (Suc n) ucData ws =
     write_bits n (push_bit 1 ucData)
       (ll_Clockhigh ((if bit ucData 7 then ll_Datahigh else ll_Datalow) (ll_Clocklow ws)))"

text \<open>The loop that waits for the acknowledge bit, with the value of \<open>i\<close> after it.\<close>

fun ack_tries :: "(wires \<Rightarrow> bool) \<Rightarrow> nat \<Rightarrow> nat \<Rightarrow> wires \<Rightarrow> nat \<times> wires" where
  "ack_tries sda 0 i ws = (i, ws)"
| "ack_tries sda (Suc n) i ws =
     (let (d, ws) = ll_Data sda ws in if \<not> d then (0, ws) else ack_tries sda n (i + 1) ws)"

definition ll_Write :: "(wires \<Rightarrow> bool) \<Rightarrow> u8 \<Rightarrow> wires \<Rightarrow> nat \<times> wires" where
  "ll_Write sda ucData ws =
     (let ws = write_bits 8 ucData ws;
          ws = ll_Clockhigh (ll_Datahigh (ll_Clocklow ws));
          (i, ws) = ack_tries sda LL_ACK_TRIES 0 ws
      in (i, ll_Clocklow ws))"

function read_bits :: "(wires \<Rightarrow> bool) \<Rightarrow> u8 \<Rightarrow> u8 \<Rightarrow> wires \<Rightarrow> u8 \<times> wires" where
  "read_bits sda i rByte ws =
     (if i = 0 then (rByte, ws)
      else let ws = ll_ClockCycle ws;
               (d, ws) = ll_Data sda ws
           in read_bits sda (drop_bit 1 i) (if d then rByte OR i else rByte) (ll_Clocklow ws))"
  by pat_completeness auto
termination
proof (relation "measure (\<lambda>(sda, i, r, ws). unat i)")
  fix i :: u8 assume "i \<noteq> 0"
  then have "0 < unat i" by (simp add: unat_gt_0)
  moreover have "unat (drop_bit 1 i) = unat i div 2" by (simp add: drop_bit_eq_div unat_div_distrib)
  ultimately have "unat (drop_bit 1 i) < unat i" by simp
  then show "((sda :: wires \<Rightarrow> bool, drop_bit 1 i, if d then rByte OR i else rByte, ws), sda, i, rByte, ws') \<in>
      measure (\<lambda>(sda, i, r, ws). unat i)" for sda and rByte :: u8 and d ws and ws' :: wires
    by simp
qed simp

declare read_bits.simps [simp del]

definition ll_Read :: "(wires \<Rightarrow> bool) \<Rightarrow> wires \<Rightarrow> u8 \<times> wires" where
  "ll_Read sda ws = read_bits sda 0x80 0 (ll_Datahigh ws)"

datatype RETURN_CODE = SUCCESS | FAIL_CMDSTART | FAIL_CMDSEND | FAIL_WRDATA

text \<open>\<open>while (i) { \<dots> if (--i == 0) return FAIL_CMDSTART; }\<close>\<close>

fun start_tries :: "(wires \<Rightarrow> bool) \<Rightarrow> u8 \<Rightarrow> nat \<Rightarrow> wires \<Rightarrow> bool \<times> wires" where
  "start_tries sda b 0 ws = (True, ws)"
| "start_tries sda b (Suc i) ws =
     (let (r, ws) = ll_Write sda b (ll_Start ws)
      in if r = 0 then (True, ws) else if i = 0 then (False, ws) else start_tries sda b i ws)"

fun write_all :: "(wires \<Rightarrow> bool) \<Rightarrow> bytes \<Rightarrow> wires \<Rightarrow> bool \<times> wires" where
  "write_all sda [] ws = (True, ws)"
| "write_all sda (b # bs) ws = (let (r, ws) = ll_Write sda b ws in if r \<noteq> 0 then (False, ws) else write_all sda bs ws)"

text \<open>None: the buffer is shorter than the number of bytes to send.\<close>

definition ll_SendCommand :: "(wires \<Rightarrow> bool) \<Rightarrow> bytes \<Rightarrow> u8 \<Rightarrow> wires \<Rightarrow> (RETURN_CODE \<times> wires) option" where
  "ll_SendCommand sda pucInsBuf numBytes ws =
     (if pucInsBuf = [] \<or> length pucInsBuf < unat numBytes then None
      else let (ok, ws) = start_tries sda (pucInsBuf ! 0) LL_START_TRIES ws
           in if \<not> ok then Some (FAIL_CMDSTART, ws)
              else let (ok, ws) = write_all sda (drop 1 (take (unat numBytes) pucInsBuf)) ws
                   in Some (if ok then SUCCESS else FAIL_CMDSEND, ws))"

fun read_more :: "(wires \<Rightarrow> bool) \<Rightarrow> nat \<Rightarrow> wires \<Rightarrow> bytes \<times> wires" where
  "read_more sda 0 ws = ([], ws)"
| "read_more sda (Suc n) ws =
     (let (b, ws) = ll_Read sda ws; (bs, ws) = read_more sda n (ll_AckNak True ws) in (b # bs, ws))"

text \<open>The bytes that are stored in \<open>pucRecBuf\<close>.\<close>

definition ll_ReceiveData :: "(wires \<Rightarrow> bool) \<Rightarrow> u8 \<Rightarrow> wires \<Rightarrow> bytes \<times> wires" where
  "ll_ReceiveData sda uclen ws =
     (if 0 < uclen
      then let (bs, ws) = read_more sda (unat uclen - 1) ws;
               (b, ws) = ll_Read sda ws
           in (bs @ [b], ll_Stop (ll_AckNak False ws))
      else ([], ll_Stop ws))"

definition ll_SendData :: "(wires \<Rightarrow> bool) \<Rightarrow> bytes \<Rightarrow> u8 \<Rightarrow> wires \<Rightarrow> (RETURN_CODE \<times> wires) option" where
  "ll_SendData sda pucSendBuf ucLen ws =
     (if length pucSendBuf < unat ucLen then None
      else let (ok, ws) = write_all sda (take (unat ucLen) pucSendBuf) ws
           in Some (if ok then (SUCCESS, ll_Stop ws) else (FAIL_WRDATA, ws)))"

text \<open>The counter \<open>j\<close> is one byte wide, \<open>loop * 4\<close> is an \<open>int\<close>.\<close>

partial_function (option) wait_loop :: "int \<Rightarrow> u8 \<Rightarrow> wires \<Rightarrow> wires option" where
  "wait_loop limit j ws =
     (if uint j < limit then wait_loop limit (j + 1) (ll_Stop ((ll_ClockCycle ^^ 15) (ll_Start ws))) else Some ws)"

definition ll_WaitClock :: "u8 \<Rightarrow> wires \<Rightarrow> wires option" where
  "ll_WaitClock lp ws = wait_loop (uint lp * 4) 0 ws"

subsection \<open>The lines and the symbols\<close>

text \<open>The levels, the symbols seen so far and the bits of the symbol under way.\<close>

definition bus :: "wires \<Rightarrow> bool \<times> bool \<Rightarrow> i2c_symbol list \<Rightarrow> bool list \<Rightarrow> bool" where
  "bus ws l ss bs \<longleftrightarrow> levels ws = l \<and> bus_symbols ws = ss \<and> rest_bits [] (wire_events (True, True) ws) = bs"

lemma bus_append:
  "bus ws l ss bs \<Longrightarrow> bus (ws @ [x]) x (ss @ symbols bs (wire_events l [x])) (rest_bits bs (wire_events l [x]))"
  by (auto simp: bus_def levels_def bus_symbols_def wire_events_append symbols_append rest_bits_append split: if_splits)

lemma bus_clock_low: "bus ws (c, d) ss bs \<Longrightarrow> bus (ll_Clocklow ws) (False, d) ss bs"
  using bus_append [of ws "(c, d)" ss bs "(False, d)"] by (simp add: ll_Clocklow_def scl_def bus_def)

lemma bus_clock_high:
  "bus ws (False, d) ss bs \<Longrightarrow> length bs < 8 \<Longrightarrow> bus (ll_Clockhigh ws) (True, d) ss (bs @ [d])"
  "bus ws (False, d) ss bs \<Longrightarrow> length bs = 8 \<Longrightarrow> bus (ll_Clockhigh ws) (True, d) (ss @ [Sym_Byte bs d]) []"
  using bus_append [of ws "(False, d)" ss bs "(True, d)"] by (simp_all add: ll_Clockhigh_def scl_def bus_def)

lemma bus_data:
  "bus ws (False, d) ss bs \<Longrightarrow> bus (ll_Datahigh ws) (False, True) ss bs"
  "bus ws (False, d) ss bs \<Longrightarrow> bus (ll_Datalow ws) (False, False) ss bs"
  "bus ws (True, True) ss bs \<Longrightarrow> bus (ll_Datalow ws) (True, False) (ss @ [Sym_Start]) []"
  "bus ws (True, False) ss bs \<Longrightarrow> bus (ll_Datahigh ws) (True, True) (ss @ [Sym_Stop]) []"
  using bus_append [of ws "(False, d)" ss bs "(False, True)"] bus_append [of ws "(False, d)" ss bs "(False, False)"]
    bus_append [of ws "(True, True)" ss bs "(True, False)"] bus_append [of ws "(True, False)" ss bs "(True, True)"]
  by (simp_all add: ll_Datahigh_def ll_Datalow_def sdl_def bus_def)

lemma bus_read: "bus ws l ss bs \<Longrightarrow> bus (snd (ll_Data sda ws)) l ss bs"
  using bus_append [of ws l ss bs l] by (cases l) (auto simp: ll_Data_def bus_def)

lemma bus_start:
  assumes "bus ws (c, d) ss bs" "length bs < 8"
  shows "bus (ll_Start ws) (False, False) (ss @ [Sym_Start]) []"
proof -
  have "bus (ll_Datahigh (ll_Clocklow ws)) (False, True) ss bs" by (rule bus_data(1), rule bus_clock_low, fact)
  from bus_clock_high(1) [OF this assms(2)] show ?thesis
    unfolding ll_Start_def by (intro bus_clock_low [where c = True] bus_data(3))
qed

lemma bus_stop:
  assumes "bus ws (c, d) ss bs" "length bs < 8"
  shows "bus (ll_Stop ws) (True, True) (ss @ [Sym_Stop]) []"
proof -
  have "bus (ll_Datalow (ll_Clocklow ws)) (False, False) ss bs" by (rule bus_data(2), rule bus_clock_low, fact)
  from bus_clock_high(1) [OF this assms(2)] show ?thesis
    unfolding ll_Stop_def by (intro bus_data(4))
qed

subsection \<open>Sending\<close>

definition top_bits :: "nat \<Rightarrow> u8 \<Rightarrow> bool list" where "top_bits n w = map (\<lambda>i. bit w (7 - i)) [0..<n]"

lemma top_bits_Suc: "n < 8 \<Longrightarrow> top_bits (Suc n) w = bit w 7 # top_bits n (push_bit 1 w)"
proof -
  assume n: "n < 8"
  have "[0..<Suc n] = 0 # map Suc [0..<n]" by (simp add: upt_conv_Cons map_Suc_upt)
  moreover have "bit (push_bit 1 w) (7 - i) = bit w (7 - Suc i)" if "i < n" for i
  proof -
    have "1 \<le> 7 - i" "7 - i < 8" using that n by linarith+
    then show ?thesis unfolding bit_push_bit_iff by simp
  qed
  ultimately show ?thesis by (simp add: top_bits_def)
qed

lemma top_bits_8: "top_bits 8 w = bits_of w"
  by (simp add: top_bits_def bits_of_def)

lemma length_top_bits [simp]: "length (top_bits n w) = n"
  by (simp add: top_bits_def)

lemma bus_write_bits:
  "bus ws (c, d) ss bs \<Longrightarrow> length bs + n \<le> 8 \<Longrightarrow> 0 < n \<Longrightarrow>
   \<exists>d'. bus (write_bits n w ws) (True, d') (if length bs + n = 9 then [] else ss) (bs @ top_bits n w)"
proof (induction n arbitrary: w ws c d bs)
  case (Suc n)
  let ?ws = "ll_Clockhigh ((if bit w 7 then ll_Datahigh else ll_Datalow) (ll_Clocklow ws))"
  have "bus ((if bit w 7 then ll_Datahigh else ll_Datalow) (ll_Clocklow ws)) (False, bit w 7) ss bs"
    using bus_data(1,2) [OF bus_clock_low [OF Suc.prems(1)]] by (cases "bit w 7") simp_all
  then have one: "bus ?ws (True, bit w 7) ss (bs @ [bit w 7])" using Suc.prems(2) by (intro bus_clock_high(1)) simp_all
  have bits: "top_bits (Suc n) w = bit w 7 # top_bits n (push_bit 1 w)" using Suc.prems(2) by (intro top_bits_Suc) simp
  show ?case
  proof (cases n)
    case 0
    then show ?thesis using one Suc.prems(2) bits by (auto simp: top_bits_def)
  next
    case (Suc m)
    then show ?thesis using Suc.IH [OF one, of "push_bit 1 w"] \<open>length bs + Suc n \<le> 8\<close> bits by simp
  qed
qed simp

text \<open>With eight bits sent, the clock goes up once more with the data line released.\<close>

definition before_ack :: "u8 \<Rightarrow> wires \<Rightarrow> wires" where
  "before_ack w ws = ll_Clockhigh (ll_Datahigh (ll_Clocklow (write_bits 8 w ws)))"

lemma bus_before_ack:
  "bus ws (c, d) ss [] \<Longrightarrow> bus (before_ack w ws) (True, True) (ss @ [Sym_Byte (bits_of w) True]) []"
proof -
  assume "bus ws (c, d) ss []"
  then obtain d' where "bus (write_bits 8 w ws) (True, d') ss (bits_of w)"
    using bus_write_bits [of ws c d ss "[]" 8 w] by (auto simp: top_bits_8)
  then show ?thesis
    unfolding before_ack_def
    by (intro bus_clock_high(2) bus_data(1) bus_clock_low [where c = True]) (auto simp: bits_of_def)
qed

lemma ack_tries_bus: "bus ws l ss bs \<Longrightarrow> bus (snd (ack_tries sda n i ws)) l ss bs"
  by (induction n arbitrary: i ws) (auto simp: Let_def split: prod.splits dest: bus_read [where sda = sda])

text \<open>What the device does while the clock is high after the eighth bit: it holds the line down at once,
  or it never does.\<close>

definition takes_bytes :: "(wires \<Rightarrow> bool) \<Rightarrow> bool" where
  "takes_bytes sda \<longleftrightarrow>
     (\<forall>ws ss b. bus ws (True, True) (ss @ [Sym_Byte b True]) [] \<longrightarrow> \<not> sda ws)"

lemma ll_Write_eq:
  "ll_Write sda w ws = (fst (ack_tries sda LL_ACK_TRIES 0 (before_ack w ws)),
     ll_Clocklow (snd (ack_tries sda LL_ACK_TRIES 0 (before_ack w ws))))"
  by (simp add: ll_Write_def before_ack_def Let_def split_def)

lemma ll_Write_bus:
  assumes "bus ws (c, d) ss []"
  shows "bus (snd (ll_Write sda w ws)) (False, True) (ss @ [Sym_Byte (bits_of w) True]) []"
  using bus_clock_low [OF ack_tries_bus [OF bus_before_ack [OF assms, of w], of sda LL_ACK_TRIES 0]]
  unfolding ll_Write_eq by simp

lemma ll_Write_taken:
  assumes "bus ws (c, d) ss []" "takes_bytes sda"
  shows "fst (ll_Write sda w ws) = 0"
proof -
  have "\<not> sda (before_ack w ws)" using assms(2) bus_before_ack [OF assms(1), of w] by (auto simp: takes_bytes_def)
  moreover have tries: "LL_ACK_TRIES = Suc 7" by (simp add: LL_ACK_TRIES_def)
  ultimately show ?thesis unfolding ll_Write_eq tries by (subst ack_tries.simps) (simp add: ll_Data_def)
qed

lemma ack_tries_refused: "(\<And>ws. sda ws) \<Longrightarrow> fst (ack_tries sda n i ws) = i + n"
  by (induction n arbitrary: i ws) (auto simp: Let_def ll_Data_def)

lemma write_all_taken:
  "bus ws (False, d) ss [] \<Longrightarrow> takes_bytes sda \<Longrightarrow>
   \<exists>ws' d'. write_all sda bs ws = (True, ws') \<and> bus ws' (False, d') (ss @ map (\<lambda>b. Sym_Byte (bits_of b) True) bs) []"
proof (induction bs arbitrary: ws d ss)
  case (Cons b bs)
  have w: "ll_Write sda b ws = (0, snd (ll_Write sda b ws))" using ll_Write_taken [OF Cons.prems] by (intro prod_eqI) simp_all
  from Cons.IH [OF ll_Write_bus [OF Cons.prems(1), of sda b] Cons.prems(2)]
  show ?case by (subst write_all.simps, subst w) simp
qed auto

subsection \<open>Receiving\<close>

text \<open>A device that answers with the bytes \<open>vs\<close>: the bits of the next byte are on the line while the clock
  is high.\<close>

definition received :: "bool \<Rightarrow> i2c_symbol" where "received ack = Sym_Byte (replicate 8 True) (\<not> ack)"

definition gives_bytes :: "(wires \<Rightarrow> bool) \<Rightarrow> i2c_symbol list \<Rightarrow> bytes \<Rightarrow> bool" where
  "gives_bytes sda ss vs \<longleftrightarrow>
     (\<forall>ws j k. j < length vs \<longrightarrow> k < 8 \<longrightarrow> bus ws (True, True) (ss @ replicate j (received True)) (replicate (Suc k) True) \<longrightarrow>
        sda ws = bit (vs ! j) (7 - k))"

lemma read_bits_ok:
  assumes "n \<le> 8" "bus ws (c, True) ss (replicate (8 - n) True)"
    and "\<And>ws k. 8 - n \<le> k \<Longrightarrow> k < 8 \<Longrightarrow> bus ws (True, True) ss (replicate (Suc k) True) \<Longrightarrow> sda ws = bit v (7 - k)"
    and "i = (if n = 0 then 0 else push_bit (n - 1) 1)"
  shows "\<exists>ws'. read_bits sda i r ws = (r OR take_bit n v, ws') \<and> bus ws' (if n = 0 then c else False, True) ss (replicate 8 True)"
  using assms
proof (induction n arbitrary: ws c i r)
  case 0
  then show ?case by (subst read_bits.simps) auto
next
  case (Suc n)
  have i: "i = push_bit n 1" using Suc.prems(4) by simp
  have n: "n < 8" using Suc.prems(1) by simp
  have "bit i n" using n unfolding i bit_push_bit_iff by simp
  then have i0: "i \<noteq> 0" by (metis bit_0_eq bot_apply bot_bool_def)
  let ?w1 = "ll_ClockCycle ws"
  have "bus ?w1 (True, True) ss (replicate (8 - Suc n) True @ [True])"
    unfolding ll_ClockCycle_def using bus_clock_low [OF Suc.prems(2)] n by (intro bus_clock_high(1)) simp_all
  moreover have "Suc (8 - Suc n) = 8 - n" using n by simp
  ultimately have w1: "bus ?w1 (True, True) ss (replicate (Suc (8 - Suc n)) True)" "bus ?w1 (True, True) ss (replicate (8 - n) True)"
    by (metis replicate_Suc replicate_append_same)+
  have read: "sda ?w1 = bit v n" using Suc.prems(3) [OF _ _ w1(1)] n by simp
  let ?w2 = "ll_Clocklow (?w1 @ [levels ?w1])"
  have "bus (?w1 @ [levels ?w1]) (True, True) ss (replicate (8 - n) True)"
    using bus_read [OF w1(2), of sda] by (simp add: ll_Data_def)
  then have w2: "bus ?w2 (False, True) ss (replicate (8 - n) True)" by (rule bus_clock_low)
  have i': "drop_bit 1 i = (if n = 0 then 0 else push_bit (n - 1) 1)"
  proof (cases n)
    case 0
    then show ?thesis unfolding i by simp
  next
    case (Suc m)
    have "bit (drop_bit 1 (push_bit (Suc m) (1 :: u8))) k = bit (push_bit m (1 :: u8)) k" if "k < 8" for k
      unfolding bit_drop_bit_eq o_def bit_push_bit_iff bit_1_iff using n Suc that by auto
    then have "drop_bit 1 (push_bit (Suc m) (1 :: u8)) = push_bit m 1" by (intro bit_word_eqI) simp
    then show ?thesis unfolding i Suc by simp
  qed
  let ?r = "if bit v n then r OR i else r"
  have step: "read_bits sda i r ws = read_bits sda (drop_bit 1 i) ?r ?w2"
    using i0 read by (subst read_bits.simps) (simp add: ll_Data_def Let_def)
  have "?r OR take_bit n v = r OR take_bit (Suc n) v"
  proof (rule bit_word_eqI)
    fix k assume k: "k < LENGTH(8)"
    have "bit ?r k \<longleftrightarrow> bit r k \<or> bit v n \<and> k = n"
      unfolding i using n by (cases "bit v n") (simp_all only: bit_or_iff bit_push_bit_iff bit_1_iff if_True if_False, auto)
    then show "bit (?r OR take_bit n v) k = bit (r OR take_bit (Suc n) v) k"
      unfolding bit_or_iff bit_take_bit_iff by (auto simp: less_Suc_eq)
  qed
  moreover obtain ws' where "read_bits sda (drop_bit 1 i) ?r ?w2 = (?r OR take_bit n v, ws')"
    "bus ws' (False, True) ss (replicate 8 True)"
    using Suc.IH [OF _ w2 _ i', of ?r] Suc.prems(3) n by (auto split: if_splits)
  ultimately show ?case unfolding step by auto
qed

lemma ll_Read_ok:
  assumes "bus ws (False, d) ss []"
    and "\<And>ws k. k < 8 \<Longrightarrow> bus ws (True, True) ss (replicate (Suc k) True) \<Longrightarrow> sda ws = bit v (7 - k)"
  shows "\<exists>ws'. ll_Read sda ws = (v, ws') \<and> bus ws' (False, True) ss (replicate 8 True)"
proof -
  have "bus (ll_Datahigh ws) (False, True) ss (replicate (8 - 8) True)" using bus_data(1) [OF assms(1)] by simp
  moreover have "(0x80 :: u8) = (if (8 :: nat) = 0 then 0 else push_bit (8 - 1) 1)" by simp
  moreover have "0 OR take_bit 8 v = v" by (rule bit_word_eqI) (simp add: bit_take_bit_iff)
  ultimately show ?thesis
    using read_bits_ok [of 8 "ll_Datahigh ws" False ss sda v "0x80" 0] assms(2) by (simp add: ll_Read_def)
qed

lemma bus_acknak:
  assumes "bus ws (False, d) ss bs" "length bs = 8"
  shows "bus (ll_AckNak ack ws) (False, \<not> ack) (ss @ [Sym_Byte bs (\<not> ack)]) []"
proof -
  have "bus ((if ack then ll_Datalow else ll_Datahigh) (ll_Clocklow ws)) (False, \<not> ack) ss bs"
    using bus_data(1,2) [OF bus_clock_low [OF assms(1)]] by (cases ack) simp_all
  from bus_clock_low [OF bus_clock_high(2) [OF this assms(2)]] show ?thesis by (simp add: ll_AckNak_def)
qed

lemma gives_bytes_step:
  assumes "gives_bytes sda ss (v # vs)"
  shows "gives_bytes sda (ss @ [received True]) vs"
  unfolding gives_bytes_def
proof (intro allI impI)
  fix ws j k
  assume h: "j < length vs" "k < 8" "bus ws (True, True) ((ss @ [received True]) @ replicate j (received True)) (replicate (Suc k) True)"
  have "(ss @ [received True]) @ replicate j (received True) = ss @ replicate (Suc j) (received True)" by simp
  then show "sda ws = bit (vs ! j) (7 - k)"
    using assms h unfolding gives_bytes_def by (metis Suc_less_eq length_Cons nth_Cons_Suc)
qed

lemma gives_bytes_first:
  "gives_bytes sda ss (v # vs) \<Longrightarrow> k < 8 \<Longrightarrow> bus ws (True, True) ss (replicate (Suc k) True) \<Longrightarrow> sda ws = bit v (7 - k)"
  unfolding gives_bytes_def by (metis append_Nil2 length_greater_0_conv list.distinct(1) nth_Cons_0 replicate_0)

lemma read_more_ok:
  "gives_bytes sda ss (vs @ [v]) \<Longrightarrow> bus ws (False, d) ss [] \<Longrightarrow>
   \<exists>ws' d'. read_more sda (length vs) ws = (vs, ws') \<and>
     bus ws' (False, d') (ss @ replicate (length vs) (received True)) [] \<and>
     gives_bytes sda (ss @ replicate (length vs) (received True)) [v]"
proof (induction vs arbitrary: ws d ss)
  case (Cons u vs)
  have g: "gives_bytes sda ss (u # (vs @ [v]))" using Cons.prems(1) by simp
  obtain ws1 where ws1: "ll_Read sda ws = (u, ws1)" "bus ws1 (False, True) ss (replicate 8 True)"
    using ll_Read_ok [OF Cons.prems(2)] gives_bytes_first [OF g] by blast
  have "bus (ll_AckNak True ws1) (False, False) (ss @ [received True]) []"
    using bus_acknak [OF ws1(2), of True] by (simp add: received_def)
  from Cons.IH [OF gives_bytes_step [OF g] this] show ?case using ws1(1) by auto
qed auto

subsection \<open>Waiting\<close>

definition wait_turn :: "wires \<Rightarrow> wires" where "wait_turn ws = ll_Stop ((ll_ClockCycle ^^ 15) (ll_Start ws))"

lemma wait_loop_ends:
  "limit < 256 \<Longrightarrow> uint j \<le> limit \<Longrightarrow> wait_loop limit j ws = Some ((wait_turn ^^ nat (limit - uint j)) ws)"
proof (induction "nat (limit - uint j)" arbitrary: j ws)
  case 0
  then show ?case by (subst wait_loop.simps) simp
next
  case (Suc n)
  have less: "uint j < limit" using Suc.hyps(2) by simp
  have next_j: "uint (j + 1) = uint j + 1" using less Suc.prems(1) by (simp add: uint_word_ariths)
  have n: "n = nat (limit - uint (j + 1))" using Suc.hyps(2) next_j by simp
  have "wait_loop limit j ws = wait_loop limit (j + 1) (wait_turn ws)"
    using less by (subst wait_loop.simps) (simp add: wait_turn_def)
  also have "\<dots> = Some ((wait_turn ^^ n) (wait_turn ws))"
    using Suc.hyps(1) [OF n] Suc.prems(1) less next_j n by simp
  also have "(wait_turn ^^ n) (wait_turn ws) = (wait_turn ^^ Suc n) ws" by (simp add: funpow_swap1)
  finally show ?case by (simp only: Suc.hyps(2))
qed

lemma wait_loop_never: "wait_loop limit j ws = Some y \<Longrightarrow> limit < 256"
proof (rule wait_loop.raw_induct [where P = "\<lambda>limit j ws y. limit < 256"])
  fix f :: "int \<Rightarrow> u8 \<Rightarrow> wires \<Rightarrow> wires option" and limit and j :: u8 and ws y
  assume IH: "\<And>limit j ws y. f limit j ws = Some y \<Longrightarrow> limit < 256"
    and body: "(if uint j < limit then f limit (j + 1) (ll_Stop ((ll_ClockCycle ^^ 15) (ll_Start ws))) else Some ws) = Some y"
  show "limit < 256"
  proof (cases "uint j < limit")
    case True
    then show ?thesis using body by (intro IH) simp
  next
    case False
    then show ?thesis using uint_lt2p [of j] by simp
  qed
qed

text \<open>A chip that answers with \<open>vs\<close> once \<open>n\<close> symbols have been seen.\<close>

definition demo_chip :: "nat \<Rightarrow> bytes \<Rightarrow> wires \<Rightarrow> bool" where
  "demo_chip n vs ws = bit (vs ! (length (bus_symbols ws) - n)) (8 - bus_pending ws)"

lemma demo_chip_gives: "gives_bytes (demo_chip (length ss) vs) ss vs"
  by (auto simp: gives_bytes_def demo_chip_def bus_def bus_pending_def)

text \<open>A chip that takes every byte.\<close>

definition demo_taker :: "wires \<Rightarrow> bool" where
  "demo_taker ws = (bus_pending ws \<noteq> 0 \<or> levels ws \<noteq> (True, True))"

lemma demo_taker_takes: "takes_bytes demo_taker"
  by (auto simp: takes_bytes_def demo_taker_def bus_def bus_pending_def)

lemma idle_bus: "bus [] (True, True) [] []"
  by (simp add: bus_def levels_def bus_symbols_def)

subsection \<open>Properties\<close>

text \<open>C25. Sending a command: to a chip that takes every byte, ll_SendCommand sends a start and the bytes of
  the command in order, high bit first, each with the line released for the acknowledge bit, and returns
  SUCCESS, with the bus left inside the transaction for the data that follow.\<close>

theorem send_command_taken:
  assumes "bus ws (c, d) ss bs" "length bs < 8" "takes_bytes sda" "0 < numBytes" "length buf = unat numBytes"
  shows "\<exists>ws' d'. ll_SendCommand sda buf numBytes ws = Some (SUCCESS, ws') \<and>
    bus ws' (False, d') (ss @ Sym_Start # map (\<lambda>b. Sym_Byte (bits_of b) True) buf) []"
proof -
  have "0 < unat numBytes" using assms(4) by (simp add: unat_gt_0 word_gt_0)
  then obtain b rest where buf: "buf = b # rest" using assms(5) by (cases buf) auto
  let ?w1 = "snd (ll_Write sda b (ll_Start ws))"
  note s = bus_start [OF assms(1,2)]
  have "start_tries sda b LL_START_TRIES ws = (True, ?w1)"
  proof -
    have tries: "LL_START_TRIES = Suc 9" by (simp add: LL_START_TRIES_def)
    show ?thesis unfolding tries using ll_Write_taken [OF s assms(3), of b] by (subst start_tries.simps) (simp add: split_def Let_def)
  qed
  moreover obtain ws' d' where "write_all sda rest ?w1 = (True, ws')"
    "bus ws' (False, d') ((ss @ [Sym_Start]) @ [Sym_Byte (bits_of b) True] @ map (\<lambda>b. Sym_Byte (bits_of b) True) rest) []"
    using write_all_taken [OF ll_Write_bus [OF s, of sda b] assms(3), of rest] by auto
  ultimately show ?thesis using buf assms(5) by (auto simp: ll_SendCommand_def)
qed

theorem send_command_taken_witness:
  "\<exists>ws' d'. ll_SendCommand demo_taker [0xB6, 0, 1, 2] 4 [] = Some (SUCCESS, ws') \<and>
     bus ws' (False, d') ([] @ Sym_Start # map (\<lambda>b. Sym_Byte (bits_of b) True) [0xB6, 0, 1, 2]) []"
  by (rule send_command_taken [OF idle_bus _ demo_taker_takes]) simp_all

text \<open>No chip: when the line is never pulled down, ll_SendCommand makes ten attempts, each a start and
  the first byte, and returns FAIL_CMDSTART; it sends no stop.\<close>

theorem send_command_refused:
  assumes "bus ws (c, d) ss bs" "length bs < 8" "\<And>ws. sda ws" "0 < length buf" "unat numBytes \<le> length buf"
  shows "\<exists>ws' d'. ll_SendCommand sda buf numBytes ws = Some (FAIL_CMDSTART, ws') \<and>
    bus ws' (False, d') (ss @ concat (replicate 10 [Sym_Start, Sym_Byte (bits_of (buf ! 0)) True])) []"
proof -
  have refused: "fst (ll_Write sda b ws) = 8" for b ws
    unfolding ll_Write_eq using ack_tries_refused [of sda LL_ACK_TRIES 0] assms(3) by (simp add: LL_ACK_TRIES_def)
  have "\<exists>ws' d'. start_tries sda b (Suc n) ws = (False, ws') \<and>
      bus ws' (False, d') (ss @ concat (replicate (Suc n) [Sym_Start, Sym_Byte (bits_of b) True])) []"
    if "bus ws (c, d) ss bs" "length bs < 8" for b n ws c d ss bs
    using that
  proof (induction n arbitrary: ws c d ss bs)
    case 0
    then show ?case
      using ll_Write_bus [OF bus_start [OF "0.prems"], of sda b] refused [of b "ll_Start ws"]
      by (auto simp: split_def Let_def)
  next
    case (Suc n)
    let ?w = "snd (ll_Write sda b (ll_Start ws))"
    have "start_tries sda b (Suc (Suc n)) ws = start_tries sda b (Suc n) ?w"
      using refused [of b "ll_Start ws"] by (subst start_tries.simps) (simp add: split_def Let_def)
    then show ?case using Suc.IH [OF ll_Write_bus [OF bus_start [OF Suc.prems], of sda b]] by auto
  qed
  from this [OF assms(1,2), of "buf ! 0" 9] obtain ws' d' where "start_tries sda (buf ! 0) 10 ws = (False, ws')"
    "bus ws' (False, d') (ss @ concat (replicate 10 [Sym_Start, Sym_Byte (bits_of (buf ! 0)) True])) []"
    by (auto simp: eval_nat_numeral)
  then show ?thesis using assms(4,5) by (auto simp: ll_SendCommand_def LL_START_TRIES_def)
qed

theorem send_command_refused_witness:
  "\<exists>ws' d'. ll_SendCommand (\<lambda>_. True) [0xB6, 0, 1, 2] 4 [] = Some (FAIL_CMDSTART, ws') \<and>
     bus ws' (False, d') ([] @ concat (replicate 10 [Sym_Start, Sym_Byte (bits_of ([0xB6, 0, 1, 2] ! 0)) True])) []"
  by (rule send_command_refused [OF idle_bus]) simp_all

text \<open>C26. Receiving: from a chip that puts the bits of its bytes on the line, ll_ReceiveData gets exactly
  these bytes, acknowledges all but the last, and ends with a stop and both lines released.\<close>

theorem receive_data_exact:
  assumes "bus ws (False, d) ss []" "gives_bytes sda ss vs" "vs \<noteq> []" "length vs = unat uclen"
  shows "\<exists>ws'. ll_ReceiveData sda uclen ws = (vs, ws') \<and>
    bus ws' (True, True) (ss @ replicate (length vs - 1) (received True) @ [received False, Sym_Stop]) []"
proof -
  obtain us v where vs: "vs = us @ [v]" using assms(3) by (cases vs rule: rev_cases) auto
  obtain w1 d1 where w1: "read_more sda (length us) ws = (us, w1)"
    "bus w1 (False, d1) (ss @ replicate (length us) (received True)) []"
    "gives_bytes sda (ss @ replicate (length us) (received True)) [v]"
    using read_more_ok [OF assms(2) [unfolded vs] assms(1)] by blast
  obtain w2 where w2: "ll_Read sda w1 = (v, w2)"
    "bus w2 (False, True) (ss @ replicate (length us) (received True)) (replicate 8 True)"
    using ll_Read_ok [OF w1(2)] gives_bytes_first [OF w1(3)] by blast
  have "bus (ll_Stop (ll_AckNak False w2)) (True, True)
      (((ss @ replicate (length us) (received True)) @ [received False]) @ [Sym_Stop]) []"
    using bus_stop [OF bus_acknak [OF w2(2), of False]] by (simp add: received_def)
  moreover have "unat uclen - 1 = length us" "0 < uclen"
    using assms(4) vs by (auto simp: word_gt_0)
  ultimately show ?thesis using w1(1) w2(1) vs by (simp add: ll_ReceiveData_def)
qed

theorem receive_data_exact_witness:
  "\<exists>ws'. ll_ReceiveData (demo_chip 1 [0xA5, 0x3C]) 2 (ll_Start []) = ([0xA5, 0x3C], ws')"
  using receive_data_exact [OF bus_start [OF idle_bus] demo_chip_gives, of "[0xA5, 0x3C]" 2] by auto

text \<open>Waiting with the clock running ends for arguments below 64, after four starts and stops for each
  unit; from 64 on the one-byte counter never reaches the limit and ll_WaitClock does not return.\<close>

theorem wait_clock_limit:
  "ll_WaitClock lp ws = (if lp < 64 then Some ((wait_turn ^^ (4 * unat lp)) ws) else None)"
proof (cases "lp < 64")
  case True
  then have "uint lp < 64" by (simp add: word_less_def)
  moreover have "nat (uint lp * 4 - uint (0 :: u8)) = 4 * unat lp"
    by (simp add: nat_mult_distrib)
  ultimately show ?thesis using True wait_loop_ends [of "uint lp * 4" 0 ws] by (simp add: ll_WaitClock_def)
next
  case False
  then have "64 \<le> uint lp" by (simp add: word_less_def)
  then have "wait_loop (uint lp * 4) 0 ws = None"
    using wait_loop_never [of "uint lp * 4" 0 ws] by (cases "wait_loop (uint lp * 4) 0 ws") auto
  then show ?thesis using False by (simp add: ll_WaitClock_def)
qed

end
