(* ===== verification/Qi_Boot.thy ===== *)
theory Qi_Boot
  imports Qi_Tags Ext2_Demo
begin

section \<open>The second phase: booting from an ext2 partition\<close>

text \<open>
  The second phase and the ext2 reader together: what \<open>read_file\<close> gets from a sound file system, and
  with it a whole boot, from the partition table to the jump into a kernel whose image, initramfs and
  tags are in memory.
\<close>

subsection \<open>Files by name\<close>

abbreviation "disk_root disk \<equiv> root_inode disk"

definition path_text :: "nat \<Rightarrow> bytes list \<Rightarrow> bytes" where
  "path_text k ps = replicate k SLASH @ join_path ps"

text \<open>The regular file that a path names: its bytes lie on the partition, with no holes.\<close>

definition has_file :: "bytes \<Rightarrow> bytes list \<Rightarrow> bytes \<Rightarrow> bool" where
  "has_file disk ps bs \<longleftrightarrow> ps \<noteq> [] \<and>
     walk_ok disk (superblock disk) (disk_inode_size disk) (root_inode disk) ps \<and>
     (\<exists>ino. walk disk (superblock disk) (disk_inode_size disk) (root_inode disk) ps = Some (ino, 1) \<and>
        inode_ok disk (superblock disk) (disk_inode_size disk) ino \<and>
        file_ok disk (superblock disk) (inode_at disk (superblock disk) (disk_inode_size disk) ino) \<and>
        dense disk (superblock disk) (inode_at disk (superblock disk) (disk_inode_size disk) ino) \<and>
        bs = file_bytes disk (superblock disk) (inode_at disk (superblock disk) (disk_inode_size disk) ino)) \<and>
     bs \<noteq> []"

definition lacks_file :: "bytes \<Rightarrow> bytes list \<Rightarrow> bool" where
  "lacks_file disk ps \<longleftrightarrow> ps \<noteq> [] \<and>
     walk_ok disk (superblock disk) (disk_inode_size disk) (root_inode disk) ps \<and>
     walk disk (superblock disk) (disk_inode_size disk) (root_inode disk) ps = None"

text \<open>What the pool must hold to look up a path: the node of the mount and those of the entries passed.\<close>

definition open_cost :: "bytes \<Rightarrow> bytes list \<Rightarrow> nat" where
  "open_cost disk ps =
     352 + 144 * walk_cost disk (superblock disk) (disk_inode_size disk) (root_inode disk) ps"

subsection \<open>One file\<close>

definition fs_ok :: "dev_env \<Rightarrow> nat \<Rightarrow> bool list ext2_state \<Rightarrow> bool" where
  "fs_ok e rsv fs \<longleftrightarrow> driver_ok e \<and> quiet e (x_dev fs) \<and> ext2_disk (part_content e) \<and>
     ext2_inv (part_content e) (superblock (part_content e)) rsv fs"

lemma mount_step:
  assumes "fs_ok e (352 + rsv) fs"
  shows "\<exists>fs'. ext2fs_mount (ext2fs_devread e) fs = Some (1, fs') \<and> fs_ok e rsv fs' \<and>
    x_root fs' = Some (root_node (part_content e)) \<and> x_inode_size fs' = int (disk_inode_size (part_content e))"
proof -
  have "unat (x_malloc fs) + 352 \<le> MALLOC_POOL_EXTENT" using assms by (simp add: fs_ok_def ext2_inv_def)
  then obtain m k' where m: "ext2fs_mount (ext2fs_devread e) fs = Some (1, fs\<lparr>x_malloc := m, x_dev := k',
      x_inode_size := int (disk_inode_size (part_content e)), x_root := Some (root_node (part_content e))\<rparr>)"
    "unat m = unat (x_malloc fs) + 352" "quiet e k'"
    using dev_reader.mount_ok [of e fs] assms by (auto simp: fs_ok_def)
  then show ?thesis using assms by (auto simp: fs_ok_def ext2_inv_def)
qed

lemma open_step:
  fixes e
  defines "disk \<equiv> part_content e"
  defines "sb \<equiv> superblock disk" and "isz \<equiv> disk_inode_size disk"
  assumes "fs_ok e (rsv + 144 * walk_cost disk sb isz (root_inode disk) ps) fs" "ps \<noteq> []"
    and "x_root fs = Some (root_node disk)" "x_inode_size fs = int isz"
    and "walk_ok disk sb isz (root_inode disk) ps"
    and "\<And>ino. walk disk sb isz (root_inode disk) ps = Some (ino, 1) \<Longrightarrow> inode_ok disk sb isz ino"
  shows "\<exists>fs'. ext2fs_open (ext2fs_devread e) (path_text k ps) fs =
      Some (case walk disk sb isz (root_inode disk) ps of
              Some (ino, ft) \<Rightarrow> if ft = 1 then s32 (int (file_size (inode_at disk sb isz ino))) else - 2
            | None \<Rightarrow> - 2, fs') \<and>
      (\<forall>ino. walk disk sb isz (root_inode disk) ps = Some (ino, 1) \<longrightarrow>
         (\<exists>node. x_file fs' = Some node \<and> nd_sblock node = sb \<and> nd_inode node = inode_at disk sb isz ino)) \<and>
      x_root fs' = Some (root_node disk) \<and> fs_ok e rsv fs'"
proof -
  obtain p qs where ps: "ps = p # qs" using assms(5) by (cases ps) auto
  have root: "nd_sblock (root_node disk) = sb" "nd_inode (root_node disk) = root_inode disk" "nd_inode_read (root_node disk)"
    by (simp_all add: root_node_def sb_def)
  show ?thesis
    using dev_reader.open_ok [where e = e and root = "root_node disk" and st = fs and isz = isz and p = p and ps = qs
        and k = k and rsv = rsv, unfolded root] assms(4,6-) root
    unfolding fs_ok_def disk_def sb_def isz_def ps path_text_def by blast
qed

lemma has_fileD:
  assumes "has_file disk ps bs"
  obtains ino where "ps \<noteq> []" "bs \<noteq> []"
    "walk_ok disk (superblock disk) (disk_inode_size disk) (root_inode disk) ps"
    "walk disk (superblock disk) (disk_inode_size disk) (root_inode disk) ps = Some (ino, 1)"
    "inode_ok disk (superblock disk) (disk_inode_size disk) ino"
    "file_ok disk (superblock disk) (inode_at disk (superblock disk) (disk_inode_size disk) ino)"
    "dense disk (superblock disk) (inode_at disk (superblock disk) (disk_inode_size disk) ino)"
    "bs = file_bytes disk (superblock disk) (inode_at disk (superblock disk) (disk_inode_size disk) ino)"
    "length bs = file_size (inode_at disk (superblock disk) (disk_inode_size disk) ino)"
    "length bs < 1073741824"
proof -
  from assms obtain ino where ino: "ps \<noteq> []" "bs \<noteq> []"
    "walk_ok disk (superblock disk) (disk_inode_size disk) (root_inode disk) ps"
    "walk disk (superblock disk) (disk_inode_size disk) (root_inode disk) ps = Some (ino, 1)"
    "inode_ok disk (superblock disk) (disk_inode_size disk) ino"
    "file_ok disk (superblock disk) (inode_at disk (superblock disk) (disk_inode_size disk) ino)"
    "dense disk (superblock disk) (inode_at disk (superblock disk) (disk_inode_size disk) ino)"
    "bs = file_bytes disk (superblock disk) (inode_at disk (superblock disk) (disk_inode_size disk) ino)"
    unfolding has_file_def by blast
  have "length bs = file_size (inode_at disk (superblock disk) (disk_inode_size disk) ino)"
    unfolding ino(8) by (rule length_file_bytes [OF ino(6)])
  moreover from this have "length bs < 1073741824" using ino(6) by (simp add: file_ok_def)
  ultimately show thesis using that ino by blast
qed

lemma file_size_uint: "uint (ino_size inode) = int (file_size inode)"
  by (simp add: file_size_def)

lemma read_file_clamp:
  "ext2fs_read_file dr node pos len mem buf st =
   ext2fs_read_file dr node pos (min len (uint (ino_size (nd_inode node)))) mem buf st"
  unfolding ext2fs_read_file_def Let_def by (simp only: min.assoc min.idem)

lemma read_file_found:
  fixes env brd ks and st :: phase2
  defines "e \<equiv> dev_of env brd ks st"
  assumes fs: "ks_filesystem ks = FS_EXT2" "fs_ok e (open_cost (part_content e) ps + rsv) (p_fs st)"
    and has: "has_file (part_content e) ps bs"
    and n: "unat (word_of_int sz :: u32) \<noteq> 0" "dest + min (unat (word_of_int sz :: u32)) (length bs) \<le> length mem"
  shows "\<exists>fs'. read_file env brd ks (Some (path_text k ps)) mem dest sz st =
      Some (int (length bs), patch mem dest (region bs 0 (min (unat (word_of_int sz :: u32)) (length bs))), st\<lparr>p_fs := fs'\<rparr>) \<and>
      fs_ok e rsv fs'"
proof -
  let ?disk = "part_content e" and ?n = "min (unat (word_of_int sz :: u32)) (length bs)"
  let ?sb = "superblock ?disk" and ?isz = "disk_inode_size ?disk"
  obtain ino where ino: "ps \<noteq> []" "bs \<noteq> []" "walk_ok ?disk ?sb ?isz (root_inode ?disk) ps"
    "walk ?disk ?sb ?isz (root_inode ?disk) ps = Some (ino, 1)" "inode_ok ?disk ?sb ?isz ino"
    "file_ok ?disk ?sb (inode_at ?disk ?sb ?isz ino)" "dense ?disk ?sb (inode_at ?disk ?sb ?isz ino)"
    "bs = file_bytes ?disk ?sb (inode_at ?disk ?sb ?isz ino)"
    "length bs = file_size (inode_at ?disk ?sb ?isz ino)" "length bs < 1073741824"
    using has by (rule has_fileD)
  have "fs_ok e (352 + (rsv + 144 * walk_cost ?disk ?sb ?isz (root_inode ?disk) ps)) (p_fs st)"
    using fs(2) by (simp add: open_cost_def algebra_simps)
  from mount_step [OF this] obtain f1 where f1: "ext2fs_mount (ext2fs_devread e) (p_fs st) = Some (1, f1)"
    "fs_ok e (rsv + 144 * walk_cost ?disk ?sb ?isz (root_inode ?disk) ps) f1"
    "x_root f1 = Some (root_node ?disk)" "x_inode_size f1 = int ?isz"
    by blast
  have "s32 (int (length bs)) = int (length bs)" using ino(10) by (intro s32_of_nat) simp
  then obtain f2 node where f2: "ext2fs_open (ext2fs_devread e) (path_text k ps) f1 = Some (int (length bs), f2)"
    "x_file f2 = Some node" "nd_sblock node = ?sb" "nd_inode node = inode_at ?disk ?sb ?isz ino"
    "x_root f2 = Some (root_node ?disk)" "fs_ok e rsv f2"
    using open_step [OF f1(2) ino(1) f1(3,4) ino(3), of k] ino(4,5,9) by auto
  have sz: "0 < ?n" using n(1) ino(2) by (auto simp: unat_gt_0)
  have m: "min (uint (word_of_int sz :: u32)) (uint (ino_size (nd_inode node))) = int ?n"
  proof -
    have "uint (ino_size (nd_inode node)) = int (length bs)" by (simp only: file_size_uint f2(4) ino(9))
    then show ?thesis by (simp only: of_nat_min int_unat_uint)
  qed
  have rd: "ext2fs_read (ext2fs_devread e) mem dest (word_of_int sz) f2 =
      ext2fs_read_file (ext2fs_devread e) node 0 (int ?n) mem dest f2"
  proof -
    have "ext2fs_read (ext2fs_devread e) mem dest (word_of_int sz) f2 =
        ext2fs_read_file (ext2fs_devread e) node 0 (uint (word_of_int sz :: u32)) mem dest f2"
      using f2(2,5) by (simp add: ext2fs_read_def)
    also have "\<dots> = ext2fs_read_file (ext2fs_devread e) node 0 (int ?n) mem dest f2"
      by (subst read_file_clamp) (simp only: m)
    finally show ?thesis .
  qed
  obtain f3 where f3: "ext2fs_read_file (ext2fs_devread e) node (int 0) (int ?n) mem dest f2 =
      Some (int ?n, patch mem dest (region bs 0 ?n), f3)" "fs_ok e rsv f3"
    using dev_reader.read_piece_ok [where e = e and node = node and pos = 0 and len = ?n and mem = mem and buf = dest
        and st = f2 and rsv = rsv, unfolded f2(3,4) ino(8) [symmetric]] ino(6,7,9) sz n(2) f2(6)
    by (auto simp: fs_ok_def)
  show ?thesis
    using fs(1) f1(1) f2(1) f3 rd unfolding read_file_def e_def [symmetric]
    by (intro exI [of _ f3]) (simp add: Let_def)
qed

lemma read_file_missing:
  fixes env brd ks and st :: phase2
  defines "e \<equiv> dev_of env brd ks st"
  assumes fs: "ks_filesystem ks = FS_EXT2" "fs_ok e (open_cost (part_content e) ps + rsv) (p_fs st)"
    and no: "lacks_file (part_content e) ps"
  shows "\<exists>fs'. read_file env brd ks (Some (path_text k ps)) mem dest sz st = Some (- 1, mem, st\<lparr>p_fs := fs'\<rparr>) \<and>
      fs_ok e rsv fs'"
proof -
  let ?disk = "part_content e"
  let ?sb = "superblock ?disk" and ?isz = "disk_inode_size ?disk"
  have "fs_ok e (352 + (rsv + 144 * walk_cost ?disk ?sb ?isz (root_inode ?disk) ps)) (p_fs st)"
    using fs(2) by (simp add: open_cost_def algebra_simps)
  from mount_step [OF this] obtain f1 where f1: "ext2fs_mount (ext2fs_devread e) (p_fs st) = Some (1, f1)"
    "fs_ok e (rsv + 144 * walk_cost ?disk ?sb ?isz (root_inode ?disk) ps) f1"
    "x_root f1 = Some (root_node ?disk)" "x_inode_size f1 = int ?isz"
    by blast
  obtain f2 where f2: "ext2fs_open (ext2fs_devread e) (path_text k ps) f1 = Some (- 2, f2)" "fs_ok e rsv f2"
    using open_step [OF f1(2) _ f1(3,4), of k] no by (auto simp: lacks_file_def)
  show ?thesis
    using fs(1) f1(1) f2 unfolding read_file_def e_def [symmetric]
    by (intro exI [of _ f2]) (simp add: Let_def)
qed

subsection \<open>The state of the second phase\<close>

lemma indicate_simps [simp]:
  "p_ram (indicate brd ui st) = p_ram st" "p_append (indicate brd ui st) = p_append st"
  "p_fs (indicate brd ui st) = p_fs st"
  "p_partition_offset_blocks (indicate brd ui st) = p_partition_offset_blocks st"
  "p_partition_length_blocks (indicate brd ui st) = p_partition_length_blocks st"
  "p_last_block_init (indicate brd ui st) = p_last_block_init st"
  "p_last_block_init_result (indicate brd ui st) = p_last_block_init_result st"
  by (simp_all add: indicate_def)

lemma dev_of_simps [simp]:
  "dev_of env brd ks (indicate brd ui st) = dev_of env brd ks st"
  "dev_of env brd ks (st\<lparr>p_ram := ram\<rparr>) = dev_of env brd ks st"
  "dev_of env brd ks (st\<lparr>p_fs := fs\<rparr>) = dev_of env brd ks st"
  "dev_of env brd ks (st\<lparr>p_append := app\<rparr>) = dev_of env brd ks st"
  by (simp_all add: dev_of_def)

lemma byte_at_holds: "holds ram p bs \<Longrightarrow> i < length bs \<Longrightarrow> byte_at ram (p + i) = byte_at bs i"
  by (metis byte_at_region holds_def)

lemma get32_be_holds: "holds ram p bs \<Longrightarrow> off + 4 \<le> length bs \<Longrightarrow> get32_be ram (p + off) = get32_be bs off"
  using byte_at_holds [of ram p bs off] byte_at_holds [of ram p bs "off + 1"] byte_at_holds [of ram p bs "off + 2"]
    byte_at_holds [of ram p bs "off + 3"]
  by (simp add: get32_be_def add.assoc)

subsection \<open>Kernel images\<close>

definition good_uimage :: "bytes \<Rightarrow> bool" where
  "good_uimage K \<longleftrightarrow> 64 \<le> length K \<and> length K < 1073741824 \<and> ih_magic K 0 = IH_MAGIC \<and>
     unat (ih_size K 0) = length K - 64 \<and> crc32 (byte_at K) 0 64 (length K - 64) = ih_dcrc K 0"

lemma round_up:
  fixes w :: u32
  assumes "unat w + 2112 < 4294967296"
  shows "unat w + 64 \<le> unat ((w + 64 + 2048) AND NOT 2047)"
proof -
  have u: "unat (w + 64 + 2048) = unat w + 2112" using assms by (simp add: unat_word_ariths)
  define x where "x = w + 64 + 2048"
  have "x AND NOT 2047 = push_bit 11 (drop_bit 11 x)"
  proof (rule bit_word_eqI)
    fix n assume n: "n < LENGTH(32)"
    have m: "(2047 :: u32) = mask 11" by (simp add: mask_eq_exp_minus_1)
    show "bit (x AND NOT 2047) n = bit (push_bit 11 (drop_bit 11 x)) n"
      unfolding m bit_and_iff bit_not_iff bit_mask_iff bit_push_bit_iff bit_drop_bit_eq o_def using n by auto
  qed
  then have "unat (x AND NOT 2047) = unat x div 2048 * 2048"
  proof -
    assume "x AND NOT 2047 = push_bit 11 (drop_bit 11 x)"
    also have "\<dots> = x div 2048 * 2048" by (simp add: push_bit_eq_mult drop_bit_eq_div)
    finally have "unat (x AND NOT 2047) = unat x div 2048 * 2048 mod 4294967296"
      by (simp only: unat_word_ariths unat_div_distrib) (simp add: mod_mult_left_eq)
    moreover have "unat x div 2048 * 2048 < 4294967296"
    proof -
      have "unat x < 4294967296" using unsigned_less [of x, where 'a = nat] by simp
      then show ?thesis using div_times_less_eq_dividend [of "unat x" 2048] by linarith
    qed
    ultimately show ?thesis by simp
  qed
  moreover have "unat w + 64 \<le> unat x div 2048 * 2048" using u unfolding x_def [symmetric] by linarith
  ultimately show ?thesis by (simp add: x_def)
qed

lemma uimage_holds:
  assumes "good_uimage K" "holds ram p K"
  shows "ih_magic ram p = IH_MAGIC" "ih_size ram p = ih_size K 0" "do_crc ram p = Some True"
proof -
  have h: "get32_be ram (p + 0) = get32_be K 0" "get32_be ram (p + 12) = get32_be K 12" "get32_be ram (p + 24) = get32_be K 24"
    using assms by (intro get32_be_holds; simp add: good_uimage_def)+
  then show "ih_magic ram p = IH_MAGIC" and s: "ih_size ram p = ih_size K 0"
    using assms(1) by (simp_all add: good_uimage_def ih_magic_def ih_size_def)
  have d: "ih_dcrc ram p = ih_dcrc K 0" using h(3) by (simp add: ih_dcrc_def)
  have "byte_at ram (p + 64 + i) = byte_at K (64 + i)" if "i < length K - 64" for i
    using byte_at_holds [OF assms(2), of "64 + i"] that by (simp add: add.assoc)
  then have "crc32 (byte_at ram) 0 (p + 64) (length K - 64) = crc32 (byte_at K) 0 64 (length K - 64)"
    unfolding crc32_spec by (intro arg_cong [where f = "crc_spec 0"] map_cong) auto
  moreover have "p + 64 + (length K - 64) \<le> length ram" using assms by (simp add: holds_def good_uimage_def)
  ultimately show "do_crc ram p = Some True"
    using assms(1) s d by (simp add: do_crc_def good_uimage_def sizeof_image_header_def Let_def not_less)
qed

subsection \<open>A whole boot\<close>

definition part_entry :: "kernel_source \<Rightarrow> nat" where
  "part_entry ks = 0x1be + 8 + 0x10 * (nat (ks_partition_index ks) - 1)"

definition part_env :: "phase2_env \<Rightarrow> board_api \<Rightarrow> kernel_source \<Rightarrow> bytes \<Rightarrow> dev_env" where
  "part_env env brd ks mbr =
     \<lparr>dv_block_read = pv_block_read env (ks_block_read ks), dv_part_offset = uint (get32 mbr (part_entry ks)),
      dv_part_length = uint (get32 mbr (part_entry ks + 4)), dv_has_keys = bd_get_ui_keys brd, dv_junk = pv_junk env\<rparr>"

lemma do_partitions_ok:
  assumes "0 < ks_partition_index ks" "ks_partition_index ks \<le> 4"
    and "pv_block_read env (ks_block_read ks) 0 4 = (r, mbr)" "0 \<le> r" "length mbr = 2048"
    and "byte_at mbr 0x1fe = 0x55" "byte_at mbr 0x1ff = 0xaa" "dram + 2048 \<le> length (p_ram st)"
  shows "\<exists>st'. do_partitions env brd ks dram st = Some (True, st') \<and>
      dev_of env brd ks st' = part_env env brd ks mbr \<and> p_ram st' = patch (p_ram st) dram mbr \<and>
      p_fs st' = p_fs st \<and> p_append st' = p_append st"
proof -
  let ?ram = "patch (p_ram st) dram mbr"
  have h: "holds ?ram dram mbr" using assms(5,8) by (intro holds_patch_same) simp
  have n: "nat (int dram + 446 + 8 + 16 * (ks_partition_index ks - 1)) = dram + part_entry ks" "part_entry ks + 8 \<le> 512"
    using assms(1,2) by (auto simp: part_entry_def nat_add_distrib nat_mult_distrib nat_diff_distrib)
  have "0 \<le> int dram + 446 + 8 + 16 * (ks_partition_index ks - 1)" using assms(1) by simp
  then have in_ram: "\<not> (int dram + 446 + 8 + 16 * (ks_partition_index ks - 1) < 0 \<or>
      int (length ?ram) < int dram + 446 + 8 + 16 * (ks_partition_index ks - 1) + 8)"
    using n assms(5,8) by auto
  have "byte_at ?ram (dram + 0x1fe) = 0x55" "byte_at ?ram (dram + 0x1ff) = 0xaa"
    using byte_at_holds [OF h] assms(5-7) by simp_all
  moreover have "get32 ?ram (dram + part_entry ks) = get32 mbr (part_entry ks)"
    "get32 ?ram (dram + part_entry ks + 4) = get32 mbr (part_entry ks + 4)"
    using get32_holds [OF h, of "part_entry ks"] get32_holds [OF h, of "part_entry ks + 4"] n(2) assms(5)
    by (simp_all add: add.assoc)
  moreover have "wr (p_ram st) dram mbr = Some ?ram" using assms(5,8) by (simp add: wr_def)
  ultimately show ?thesis
    using assms(1,3,4) n(1) in_ram
    by (auto simp: do_partitions_def Let_def dev_of_def part_env_def)
qed

text \<open>The image is read twice, its first page and then all of it.\<close>

lemma load_uimage_ok:
  fixes env brd ks and st :: phase2
  defines "e \<equiv> dev_of env brd ks st"
  assumes fs: "ks_filesystem ks = FS_EXT2" "fs_ok e (open_cost (part_content e) kps + rsv) (p_fs st)"
    and K: "ks_filepath ks = Some (path_text k kps)" "has_file (part_content e) kps K" "good_uimage K"
    and head: "holds (p_ram st) dram (region K 0 (min 4096 (length K)))" and room: "dram + length K \<le> length (p_ram st)"
  shows "\<exists>st'. load_uimage env brd ks dram st = Some (Some (dram + 64), st') \<and> p_ram st' = patch (p_ram st) dram K \<and>
      p_append st' = p_append st \<and> fs_ok e rsv (p_fs st') \<and> dev_of env brd ks st' = e"
proof -
  let ?ks = "(ih_size K 0 + word_of_nat 64 + 2048) AND NOT 2047 :: u32"
  have len: "64 \<le> length K" "length K < 1073741824" "unat (ih_size K 0) = length K - 64"
    using K(3) by (simp_all add: good_uimage_def)
  have "region K 0 (min 4096 (length K)) = region K 0 64 @ region K 64 (min 4096 (length K) - 64)"
    using region_append_split [of K 0 64 "min 4096 (length K) - 64"] len(1) by simp
  then have h: "holds (p_ram st) dram (region K 0 64)" using head by (simp add: holds_append)
  have get: "get32_be (p_ram st) (dram + off) = get32_be K off" if "off + 4 \<le> 64" for off
  proof -
    have "get32_be (p_ram st) (dram + off) = get32_be (region K 0 64) off"
      using get32_be_holds [OF h, of off] that len(1) by simp
    also have "\<dots> = get32_be K off" using that len(1) by (simp add: get32_be_def byte_at_region)
    finally show ?thesis .
  qed
  have hdr: "ih_magic (p_ram st) dram = IH_MAGIC" "ih_size (p_ram st) dram = ih_size K 0"
    using get [of 0] get [of 12] K(3) by (simp_all add: ih_magic_def ih_size_def good_uimage_def)
  have "length K \<le> unat ?ks" using round_up [of "ih_size K 0"] len by simp
  then have all: "min (unat ?ks) (length K) = length K" by simp
  have word: "(word_of_int (sint ?ks) :: u32) = ?ks" by simp
  have "unat ?ks \<noteq> 0" using \<open>length K \<le> unat ?ks\<close> len(1) by linarith
  then obtain fs' where rd: "read_file env brd ks (Some (path_text k kps)) (p_ram st) dram (sint ?ks) st =
      Some (int (length K), patch (p_ram st) dram K, st\<lparr>p_fs := fs'\<rparr>)" "fs_ok e rsv fs'"
    using read_file_found [OF fs [unfolded e_def] K(2) [unfolded e_def], of "sint ?ks" dram "p_ram st" k] room
    unfolding word all e_def [symmetric] region_whole by auto
  have "holds (patch (p_ram st) dram K) dram K" using room by (rule holds_patch_same)
  from uimage_holds(3) [OF K(3) this] have crc: "do_crc (patch (p_ram st) dram K) dram = Some True" .
  show ?thesis
    using hdr K(1) rd crc unfolding load_uimage_def
    by (simp add: sizeof_image_header_def Let_def e_def [symmetric])
qed

subsection \<open>What a started kernel has passed\<close>

lemma load_uimage_checked:
  assumes "load_uimage env brd ks dram st = Some (Some k, st')"
  shows "k = dram + 64 \<and>
    crc32 (byte_at (p_ram st')) 0 (dram + 64) (unat (ih_size (p_ram st') dram)) = ih_dcrc (p_ram st') dram"
  using assms
  by (auto simp: load_uimage_def do_crc_def sizeof_image_header_def Let_def bind_eq_Some_conv split: if_splits prod.splits)

lemma load_zimage_checked:
  assumes "load_zimage env brd ks dram st = Some (Some k, st')"
  shows "k = dram \<and> get32 (p_ram st) (dram + 0x24) = 0x016f2818 \<and>
    (\<exists>got st1. read_file env brd ks (ks_filepath ks) (p_ram st) dram (sint (get32 (p_ram st) (dram + 0x2c))) st =
       Some (got, p_ram st', st1) \<and> 0 \<le> got \<and> u32_of got = uint (get32 (p_ram st) (dram + 0x2c)))"
  using assms
  by (auto simp: load_zimage_def Let_def bind_eq_Some_conv split: if_splits prod.splits)

lemma start_kernel_entry: "start_kernel env brd ks j st = Some (Some k, st') \<Longrightarrow> k = j"
  by (auto simp: start_kernel_def Let_def bind_eq_Some_conv split: if_splits prod.splits)

lemma try_this_kernel_started:
  assumes "try_this_kernel env brd ks st = Some (Some k, st')"
  shows "\<exists>s1 s2. start_kernel env brd ks k s2 = Some (Some k, st') \<and>
    (load_uimage env brd ks KERNEL_OFFSET s1 = Some (Some k, s2) \<or>
     load_zimage env brd ks KERNEL_OFFSET s1 = Some (Some k, s2))"
proof -
  from assms obtain s0 k1 s1 k2 s2 where k1: "load_uimage env brd ks KERNEL_OFFSET s0 = Some (k1, s1)"
    and k2: "(case k1 of None \<Rightarrow> load_zimage env brd ks KERNEL_OFFSET s1 | Some k \<Rightarrow> Some (Some k, s1)) = Some (k2, s2)"
    and k: "(case k2 of None \<Rightarrow> Some (None, s2) | Some k \<Rightarrow> start_kernel env brd ks k s2) = Some (Some k, st')"
    unfolding try_this_kernel_def Let_def
    by (auto simp: bind_eq_Some_conv split: if_splits prod.splits)
  from k have "k2 = Some k" "start_kernel env brd ks k s2 = Some (Some k, st')"
    by (auto split: option.splits dest: start_kernel_entry)
  with k1 k2 show ?thesis by (cases k1) auto
qed

lemma try_kernels_started:
  "try_kernels env brd kss st = Some (Started k st') \<Longrightarrow>
   \<exists>ks \<in> set kss. \<exists>s. try_this_kernel env brd ks s = Some (Some k, st')"
  by (induction kss arbitrary: st) (auto simp: bind_eq_Some_conv split: option.splits)

subsection \<open>A demonstration\<close>

text \<open>A board whose one source is the first partition of the small file system.\<close>

definition demo_source :: kernel_source where
  "demo_source = \<lparr>ks_filepath = Some [0x75], ks_initramfs_filepath = Some [0x6b], ks_block_init = Some 0, ks_block_read = 0,
     ks_partition_index = 1, ks_offset_blocks512 = 0, ks_filesystem = FS_EXT2, ks_commandline_append = None\<rparr>"

definition demo_board :: board_api where
  "demo_board = \<lparr>bd_linux_mem_start = 0x30000000, bd_linux_mem_size = 0x8000000, bd_linux_tag_placement = 0x30000100,
     bd_commandline_board = [0x20, 0x71, 0x0a], bd_commandline_board_debug = None, bd_noboot = [0x6e], bd_append = [0x6e],
     bd_machine_revision = 0, bd_append_device_specific_cmdline = None, bd_get_ui_keys = False, bd_get_ui_debug = None,
     bd_set_ui_indication = True, bd_kernel_source = [demo_source]\<rparr>"

definition demo_card :: phase2_env where
  "demo_card = \<lparr>pv_block_init = (\<lambda>_. 0),
     pv_block_read = (\<lambda>_ s n. (n, region demo_fs (512 * nat s) (512 * nat n))), pv_junk = 0\<rparr>"

definition demo_start :: phase2 where
  "demo_start = \<lparr>p_ram = replicate (INITRD_OFFSET + 8) 0, p_append = replicate 512 0, p_partition_offset_blocks = 0,
     p_partition_length_blocks = 0, p_fs = ext2_start [], p_last_block_init = None, p_last_block_init_result = 0, p_ui = []\<rparr>"

lemma demo_fields:
  "bd_kernel_source demo_board = [demo_source]" "bd_noboot demo_board = [0x6e]" "bd_append demo_board = [0x6e]"
  "bd_commandline_board demo_board = [0x20, 0x71, 0x0a]" "opt_text (bd_append_device_specific_cmdline demo_board) = []"
  "ks_filesystem demo_source = FS_EXT2" "ks_partition_index demo_source = 1" "ks_filepath demo_source = Some [0x75]"
  "ks_initramfs_filepath demo_source = Some [0x6b]" "opt_text (ks_commandline_append demo_source) = []"
  "p_last_block_init demo_start = None" "p_append demo_start = replicate 512 0"
  "pv_block_init demo_card i = 0" "pv_block_read demo_card 0 0 4 = (4, region demo_fs 0 2048)" "ks_block_read demo_source = 0"
  "length (p_ram demo_start) = 8388616" "p_fs demo_start = ext2_start []"
  by (simp_all add: demo_board_def demo_source_def demo_start_def demo_card_def opt_text_def INITRD_OFFSET_def)

lemma demo_strings:
  "command_line demo_board demo_source [] = [0x71]" "tag_place demo_board = 256"
  "long_text demo_board demo_source [] = [0x71, 0x0a]" "debug_text demo_board = []"
  by (simp_all add: command_line_def long_text_def demo_board_def demo_source_def opt_text_def debug_text_def
      rstrip_def cstr_of_def tag_place_def)

lemma demo_table:
  "length (region demo_fs 0 2048) = 2048" "byte_at (region demo_fs 0 2048) 510 = 0x55"
  "byte_at (region demo_fs 0 2048) 511 = 0xaa"
  "get32 (region demo_fs 0 2048) 454 = 0" "get32 (region demo_fs 0 2048) 458 = 14"
proof -
  show "length (region demo_fs 0 2048) = 2048" by (simp add: length_region length_demo_fs)
  have z: "region demo_fs 0 512 = demo_mbr"
    using demo_region [of 0 0 512] by (simp add: demo_blocks_def demo_mbr_def region_def)
  have "region demo_fs 0 2048 = demo_mbr @ region demo_fs 512 1536"
    using region_append_split [of demo_fs 0 512 1536] z by simp
  then show "byte_at (region demo_fs 0 2048) 510 = 0x55" "byte_at (region demo_fs 0 2048) 511 = 0xaa"
    "get32 (region demo_fs 0 2048) 454 = 0" "get32 (region demo_fs 0 2048) 458 = 14"
    by (simp_all add: demo_mbr_def reads byte_at_def nth_append)
qed

lemma demo_part: "part_env demo_card demo_board demo_source (region demo_fs 0 2048) = ram_env demo_fs"
  by (simp add: part_env_def part_entry_def demo_source_def demo_table ram_env_def demo_card_def demo_board_def length_demo_fs)

lemma demo_image_ne: "demo_image \<noteq> []"
  using length_demo_image by (metis list.size(3) zero_neq_numeral)

lemma demo_names:
  "has_file demo_fs [[0x75]] demo_image" "has_file demo_fs [[0x6b]] [0x68, 0x65, 0x6c, 0x6c, 0x6f]"
  "lacks_file demo_fs [[0x6e]]"
  "open_cost demo_fs [[0x75]] = 640" "open_cost demo_fs [[0x6b]] = 640" "open_cost demo_fs [[0x6e]] = 640"
  using demo_walk demo_files_ok demo_inode(2) [of 3] demo_inode(2) [of 4] demo_file_def demo_kernel_def demo_image_ne
  by (simp_all add: has_file_def lacks_file_def open_cost_def demo_ext2_disk demo_geometry demo_file_bytes
      del: walk.simps walk_ok.simps walk_cost.simps)

lemma demo_good: "good_uimage demo_image"
proof -
  have be: "get32_be (put32_be w @ xs) 0 = w" for w xs
    using word32_of_bytes [of w] by (simp add: get32_be_def put32_be_def put32_def byte_at_def ac_simps)
  have skip: "get32_be (xs @ ys) n = get32_be ys (n - length xs)" if "length xs \<le> n" for xs ys n
  proof -
    from that obtain d where "n = length xs + d" by (auto simp: le_iff_add)
    then show ?thesis by (simp add: get32_be_def byte_at_append)
  qed
  have "crc32 (byte_at demo_image) 0 64 1 = crc32 (\<lambda>_. 7) 0 0 1"
    unfolding crc32_spec by (simp add: demo_image_def byte_at_def nth_append)
  moreover have "get32_be demo_image 0 = IH_MAGIC" "get32_be demo_image 12 = 1" "get32_be demo_image 24 = crc32 (\<lambda>_. 7) 0 0 1"
    unfolding demo_image_def by (simp_all add: be skip IH_MAGIC_def)
  ultimately show ?thesis by (simp add: good_uimage_def ih_magic_def ih_size_def ih_dcrc_def)
qed

lemma demo_fs_ok: "rsv \<le> 10000 \<Longrightarrow> fs_ok (ram_env demo_fs) rsv (ext2_start [])"
  by (simp add: fs_ok_def demo_driver demo_ext2_disk ext2_inv_def ext2_start_def cache_holds_def cache_cost_def
      MALLOC_POOL_EXTENT_def demo_geometry)

text \<open>The same board with a zImage on a raw device.\<close>

definition demo_zimage :: bytes where
  "demo_zimage = replicate 36 0 @ put32 0x016f2818 @ replicate 4 0 @ put32 512 @ replicate 4048 0"

definition demo_raw_source :: kernel_source where
  "demo_raw_source = demo_source\<lparr>ks_filepath := None, ks_initramfs_filepath := None, ks_partition_index := 0,
     ks_filesystem := FS_RAW\<rparr>"

definition demo_raw_board :: board_api where
  "demo_raw_board = demo_board\<lparr>bd_kernel_source := [demo_raw_source]\<rparr>"

definition demo_raw_card :: phase2_env where
  "demo_raw_card = demo_card\<lparr>pv_block_read := (\<lambda>_ s n. (n, region demo_zimage (512 * nat s) (512 * nat n)))\<rparr>"

lemma demo_raw_boots:
  "\<exists>st'. bootloader_second_phase demo_raw_card demo_raw_board demo_start = Some (Started KERNEL_OFFSET st')"
proof -
  have len: "length demo_zimage = 4096" by (simp add: demo_zimage_def)
  let ?ram = "p_ram demo_start" and ?r1 = "patch (p_ram demo_start) KERNEL_OFFSET demo_zimage"
  let ?r2 = "patch ?r1 KERNEL_OFFSET (region demo_zimage 0 512)"
  have ram: "length ?ram = 8388616" by (simp add: demo_fields)
  have ko: "KERNEL_OFFSET + 4096 \<le> 8388616" by (simp add: KERNEL_OFFSET_def)
  have w1: "wr ?ram KERNEL_OFFSET (region demo_zimage 0 4096) = Some ?r1"
    using region_whole [of demo_zimage] by (simp add: wr_def ram len KERNEL_OFFSET_def)
  have len1: "length ?r1 = 8388616" by (simp add: ram len KERNEL_OFFSET_def)
  have w2: "wr ?r1 KERNEL_OFFSET (region demo_zimage 0 512) = Some ?r2"
    using ko by (simp add: wr_def len1 len length_region)
  have len2: "length ?r2 = 8388616" using ko by (simp add: len1 len length_region)
  have h: "holds ?r1 KERNEL_OFFSET demo_zimage" by (rule holds_patch_same) (simp add: ram len KERNEL_OFFSET_def)
  have f: "get32 ?r1 (KERNEL_OFFSET + 36) = 0x016f2818" "get32 ?r1 (KERNEL_OFFSET + 44) = 512"
    using get32_holds [OF h, of 36] get32_holds [OF h, of 44] by (simp_all add: len) (simp_all add: demo_zimage_def reads)
  have m: "ih_magic ?r1 KERNEL_OFFSET \<noteq> IH_MAGIC"
    using get32_be_holds [OF h, of 0]
    by (simp add: ih_magic_def len) (simp add: demo_zimage_def get32_be_def byte_at_append get_zeros IH_MAGIC_def)
  have app: "(replicate 512 (0 :: u8))[0 := 0] = replicate 512 0"
    by (metis list_update_id nth_replicate zero_less_numeral)
  obtain r3 where r3: "do_params demo_raw_board demo_raw_source 0 (replicate 512 0) ?r2 = Some r3"
    using do_params_ok [of demo_raw_board demo_raw_source "replicate 512 0" ?r2 0]
    by (auto simp: demo_raw_board_def demo_raw_source_def demo_board_def demo_source_def tag_place_def long_text_def
        debug_text_def opt_text_def cstr_of_def rstrip_def len2)
  have fields: "ks_block_init demo_raw_source = Some 0" "ks_partition_index demo_raw_source = 0"
    "ks_offset_blocks512 demo_raw_source = 0" "ks_filepath demo_raw_source = None"
    "ks_initramfs_filepath demo_raw_source = None" "bd_kernel_source demo_raw_board = [demo_raw_source]"
    "pv_block_init demo_raw_card 0 = 0"
    by (simp_all add: demo_raw_source_def demo_raw_board_def demo_raw_card_def demo_source_def demo_fields)
  have name: "read_file demo_raw_card demo_raw_board demo_raw_source (Some n) mem d sz st = Some (- 1, mem, st)"
    for n mem d sz and st :: phase2
    by (simp add: read_file_def demo_raw_source_def)
  have raw: "read_file demo_raw_card demo_raw_board demo_raw_source None mem d sz st =
      do { mem \<leftarrow> wr mem d (region demo_zimage 0 (512 * nat (sz div 512))); Some (sz, mem, st) }"
    if "p_partition_offset_blocks st = 0" "0 \<le> sz" for mem d sz and st :: phase2
  proof -
    have "\<not> sz div 512 < 0" using that(2) by linarith
    then show ?thesis using that(1) by (simp add: read_file_def demo_raw_source_def demo_raw_card_def Let_def)
  qed
  define s0 where "s0 = indicate demo_raw_board UI_IND_MOUNT_PART
    (demo_start\<lparr>p_partition_offset_blocks := 0, p_partition_length_blocks := 0\<rparr>)"
  obtain s1 where s1: "do_block_init demo_raw_card demo_raw_board demo_raw_source s0 = (True, s1)"
    "p_ram s1 = ?ram" "p_append s1 = replicate 512 0"
    by (auto simp: do_block_init_def fields Let_def s0_def demo_fields)
  have "\<exists>st'. try_this_kernel demo_raw_card demo_raw_board demo_raw_source demo_start = Some (Some KERNEL_OFFSET, st')"
    using w1 w2 f m r3 app s1
    by (simp add: try_this_kernel_def s0_def [symmetric] do_partitions_def fields name raw load_uimage_def load_zimage_def
        start_kernel_def u32_of_def Let_def)
  then show ?thesis by (auto simp: bootloader_second_phase_def fields)
qed

subsection \<open>Properties\<close>

subsection \<open>The stages of a start\<close>

text \<open>The device is initialised and the partition found.\<close>

lemma stage_mount:
  assumes "p_last_block_init st = None" "\<And>f. ks_block_init ks = Some f \<Longrightarrow> pv_block_init env f = 0"
    and table: "0 < ks_partition_index ks" "ks_partition_index ks \<le> 4"
      "pv_block_read env (ks_block_read ks) 0 4 = (r, mbr)" "0 \<le> r" "length mbr = 2048"
      "byte_at mbr 0x1fe = 0x55" "byte_at mbr 0x1ff = 0xaa"
    and room: "KERNEL_OFFSET + 2048 \<le> length (p_ram st)"
    and s0: "s0 = indicate brd UI_IND_MOUNT_PART (st\<lparr>p_partition_offset_blocks := 0, p_partition_length_blocks := 0\<rparr>)"
  obtains s1 s2 where "do_block_init env brd ks s0 = (True, s1)"
    "do_partitions env brd ks KERNEL_OFFSET s1 = Some (True, s2)" "dev_of env brd ks s2 = part_env env brd ks mbr"
    "p_ram s2 = patch (p_ram st) KERNEL_OFFSET mbr" "p_fs s2 = p_fs st" "p_append s2 = p_append st"
    "length (p_ram s2) = length (p_ram st)"
proof -
  have "p_ram s0 = p_ram st" "p_append s0 = p_append st" "p_fs s0 = p_fs st" "p_last_block_init s0 = None"
    using assms(1) by (simp_all add: s0)
  then obtain s1 where s1: "do_block_init env brd ks s0 = (True, s1)" "p_ram s1 = p_ram st" "p_append s1 = p_append st"
    "p_fs s1 = p_fs st"
    using assms(2) by (cases "ks_block_init ks") (auto simp: do_block_init_def Let_def)
  obtain s2 where s2: "do_partitions env brd ks KERNEL_OFFSET s1 = Some (True, s2)" "dev_of env brd ks s2 = part_env env brd ks mbr"
    "p_ram s2 = patch (p_ram st) KERNEL_OFFSET mbr" "p_fs s2 = p_fs st" "p_append s2 = p_append st"
    using do_partitions_ok [OF table, of KERNEL_OFFSET s1 brd] room s1(2-4) by auto
  then have "length (p_ram s2) = length (p_ram st)" using room table(5) by simp
  then show ?thesis using that s1(1) s2 by blast
qed

text \<open>The file that forbids the start and the one with more parameters are looked for, and are not there.\<close>

lemma stage_skip:
  assumes "ks_filesystem ks = FS_EXT2" and "dev_of env brd ks s2 = e" "disk = part_content e"
    and "fs_ok e (open_cost disk nps + (open_cost disk aps + c)) (p_fs s2)"
    and "bd_noboot brd = path_text k1 nps" "lacks_file disk nps" "bd_append brd = path_text k2 aps" "lacks_file disk aps"
  obtains f3 f4 where "read_file env brd ks (Some (bd_noboot brd)) (p_ram s2) KERNEL_OFFSET 512 s2 =
      Some (- 1, p_ram s2, s2\<lparr>p_fs := f3\<rparr>)"
    "read_file env brd ks (Some (bd_append brd)) app 0 512 (s2\<lparr>p_fs := f3\<rparr>) = Some (- 1, app, s2\<lparr>p_fs := f4\<rparr>)"
    "fs_ok e c f4"
proof -
  obtain f3 where f3: "read_file env brd ks (Some (bd_noboot brd)) (p_ram s2) KERNEL_OFFSET 512 s2 =
      Some (- 1, p_ram s2, s2\<lparr>p_fs := f3\<rparr>)" "fs_ok e (open_cost disk aps + c) f3"
    using read_file_missing [of ks env brd s2 nps _ k1 "p_ram s2" KERNEL_OFFSET 512] assms by auto
  moreover obtain f4 where "read_file env brd ks (Some (bd_append brd)) app 0 512 (s2\<lparr>p_fs := f3\<rparr>) =
      Some (- 1, app, s2\<lparr>p_fs := f4\<rparr>)" "fs_ok e c f4"
    using read_file_missing [of ks env brd "s2\<lparr>p_fs := f3\<rparr>" aps _ k2 app 0 512] assms f3(2) by auto
  ultimately show ?thesis using that by blast
qed

text \<open>The first piece of the kernel is read, then the whole of it, and its sums are right.\<close>

lemma stage_kernel:
  assumes "ks_filesystem ks = FS_EXT2" and "dev_of env brd ks s5 = e" "disk = part_content e"
    and "fs_ok e (open_cost disk kps + (open_cost disk kps + c)) (p_fs s5)"
    and kernel: "ks_filepath ks = Some (path_text k3 kps)" "has_file disk kps K" "good_uimage K"
    and room: "KERNEL_OFFSET + max 2048 (length K) \<le> length (p_ram s5)"
  obtains f6 s7 where "read_file env brd ks (ks_filepath ks) (p_ram s5) KERNEL_OFFSET 4096 s5 =
      Some (int (length K), patch (p_ram s5) KERNEL_OFFSET (region K 0 (min 4096 (length K))), s5\<lparr>p_fs := f6\<rparr>)"
    "load_uimage env brd ks KERNEL_OFFSET
       (s5\<lparr>p_fs := f6, p_ram := patch (p_ram s5) KERNEL_OFFSET (region K 0 (min 4096 (length K)))\<rparr>) =
      Some (Some (KERNEL_OFFSET + 64), s7)"
    "length (p_ram s7) = length (p_ram s5)" "holds (p_ram s7) KERNEL_OFFSET K" "p_append s7 = p_append s5"
    "fs_ok e c (p_fs s7)" "dev_of env brd ks s7 = e"
proof -
  let ?head = "region K 0 (min 4096 (length K))"
  have room6: "KERNEL_OFFSET + min 4096 (length K) \<le> length (p_ram s5)" "KERNEL_OFFSET + length K \<le> length (p_ram s5)"
    using room by auto
  obtain f6 where f6: "read_file env brd ks (ks_filepath ks) (p_ram s5) KERNEL_OFFSET 4096 s5 =
      Some (int (length K), patch (p_ram s5) KERNEL_OFFSET ?head, s5\<lparr>p_fs := f6\<rparr>)"
    "fs_ok e (open_cost disk kps + c) f6"
    using read_file_found [of ks env brd s5 kps "open_cost disk kps + c" K 4096 KERNEL_OFFSET "p_ram s5" k3] assms(1-6) room6
    by auto
  define s6 where "s6 = s5\<lparr>p_fs := f6, p_ram := patch (p_ram s5) KERNEL_OFFSET ?head\<rparr>"
  have fits: "KERNEL_OFFSET + length ?head \<le> length (p_ram s5)" using room by auto
  have s6: "dev_of env brd ks s6 = e" "p_fs s6 = f6" "p_append s6 = p_append s5" "length (p_ram s6) = length (p_ram s5)"
    "holds (p_ram s6) KERNEL_OFFSET ?head"
    using assms(2) fits by (simp_all add: s6_def holds_patch_same)
  obtain s7 where s7: "load_uimage env brd ks KERNEL_OFFSET s6 = Some (Some (KERNEL_OFFSET + 64), s7)"
    "p_ram s7 = patch (p_ram s6) KERNEL_OFFSET K" "p_append s7 = p_append s5" "fs_ok e c (p_fs s7)"
    "dev_of env brd ks s7 = e"
    using load_uimage_ok [of ks env brd s6 kps c k3 K KERNEL_OFFSET] assms(1,3) f6(2) kernel s6 room6(2) by auto
  moreover have "length (p_ram s7) = length (p_ram s5)" "holds (p_ram s7) KERNEL_OFFSET K"
    using s7(2) s6(4) room6(2) by (simp_all add: holds_patch_same)
  ultimately show ?thesis using that f6(1) unfolding s6_def by blast
qed

text \<open>The initramfs is read and the list of tags written behind what is in memory.\<close>

lemma stage_start:
  assumes "ks_filesystem ks = FS_EXT2" and "dev_of env brd ks s7 = e" "disk = part_content e"
    and "fs_ok e (open_cost disk ips + c) (p_fs s7)"
    and initramfs: "ks_initramfs_filepath ks = Some (path_text k4 ips)" "has_file disk ips I" "length I \<le> 16 * 1024 * 1024"
    and K: "holds (p_ram s7) KERNEL_OFFSET K" "KERNEL_OFFSET + length K \<le> INITRD_OFFSET"
    and ram: "INITRD_OFFSET + length I \<le> length (p_ram s7)" "length (p_ram s7) < 4294967296"
    and app: "0 \<in> set (p_append s7)" "cstr_of (p_append s7) = []"
    and tags: "tag_place brd + 90 + length (long_text brd ks []) + length (debug_text brd) \<le> KERNEL_OFFSET"
    and wording: "0 \<notin> set (bd_commandline_board brd)" "0 \<notin> set (opt_text (bd_append_device_specific_cmdline brd))"
      "0 \<notin> set (opt_text (ks_commandline_append ks))" "0 \<notin> set (debug_text brd)" "rstrip (long_text brd ks []) \<noteq> []"
  obtains st' body where "start_kernel env brd ks (KERNEL_OFFSET + 64) s7 = Some (Some (KERNEL_OFFSET + 64), st')"
    "holds (p_ram st') KERNEL_OFFSET K" "holds (p_ram st') INITRD_OFFSET I"
    "parse_tags 6 (p_ram st') (tag_place brd) =
      map (\<lambda>(t, ws). (t, concat (map put32 ws))) (fixed_tags brd ks (word_of_nat (length I))) @ [(ATAG_CMDLINE, body)]"
    "cstr_of body = command_line brd ks []"
proof -
  define s8 where "s8 = indicate brd UI_IND_INITRAMFS_PULL s7"
  have s8: "p_ram s8 = p_ram s7" "p_append s8 = p_append s7" "p_fs s8 = p_fs s7" "dev_of env brd ks s8 = e"
    using assms(2) by (simp_all add: s8_def)
  have "min (unat (word_of_int (16 * 1024 * 1024) :: u32)) (length I) = length I" using initramfs(3) by simp
  then obtain f9 where f9: "read_file env brd ks (Some (path_text k4 ips)) (p_ram s8) INITRD_OFFSET (16 * 1024 * 1024) s8 =
      Some (int (length I), patch (p_ram s7) INITRD_OFFSET I, s8\<lparr>p_fs := f9\<rparr>)"
    using read_file_found [of ks env brd s8 ips c I "16 * 1024 * 1024" INITRD_OFFSET "p_ram s8" k4] assms(1,3,4)
      initramfs(2) s8 ram(1) by (auto simp: region_whole)
  let ?ram = "patch (p_ram s7) INITRD_OFFSET I"
  have I: "length ?ram = length (p_ram s7)" "holds ?ram INITRD_OFFSET I" "holds ?ram KERNEL_OFFSET K"
    using ram(1) K by (auto intro!: holds_patch_same holds_patch_other)
  have long: "long_text brd ks (p_append s7) = long_text brd ks []" "command_line brd ks (p_append s7) = command_line brd ks []"
    using app(2) by (simp_all add: long_text_def command_line_def cstr_of_def)
  have "tag_place brd + 90 + length (long_text brd ks (p_append s7)) + length (debug_text brd) \<le> length ?ram"
    using tags long(1) I(1) ram(1) K(2) by simp
  from do_params_ok [OF this _ wording(1-3) app(1) wording(4), unfolded long, OF _ wording(5), of "word_of_nat (length I)"]
  obtain ram' body where tagged: "do_params brd ks (word_of_nat (length I)) (p_append s7) ?ram = Some ram'"
    "parse_tags 6 ram' (tag_place brd) =
      map (\<lambda>(t, ws). (t, concat (map put32 ws))) (fixed_tags brd ks (word_of_nat (length I))) @ [(ATAG_CMDLINE, body)]"
    "cstr_of body = command_line brd ks []"
    "\<forall>p bs. holds ?ram p bs \<longrightarrow> p + length bs \<le> tag_place brd \<or>
       tag_place brd + 90 + length (long_text brd ks []) + length (debug_text brd) \<le> p \<longrightarrow> holds ram' p bs"
    using ram(2) I(1) by auto
  have kept: "holds ram' KERNEL_OFFSET K" "holds ram' INITRD_OFFSET I"
    using tagged(4) I(2,3) tags K(2) by auto
  let ?s9 = "indicate brd UI_IND_INITRAMFS_PULL_OK (s8\<lparr>p_fs := f9, p_ram := ?ram\<rparr>)"
  have "start_kernel env brd ks (KERNEL_OFFSET + 64) s7 =
      Some (Some (KERNEL_OFFSET + 64), indicate brd UI_IND_KERNEL_START (?s9\<lparr>p_ram := ram'\<rparr>))"
    using initramfs(1) f9 tagged(1) s8 by (simp add: start_kernel_def Let_def s8_def [symmetric])
  then show ?thesis
    using that [of _ body] kept tagged(2,3) by simp
qed

text \<open>C27. A whole boot.  On a partition of a valid partition table with a sound ext2 file system that has
  neither the skip file nor the append file of the board, but the kernel (a uImage whose checksum is
  right) and the initramfs of the first kernel source, the second phase starts that kernel at its entry
  point; the kernel image and the initramfs lie complete in RAM, and the list of tags, read back, has
  exactly the tags meant for the board, the last of them with the command line.\<close>

theorem boots_uimage:
  fixes env brd ks mbr
  defines "e \<equiv> part_env env brd ks mbr"
  defines "disk \<equiv> part_content (part_env env brd ks mbr)"
  assumes source: "bd_kernel_source brd = ks # rest" "ks_filesystem ks = FS_EXT2"
      "p_last_block_init st = None" "\<And>f. ks_block_init ks = Some f \<Longrightarrow> pv_block_init env f = 0"
    and table: "0 < ks_partition_index ks" "ks_partition_index ks \<le> 4"
      "pv_block_read env (ks_block_read ks) 0 4 = (r, mbr)" "0 \<le> r" "length mbr = 2048"
      "byte_at mbr 0x1fe = 0x55" "byte_at mbr 0x1ff = 0xaa"
    and fs: "fs_ok e (open_cost disk nps + (open_cost disk aps + (open_cost disk kps + (open_cost disk kps + (open_cost disk ips + 0)))))
      (p_fs st)"
    and skip: "bd_noboot brd = path_text k1 nps" "lacks_file disk nps" "bd_append brd = path_text k2 aps" "lacks_file disk aps"
    and kernel: "ks_filepath ks = Some (path_text k3 kps)" "has_file disk kps K" "good_uimage K"
      "KERNEL_OFFSET + max 2048 (length K) \<le> INITRD_OFFSET"
    and initramfs: "ks_initramfs_filepath ks = Some (path_text k4 ips)" "has_file disk ips I"
      "length I \<le> 16 * 1024 * 1024"
    and ram: "INITRD_OFFSET + length I \<le> length (p_ram st)" "length (p_ram st) < 4294967296" "p_append st \<noteq> []"
    and tags: "tag_place brd + 90 + length (long_text brd ks []) + length (debug_text brd) \<le> KERNEL_OFFSET"
    and wording: "0 \<notin> set (bd_commandline_board brd)" "0 \<notin> set (opt_text (bd_append_device_specific_cmdline brd))"
      "0 \<notin> set (opt_text (ks_commandline_append ks))" "0 \<notin> set (debug_text brd)" "rstrip (long_text brd ks []) \<noteq> []"
  shows "\<exists>st' body. bootloader_second_phase env brd st = Some (Started (KERNEL_OFFSET + 64) st') \<and>
    region (p_ram st') KERNEL_OFFSET (length K) = K \<and> region (p_ram st') INITRD_OFFSET (length I) = I \<and>
    parse_tags 6 (p_ram st') (tag_place brd) =
      map (\<lambda>(t, ws). (t, concat (map put32 ws))) (fixed_tags brd ks (word_of_nat (length I))) @ [(ATAG_CMDLINE, body)] \<and>
    cstr_of body = command_line brd ks []"
proof -
  define s0 where "s0 = indicate brd UI_IND_MOUNT_PART (st\<lparr>p_partition_offset_blocks := 0, p_partition_length_blocks := 0\<rparr>)"
  have "KERNEL_OFFSET + 2048 \<le> length (p_ram st)" using kernel(4) ram(1) by auto
  then obtain s1 s2 where s1: "do_block_init env brd ks s0 = (True, s1)"
    and s2: "do_partitions env brd ks KERNEL_OFFSET s1 = Some (True, s2)" "dev_of env brd ks s2 = e"
    "p_fs s2 = p_fs st" "p_append s2 = p_append st" "length (p_ram s2) = length (p_ram st)"
    using stage_mount [OF source(3,4) table _ s0_def] unfolding e_def by blast
  let ?app = "(p_append st)[0 := 0]"
  obtain f3 f4 where f3: "read_file env brd ks (Some (bd_noboot brd)) (p_ram s2) KERNEL_OFFSET 512 s2 =
      Some (- 1, p_ram s2, s2\<lparr>p_fs := f3\<rparr>)"
    and f4: "read_file env brd ks (Some (bd_append brd)) ?app 0 512 (s2\<lparr>p_fs := f3\<rparr>) = Some (- 1, ?app, s2\<lparr>p_fs := f4\<rparr>)"
    "fs_ok e (open_cost disk kps + (open_cost disk kps + (open_cost disk ips + 0))) f4"
    using stage_skip [OF source(2) s2(2) _ _ skip, of _ ?app] fs unfolding disk_def s2(3) e_def by blast
  define s5 where "s5 = indicate brd UI_IND_KERNEL_PULL (s2\<lparr>p_fs := f4, p_append := ?app\<rparr>)"
  have s5: "dev_of env brd ks s5 = e" "p_ram s5 = p_ram s2" "p_fs s5 = f4" "p_append s5 = ?app"
    using s2(2) by (simp_all add: s5_def)
  have "KERNEL_OFFSET + max 2048 (length K) \<le> length (p_ram s5)" using kernel(4) ram(1) s2(5) s5(2) by simp
  with stage_kernel [OF source(2) s5(1) _ _ kernel(1-3)] f4(2) s5(3)
  obtain f6 s7 where f6: "read_file env brd ks (ks_filepath ks) (p_ram s5) KERNEL_OFFSET 4096 s5 =
      Some (int (length K), patch (p_ram s5) KERNEL_OFFSET (region K 0 (min 4096 (length K))), s5\<lparr>p_fs := f6\<rparr>)"
    and s7: "load_uimage env brd ks KERNEL_OFFSET
       (s5\<lparr>p_fs := f6, p_ram := patch (p_ram s5) KERNEL_OFFSET (region K 0 (min 4096 (length K)))\<rparr>) =
      Some (Some (KERNEL_OFFSET + 64), s7)"
    "length (p_ram s7) = length (p_ram s5)" "holds (p_ram s7) KERNEL_OFFSET K" "p_append s7 = p_append s5"
    "fs_ok e (open_cost disk ips + 0) (p_fs s7)" "dev_of env brd ks s7 = e"
    unfolding disk_def e_def by metis
  have "0 \<in> set ?app" "cstr_of ?app = []"
    using ram(3) by (cases "p_append st"; simp add: cstr_of_def)+
  then obtain st' body where st': "start_kernel env brd ks (KERNEL_OFFSET + 64) s7 = Some (Some (KERNEL_OFFSET + 64), st')"
    "holds (p_ram st') KERNEL_OFFSET K" "holds (p_ram st') INITRD_OFFSET I"
    "parse_tags 6 (p_ram st') (tag_place brd) =
      map (\<lambda>(t, ws). (t, concat (map put32 ws))) (fixed_tags brd ks (word_of_nat (length I))) @ [(ATAG_CMDLINE, body)]"
    "cstr_of body = command_line brd ks []"
    using stage_start [OF source(2) s7(6) _ _ initramfs s7(3) _ _ _ _ _ tags wording, of 0 thesis] s7(2,4,5) s2(5) s5(2,4) ram(1,2) kernel(4)
    unfolding disk_def e_def by auto
  have "try_this_kernel env brd ks st = Some (Some (KERNEL_OFFSET + 64), st')"
    using s1 s2(1,4) f3 f4(1) f6 [unfolded s5(2)] s7(1) [unfolded s5(2)] st'(1)
    by (simp add: try_this_kernel_def Let_def s0_def [symmetric] s5_def [symmetric])
  then show ?thesis
    using source(1) st'(2-5) by (auto simp: bootloader_second_phase_def holds_def)
qed

theorem boots_uimage_witness:
  "\<exists>st' body. bootloader_second_phase demo_card demo_board demo_start = Some (Started (KERNEL_OFFSET + 64) st') \<and>
    region (p_ram st') KERNEL_OFFSET 65 = demo_image \<and>
    region (p_ram st') INITRD_OFFSET 5 = [0x68, 0x65, 0x6c, 0x6c, 0x6f] \<and>
    parse_tags 6 (p_ram st') 256 =
      map (\<lambda>(t, ws). (t, concat (map put32 ws))) (fixed_tags demo_board demo_source 5) @ [(ATAG_CMDLINE, body)] \<and>
    cstr_of body = [0x71]"
proof -
  have part: "part_env demo_card demo_board demo_source (region demo_fs 0 2048) = ram_env demo_fs" by (rule demo_part)
  have paths: "path_text 0 [[c]] = [c]" for c by (simp add: path_text_def)
  have five: "Suc (Suc (Suc (Suc (Suc 0)))) = 5" by simp
  have fs: "fs_ok (ram_env demo_fs) 3200 (p_fs demo_start)" using demo_fs_ok [of 3200] by (simp add: demo_fields)
  show ?thesis
    using boots_uimage [where env = demo_card and brd = demo_board and ks = demo_source and mbr = "region demo_fs 0 2048"
        and rest = "[]" and st = demo_start and r = 4 and nps = "[[0x6e]]" and aps = "[[0x6e]]" and kps = "[[0x75]]"
        and ips = "[[0x6b]]" and ?k1.0 = 0 and ?k2.0 = 0 and ?k3.0 = 0 and ?k4.0 = 0 and K = demo_image
        and I = "[0x68, 0x65, 0x6c, 0x6c, 0x6f]", unfolded part demo_driver(2) demo_strings paths] demo_names demo_good demo_table fs
    by (simp add: demo_fields INITRD_OFFSET_def KERNEL_OFFSET_def rstrip_def five)
qed

text \<open>C28. No kernel is started unchecked.  When the second phase starts a kernel, the kernel belongs to one of
  the sources of the board and was accepted by one of the loaders: either the entry point is behind a
  uImage header and the CRC-32 of the data in RAM is the one in the header, or the entry point is the
  start of a zImage with the magic number and the reader reported the length that its header gives.
  Only the reading of the initramfs and the writing of the tags come between this check and the jump.\<close>

theorem started_kernel_verified:
  assumes "bootloader_second_phase env brd st = Some (Started k st')"
  shows "\<exists>ks \<in> set (bd_kernel_source brd). \<exists>s1 s2. start_kernel env brd ks k s2 = Some (Some k, st') \<and>
    (load_uimage env brd ks KERNEL_OFFSET s1 = Some (Some k, s2) \<and> k = KERNEL_OFFSET + 64 \<and>
       crc32 (byte_at (p_ram s2)) 0 k (unat (ih_size (p_ram s2) KERNEL_OFFSET)) = ih_dcrc (p_ram s2) KERNEL_OFFSET \<or>
     load_zimage env brd ks KERNEL_OFFSET s1 = Some (Some k, s2) \<and> k = KERNEL_OFFSET \<and>
       get32 (p_ram s1) (k + 0x24) = 0x016f2818 \<and>
       (\<exists>got s. read_file env brd ks (ks_filepath ks) (p_ram s1) k (sint (get32 (p_ram s1) (k + 0x2c))) s1 =
          Some (got, p_ram s2, s) \<and> 0 \<le> got \<and> u32_of got = uint (get32 (p_ram s1) (k + 0x2c))))"
proof -
  obtain ks s where ks: "ks \<in> set (bd_kernel_source brd)" "try_this_kernel env brd ks s = Some (Some k, st')"
    using try_kernels_started assms unfolding bootloader_second_phase_def by blast
  obtain s1 s2 where s: "start_kernel env brd ks k s2 = Some (Some k, st')"
    "load_uimage env brd ks KERNEL_OFFSET s1 = Some (Some k, s2) \<or>
     load_zimage env brd ks KERNEL_OFFSET s1 = Some (Some k, s2)"
    using try_this_kernel_started [OF ks(2)] by blast
  from s(2) show ?thesis
  proof
    assume l: "load_uimage env brd ks KERNEL_OFFSET s1 = Some (Some k, s2)"
    show ?thesis using ks(1) s(1) l load_uimage_checked [OF l] by blast
  next
    assume l: "load_zimage env brd ks KERNEL_OFFSET s1 = Some (Some k, s2)"
    show ?thesis using ks(1) s(1) l load_zimage_checked [OF l] by blast
  qed
qed

theorem started_kernel_verified_witness:
  "\<exists>st' s2. bootloader_second_phase demo_raw_card demo_raw_board demo_start = Some (Started KERNEL_OFFSET st') \<and>
     start_kernel demo_raw_card demo_raw_board demo_raw_source KERNEL_OFFSET s2 = Some (Some KERNEL_OFFSET, st')"
proof -
  obtain st' where "bootloader_second_phase demo_raw_card demo_raw_board demo_start = Some (Started KERNEL_OFFSET st')"
    using demo_raw_boots by blast
  then show ?thesis using started_kernel_verified [of demo_raw_card demo_raw_board demo_start KERNEL_OFFSET st']
    by (auto simp: demo_raw_board_def)
qed

text \<open>C29. The tags round trip.  When there is room for them, do_params writes a list of tags that an
  independent reader of tag lists parses back to the core, revision, memory and (with an initramfs)
  initrd tags of the board and a command line tag; its text is the command lines of the board and of the
  source and the appended text, without leading blanks and trailing newlines, then the debug text.
  Nothing outside the place of the tags changes.\<close>

theorem tags_read_back:
  assumes "tag_place brd + 90 + length (long_text brd ks app) + length (debug_text brd) \<le> length ram"
      "length ram < 4294967296"
    and "0 \<notin> set (bd_commandline_board brd)" "0 \<notin> set (opt_text (bd_append_device_specific_cmdline brd))"
      "0 \<notin> set (opt_text (ks_commandline_append ks))" "0 \<in> set app" "0 \<notin> set (debug_text brd)"
    and "rstrip (long_text brd ks app) \<noteq> []"
  shows "\<exists>ram' body. do_params brd ks len app ram = Some ram' \<and> length ram' = length ram \<and>
    parse_tags 6 ram' (tag_place brd) =
      map (\<lambda>(t, ws). (t, concat (map put32 ws))) (fixed_tags brd ks len) @ [(ATAG_CMDLINE, body)] \<and>
    cstr_of body = command_line brd ks app \<and>
    (\<forall>p bs. holds ram p bs \<longrightarrow> p + length bs \<le> tag_place brd \<or>
       tag_place brd + 90 + length (long_text brd ks app) + length (debug_text brd) \<le> p \<longrightarrow> holds ram' p bs)"
  using assms by (rule do_params_ok)

theorem tags_read_back_witness:
  "\<exists>ram' body. do_params demo_board demo_source 5 (0x6e # [0]) (replicate 1000 0) = Some ram' \<and>
     parse_tags 6 ram' 256 =
       map (\<lambda>(t, ws). (t, concat (map put32 ws))) (fixed_tags demo_board demo_source 5) @ [(ATAG_CMDLINE, body)] \<and>
     cstr_of body = [0x71, 0x0a, 0x6e]"
proof -
  have long: "long_text demo_board demo_source [0x6e, 0] = [0x71, 0x0a, 0x6e]"
    by (simp add: long_text_def demo_fields cstr_of_def)
  have line: "command_line demo_board demo_source [0x6e, 0] = [0x71, 0x0a, 0x6e]"
    by (simp add: command_line_def long demo_strings rstrip_def)
  show ?thesis
    using tags_read_back [of demo_board demo_source "[0x6e, 0]" "replicate 1000 0" 5, unfolded demo_strings long line]
    by (simp add: demo_fields rstrip_def) blast
qed

text \<open>A missing initramfs is no error.  When the initramfs named by the source does not exist, the
  length -1 is stored in an unsigned variable, the test for an error never holds, and the kernel is
  started all the same, with an initrd tag that gives a size of 4294967295 bytes.\<close>

theorem initramfs_error_ignored:
  fixes env brd ks st
  defines "disk \<equiv> part_content (dev_of env brd ks st)"
  assumes "ks_filesystem ks = FS_EXT2" "fs_ok (dev_of env brd ks st) (open_cost disk ips) (p_fs st)"
    and "ks_initramfs_filepath ks = Some (path_text j ips)" "lacks_file disk ips"
    and "tag_place brd + 90 + length (long_text brd ks (p_append st)) + length (debug_text brd) \<le> length (p_ram st)"
      "length (p_ram st) < 4294967296"
    and "0 \<notin> set (bd_commandline_board brd)" "0 \<notin> set (opt_text (bd_append_device_specific_cmdline brd))"
      "0 \<notin> set (opt_text (ks_commandline_append ks))" "0 \<in> set (p_append st)" "0 \<notin> set (debug_text brd)"
    and "rstrip (long_text brd ks (p_append st)) \<noteq> []"
  shows "\<exists>st'. start_kernel env brd ks k st = Some (Some k, st') \<and>
    (ATAG_INITRD2, put32 (bd_linux_mem_start brd + word_of_nat INITRD_OFFSET) @ put32 0xffffffff)
      \<in> set (parse_tags 6 (p_ram st') (tag_place brd))"
proof -
  let ?s = "indicate brd UI_IND_INITRAMFS_PULL st"
  obtain fs where fs: "read_file env brd ks (Some (path_text j ips)) (p_ram st) INITRD_OFFSET (16 * 1024 * 1024) ?s =
      Some (- 1, p_ram st, ?s\<lparr>p_fs := fs\<rparr>)"
    using read_file_missing [of ks env brd ?s ips 0 j "p_ram st" INITRD_OFFSET "16 * 1024 * 1024"] assms(2,3,5)
    by (auto simp: disk_def)
  obtain ram' body where tags: "do_params brd ks (word_of_int (- 1)) (p_append st) (p_ram st) = Some ram'"
    "parse_tags 6 ram' (tag_place brd) =
      map (\<lambda>(t, ws). (t, concat (map put32 ws))) (fixed_tags brd ks (word_of_int (- 1))) @ [(ATAG_CMDLINE, body)]"
    using do_params_ok [OF assms(6-13), of "word_of_int (- 1)"] by blast
  have minus_one: "(0xffffffff :: u32) = - 1" by simp
  show ?thesis
    using fs tags assms(4) by (simp add: start_kernel_def Let_def fixed_tags_def minus_one)
qed

theorem initramfs_error_ignored_witness:
  "\<exists>st'. start_kernel demo_card demo_board (demo_source\<lparr>ks_initramfs_filepath := Some [0x6e]\<rparr>) 32832
      (demo_start\<lparr>p_partition_length_blocks := 14\<rparr>) = Some (Some 32832, st') \<and>
    (ATAG_INITRD2, put32 0x30800000 @ put32 0xffffffff) \<in> set (parse_tags 6 (p_ram st') 256)"
proof -
  let ?ks = "demo_source\<lparr>ks_initramfs_filepath := Some [0x6e]\<rparr>" and ?st = "demo_start\<lparr>p_partition_length_blocks := 14\<rparr>"
  have dev: "dev_of demo_card demo_board ?ks ?st = ram_env demo_fs"
    by (simp add: dev_of_def demo_source_def demo_card_def demo_board_def demo_start_def ram_env_def length_demo_fs)
  have long: "long_text demo_board ?ks (replicate 512 0) = [0x71, 0x0a]"
    by (simp add: long_text_def demo_fields cstr_of_def)
  have start: "bd_linux_mem_start demo_board = 0x30000000" by (simp add: demo_board_def)
  show ?thesis
    using initramfs_error_ignored [of ?ks demo_card demo_board ?st "[[0x6e]]" 0 32832, unfolded dev demo_driver(2)]
      demo_names demo_fs_ok [of 640]
    by (simp add: demo_fields demo_strings long path_text_def rstrip_def start INITRD_OFFSET_def)
qed

end
