(* ===== verification/Qi_Start.thy ===== *)
theory Qi_Start
  imports Firmware_Install
begin

unbundle bit_operations_syntax

section \<open>The first stage on the SmartQ\<close>

text \<open>
  \<^verbatim>\<open>qi/src/cpu/s3c6410/start_qi.c\<close> as the \<^verbatim>\<open>Makefile\<close> builds it (with \<^verbatim>\<open>HHTECH_MINIPMP\<close>): find the board, load u-boot from the
  newer copy of the firmware on the iNAND, from the older copy, or from its old place before the boot
  loader, and jump to it.  The copy routine in the ROM of the CPU, the words that the ROM leaves in the
  steppingstone (the base address of the controller, the address of the card with a flag for SDHC, the
  number of blocks) and the answers of the boards are parameters; memory is the bytes from \<open>RD_MEM_ADDR\<close> on.
\<close>

type_synonym rom = "int \<Rightarrow> u32 \<Rightarrow> u16 \<Rightarrow> bytes \<Rightarrow> int \<times> bytes"

record rom_vars =
  rom_bas :: u32
  rom_rca :: u32
  globalBlockSizeHide :: u32

definition CHANNEL :: "rom_vars \<Rightarrow> int" where
  "CHANNEL rv = (if rom_bas rv = 0x7c300000 then 1 else 0)"

definition SDHC :: "rom_vars \<Rightarrow> u32" where
  "SDHC rv = rom_rca rv AND 0x01"

record soc =
  soc_mem :: bytes
  soc_gpncon :: u32
  soc_gpndat :: u32

definition UBOOT_BLKS :: nat where "UBOOT_BLKS = 256 * 2"
definition NANDBLKSIZE :: u32 where "NANDBLKSIZE = 512"
definition INAND_KERNEL0_BEND :: u32 where "INAND_KERNEL0_BEND = (8 * 1048576) div NANDBLKSIZE"
definition INAND_KERNEL1_BEND :: u32 where "INAND_KERNEL1_BEND = (16 * 1048576) div NANDBLKSIZE"

definition do_read_inand :: "rom \<Rightarrow> rom_vars \<Rightarrow> int \<Rightarrow> u32 \<Rightarrow> bytes \<Rightarrow> int \<times> bytes" where
  "do_read_inand rom rv ch offset_end_blk mem =
     (let start = globalBlockSizeHide rv - offset_end_blk;
          mem = snd (rom ch start 2 mem);
          fh = header_of_bytes mem
      in if fh_magic fh \<noteq> HEAD_MAGIC then (- 1, mem)
         else let start = start + st_nand_offset (fh_u_boot fh);
                  cnt = st_nand_size (fh_u_boot fh) div NANDBLKSIZE + 1
              in rom ch start (ucast cnt) mem)"

definition do_load_uboot :: "rom \<Rightarrow> rom_vars \<Rightarrow> bytes \<Rightarrow> int \<times> bytes" where
  "do_load_uboot rom rv mem =
     (let channel = CHANNEL rv;
          (ret, mem) = do_read_inand rom rv channel INAND_KERNEL1_BEND mem
      in if ret \<noteq> 1 then do_read_inand rom rv channel INAND_KERNEL0_BEND mem else (ret, mem))"

definition led_set :: "bool \<Rightarrow> soc \<Rightarrow> soc" where
  "led_set on st =
     (let con = soc_gpncon st;
          con = (if \<not> on then con OR push_bit (12 * 2) 1 else con AND NOT (push_bit (12 * 2) 3));
          dat = soc_gpndat st;
          dat = (if \<not> on then dat OR push_bit 12 1 else dat AND NOT (push_bit 12 1))
      in st\<lparr>soc_gpncon := con, soc_gpndat := dat\<rparr>)"

text \<open>The boards' answers to \<open>is_this_board\<close>; the array ends with a null pointer.  The first board is asked
  twice.\<close>

definition board_at :: "bool list \<Rightarrow> nat \<Rightarrow> nat option" where
  "board_at boards i = (if i < length boards then Some i else None)"

function find_board :: "bool list \<Rightarrow> nat option \<Rightarrow> nat \<Rightarrow> nat option" where
  "find_board boards this_board board =
     (case this_board of
        None \<Rightarrow> None
      | Some i \<Rightarrow> if boards ! i then Some i else find_board boards (board_at boards board) (board + 1))"
  by pat_completeness auto
termination
  by (relation "measure (\<lambda>(boards, t, board). if t = None then 0 else length boards + 1 - board + of_bool (length boards < board))")
    (auto simp: board_at_def)

declare find_board.simps [simp del]

text \<open>The place of the last resort: the old place of u-boot, before the boot loader.  The two branches are
  the same in the source.\<close>

definition old_uboot_sector :: "rom_vars \<Rightarrow> u32" where
  "old_uboot_sector rv =
     (if SDHC rv \<noteq> 0 then globalBlockSizeHide rv - word_of_nat UBOOT_BLKS - 16 - 1 - 1
      else globalBlockSizeHide rv - word_of_nat UBOOT_BLKS - 16 - 1 - 1)"

text \<open>The state at the jump to u-boot, and whether \<open>uboot success\<close> is printed before; None is a null
  pointer for the board.\<close>

definition start_qi :: "rom \<Rightarrow> rom_vars \<Rightarrow> bool list \<Rightarrow> soc \<Rightarrow> (bool \<times> soc) option" where
  "start_qi rom rv boards st =
     (let st = led_set False st
      in case find_board boards (board_at boards 0) 0 of
           None \<Rightarrow> None
         | Some this_board \<Rightarrow>
             let (flag, mem) = do_load_uboot rom rv (soc_mem st);
                 (flag, mem) = (if flag \<noteq> 1
                   then rom (CHANNEL rv) (old_uboot_sector rv) (word_of_nat UBOOT_BLKS) mem
                   else (flag, mem))
             in Some (flag \<noteq> 0, led_set True (st\<lparr>soc_mem := mem\<rparr>)))"

lemma unat_bend: "unat INAND_KERNEL1_BEND = 32768" "unat INAND_KERNEL0_BEND = 16384"
  by (simp_all add: INAND_KERNEL1_BEND_def INAND_KERNEL0_BEND_def NANDBLKSIZE_def)

subsection \<open>What the ROM is known to do\<close>

text \<open>The comment over the declaration of the routine: it copies the blocks to memory and returns
  whether it succeeded.\<close>

definition rom_copies :: "rom \<Rightarrow> int \<Rightarrow> bytes \<Rightarrow> bool" where
  "rom_copies rom ch d \<longleftrightarrow>
     (\<forall>start n mem. 512 * (unat start + unat n) \<le> length d \<longrightarrow> 512 * unat n \<le> length mem \<longrightarrow>
        rom ch start n mem = (1, patch mem 0 (region d (512 * unat start) (512 * unat n))))"

lemma rom_copiesD:
  "rom_copies rom ch d \<Longrightarrow> 512 * (unat start + unat n) \<le> length d \<Longrightarrow> 512 * unat n \<le> length mem \<Longrightarrow>
   rom ch start n mem = (1, patch mem 0 (region d (512 * unat start) (512 * unat n)))"
  by (simp add: rom_copies_def)

text \<open>The number of blocks that the ROM gives, with the comment in \<open>start_qi\<close> (line 143): all of them, but for an
  SDHC card 1024 fewer than the card has.\<close>

definition rom_counts :: "rom_vars \<Rightarrow> bytes \<Rightarrow> bool" where
  "rom_counts rv d \<longleftrightarrow>
     unat (globalBlockSizeHide rv) = length d div 512 - (if SDHC rv \<noteq> 0 then 1024 else 0)"

text \<open>The first blocks of a copy of the firmware at byte \<open>B\<close>: its header and u-boot.\<close>

definition uboot_copy :: "bytes \<Rightarrow> nat \<Rightarrow> fw_header \<Rightarrow> bytes \<Rightarrow> bool" where
  "uboot_copy d B fh ub \<longleftrightarrow> B mod 512 = 0 \<and> B + 263680 \<le> length d \<and> header_of_bytes (region d B 176) = fh \<and>
     fh_magic fh = HEAD_MAGIC \<and> st_nand_offset (fh_u_boot fh) = 2 \<and>
     unat (st_nand_size (fh_u_boot fh)) = length ub \<and> length ub \<le> 262144 \<and> region d (B + 1024) (length ub) = ub"

lemma header_of_region:
  "176 \<le> n \<Longrightarrow> pos + n \<le> length d \<Longrightarrow> header_of_bytes (region d pos n) = header_of_bytes (region d pos 176)"
proof -
  assume n: "176 \<le> n" "pos + n \<le> length d"
  have "region d pos n = region d pos 176 @ region d (pos + 176) (n - 176)"
    using region_append_split [of d pos 176 "n - 176"] n(1) by simp
  then show ?thesis using n header_of_bytes_append [of "region d pos 176"] by (simp add: sizeof_FWFileHdr_def)
qed

lemma header_of_patch:
  assumes "176 \<le> length bs" "length bs \<le> length mem"
  shows "header_of_bytes (patch mem 0 bs) = header_of_bytes bs"
  using header_of_bytes_append [of bs "drop (length bs) mem"] assms by (simp add: patch_def sizeof_FWFileHdr_def)

text \<open>Reading the copy that starts \<open>offset\<close> blocks before the end of the device.\<close>

lemma do_read_inand_ok:
  assumes rom: "rom_copies rom ch d" and copy: "uboot_copy d B fh ub"
    and pos: "unat (globalBlockSizeHide rv) - unat off = B div 512" "off \<le> globalBlockSizeHide rv" and len: "length d < 2199023255552"
    and mem: "263680 \<le> length mem"
  shows "\<exists>mem'. do_read_inand rom rv ch off mem = (1, mem') \<and> take (length ub) mem' = ub \<and>
    length mem' = length mem \<and> header_of_bytes (region d B 176) = fh"
proof -
  have c: "B mod 512 = 0" "B + 263680 \<le> length d" "header_of_bytes (region d B 176) = fh" "fh_magic fh = HEAD_MAGIC"
    "st_nand_offset (fh_u_boot fh) = 2" "unat (st_nand_size (fh_u_boot fh)) = length ub" "length ub \<le> 262144"
    "region d (B + 1024) (length ub) = ub"
    using copy by (simp_all add: uboot_copy_def)
  define start where "start = globalBlockSizeHide rv - off"
  have start: "unat start = B div 512" using pos by (simp add: start_def unat_sub)
  have B: "512 * (B div 512) = B" using c(1) by auto
  have r1: "rom ch start 2 mem = (1, patch mem 0 (region d B 1024))"
    using rom_copiesD [OF rom, of start 2 mem] start B c(2) mem by (simp add: distrib_left)
  have h: "header_of_bytes (patch mem 0 (region d B 1024)) = fh"
    using header_of_patch [of "region d B 1024" mem] header_of_region [of 1024 B d] c(2,3) mem by simp
  let ?cnt = "st_nand_size (fh_u_boot fh) div NANDBLKSIZE + 1" and ?n = "length ub div 512 + 1"
  have "unat ?cnt = ?n"
    using c(6,7) by (simp add: NANDBLKSIZE_def unat_word_ariths unat_div_distrib)
  then have n: "unat (ucast ?cnt :: u16) = ?n" using c(7) by (simp add: unsigned_ucast_eq take_bit_nat_def)
  have s2: "unat (start + 2) = B div 512 + 2"
    using start c(2) len by (simp add: unat_word_ariths)
  have div: "512 * (length ub div 512) \<le> length ub" by simp
  have fits: "B + 1024 + 512 * ?n \<le> length d" "512 * ?n \<le> length mem" using div c(2,7) mem unfolding distrib_left by linarith+
  have r2: "rom ch (start + 2) (ucast ?cnt) (patch mem 0 (region d B 1024)) =
      (1, patch (patch mem 0 (region d B 1024)) 0 (region d (B + 1024) (512 * ?n)))"
    using rom_copiesD [OF rom, of "start + 2" "ucast ?cnt" "patch mem 0 (region d B 1024)"] s2 n B c(2) mem fits
    by (simp add: distrib_left add.commute [of 1024 B])
  have run: "do_read_inand rom rv ch off mem =
      (1, patch (patch mem 0 (region d B 1024)) 0 (region d (B + 1024) (512 * ?n)))"
    using r1 r2 h c(4,5) by (simp add: do_read_inand_def start_def [symmetric] Let_def)
  have "length ub \<le> 512 * ?n"
    using mult_div_mod_eq [of 512 "length ub"] mod_less_divisor [of 512 "length ub"] unfolding distrib_left by linarith
  then have "take (length ub) (region d (B + 1024) (512 * ?n)) = ub" using c(8) by (simp add: min_absorb1)
  moreover have "length (region d (B + 1024) (512 * ?n)) = 512 * ?n" using fits(1) by simp
  ultimately have "take (length ub) (patch (patch mem 0 (region d B 1024)) 0 (region d (B + 1024) (512 * ?n))) = ub"
    using \<open>length ub \<le> 512 * ?n\<close> by (simp add: patch_def)
  then show ?thesis using run fits c(2,3) mem by simp
qed

text \<open>A copy whose header has the wrong magic number is not used.\<close>

lemma do_read_inand_damaged:
  assumes "rom_copies rom ch d" "fh_magic (header_of_bytes (region d B 176)) \<noteq> HEAD_MAGIC"
    and "B mod 512 = 0" "B + 1024 \<le> length d" "unat (globalBlockSizeHide rv) - unat off = B div 512" "off \<le> globalBlockSizeHide rv" "1024 \<le> length mem"
  shows "do_read_inand rom rv ch off mem = (- 1, patch mem 0 (region d B 1024))"
proof -
  have start: "unat (globalBlockSizeHide rv - off) = B div 512" using assms(5,6) by (simp add: unat_sub)
  have B: "512 * (B div 512) = B" using assms(3) by auto
  have r1: "rom ch (globalBlockSizeHide rv - off) 2 mem = (1, patch mem 0 (region d B 1024))"
    using rom_copiesD [OF assms(1), of "globalBlockSizeHide rv - off" 2 mem] start B assms(4,7) by (simp add: distrib_left)
  have "header_of_bytes (patch mem 0 (region d B 1024)) = header_of_bytes (region d B 176)"
    using header_of_patch [of "region d B 1024" mem] header_of_region [of 1024 B d] assms(4,7) by simp
  then show ?thesis using r1 assms(2) by (simp add: do_read_inand_def Let_def)
qed

subsection \<open>The copies that the installer leaves\<close>

lemma device_has_uboot_copy:
  assumes has: "device_has d (take 176 (image_of fs args m now)) qi (section_content fs args 1) z i"
    and lay: "layout_fits fs args" and d: "length d mod 512 = 0" "16777216 \<le> length d"
    and B: "B = length d - 16777216 \<or> B = length d - 8388608"
  shows "uboot_copy d B (final_header fs args m now) (section_content fs args 1)"
proof -
  let ?h = "final_header fs args m now"
  have r: "region d B 176 = take 176 (image_of fs args m now)"
    "region d (B + 1024) (length (section_content fs args 1)) = section_content fs args 1"
    using has B by (auto simp: device_has_def)
  have len: "sizeof_FWFileHdr \<le> length (image_of fs args m now)" by (simp add: image_of_def)
  have h: "header_of_bytes (region d B 176) = ?h"
    unfolding r using header_of_take [OF len] by (simp only: sizeof_FWFileHdr_def header_of_image)
  have st: "st_nand_offset (fh_u_boot ?h) = 2"
    "st_nand_size (fh_u_boot ?h) = word_of_nat (length (section_content fs args 1))"
    using image_stanza [of 1 fs args m now] by (simp_all add: header_sections sects_def mk_section_def)
  have "packed fs args" "length (section_content fs args 1) \<le> 262144" using lay by (simp_all add: layout_fits_def)
  then have "unat (st_nand_size (fh_u_boot ?h)) = length (section_content fs args 1)" using st(2) by simp
  moreover have "B mod 512 = 0"
  proof -
    have "(length d - 512 * k) mod 512 = 0" if "512 * k \<le> length d" for k
      using d(1) that by (metis dvd_diff_nat dvd_triv_left mod_0_imp_dvd mod_eq_0_iff_dvd)
    from this [of 32768] this [of 16384] show ?thesis using B d(2) by auto
  qed
  moreover have "B + 263680 \<le> length d" using B d(2) by auto
  ultimately show ?thesis
    using h r(2) st(1) \<open>length (section_content fs args 1) \<le> 262144\<close>
    by (simp add: uboot_copy_def final_header_fields)
qed

text \<open>The places of the copies that follow from the number of blocks.\<close>

lemma bend_place:
  fixes hide :: u32
  assumes "length d mod 512 = 0" "16777216 \<le> length d" "unat hide = length d div 512"
  shows "unat hide - unat INAND_KERNEL1_BEND = (length d - 16777216) div 512"
    "INAND_KERNEL1_BEND \<le> hide"
    "unat hide - unat INAND_KERNEL0_BEND = (length d - 8388608) div 512"
    "INAND_KERNEL0_BEND \<le> hide"
proof -
  have d: "length d = 512 * (length d div 512)" using assms(1) by auto
  show "INAND_KERNEL1_BEND \<le> hide" "INAND_KERNEL0_BEND \<le> hide"
    unfolding word_le_nat_alt assms(3) unat_bend using assms(2) d by linarith+
  have k: "length d - 16777216 = 512 * (length d div 512 - 32768)" "length d - 8388608 = 512 * (length d div 512 - 16384)"
    using d by linarith+
  show "unat hide - unat INAND_KERNEL1_BEND = (length d - 16777216) div 512"
    "unat hide - unat INAND_KERNEL0_BEND = (length d - 8388608) div 512"
    unfolding assms(3) unat_bend using k by simp_all
qed

lemma find_board_some:
  "this_board \<noteq> None \<Longrightarrow> (\<exists>i. this_board = Some i \<and> boards ! i) \<or> (\<exists>j \<ge> board. j < length boards \<and> boards ! j) \<Longrightarrow>
   find_board boards this_board board \<noteq> None"
proof (induction boards this_board board rule: find_board.induct)
  case (1 boards this_board board)
  then obtain i where i: "this_board = Some i" by blast
  show ?case
  proof (cases "boards ! i")
    case True
    then show ?thesis using i by (subst find_board.simps) simp
  next
    case False
    then obtain j where j: "board \<le> j" "j < length boards" "boards ! j" using 1 i by auto
    then have "board_at boards board = Some board" by (simp add: board_at_def)
    moreover have "boards ! board \<or> board + 1 \<le> j" using j by (cases "board = j") auto
    ultimately have "find_board boards (board_at boards board) (board + 1) \<noteq> None"
      using 1(1) [OF i False] j by auto
    then show ?thesis using i False by (subst find_board.simps) simp
  qed
qed

lemma find_board_finds:
  assumes "True \<in> set boards"
  shows "\<exists>i. find_board boards (board_at boards 0) 0 = Some i"
proof -
  have "\<exists>j \<ge> 0. j < length boards \<and> boards ! j" using assms by (auto simp: in_set_conv_nth)
  moreover from this have "board_at boards 0 \<noteq> None" by (auto simp: board_at_def)
  ultimately show ?thesis using find_board_some [of "board_at boards 0" boards 0] by blast
qed

lemma led_set_mem [simp]: "soc_mem (led_set on st) = soc_mem st"
  by (simp add: led_set_def Let_def)

lemma start_qi_loads:
  assumes "True \<in> set boards" "do_load_uboot rom rv (soc_mem st) = (1, mem)"
  shows "\<exists>st'. start_qi rom rv boards st = Some (True, st') \<and> soc_mem st' = mem"
  using find_board_finds [OF assms(1)] assms(2) by (auto simp: start_qi_def Let_def)

text \<open>The loader does not look at the result: it jumps in any case.\<close>

lemma start_qi_jumps_anyway:
  assumes "True \<in> set boards" "\<And>start n mem. rom (CHANNEL rv) start n mem = (0, mem)"
    and "fh_magic (header_of_bytes (soc_mem st)) \<noteq> HEAD_MAGIC"
  shows "\<exists>st'. start_qi rom rv boards st = Some (False, st') \<and> soc_mem st' = soc_mem st"
  using find_board_finds [OF assms(1)] assms(2,3)
  by (auto simp: start_qi_def do_load_uboot_def do_read_inand_def Let_def)

definition demo_rom :: "bytes \<Rightarrow> rom" where
  "demo_rom d ch start n mem =
     (if 512 * (unat start + unat n) \<le> length d \<and> 512 * unat n \<le> length mem
      then (1, patch mem 0 (region d (512 * unat start) (512 * unat n))) else (0, mem))"

lemma demo_rom_copies: "rom_copies (demo_rom d) ch d"
  by (simp add: rom_copies_def demo_rom_def)

definition demo_rom_vars :: rom_vars where
  "demo_rom_vars = \<lparr>rom_bas = 0x7c300000, rom_rca = 0xb3680000, globalBlockSizeHide = 32768\<rparr>"

lemma demo_rom_vars_fields:
  "CHANNEL demo_rom_vars = 1" "SDHC demo_rom_vars = 0" "globalBlockSizeHide demo_rom_vars = 32768"
  by (simp_all add: demo_rom_vars_def CHANNEL_def SDHC_def)

definition demo_soc :: soc where
  "demo_soc = \<lparr>soc_mem = replicate 263680 0, soc_gpncon = 0, soc_gpndat = 0\<rparr>"

subsection \<open>Properties\<close>

text \<open>C30. From the packer to the first jump: after upgrade has installed an image written by mkSmartQ, the first
  stage of the boot loader, run on that device with a ROM that copies blocks and counts them, jumps to
  exactly the u-boot that was packed.  The device is one that the ROM does not take for an SDHC card: for
  those the ROM counts 1024 blocks fewer, and the copies are not where the first stage looks.\<close>

theorem power_on_starts_packed_uboot:
  assumes "env_good env" "layout_fits fs0 args" "fs path = Some (image_of fs0 args m now)"
    and "\<not> wrong_platform (env_sys env) (final_header fs0 args m now)"
    and "16777216 \<le> length device" "length device mod 512 = 0" "length device < 2199023255552" "atoi flag \<noteq> 1"
  shows "\<exists>dst. upgrade_main env fs (Some device) [argv0, path, devName, flag] = Some (0, dst) \<and>
    (\<forall>rom rv boards st. rom_copies rom (CHANNEL rv) (dev dst) \<longrightarrow> rom_counts rv (dev dst) \<longrightarrow> SDHC rv = 0 \<longrightarrow>
       True \<in> set boards \<longrightarrow> 263680 \<le> length (soc_mem st) \<longrightarrow>
       (\<exists>st'. start_qi rom rv boards st = Some (True, st') \<and>
          take (length (section_content fs0 args 1)) (soc_mem st') = section_content fs0 args 1))"
proof -
  obtain dst where up: "upgrade_main env fs (Some device) [argv0, path, devName, flag] = Some (0, dst)"
    "device_has (dev dst) (take 176 (image_of fs0 args m now)) (section_content fs0 args 0)
        (section_content fs0 args 1) (section_content fs0 args 2) (section_content fs0 args 3)"
    "length (dev dst) = length device"
    using upgrade_packed [where fs = fs and path = path, OF assms(1,2) assms(3) assms(4,5,8), of argv0 devName] by blast
  let ?B = "length (dev dst) - 16777216"
  have copy: "uboot_copy (dev dst) ?B (final_header fs0 args m now) (section_content fs0 args 1)"
    using device_has_uboot_copy [OF up(2) assms(2)] assms(5,6) up(3) by simp
  have "\<exists>st'. start_qi rom rv boards st = Some (True, st') \<and>
          take (length (section_content fs0 args 1)) (soc_mem st') = section_content fs0 args 1"
    if h: "rom_copies rom (CHANNEL rv) (dev dst)" "rom_counts rv (dev dst)" "SDHC rv = 0" "True \<in> set boards"
      "263680 \<le> length (soc_mem st)" for rom rv boards st
  proof -
    have count: "unat (globalBlockSizeHide rv) = length (dev dst) div 512" using h(2,3) by (simp add: rom_counts_def)
    have place: "unat (globalBlockSizeHide rv) - unat INAND_KERNEL1_BEND = ?B div 512" "INAND_KERNEL1_BEND \<le> globalBlockSizeHide rv"
      using bend_place(1,2) [OF _ _ count] assms(5,6) up(3) by simp_all
    obtain mem where mem: "do_read_inand rom rv (CHANNEL rv) INAND_KERNEL1_BEND (soc_mem st) = (1, mem)"
      "take (length (section_content fs0 args 1)) mem = section_content fs0 args 1"
      using do_read_inand_ok [OF h(1) copy place _ h(5)] assms(7) up(3) by auto
    then have "do_load_uboot rom rv (soc_mem st) = (1, mem)" by (simp add: do_load_uboot_def)
    from start_qi_loads [OF h(4) this] mem(2) show ?thesis by auto
  qed
  then show ?thesis using up(1) by blast
qed

theorem power_on_starts_packed_uboot_witness:
  "\<exists>dst st'. upgrade_main demo_env (demo_card demo_fs demo_args) (Some demo_device)
       [''upgrade'', ''/mnt/SmartQ5'', ''/dev/mmcblk0'', ''0''] = Some (0, dst) \<and>
     start_qi (demo_rom (dev dst)) demo_rom_vars [False, True] demo_soc = Some (True, st') \<and> take 2 (soc_mem st') = [4, 5]"
proof -
  have card: "demo_card demo_fs demo_args ''/mnt/SmartQ5'' =
      Some (image_of demo_fs demo_args MACH_TYPE_SMARTQ5 7)"
    by (simp add: demo_card_def)
  have ub: "section_content demo_fs demo_args 1 = [4, 5]"
    by (simp add: section_content_def content_of_def demo_args_def demo_fs_def)
  have flag: "atoi ''0'' \<noteq> 1" and D: "16777216 \<le> length demo_device" "length demo_device mod 512 = 0"
    "length demo_device < 2199023255552"
    by (simp_all add: demo_device_def)
  have big: "263680 \<le> length (soc_mem demo_soc)" by (simp add: demo_soc_def)
  obtain dst where up: "upgrade_main demo_env (demo_card demo_fs demo_args) (Some demo_device)
       [''upgrade'', ''/mnt/SmartQ5'', ''/dev/mmcblk0'', ''0''] = Some (0, dst)"
    and run: "\<forall>rom rv boards st. rom_copies rom (CHANNEL rv) (dev dst) \<longrightarrow> rom_counts rv (dev dst) \<longrightarrow> SDHC rv = 0 \<longrightarrow>
       True \<in> set boards \<longrightarrow> 263680 \<le> length (soc_mem st) \<longrightarrow>
       (\<exists>st'. start_qi rom rv boards st = Some (True, st') \<and> take (length [4, 5 :: u8]) (soc_mem st') = [4, 5])"
    using power_on_starts_packed_uboot [where fs = "demo_card demo_fs demo_args" and path = "''/mnt/SmartQ5''",
        OF demo_env_good demo_layout(1) card demo_platform D flag, of "''upgrade''" "''/dev/mmcblk0''", unfolded ub] by blast
  have "length (dev dst) = 16777216"
    using upgrade_packed [where fs = "demo_card demo_fs demo_args" and path = "''/mnt/SmartQ5''",
        OF demo_env_good demo_layout(1) card demo_platform D(1) flag, of "''upgrade''" "''/dev/mmcblk0''"] up
    by (simp add: demo_device_def)
  then have "rom_counts demo_rom_vars (dev dst)" by (simp add: rom_counts_def demo_rom_vars_fields)
  from run [rule_format, OF demo_rom_copies this demo_rom_vars_fields(2) _ big, of "[False, True]"] up
  show ?thesis by (auto simp: numeral_2_eq_2)
qed

text \<open>C31. A damaged copy is passed over: when the header of the newer copy has lost its magic number and the
  older copy is complete, the first stage jumps to the u-boot of the older copy.  The device is what the
  ROM counts of it.\<close>

theorem damaged_copy_falls_back:
  assumes "rom_copies rom (CHANNEL rv) d" "True \<in> set boards" "263680 \<le> length (soc_mem st)"
    and "length d mod 512 = 0" "16777216 \<le> length d" "length d < 2199023255552"
    and "fh_magic (header_of_bytes (region d (length d - 16777216) 176)) \<noteq> HEAD_MAGIC"
    and "uboot_copy d (length d - 8388608) fh ub"
    and "globalBlockSizeHide rv = word_of_nat (length d div 512)"
  shows "\<exists>st'. start_qi rom rv boards st = Some (True, st') \<and> take (length ub) (soc_mem st') = ub"
proof -
  let ?B = "length d - 16777216"
  have "length d div 512 < 4294967296" using assms(6) by (simp add: less_mult_imp_div_less)
  then have count: "unat (globalBlockSizeHide rv) = length d div 512" unfolding assms(9) by (rule unat_word_of_nat32)
  note place = bend_place [OF assms(4,5) count]
  have B: "?B mod 512 = 0" "?B + 1024 \<le> length d"
  proof -
    have "length d = 512 * (length d div 512)" using assms(4) by auto
    then have "?B = 512 * (length d div 512 - 32768)" using assms(5) by linarith
    then show "?B mod 512 = 0" by simp
    show "?B + 1024 \<le> length d" using assms(5) by simp
  qed
  have bad: "do_read_inand rom rv (CHANNEL rv) INAND_KERNEL1_BEND (soc_mem st) = (- 1, patch (soc_mem st) 0 (region d ?B 1024))"
    using do_read_inand_damaged [OF assms(1,7) B place(1,2)] assms(3) by simp
  have "263680 \<le> length (patch (soc_mem st) 0 (region d ?B 1024))" using assms(3) B(2) by simp
  from do_read_inand_ok [OF assms(1,8) place(3,4) assms(6) this] obtain mem
    where mem: "do_read_inand rom rv (CHANNEL rv) INAND_KERNEL0_BEND (patch (soc_mem st) 0 (region d ?B 1024)) = (1, mem)"
      "take (length ub) mem = ub" by blast
  have "do_load_uboot rom rv (soc_mem st) = (1, mem)" using bad mem(1) by (simp add: do_load_uboot_def)
  from start_qi_loads [OF assms(2) this] mem(2) show ?thesis by auto
qed

definition demo_tail :: bytes where
  "demo_tail = header_bytes (final_header demo_fs demo_args MACH_TYPE_SMARTQ5 7) @ replicate 848 0 @ [4, 5] @ replicate 8387582 0"

theorem damaged_copy_falls_back_witness:
  "\<exists>st'. start_qi (demo_rom (replicate 8388608 0 @ demo_tail)) demo_rom_vars [True] demo_soc = Some (True, st') \<and>
    take 2 (soc_mem st') = [4, 5]"
proof -
  let ?d = "replicate 8388608 0 @ demo_tail" and ?h = "final_header demo_fs demo_args MACH_TYPE_SMARTQ5 7"
  have hdr: "length (header_bytes ?h) = 176" using length_header_bytes [OF wf_final_header] by (simp add: sizeof_FWFileHdr_def)
  then have len: "length demo_tail = 8388608" by (simp add: demo_tail_def)
  have ub: "section_content demo_fs demo_args 1 = [4, 5]"
    by (simp add: section_content_def content_of_def demo_args_def demo_fs_def)
  have r: "region ?d (8388608 + p) n = region demo_tail p n" for p n
    using region_append_offset [of "replicate 8388608 0" demo_tail p n] by simp
  have t: "region demo_tail 0 176 = header_bytes ?h" "region demo_tail 1024 2 = [4, 5]"
    using hdr by (simp_all add: demo_tail_def region_def)
  have "header_of_bytes (header_bytes ?h) = ?h" by (rule header_of_header_bytes [OF wf_final_header])
  moreover have "st_nand_offset (fh_u_boot ?h) = 2" "st_nand_size (fh_u_boot ?h) = 2"
    using image_stanza [of 1 demo_fs demo_args MACH_TYPE_SMARTQ5 7] ub
    by (simp_all add: header_sections sects_def mk_section_def)
  ultimately have copy: "uboot_copy ?d 8388608 ?h [4, 5]"
    using r [of 0 176] r [of 1024 2] t len by (simp add: uboot_copy_def final_header_fields numeral_2_eq_2 [symmetric])
  have "region ?d 0 176 = replicate 176 0" by (simp add: region_def)
  then have bad: "fh_magic (header_of_bytes (region ?d 0 176)) \<noteq> HEAD_MAGIC"
    by (simp add: header_of_bytes_def get32_def byte_at_def HEAD_MAGIC_def)
  show ?thesis
    using damaged_copy_falls_back [OF demo_rom_copies [of ?d "CHANNEL demo_rom_vars"], of "[True]" demo_soc ?h "[4, 5]"] copy bad len
    by (simp add: demo_soc_def demo_rom_vars_fields numeral_2_eq_2 [symmetric])
qed

subsection \<open>SDHC\<close>

text \<open>On a device that the ROM takes for an SDHC card the first stage looks for the copies 512 KB before
  their places.  It finds nothing there (unless the magic number happens to be in the two blocks), takes
  the blocks at the place of the last resort, which is 512 KB off too, reports success and jumps to them.\<close>

theorem sdhc_device_misses_copies:
  assumes "rom_copies rom (CHANNEL rv) d" "rom_counts rv d" "SDHC rv \<noteq> 0" "True \<in> set boards"
    and "263680 \<le> length (soc_mem st)" "length d mod 512 = 0" "17301504 \<le> length d"
    and "fh_magic (header_of_bytes (region d (length d - 17301504) 176)) \<noteq> HEAD_MAGIC"
    and "fh_magic (header_of_bytes (region d (length d - 8912896) 176)) \<noteq> HEAD_MAGIC"
  shows "\<exists>st'. start_qi rom rv boards st = Some (True, st') \<and>
    take 262144 (soc_mem st') = region d (length d - 795648) 262144"
proof -
  let ?B1 = "length d - 17301504" and ?B0 = "length d - 8912896"
  have d: "length d = 512 * (length d div 512)" using assms(6) by auto
  have count: "unat (globalBlockSizeHide rv) = length d div 512 - 1024" using assms(2,3) by (simp add: rom_counts_def)
  have k: "?B1 = 512 * (length d div 512 - 33792)" "?B0 = 512 * (length d div 512 - 17408)"
    "length d - 795648 = 512 * (length d div 512 - 1554)"
    using d by linarith+
  have div: "?B1 div 512 = length d div 512 - 33792" "?B0 div 512 = length d div 512 - 17408"
    "?B1 mod 512 = 0" "?B0 mod 512 = 0"
    unfolding k by simp_all
  have room: "?B1 + 1024 \<le> length d" "?B0 + 1024 \<le> length d" using assms(7) by simp_all
  have le: "INAND_KERNEL1_BEND \<le> globalBlockSizeHide rv" "INAND_KERNEL0_BEND \<le> globalBlockSizeHide rv"
    unfolding word_le_nat_alt count unat_bend using assms(7) d by linarith+
  let ?m1 = "patch (soc_mem st) 0 (region d ?B1 1024)" and ?ch = "CHANNEL rv"
  let ?m2 = "patch ?m1 0 (region d ?B0 1024)"
  have len: "length ?m1 = length (soc_mem st)" "length ?m2 = length (soc_mem st)" using assms(5) room by simp_all
  have r1: "do_read_inand rom rv ?ch INAND_KERNEL1_BEND (soc_mem st) = (- 1, ?m1)"
    using do_read_inand_damaged [OF assms(1,8) div(3) room(1) _ le(1)] assms(5) div(1) by (simp add: count unat_bend)
  have r0: "do_read_inand rom rv ?ch INAND_KERNEL0_BEND ?m1 = (- 1, ?m2)"
    using do_read_inand_damaged [OF assms(1,9) div(4) room(2) _ le(2)] assms(5) div(2) len by (simp add: count unat_bend)
  have load: "do_load_uboot rom rv (soc_mem st) = (- 1, ?m2)" using r1 r0 by (simp add: do_load_uboot_def)
  have "unat (globalBlockSizeHide rv - 530) = unat (globalBlockSizeHide rv) - 530"
    by (subst unat_sub) (use assms(7) d in \<open>simp_all add: word_le_nat_alt count\<close>)
  then have "unat (old_uboot_sector rv) = length d div 512 - 1554"
    by (simp add: old_uboot_sector_def UBOOT_BLKS_def count)
  then have "rom ?ch (old_uboot_sector rv) (word_of_nat UBOOT_BLKS) ?m2 =
      (1, patch ?m2 0 (region d (length d - 795648) 262144))"
    using rom_copiesD [OF assms(1), of "old_uboot_sector rv" "word_of_nat UBOOT_BLKS" ?m2] assms(5,7) d len k(3)
    by (simp add: UBOOT_BLKS_def)
  moreover have "take 262144 (patch ?m2 0 (region d (length d - 795648) 262144)) = region d (length d - 795648) 262144"
    using assms(5,7) by (simp add: patch_def)
  ultimately show ?thesis
    using find_board_finds [OF assms(4)] load by (auto simp: start_qi_def Let_def)
qed

theorem sdhc_device_misses_copies_witness:
  "\<exists>st'. start_qi (demo_rom (replicate 17301504 0)) (demo_rom_vars\<lparr>rom_rca := 0xb3680001\<rparr>) [True] demo_soc = Some (True, st') \<and>
    take 262144 (soc_mem st') = replicate 262144 0"
proof -
  let ?d = "replicate 17301504 (0 :: u8)" and ?rv = "demo_rom_vars\<lparr>rom_rca := 0xb3680001\<rparr>"
  have rv: "SDHC ?rv \<noteq> 0" "rom_counts ?rv ?d" by (simp_all add: SDHC_def rom_counts_def demo_rom_vars_def)
  have z: "region ?d p n = replicate n 0" if "p + n \<le> 17301504" for p n
    using that by (simp add: region_def min_def)
  have bad: "fh_magic (header_of_bytes (replicate 176 0)) \<noteq> HEAD_MAGIC"
    by (simp add: header_of_bytes_def get32_def byte_at_def HEAD_MAGIC_def)
  show ?thesis
    using sdhc_device_misses_copies [OF demo_rom_copies [of ?d "CHANNEL ?rv"] rv(2,1), of "[True]" demo_soc] bad
    by (simp add: demo_soc_def z)
qed

end
