(* ===== verification/Qi_Hsmmc.thy ===== *)
theory Qi_Hsmmc
  imports Prelude "HOL-Library.Monad_Syntax"
begin

unbundle bit_operations_syntax

section \<open>The SD host controller of the S3C6410\<close>

text \<open>
  \<^verbatim>\<open>qi/src/cpu/s3c6410/hs_mmc.c\<close> at the level of its registers.  The hardware is a parameter: a function
  from the accesses so far, the newest first, and the read that is made to the value it gives, so every
  device that reacts to what is read and written is covered.  The result None is a loop that does not end.
  Delays and messages are left out; the accesses that are made to print a register are kept.
\<close>

datatype reg_access = Rd8 u32 | Rd16 u32 | Rd32 u32 | Wr8 u32 u8 | Wr16 u32 u16 | Wr32 u32 u32

type_synonym hw = "reg_access list \<Rightarrow> reg_access \<Rightarrow> u32"

datatype card_type = CARDTYPE_NONE | CARDTYPE_MMC | CARDTYPE_SD | CARDTYPE_SD20 | CARDTYPE_SDHC

record hsmmc =
  hs_log :: "reg_access list"
  HS_DMA_END :: u32
  hs_rca :: u32
  HCLK :: u32
  movi_hc :: int
  hs_card_type :: card_type

definition fresh_hsmmc :: hsmmc where
  "fresh_hsmmc = \<lparr>hs_log = [], HS_DMA_END = 0, hs_rca = 0, HCLK = 0, movi_hc = 1, hs_card_type = CARDTYPE_NONE\<rparr>"

named_theorems hs_regs "the places of the registers"

definition ELFIN_HSMMC_BASE :: u32 where "ELFIN_HSMMC_BASE = 0x7C200000"
definition HSMMC_CHANNEL :: u32 where "HSMMC_CHANNEL = 0"
definition HM_SYSAD :: u32 where [hs_regs]: "HM_SYSAD = 0x00"
definition HM_BLKSIZE :: u32 where [hs_regs]: "HM_BLKSIZE = 0x04"
definition HM_BLKCNT :: u32 where [hs_regs]: "HM_BLKCNT = 0x06"
definition HM_ARGUMENT :: u32 where [hs_regs]: "HM_ARGUMENT = 0x08"
definition HM_TRNMOD :: u32 where [hs_regs]: "HM_TRNMOD = 0x0c"
definition HM_CMDREG :: u32 where [hs_regs]: "HM_CMDREG = 0x0e"
definition HM_RSPREG0 :: u32 where [hs_regs]: "HM_RSPREG0 = 0x10"
definition HM_RSPREG1 :: u32 where [hs_regs]: "HM_RSPREG1 = 0x14"
definition HM_RSPREG2 :: u32 where [hs_regs]: "HM_RSPREG2 = 0x18"
definition HM_RSPREG3 :: u32 where [hs_regs]: "HM_RSPREG3 = 0x1c"
definition HM_PRNSTS :: u32 where [hs_regs]: "HM_PRNSTS = 0x24"
definition HM_HOSTCTL :: u32 where [hs_regs]: "HM_HOSTCTL = 0x28"
definition HM_CLKCON :: u32 where [hs_regs]: "HM_CLKCON = 0x2c"
definition HM_TIMEOUTCON :: u32 where [hs_regs]: "HM_TIMEOUTCON = 0x2e"
definition HM_SWRST :: u32 where [hs_regs]: "HM_SWRST = 0x2f"
definition HM_NORINTSTS :: u32 where [hs_regs]: "HM_NORINTSTS = 0x30"
definition HM_ERRINTSTS :: u32 where [hs_regs]: "HM_ERRINTSTS = 0x32"
definition HM_NORINTSTSEN :: u32 where [hs_regs]: "HM_NORINTSTSEN = 0x34"
definition HM_ERRINTSTSEN :: u32 where [hs_regs]: "HM_ERRINTSTSEN = 0x36"
definition HM_NORINTSIGEN :: u32 where [hs_regs]: "HM_NORINTSIGEN = 0x38"
definition HM_CONTROL2 :: u32 where [hs_regs]: "HM_CONTROL2 = 0x80"
definition HM_CONTROL3 :: u32 where [hs_regs]: "HM_CONTROL3 = 0x84"
definition HM_CONTROL4 :: u32 where [hs_regs]: "HM_CONTROL4 = 0x8c"
definition qi_GPGCON :: u32 where [hs_regs]: "qi_GPGCON = 0x7f0080c0"
definition qi_GPGPUD :: u32 where [hs_regs]: "qi_GPGPUD = 0x7f0080c8"
definition qi_SCLK_GATE :: u32 where [hs_regs]: "qi_SCLK_GATE = 0x7e00f038"

definition hs_reg :: "u32 \<Rightarrow> u32" where
  "hs_reg x = ELFIN_HSMMC_BASE + HSMMC_CHANNEL * 0x100000 + x"

definition qi_readl :: "hw \<Rightarrow> u32 \<Rightarrow> hsmmc \<Rightarrow> u32 \<times> hsmmc" where
  "qi_readl host a st = (host (hs_log st) (Rd32 a), st\<lparr>hs_log := Rd32 a # hs_log st\<rparr>)"
definition qi_writel :: "u32 \<Rightarrow> u32 \<Rightarrow> hsmmc \<Rightarrow> hsmmc" where
  "qi_writel v a st = st\<lparr>hs_log := Wr32 a v # hs_log st\<rparr>"

definition s3c_hsmmc_readl :: "hw \<Rightarrow> u32 \<Rightarrow> hsmmc \<Rightarrow> u32 \<times> hsmmc" where
  "s3c_hsmmc_readl host x st =
     (host (hs_log st) (Rd32 (hs_reg x)), st\<lparr>hs_log := Rd32 (hs_reg x) # hs_log st\<rparr>)"
definition s3c_hsmmc_readw :: "hw \<Rightarrow> u32 \<Rightarrow> hsmmc \<Rightarrow> u16 \<times> hsmmc" where
  "s3c_hsmmc_readw host x st =
     (ucast (host (hs_log st) (Rd16 (hs_reg x))), st\<lparr>hs_log := Rd16 (hs_reg x) # hs_log st\<rparr>)"
definition s3c_hsmmc_readb :: "hw \<Rightarrow> u32 \<Rightarrow> hsmmc \<Rightarrow> u8 \<times> hsmmc" where
  "s3c_hsmmc_readb host x st =
     (ucast (host (hs_log st) (Rd8 (hs_reg x))), st\<lparr>hs_log := Rd8 (hs_reg x) # hs_log st\<rparr>)"
definition s3c_hsmmc_writel :: "u32 \<Rightarrow> u32 \<Rightarrow> hsmmc \<Rightarrow> hsmmc" where
  "s3c_hsmmc_writel v x st = st\<lparr>hs_log := Wr32 (hs_reg x) v # hs_log st\<rparr>"
definition s3c_hsmmc_writew :: "u16 \<Rightarrow> u32 \<Rightarrow> hsmmc \<Rightarrow> hsmmc" where
  "s3c_hsmmc_writew v x st = st\<lparr>hs_log := Wr16 (hs_reg x) v # hs_log st\<rparr>"
definition s3c_hsmmc_writeb :: "u8 \<Rightarrow> u32 \<Rightarrow> hsmmc \<Rightarrow> hsmmc" where
  "s3c_hsmmc_writeb v x st = st\<lparr>hs_log := Wr8 (hs_reg x) v # hs_log st\<rparr>"

text \<open>The loops: at most \<open>n\<close> turns until a read says to stop (False: all were made), and a loop without a
  bound.\<close>

primrec poll :: "nat \<Rightarrow> (hsmmc \<Rightarrow> bool \<times> hsmmc) \<Rightarrow> hsmmc \<Rightarrow> bool \<times> hsmmc" where
  "poll 0 f st = (False, st)"
| "poll (Suc n) f st = (let (stop, st) = f st in if stop then (True, st) else poll n f st)"

partial_function (option) repeat_until :: "(hsmmc \<Rightarrow> (bool \<times> hsmmc) option) \<Rightarrow> hsmmc \<Rightarrow> hsmmc option" where
  "repeat_until f st = do { (stop, st) \<leftarrow> f st; if stop then Some st else repeat_until f st }"

subsection \<open>Registers\<close>

text \<open>The result is -1 or 0; the value of the last read of the status is used after the loop.\<close>

primrec cmd_wait_loop :: "hw \<Rightarrow> nat \<Rightarrow> u16 \<Rightarrow> hsmmc \<Rightarrow> (u16 \<times> bool) \<times> hsmmc" where
  "cmd_wait_loop host 0 n_int st = ((n_int, False), st)"
| "cmd_wait_loop host (Suc i) n_int st =
     (let (n_int, st) = s3c_hsmmc_readw host HM_NORINTSTS st
      in if n_int AND 0x8000 \<noteq> 0 then ((n_int, False), st)
         else if n_int AND 0x0001 \<noteq> 0 then ((n_int, True), st)
         else cmd_wait_loop host i n_int st)"

definition wait_for_cmd_done :: "hw \<Rightarrow> hsmmc \<Rightarrow> int \<times> hsmmc" where
  "wait_for_cmd_done host st =
     (let ((n_int, complete), st) = cmd_wait_loop host 0x20000000 0 st
      in if complete then (0, st)
      else let (e_int, st) = s3c_hsmmc_readw host HM_ERRINTSTS st;
               st = s3c_hsmmc_writew e_int HM_ERRINTSTS st;
               st = s3c_hsmmc_writew n_int HM_NORINTSTS st
           in (- 1, st))"

definition ClearCommandCompleteStatus :: "hw \<Rightarrow> hsmmc \<Rightarrow> hsmmc option" where
  "ClearCommandCompleteStatus host st =
     repeat_until (\<lambda>st. let (v, st) = s3c_hsmmc_readw host HM_NORINTSTS st
                        in if v AND 0x1 \<noteq> 0 then Some (False, s3c_hsmmc_writew 1 HM_NORINTSTS st)
                           else Some (True, st))
       (s3c_hsmmc_writew 1 HM_NORINTSTS st)"

definition card_irq_enable :: "hw \<Rightarrow> u16 \<Rightarrow> hsmmc \<Rightarrow> hsmmc" where
  "card_irq_enable host temp st =
     (let (v, st) = s3c_hsmmc_readw host HM_NORINTSTSEN st
      in s3c_hsmmc_writew ((v AND 0xFEFF) OR push_bit 8 temp) HM_NORINTSTSEN st)"

definition hsmmc_reset :: "hsmmc \<Rightarrow> hsmmc" where
  "hsmmc_reset st = s3c_hsmmc_writeb 0x3 HM_SWRST st"

definition hsmmc_set_gpio :: "hw \<Rightarrow> hsmmc \<Rightarrow> hsmmc" where
  "hsmmc_set_gpio host st =
     (let (v, st) = qi_readl host qi_GPGCON st;
          st = qi_writel ((v AND 0xf0000000) OR 0x02222222) qi_GPGCON st;
          (v, st) = qi_readl host qi_GPGPUD st
      in qi_writel (v AND 0xfffff000) qi_GPGPUD st)"

definition set_transfer_mode_register :: "hw \<Rightarrow> u32 \<Rightarrow> u32 \<Rightarrow> u32 \<Rightarrow> u32 \<Rightarrow> u32 \<Rightarrow> hsmmc \<Rightarrow> hsmmc" where
  "set_transfer_mode_register host MultiBlk DataDirection AutoCmd12En BlockCntEn DmaEn st =
     (let (v, st) = s3c_hsmmc_readw host HM_TRNMOD st
      in s3c_hsmmc_writew
           (ucast ((ucast v AND NOT 0xffff) OR push_bit 5 MultiBlk OR push_bit 4 DataDirection
             OR push_bit 2 AutoCmd12En OR push_bit 1 BlockCntEn OR DmaEn :: u32)) HM_TRNMOD st)"

definition set_arg_register :: "u32 \<Rightarrow> hsmmc \<Rightarrow> hsmmc" where
  "set_arg_register arg st = s3c_hsmmc_writel arg HM_ARGUMENT st"
definition set_blkcnt_register :: "u16 \<Rightarrow> hsmmc \<Rightarrow> hsmmc" where
  "set_blkcnt_register uBlkCnt st = s3c_hsmmc_writew uBlkCnt HM_BLKCNT st"
definition SetSystemAddressReg :: "u32 \<Rightarrow> hsmmc \<Rightarrow> hsmmc" where
  "SetSystemAddressReg SysAddr st = s3c_hsmmc_writel SysAddr HM_SYSAD st"
definition set_blksize_register :: "u16 \<Rightarrow> u16 \<Rightarrow> hsmmc \<Rightarrow> hsmmc" where
  "set_blksize_register uDmaBufBoundary uBlkSize st =
     s3c_hsmmc_writew (push_bit 12 uDmaBufBoundary OR uBlkSize) HM_BLKSIZE st"

definition ClearErrInterruptStatus :: "hw \<Rightarrow> hsmmc \<Rightarrow> hsmmc option" where
  "ClearErrInterruptStatus host st =
     repeat_until (\<lambda>st. let (v, st) = s3c_hsmmc_readw host HM_NORINTSTS st
                        in if v AND 0x8000 \<noteq> 0
                           then let (v, st) = s3c_hsmmc_readw host HM_NORINTSTS st;
                                    st = s3c_hsmmc_writew v HM_NORINTSTS st;
                                    (v, st) = s3c_hsmmc_readw host HM_ERRINTSTS st
                                in Some (False, s3c_hsmmc_writew v HM_ERRINTSTS st)
                           else Some (True, st)) st"

definition InterruptEnable :: "hw \<Rightarrow> u16 \<Rightarrow> u16 \<Rightarrow> hsmmc \<Rightarrow> hsmmc option" where
  "InterruptEnable host NormalIntEn ErrorIntEn st = do {
     st \<leftarrow> ClearErrInterruptStatus host st;
     let st = s3c_hsmmc_writew NormalIntEn HM_NORINTSTSEN st;
     Some (s3c_hsmmc_writew ErrorIntEn HM_ERRINTSTSEN st)
   }"

definition hsmmc_clock_onoff :: "hw \<Rightarrow> int \<Rightarrow> hsmmc \<Rightarrow> hsmmc option" where
  "hsmmc_clock_onoff host on st =
     (if on = 0 then
        let (reg16, st) = s3c_hsmmc_readw host HM_CLKCON st
        in Some (s3c_hsmmc_writew (reg16 AND NOT 0x4) HM_CLKCON st)
      else
        let (reg16, st) = s3c_hsmmc_readw host HM_CLKCON st;
            st = s3c_hsmmc_writew (reg16 OR 0x4) HM_CLKCON st
        in repeat_until (\<lambda>st. let (reg16, st) = s3c_hsmmc_readw host HM_CLKCON st
                              in Some (reg16 AND 0x8 \<noteq> 0, st)) st)"

definition set_clock :: "hw \<Rightarrow> u32 \<Rightarrow> u32 \<Rightarrow> hsmmc \<Rightarrow> hsmmc option" where
  "set_clock host clksrc dv st =
     (let st = s3c_hsmmc_writel (0xC0004100 OR push_bit 4 clksrc) HM_CONTROL2 st;
          st = s3c_hsmmc_writel 0x00008080 HM_CONTROL3 st;
          st = s3c_hsmmc_writel 0x30000 HM_CONTROL4 st;
          (v, st) = s3c_hsmmc_readw host HM_CLKCON st;
          st = s3c_hsmmc_writew (v AND NOT 0xff00) HM_CLKCON st;
          st = s3c_hsmmc_writew (ucast (push_bit 8 dv OR 0x1)) HM_CLKCON st;
          (_, st) = poll 0x10000 (\<lambda>st. let (reg16, st) = s3c_hsmmc_readw host HM_CLKCON st
                                       in (reg16 AND 0x2 \<noteq> 0, st)) st
      in hsmmc_clock_onoff host 1 st)"

subsection \<open>Commands\<close>

definition MMC_RSP_PRESENT :: u32 where "MMC_RSP_PRESENT = 1"
definition MMC_RSP_136 :: u32 where "MMC_RSP_136 = 2"
definition MMC_RSP_CRC :: u32 where "MMC_RSP_CRC = 4"
definition MMC_RSP_BUSY :: u32 where "MMC_RSP_BUSY = 8"
definition MMC_RSP_OPCODE :: u32 where "MMC_RSP_OPCODE = 16"
definition MMC_CMD_BCR :: u32 where "MMC_CMD_BCR = 96"
definition MMC_RSP_R1 :: u32 where "MMC_RSP_R1 = MMC_RSP_PRESENT OR MMC_RSP_CRC OR MMC_RSP_OPCODE"
definition MMC_RSP_R1B :: u32 where
  "MMC_RSP_R1B = MMC_RSP_PRESENT OR MMC_RSP_CRC OR MMC_RSP_OPCODE OR MMC_RSP_BUSY"
definition MMC_RSP_R2 :: u32 where "MMC_RSP_R2 = MMC_RSP_PRESENT OR MMC_RSP_136 OR MMC_RSP_CRC"
definition MMC_RSP_R3 :: u32 where "MMC_RSP_R3 = MMC_RSP_PRESENT"
definition MMC_RSP_R6 :: u32 where "MMC_RSP_R6 = MMC_RSP_PRESENT OR MMC_RSP_CRC OR MMC_RSP_OPCODE"
definition MMC_RSP_R7 :: u32 where "MMC_RSP_R7 = MMC_RSP_PRESENT OR MMC_RSP_CRC OR MMC_RSP_OPCODE"

definition MMC_GO_IDLE_STATE :: u16 where "MMC_GO_IDLE_STATE = 0"
definition MMC_ALL_SEND_CID :: u16 where "MMC_ALL_SEND_CID = 2"
definition SD_SEND_RELATIVE_ADDR :: u16 where "SD_SEND_RELATIVE_ADDR = 3"
definition MMC_SWITCH :: u16 where "MMC_SWITCH = 6"
definition MMC_SELECT_CARD :: u16 where "MMC_SELECT_CARD = 7"
definition SD_SEND_IF_COND :: u16 where "SD_SEND_IF_COND = 8"
definition MMC_SEND_CSD :: u16 where "MMC_SEND_CSD = 9"
definition MMC_SEND_STATUS :: u16 where "MMC_SEND_STATUS = 13"
definition MMC_SET_BLOCKLEN :: u16 where "MMC_SET_BLOCKLEN = 16"
definition SD_APP_OP_COND :: u16 where "SD_APP_OP_COND = 41"
definition MMC_APP_CMD :: u16 where "MMC_APP_CMD = 55"
definition MMC_DEFAULT_RCA :: u32 where "MMC_DEFAULT_RCA = 0x10000"

lemmas sd_commands = MMC_GO_IDLE_STATE_def MMC_ALL_SEND_CID_def SD_SEND_RELATIVE_ADDR_def MMC_SWITCH_def
  MMC_SELECT_CARD_def SD_SEND_IF_COND_def MMC_SEND_CSD_def MMC_SEND_STATUS_def MMC_SET_BLOCKLEN_def
  SD_APP_OP_COND_def MMC_APP_CMD_def MMC_DEFAULT_RCA_def

lemmas rsp_flags = MMC_RSP_R1_def MMC_RSP_R1B_def MMC_RSP_R2_def MMC_RSP_R3_def MMC_RSP_R6_def MMC_RSP_R7_def
  MMC_RSP_PRESENT_def MMC_RSP_136_def MMC_RSP_CRC_def MMC_RSP_BUSY_def MMC_RSP_OPCODE_def MMC_CMD_BCR_def

definition cmd_value :: "u16 \<Rightarrow> u32 \<Rightarrow> u32 \<Rightarrow> u16" where
  "cmd_value cmd data flags =
     (let val = push_bit 8 cmd;
          val = (if cmd = 12 then val OR 0xc0 else val);
          val = (if flags AND MMC_RSP_136 \<noteq> 0 then val OR 0x01
                 else if flags AND MMC_RSP_BUSY \<noteq> 0 then val OR 0x03
                 else if flags AND MMC_RSP_PRESENT \<noteq> 0 then val OR 0x02 else val);
          val = (if flags AND MMC_RSP_OPCODE \<noteq> 0 then val OR 0x10 else val);
          val = (if flags AND MMC_RSP_CRC \<noteq> 0 then val OR 0x08 else val)
      in if data \<noteq> 0 then val OR 0x20 else val)"

definition set_cmd_register :: "u16 \<Rightarrow> u32 \<Rightarrow> u32 \<Rightarrow> hsmmc \<Rightarrow> hsmmc" where
  "set_cmd_register cmd data flags st = s3c_hsmmc_writew (cmd_value cmd data flags) HM_CMDREG st"

text \<open>Waiting until an inhibit bit is clear; at a time-out the register is read once more, to print it, and
  the command is sent all the same.\<close>

definition wait_inhibit :: "hw \<Rightarrow> u32 \<Rightarrow> hsmmc \<Rightarrow> hsmmc" where
  "wait_inhibit host msk st =
     (let (free, st) = poll 0x1000000 (\<lambda>st. let (v, st) = s3c_hsmmc_readl host HM_PRNSTS st
                                           in (v AND msk = 0, st)) st
      in if free then st else snd (s3c_hsmmc_readl host HM_PRNSTS st))"

definition issue_command :: "hw \<Rightarrow> u16 \<Rightarrow> u32 \<Rightarrow> u32 \<Rightarrow> u32 \<Rightarrow> hsmmc \<Rightarrow> (int \<times> hsmmc) option" where
  "issue_command host cmd arg data flags st =
     (let st = wait_inhibit host 0x1 st;
          st = (if flags AND MMC_RSP_BUSY \<noteq> 0 then wait_inhibit host 0x2 st else st);
          st = s3c_hsmmc_writel arg HM_ARGUMENT st;
          st = set_cmd_register cmd data flags st;
          (err, st) = wait_for_cmd_done host st
      in if err \<noteq> 0 then Some (0, st)
      else do {
        st \<leftarrow> ClearCommandCompleteStatus host st;
        let (v, st) = s3c_hsmmc_readw host HM_NORINTSTS st;
        if v AND 0x8000 = 0 then Some (1, st)
        else do {
          let (_, st) = s3c_hsmmc_readw host HM_CMDREG st;
          let (_, st) = s3c_hsmmc_readw host HM_ERRINTSTS st;
          Some (0, st)
        }
      })"

definition check_card_status :: "hw \<Rightarrow> hsmmc \<Rightarrow> (int \<times> hsmmc) option" where
  "check_card_status host st = do {
     (resp, st) \<leftarrow> issue_command host MMC_SEND_STATUS (push_bit 16 (hs_rca st)) 0 MMC_RSP_R1 st;
     if resp = 0 then Some (0, st)
     else do {
       let (v, st) = s3c_hsmmc_readl host HM_RSPREG0 st;
       if drop_bit 9 v AND 0xf = 4 then Some (1, st) else Some (1, st)
     }
   }"

definition set_hostctl_speed :: "hw \<Rightarrow> u8 \<Rightarrow> hsmmc \<Rightarrow> hsmmc" where
  "set_hostctl_speed host mode st =
     (let (v, st) = s3c_hsmmc_readb host HM_HOSTCTL st
      in s3c_hsmmc_writeb ((v AND NOT 0x4) OR push_bit 2 mode) HM_HOSTCTL st)"

definition set_bus_width :: "hw \<Rightarrow> u32 \<Rightarrow> hsmmc \<Rightarrow> (int \<times> hsmmc) option" where
  "set_bus_width host width st = do {
     let (reg, st) = s3c_hsmmc_readb host HM_HOSTCTL st;
     let st = card_irq_enable host 0 st;
     (resp, st) \<leftarrow> issue_command host MMC_APP_CMD (push_bit 16 (hs_rca st)) 0 MMC_RSP_R1 st;
     if resp = 0 then Some (- 1, st)
     else do {
       let bitmode = (if width = 1 then 0 else 1 :: u8);
       (resp, st) \<leftarrow> issue_command host MMC_SWITCH (if width = 1 then 0 else 2) 0 MMC_RSP_R1B st;
       if resp = 0 then Some (- 1, st)
       else do {
         let reg = (if bitmode = 2 then reg OR 0x20 else reg OR push_bit 1 bitmode);
         let st = s3c_hsmmc_writeb reg HM_HOSTCTL st;
         Some (0, card_irq_enable host 1 st)
       }
     }
   }"

definition clock_config :: "hw \<Rightarrow> u32 \<Rightarrow> hsmmc \<Rightarrow> hsmmc option" where
  "clock_config host Divisior st = do {
     let st = (if 25000000 < 100000000 div (Divisior * 2) then set_hostctl_speed host 1 st
               else set_hostctl_speed host 0 st);
     st \<leftarrow> hsmmc_clock_onoff host 0 st;
     set_clock host 2 Divisior st
   }"

primrec dma_loop :: "hw \<Rightarrow> nat \<Rightarrow> hsmmc \<Rightarrow> hsmmc" where
  "dma_loop host 0 st = st"
| "dma_loop host (Suc i) st =
     (let (v, st) = s3c_hsmmc_readw host HM_NORINTSTS st
      in if v AND 0x0002 \<noteq> 0
      then let st = st\<lparr>HS_DMA_END := 1\<rparr>;
               (v, st) = s3c_hsmmc_readw host HM_NORINTSTS st
           in s3c_hsmmc_writew (v OR 0x0002) HM_NORINTSTS st
      else let (v, st) = s3c_hsmmc_readw host HM_NORINTSTS st
           in if v AND 0x8000 \<noteq> 0 then snd (s3c_hsmmc_readw host HM_ERRINTSTS st)
              else dma_loop host i st)"

definition check_dma_int :: "hw \<Rightarrow> hsmmc \<Rightarrow> hsmmc" where
  "check_dma_int host st = dma_loop host 0x10000000 st"

subsection \<open>Identification\<close>

text \<open>\<open>off\<close> is the index of the word that holds the lowest bit.\<close>

definition UNSTUFF_BITS_qi :: "u32 list \<Rightarrow> nat \<Rightarrow> nat \<Rightarrow> u32" where
  "UNSTUFF_BITS_qi resp start sz =
     (let msk = (if sz < 32 then push_bit sz 1 else 0) - 1;
          off = 3 - start div 32;
          shft = start mod 32;
          res = drop_bit shft (resp ! off);
          res = (if 32 < sz + shft then res OR push_bit ((32 - shft) mod 32) (resp ! (off - 1)) else res)
      in res AND msk)"

text \<open>The registers of a long response, from the last to the first, and their bytes in the order of the
  table \<open>mangle\<close>.\<close>

definition mangle :: "nat list" where "mangle = [7, 0, 1, 2, 11, 4, 5, 6, 15, 8, 9, 10, 0, 12, 13, 14]"

definition long_response :: "hw \<Rightarrow> hsmmc \<Rightarrow> bytes \<times> hsmmc" where
  "long_response host st =
     (let (a, st) = s3c_hsmmc_readl host HM_RSPREG3 st;
          (b, st) = s3c_hsmmc_readl host HM_RSPREG2 st;
          (c, st) = s3c_hsmmc_readl host HM_RSPREG1 st;
          (d, st) = s3c_hsmmc_readl host HM_RSPREG0 st;
          p8 = put32 a @ put32 b @ put32 c @ put32 d
      in (map (\<lambda>n. p8 ! (mangle ! n)) [0..<16], st))"

text \<open>The loop over the operating conditions; the result is \<open>retries\<close> after it.  That \<open>retries\<close> wraps at
  the smallest \<open>int\<close> is the behaviour of the target; it takes two thousand million turns.\<close>

partial_function (option) op_cond_loop :: "hw \<Rightarrow> u32 \<Rightarrow> int \<Rightarrow> hsmmc \<Rightarrow> (int \<times> hsmmc) option" where
  "op_cond_loop host hcs retries st =
     (if retries = 0 then Some (- 1, st)
      else do {
        let retries = s32 (retries - 1);
        (resp, st) \<leftarrow> issue_command host MMC_APP_CMD 0 0 MMC_RSP_R1 st;
        if resp = 0 then op_cond_loop host hcs retries st
        else do {
          (resp, st) \<leftarrow> issue_command host SD_APP_OP_COND (hcs OR 0x00300000) 0 MMC_RSP_R3 st;
          if resp = 0 then op_cond_loop host hcs retries st
          else do {
            let (v, st) = s3c_hsmmc_readl host HM_RSPREG0 st;
            let (retries, st) = (if drop_bit 24 v AND 0x40 \<noteq> 0
                                 then (- 2, st\<lparr>hs_card_type := CARDTYPE_SDHC\<rparr>) else (retries, st));
            let (v, st) = s3c_hsmmc_readl host HM_RSPREG0 st;
            if drop_bit 24 v AND 0x80 \<noteq> 0
            then Some (- 2, if hs_card_type st = CARDTYPE_NONE then st\<lparr>hs_card_type := CARDTYPE_SD\<rparr> else st)
            else op_cond_loop host hcs retries st
          }
        }
      })"

text \<open>\<open>s3c6410_mmc_init\<close> after that loop.  A parameter is the bit fields \<open>c_size_mult1\<close> and \<open>c_size\<close> of a
  \<open>struct mmc_csd\<close> laid over the 16 bytes, which the compiler places.\<close>

definition select_card :: "hw \<Rightarrow> u32 \<Rightarrow> hsmmc \<Rightarrow> (u32 \<times> hsmmc) option" where
  "select_card host sd_sectors st = do {
     (resp, st) \<leftarrow> issue_command host MMC_SELECT_CARD (push_bit 16 (hs_rca st)) 0 MMC_RSP_R1 st;
     if resp = 0 then Some (1, st)
     else do {
       st \<leftarrow> clock_config host 2 st;
       st \<leftarrow> repeat_until (\<lambda>st. do { (r, st) \<leftarrow> set_bus_width host 4 st; Some (r = 0, st) }) st;
       st \<leftarrow> repeat_until (\<lambda>st. do { (r, st) \<leftarrow> check_card_status host st; Some (r \<noteq> 0, st) }) st;
       st \<leftarrow> repeat_until (\<lambda>st. do { (r, st) \<leftarrow> issue_command host MMC_SET_BLOCKLEN 512 0 MMC_RSP_R1 st;
                                      Some (r \<noteq> 0, st) }) st;
       Some (sd_sectors, s3c_hsmmc_writew 0xffff HM_NORINTSTS st)
     }
   }"

definition card_sectors :: "(bytes \<Rightarrow> u32 \<times> u32) \<Rightarrow> card_type \<Rightarrow> bytes \<Rightarrow> u32" where
  "card_sectors csd_fields ct response =
     (if ct = CARDTYPE_SDHC
      then push_bit 10 (UNSTUFF_BITS_qi (map (\<lambda>i. get32 response (4 * i)) [0..<4]) 48 22 + 1)
      else let (mult, sz) = csd_fields response in drop_bit 9 (push_bit (unat mult) 1 * sz))"

definition identify_card :: "hw \<Rightarrow> (bytes \<Rightarrow> u32 \<times> u32) \<Rightarrow> hsmmc \<Rightarrow> (u32 \<times> hsmmc) option" where
  "identify_card host csd_fields st = do {
     (resp, st) \<leftarrow> issue_command host MMC_ALL_SEND_CID 0 0 MMC_RSP_R2 st;
     if resp = 0 then Some (word_of_int (- 3), st)
     else do {
       let (response, st) = long_response host st;
       if hs_card_type st = CARDTYPE_SD \<or> hs_card_type st = CARDTYPE_SD20 \<or> hs_card_type st = CARDTYPE_SDHC
       then do {
         (resp, st) \<leftarrow> issue_command host SD_SEND_RELATIVE_ADDR MMC_DEFAULT_RCA 0 MMC_RSP_R6 st;
         let (v, st) = s3c_hsmmc_readl host HM_RSPREG0 st;
         let st = st\<lparr>hs_rca := drop_bit 16 v\<rparr>;
         (resp, st) \<leftarrow> issue_command host MMC_SEND_CSD (push_bit 16 (hs_rca st)) 0 MMC_RSP_R2 st;
         let (sd_sectors, st) =
           (if resp \<noteq> 0
            then let (response, st) = long_response host st in (card_sectors csd_fields (hs_card_type st) response, st)
            else (0, st));
         select_card host sd_sectors st
       }
       else Some (1, st)
     }
   }"

text \<open>A parameter is the value of the local \<open>hcs\<close>, which nothing initialises for a card that does not answer
  the second command.\<close>

definition s3c6410_mmc_init :: "hw \<Rightarrow> (bytes \<Rightarrow> u32 \<times> u32) \<Rightarrow> u32 \<Rightarrow> hsmmc \<Rightarrow> (u32 \<times> hsmmc) option" where
  "s3c6410_mmc_init host csd_fields hcs st = do {
     let st = hsmmc_set_gpio host st;
     let st = hsmmc_reset st;
     let st = st\<lparr>HCLK := 33000000\<rparr>;
     st \<leftarrow> hsmmc_clock_onoff host 0 st;
     let (reg, st) = qi_readl host qi_SCLK_GATE st;
     let st = qi_writel (reg OR push_bit 27 1) qi_SCLK_GATE st;
     st \<leftarrow> set_clock host 2 0x80 st;
     let st = s3c_hsmmc_writeb 0xe HM_TIMEOUTCON st;
     let st = set_hostctl_speed host 0 st;
     st \<leftarrow> InterruptEnable host 0xff 0xff st;
     (_, st) \<leftarrow> issue_command host MMC_GO_IDLE_STATE 0x00 0 0 st;
     (resp, st) \<leftarrow> issue_command host SD_SEND_IF_COND 0x000001aa 0 (MMC_CMD_BCR OR MMC_RSP_R7) st;
     let (sd20, st) = (if resp \<noteq> 0 then let (v, st) = s3c_hsmmc_readl host HM_RSPREG0 st in (v AND 0xff = 0xaa, st)
                       else (False, st));
     let (hcs, st) = (if sd20 then (0x40000000, st\<lparr>hs_card_type := CARDTYPE_SD20\<rparr>) else (hcs, st));
     (retries, st) \<leftarrow> op_cond_loop host hcs 50 st;
     if retries = - 1 then Some (word_of_int (- 2), st) else identify_card host csd_fields st
   }"

subsection \<open>Reading\<close>

text \<open>The interrupt signal register is written with a constant, as the code masks the number of the
  register and not its value.  The loop at the end only looks at \<open>HS_DMA_END\<close>, which nothing changes.\<close>

definition s3c6410_mmc_bread :: "hw \<Rightarrow> u32 \<Rightarrow> u32 \<Rightarrow> u32 \<Rightarrow> hsmmc \<Rightarrow> (u32 \<times> hsmmc) option" where
  "s3c6410_mmc_bread host start_blk blknum dst st = do {
     let st = st\<lparr>HS_DMA_END := 0\<rparr>;
     let blksize = 512;
     st \<leftarrow> repeat_until (\<lambda>st. do { (r, st) \<leftarrow> check_card_status host st; Some (r \<noteq> 0, st) }) st;
     let (v, st) = s3c_hsmmc_readw host HM_NORINTSTSEN st;
     let st = s3c_hsmmc_writew (v AND NOT (0x8 OR 0x4)) HM_NORINTSTSEN st;
     let st = s3c_hsmmc_writew ((ucast HM_NORINTSIGEN AND NOT 0xffff) OR 0x2) HM_NORINTSIGEN st;
     let st = SetSystemAddressReg dst st;
     let st = set_blksize_register 7 blksize st;
     let st = set_blkcnt_register (ucast blknum) st;
     let st = (if movi_hc st \<noteq> 0 then set_arg_register start_blk st else set_arg_register (start_blk * 512) st);
     let cmd = (if 1 < blknum then 18 else 17);
     let multi = (if 1 < blknum then 1 else 0);
     let st = set_transfer_mode_register host multi 1 multi 1 1 st;
     let st = set_cmd_register cmd 1 MMC_RSP_R1 st;
     let (err, st) = wait_for_cmd_done host st;
     if err \<noteq> 0 then Some (word_of_int (- 1), st)
     else do {
       st \<leftarrow> ClearCommandCompleteStatus host st;
       let st = check_dma_int host st;
       if HS_DMA_END st = 0 then None else Some (blknum, st\<lparr>HS_DMA_END := 0\<rparr>)
     }
   }"

text \<open>The functions of the boards; a result of the \<open>int\<close> they return below 0 is an error.\<close>

definition sd_card_init_smdk6410 :: "hw \<Rightarrow> (bytes \<Rightarrow> u32 \<times> u32) \<Rightarrow> u32 \<Rightarrow> hsmmc \<Rightarrow> (int \<times> hsmmc) option" where
  "sd_card_init_smdk6410 host csd_fields hcs st = do {
     (r, st) \<leftarrow> s3c6410_mmc_init host csd_fields hcs st;
     Some (sint r, st)
   }"

definition sd_card_block_read_smdk6410 :: "hw \<Rightarrow> u32 \<Rightarrow> u32 \<Rightarrow> int \<Rightarrow> hsmmc \<Rightarrow> (int \<times> hsmmc) option" where
  "sd_card_block_read_smdk6410 host buf start512 blocks512 st = do {
     (r, st) \<leftarrow> s3c6410_mmc_bread host start512 (word_of_int blocks512) buf st;
     Some (sint r, st)
   }"

end
