(* ===== verification/Qi_Sdhost.thy ===== *)
theory Qi_Sdhost
  imports Qi_Hsmmc
begin

unbundle bit_operations_syntax

section \<open>A controller with a card\<close>

text \<open>
  What the driver relies on: an automaton that follows the accesses of the driver, with the commands that
  were sent, the transfers that were asked for, and the flags that are up.  The card is a function from the
  commands so far to its response and whether its data arrive; None is no answer.  A flag comes up only after
  \<open>lat\<close> reads of the status.  The locale \<open>sd_controller\<close> is the contract of a controller that behaves
  like the automaton; \<open>sim_host\<close> is one, for every card.
\<close>

type_synonym sd_card = "(nat \<times> u32) list \<Rightarrow> (u32 list \<times> bool) option"

record sd_request =
  rq_memory :: u32
  rq_block :: u32
  rq_count :: u16
  rq_size :: u16
  rq_mode :: u16
  rq_cmd :: nat

record sd_host =
  sd_arg :: u32
  sd_sysad :: u32
  sd_blksize :: u16
  sd_blkcnt :: u16
  sd_trnmod :: u16
  sd_cmds :: "(nat \<times> u32) list"
  sd_reqs :: "sd_request list"
  sd_left :: nat
  sd_done :: bool
  sd_err :: u16
  sd_data :: nat
  sd_xfer :: bool
  sd_derr :: u16

definition sd_reset :: sd_host where
  "sd_reset = \<lparr>sd_arg = 0, sd_sysad = 0, sd_blksize = 0, sd_blkcnt = 0, sd_trnmod = 0, sd_cmds = [], sd_reqs = [],
     sd_left = 0, sd_done = False, sd_err = 0, sd_data = 0, sd_xfer = False, sd_derr = 0\<rparr>"

definition sd_start :: "nat \<Rightarrow> sd_card \<Rightarrow> u16 \<Rightarrow> sd_host \<Rightarrow> sd_host" where
  "sd_start lat sdc v h =
     (let cmd = unat (drop_bit 8 v); cs = sd_cmds h @ [(cmd, sd_arg h)];
          data = (bit v 5 \<and> sdc cs \<noteq> None); arrives = (case sdc cs of None \<Rightarrow> False | Some (r, ok) \<Rightarrow> ok)
      in h\<lparr>sd_cmds := cs,
           sd_left := lat, sd_done := (sdc cs \<noteq> None), sd_err := (if sdc cs = None then 1 else 0),
           sd_data := (if data then lat else 0), sd_xfer := (data \<and> arrives),
           sd_derr := (if data \<and> \<not> arrives then 0x10 else 0),
           sd_reqs := (if data then sd_reqs h @ [\<lparr>rq_memory = sd_sysad h, rq_block = sd_arg h, rq_count = sd_blkcnt h,
                         rq_size = sd_blksize h, rq_mode = sd_trnmod h, rq_cmd = cmd\<rparr>] else sd_reqs h)\<rparr>)"

fun sd_step :: "nat \<Rightarrow> sd_card \<Rightarrow> reg_access \<Rightarrow> sd_host \<Rightarrow> sd_host" where
  "sd_step lat sdc (Wr32 a v) h =
     (if a = hs_reg HM_ARGUMENT then h\<lparr>sd_arg := v\<rparr>
      else if a = hs_reg HM_SYSAD then h\<lparr>sd_sysad := v\<rparr> else h)"
| "sd_step lat sdc (Wr16 a v) h =
     (if a = hs_reg HM_CMDREG then sd_start lat sdc v h
      else if a = hs_reg HM_BLKSIZE then h\<lparr>sd_blksize := v\<rparr>
      else if a = hs_reg HM_BLKCNT then h\<lparr>sd_blkcnt := v\<rparr>
      else if a = hs_reg HM_TRNMOD then h\<lparr>sd_trnmod := v\<rparr>
      else if a = hs_reg HM_NORINTSTS
      then h\<lparr>sd_done := (sd_done h \<and> \<not> (sd_left h = 0 \<and> bit v 0)),
             sd_xfer := (sd_xfer h \<and> \<not> (sd_left h = 0 \<and> sd_data h = 0 \<and> bit v 1))\<rparr>
      else if a = hs_reg HM_ERRINTSTS
      then h\<lparr>sd_err := (if sd_left h = 0 then sd_err h AND NOT v else sd_err h),
             sd_derr := (if sd_left h = 0 \<and> sd_data h = 0 then sd_derr h AND NOT v else sd_derr h)\<rparr>
      else h)"
| "sd_step lat sdc (Rd16 a) h =
     (if a = hs_reg HM_NORINTSTS
      then if 0 < sd_left h then h\<lparr>sd_left := sd_left h - 1\<rparr> else h\<lparr>sd_data := sd_data h - 1\<rparr>
      else h)"
| "sd_step lat sdc _ h = h"

primrec sd_after :: "nat \<Rightarrow> sd_card \<Rightarrow> reg_access list \<Rightarrow> sd_host" where
  "sd_after lat sdc [] = sd_reset"
| "sd_after lat sdc (a # log) = sd_step lat sdc a (sd_after lat sdc log)"

definition sd_errors :: "sd_host \<Rightarrow> u16" where
  "sd_errors h = (if sd_left h = 0 then sd_err h else 0) OR
     (if sd_left h = 0 \<and> sd_data h = 0 then sd_derr h else 0)"

definition cmd_flag :: "sd_host \<Rightarrow> bool" where "cmd_flag h \<longleftrightarrow> sd_left h = 0 \<and> sd_done h"
definition xfer_flag :: "sd_host \<Rightarrow> bool" where "xfer_flag h \<longleftrightarrow> sd_left h = 0 \<and> sd_data h = 0 \<and> sd_xfer h"

definition response_of :: "sd_card \<Rightarrow> (nat \<times> u32) list \<Rightarrow> u32 list" where
  "response_of sdc cs = (case sdc cs of None \<Rightarrow> replicate 4 0 | Some (r, ok) \<Rightarrow> r)"

lemma hs_reg_eq [simp]: "hs_reg a = hs_reg b \<longleftrightarrow> a = b"
  by (simp add: hs_reg_def)

lemma flag_bits [simp]:
  "(x :: u16) AND 0x8000 = 0 \<longleftrightarrow> \<not> bit x 15" "x AND 1 = 0 \<longleftrightarrow> \<not> bit x 0" "x AND 2 = 0 \<longleftrightarrow> \<not> bit x 1"
  "x AND 8 = 0 \<longleftrightarrow> \<not> bit x 3"
  using and_exp_eq_0_iff_not_bit [of x 15] and_exp_eq_0_iff_not_bit [of x 0]
    and_exp_eq_0_iff_not_bit [of x 1] and_exp_eq_0_iff_not_bit [of x 3] by simp_all

lemma cmd_value_command: "cmd < 256 \<Longrightarrow> drop_bit 8 (cmd_value cmd data flags) = cmd"
proof -
  assume c: "cmd < 256"
  have "drop_bit 8 (push_bit 8 cmd) = cmd"
  proof (rule bit_word_eqI)
    fix n
    have "take_bit 8 cmd = cmd"
      using c by (simp add: take_bit_eq_mod word_less_nat_alt word_unat_eq_iff unat_mod_distrib)
    then have "bit cmd n \<Longrightarrow> n < 8"
      by (metis bit_take_bit_iff)
    then show "bit (drop_bit 8 (push_bit 8 cmd)) n \<longleftrightarrow> bit cmd n"
      by (auto simp: bit_simps)
  qed
  then show ?thesis
    by (simp add: cmd_value_def Let_def)
qed

lemma cmd_value_data: "bit (cmd_value cmd data flags) 5 \<longleftrightarrow> data \<noteq> 0"
  by (simp add: cmd_value_def Let_def bit_simps)

text \<open>Between commands no flag is up; a command leaves it so and is the last one that the card has seen.\<close>

definition idle :: "sd_host \<Rightarrow> bool" where
  "idle h \<longleftrightarrow> sd_left h = 0 \<and> \<not> sd_done h \<and> sd_err h = 0 \<and> sd_data h = 0 \<and> \<not> sd_xfer h \<and> sd_derr h = 0"

text \<open>The commands and the transfers after a sequence of accesses.\<close>

definition talks :: "nat \<Rightarrow> sd_card \<Rightarrow> (nat \<times> u32) list \<Rightarrow> sd_request list \<Rightarrow> reg_access list \<Rightarrow> bool" where
  "talks lat sdc cs rq log \<longleftrightarrow> (let h = sd_after lat sdc log in idle h \<and> sd_cmds h = cs \<and> sd_reqs h = rq)"

lemma talks_reset [simp]: "talks lat sdc [] [] []"
  by (simp add: talks_def sd_reset_def idle_def)

text \<open>All accesses but the writing of the command register are without effect on both.\<close>

lemma talks_quiet:
  assumes "\<And>v. a \<noteq> Wr16 (hs_reg HM_CMDREG) v" and "talks lat sdc cs rq log"
  shows "talks lat sdc cs rq (a # log)"
proof (cases a)
  case (Wr16 x v)
  then have "x \<noteq> hs_reg HM_CMDREG" using assms(1) by auto
  then show ?thesis using assms(2) Wr16 by (simp add: talks_def idle_def Let_def)
qed (use assms(2) in \<open>simp_all add: talks_def idle_def Let_def\<close>)

lemma talks_access [simp]:
  assumes "talks lat sdc cs rq log"
  shows "talks lat sdc cs rq (Rd8 a # log)" "talks lat sdc cs rq (Rd16 a # log)" "talks lat sdc cs rq (Rd32 a # log)"
    "talks lat sdc cs rq (Wr8 a x # log)" "talks lat sdc cs rq (Wr32 a y # log)"
    "a \<noteq> hs_reg HM_CMDREG \<Longrightarrow> talks lat sdc cs rq (Wr16 a z # log)"
  using assms by (auto intro: talks_quiet)

text \<open>Total correctness: a computation ends, and its result has a property.\<close>

definition ends :: "'a option \<Rightarrow> ('a \<Rightarrow> bool) \<Rightarrow> bool" where
  "ends m Q \<longleftrightarrow> (case m of None \<Rightarrow> False | Some x \<Rightarrow> Q x)"

lemma ends_simps [simp]: "ends (Some x) Q \<longleftrightarrow> Q x" "\<not> ends None Q"
  "ends (Option.bind m f) Q \<longleftrightarrow> ends m (\<lambda>x. ends (f x) Q)"
  by (auto simp: ends_def split: option.splits bind_splits)

lemma ends_iff: "ends m Q \<longleftrightarrow> (\<exists>x. m = Some x \<and> Q x)"
  by (auto simp: ends_def split: option.splits)

lemma ends_mono: "ends m P \<Longrightarrow> (\<And>x. P x \<Longrightarrow> Q x) \<Longrightarrow> ends m Q"
  by (auto simp: ends_iff)

lemma ends_repeat_until:
  "ends (f st) (\<lambda>(stop, st'). stop \<and> Q st') \<Longrightarrow> ends (repeat_until f st) Q"
  by (subst repeat_until.simps) (auto simp: ends_iff)

locale sd_controller =
  fixes host :: hw and lat :: nat and sdc :: sd_card
  assumes nor_flags: "bit (host log (Rd16 (hs_reg HM_NORINTSTS))) 15 \<longleftrightarrow> sd_errors (sd_after lat sdc log) \<noteq> 0"
      "bit (host log (Rd16 (hs_reg HM_NORINTSTS))) 0 \<longleftrightarrow> cmd_flag (sd_after lat sdc log)"
      "bit (host log (Rd16 (hs_reg HM_NORINTSTS))) 1 \<longleftrightarrow> xfer_flag (sd_after lat sdc log)"
    and err_flags: "ucast (host log (Rd16 (hs_reg HM_ERRINTSTS))) = sd_errors (sd_after lat sdc log)"
    and not_inhibited: "sd_left (sd_after lat sdc log) = 0 \<Longrightarrow> sd_data (sd_after lat sdc log) = 0 \<Longrightarrow>
        host log (Rd32 (hs_reg HM_PRNSTS)) AND 1 = 0 \<and> host log (Rd32 (hs_reg HM_PRNSTS)) AND 2 = 0"
    and clock_stable: "bit (host log (Rd16 (hs_reg HM_CLKCON))) 3"
    and responds: "host log (Rd32 (hs_reg HM_RSPREG0)) = response_of sdc (sd_cmds (sd_after lat sdc log)) ! 0"
      "host log (Rd32 (hs_reg HM_RSPREG1)) = response_of sdc (sd_cmds (sd_after lat sdc log)) ! 1"
      "host log (Rd32 (hs_reg HM_RSPREG2)) = response_of sdc (sd_cmds (sd_after lat sdc log)) ! 2"
      "host log (Rd32 (hs_reg HM_RSPREG3)) = response_of sdc (sd_cmds (sd_after lat sdc log)) ! 3"
begin

abbreviation seen :: "hsmmc \<Rightarrow> sd_host" where "seen st \<equiv> sd_after lat sdc (hs_log st)"

lemma seen_log [simp]: "sd_after lat sdc (hs_log st) = h \<Longrightarrow> sd_after lat sdc (a # hs_log st) = sd_step lat sdc a h"
  by simp

text \<open>The status loop ends when the flag comes up.\<close>

lemma cmd_wait_loop_ends:
  assumes "seen st = h" and "sd_left h < n" and "sd_done h = (sd_err h = 0)" and "sd_derr h = 0 \<or> 0 < sd_data h"
  shows "\<exists>n_int log. cmd_wait_loop host n x st = ((n_int, sd_done h), st\<lparr>hs_log := log\<rparr>) \<and>
    sd_after lat sdc log = h\<lparr>sd_left := 0, sd_data := sd_data h - 1\<rparr> \<and> (sd_done h \<or> bit n_int 15)"
  using assms
proof (induction n arbitrary: x st h)
  case (Suc n)
  let ?v = "ucast (host (hs_log st) (Rd16 (hs_reg HM_NORINTSTS))) :: u16"
  let ?st = "st\<lparr>hs_log := Rd16 (hs_reg HM_NORINTSTS) # hs_log st\<rparr>"
  have bits: "bit ?v 15 \<longleftrightarrow> sd_errors h \<noteq> 0" "bit ?v 0 \<longleftrightarrow> cmd_flag h"
    using nor_flags [of "hs_log st"] Suc.prems(1) by (simp_all add: bit_simps)
  show ?case
  proof (cases "sd_left h")
    case 0
    then have "seen ?st = h\<lparr>sd_left := 0, sd_data := sd_data h - 1\<rparr>"
      using Suc.prems(1) by simp
    moreover have "sd_errors h = sd_err h"
      using 0 Suc.prems(4) by (auto simp: sd_errors_def)
    ultimately show ?thesis
      using bits 0 Suc.prems(3)
      by (cases "sd_done h") (auto simp: s3c_hsmmc_readw_def cmd_flag_def Let_def intro!: exI)
  next
    case (Suc k)
    then have "seen ?st = h\<lparr>sd_left := k\<rparr>"
      using Suc.prems(1) by simp
    from Suc.IH [OF this, of ?v] Suc Suc.prems bits show ?thesis
      by (simp add: s3c_hsmmc_readw_def cmd_flag_def sd_errors_def Let_def)
  qed
qed simp

lemma clear_complete:
  assumes "sd_left (seen st) = 0"
  shows "\<exists>log. ClearCommandCompleteStatus host st = Some (st\<lparr>hs_log := log\<rparr>) \<and>
    sd_after lat sdc log = (seen st)\<lparr>sd_done := False, sd_data := sd_data (seen st) - 1\<rparr>"
proof -
  let ?st = "s3c_hsmmc_writew 1 HM_NORINTSTS st"
  have h: "seen ?st = (seen st)\<lparr>sd_done := False\<rparr>"
    using assms by (simp add: s3c_hsmmc_writew_def hs_regs)
  then have "\<not> bit (host (hs_log ?st) (Rd16 (hs_reg HM_NORINTSTS))) 0"
    by (simp add: nor_flags(2) [of "hs_log ?st"] cmd_flag_def)
  then have "\<not> bit (host (Wr16 (hs_reg HM_NORINTSTS) 1 # hs_log st) (Rd16 (hs_reg HM_NORINTSTS))) 0"
    by (simp add: s3c_hsmmc_writew_def)
  moreover have "sd_after lat sdc (Rd16 (hs_reg HM_NORINTSTS) # hs_log ?st) =
      (seen st)\<lparr>sd_done := False, sd_data := sd_data (seen st) - 1\<rparr>"
    using h assms by simp
  ultimately show ?thesis
    by (subst ClearCommandCompleteStatus_def, subst repeat_until.simps)
      (auto simp del: sd_after.simps simp: s3c_hsmmc_readw_def Let_def bit_simps s3c_hsmmc_writew_def intro!: exI)
qed

lemma no_wait:
  assumes "idle (seen st)" and "msk = 1 \<or> msk = 2"
  shows "wait_inhibit host msk st = st\<lparr>hs_log := Rd32 (hs_reg HM_PRNSTS) # hs_log st\<rparr>"
proof -
  have p: "poll (Suc n) f st = (True, st')" if "f st = (True, st')" for n f st'
    using that by simp
  show ?thesis
    using assms not_inhibited [of "hs_log st"] p [of _ _ "0x1000000 - 1"]
    by (auto simp: wait_inhibit_def idle_def s3c_hsmmc_readl_def Let_def simp del: poll.simps)
qed

lemma wait_done:
  assumes "sd_left (seen st) < 0x20000000" and "sd_done (seen st) = (sd_err (seen st) = 0)"
    and "sd_derr (seen st) = 0 \<or> 0 < sd_data (seen st)" and "sd_err (seen st) \<in> {0, 1}" and "\<not> sd_xfer (seen st) \<or> sd_done (seen st)"
    and "sd_derr (seen st) = 0 \<or> sd_done (seen st)"
  shows "\<exists>log. wait_for_cmd_done host st = (if sd_done (seen st) then 0 else - 1, st\<lparr>hs_log := log\<rparr>) \<and>
    sd_after lat sdc log = (seen st)\<lparr>sd_left := 0, sd_data := sd_data (seen st) - 1, sd_err := 0\<rparr>"
proof -
  from cmd_wait_loop_ends [OF refl assms(1-3), of 0] obtain n_int log
    where w: "cmd_wait_loop host 0x20000000 0 st = ((n_int, sd_done (seen st)), st\<lparr>hs_log := log\<rparr>)"
      and l: "sd_after lat sdc log = (seen st)\<lparr>sd_left := 0, sd_data := sd_data (seen st) - 1\<rparr>" by blast
  show ?thesis
  proof (cases "sd_done (seen st)")
    case True
    then show ?thesis using w l assms(2) by (auto simp: wait_for_cmd_done_def)
  next
    case False
    then have "sd_err (seen st) = 1" "sd_derr (seen st) = 0" "\<not> sd_xfer (seen st)" using assms by auto
    moreover from this have e: "ucast (host log (Rd16 (hs_reg HM_ERRINTSTS))) = (1 :: u16)"
      using err_flags [of log] l by (simp add: sd_errors_def)
    ultimately show ?thesis
      using w l False
      by (auto simp: wait_for_cmd_done_def s3c_hsmmc_readw_def s3c_hsmmc_writew_def e hs_regs [THEN arg_cong [of _ _ hs_reg]]
          intro!: exI sd_host.equality)
  qed
qed

lemma issue:
  assumes "idle (seen st)" and "cmd < 256" and "lat < 0x20000000"
    and cs: "cs = sd_cmds (seen st) @ [(unat cmd, arg)]"
  shows "\<exists>log. issue_command host cmd arg 0 flags st = Some (if sdc cs = None then 0 else 1, st\<lparr>hs_log := log\<rparr>) \<and>
    sd_after lat sdc log = (seen st)\<lparr>sd_arg := arg, sd_cmds := cs\<rparr>"
proof -
  let ?st1 = "if flags AND MMC_RSP_BUSY \<noteq> 0 then wait_inhibit host 2 (wait_inhibit host 1 st) else wait_inhibit host 1 st"
  let ?st2 = "set_cmd_register cmd 0 flags (s3c_hsmmc_writel arg HM_ARGUMENT ?st1)"
  let ?h2 = "(seen st)\<lparr>sd_arg := arg, sd_cmds := cs, sd_left := lat, sd_done := (sdc cs \<noteq> None),
    sd_err := (if sdc cs = None then 1 else 0)\<rparr>"
  have s1: "seen ?st1 = seen st" "\<exists>log. ?st1 = st\<lparr>hs_log := log\<rparr>"
    using no_wait [OF assms(1)] no_wait [of "wait_inhibit host 1 st" 2] assms(1) by auto
  have s2: "seen ?st2 = ?h2"
    using s1 assms(1)
    by (simp add: set_cmd_register_def s3c_hsmmc_writel_def s3c_hsmmc_writew_def hs_regs sd_start_def cs Let_def
        cmd_value_command [OF assms(2)] cmd_value_data idle_def)
  obtain log where w: "wait_for_cmd_done host ?st2 = (if sdc cs = None then - 1 else 0, ?st2\<lparr>hs_log := log\<rparr>)"
    and l: "sd_after lat sdc log = ?h2\<lparr>sd_left := 0, sd_err := 0\<rparr>"
    using wait_done [of ?st2] assms(1,3) unfolding s2
    by (cases "sdc cs = None") (auto simp: idle_def)
  have unfold: "issue_command host cmd arg 0 flags st =
      (let (err, st) = wait_for_cmd_done host ?st2
       in if err \<noteq> 0 then Some (0, st)
          else Option.bind (ClearCommandCompleteStatus host st) (\<lambda>st.
            let (v, st) = s3c_hsmmc_readw host HM_NORINTSTS st
            in if v AND 0x8000 = 0 then Some (1, st)
               else let (_, st) = s3c_hsmmc_readw host HM_CMDREG st; (_, st) = s3c_hsmmc_readw host HM_ERRINTSTS st
                    in Some (0, st)))"
    by (simp add: issue_command_def)
  have log2: "?st2\<lparr>hs_log := l\<rparr> = st\<lparr>hs_log := l\<rparr>" for l
    using s1(2) by (auto simp: set_cmd_register_def s3c_hsmmc_writel_def s3c_hsmmc_writew_def)
  show ?thesis
  proof (cases "sdc cs = None")
    case True
    then show ?thesis
      using w l assms(1) by (auto simp: unfold log2 idle_def intro!: exI sd_host.equality)
  next
    case False
    let ?st3 = "st\<lparr>hs_log := log\<rparr>"
    from clear_complete [of ?st3] l obtain log' where c: "ClearCommandCompleteStatus host ?st3 = Some (st\<lparr>hs_log := log'\<rparr>)"
      and l': "sd_after lat sdc log' = (seen st)\<lparr>sd_arg := arg, sd_cmds := cs\<rparr>"
      using assms(1) by (auto simp: idle_def)
    have "sd_errors (sd_after lat sdc log') = 0"
      using l' assms(1) by (simp add: sd_errors_def idle_def)
    then have "\<not> bit (host log' (Rd16 (hs_reg HM_NORINTSTS))) 15"
      using nor_flags(1) by simp
    then show ?thesis
      using w c False l' assms(1)
      by (auto simp: unfold log2 idle_def s3c_hsmmc_readw_def bit_simps intro!: exI sd_host.equality)
  qed
qed

lemma ends_issue:
  assumes "talks lat sdc cs rq (hs_log st)" and "cmd < 256" and "lat < 0x20000000"
    and Q: "\<And>log. talks lat sdc (cs @ [(unat cmd, arg)]) rq log \<Longrightarrow>
      Q (if sdc (cs @ [(unat cmd, arg)]) = None then 0 else 1, st\<lparr>hs_log := log\<rparr>)"
  shows "ends (issue_command host cmd arg 0 flags st) Q"
  using issue [of st cmd "cs @ [(unat cmd, arg)]" arg flags] assms
  by (auto simp: talks_def Let_def ends_iff idle_def)

lemma response_word:
  assumes "talks lat sdc cs rq (hs_log st)"
  shows "s3c_hsmmc_readl host HM_RSPREG0 st = (response_of sdc cs ! 0, st\<lparr>hs_log := Rd32 (hs_reg HM_RSPREG0) # hs_log st\<rparr>)"
    "s3c_hsmmc_readl host HM_RSPREG1 st = (response_of sdc cs ! 1, st\<lparr>hs_log := Rd32 (hs_reg HM_RSPREG1) # hs_log st\<rparr>)"
    "s3c_hsmmc_readl host HM_RSPREG2 st = (response_of sdc cs ! 2, st\<lparr>hs_log := Rd32 (hs_reg HM_RSPREG2) # hs_log st\<rparr>)"
    "s3c_hsmmc_readl host HM_RSPREG3 st = (response_of sdc cs ! 3, st\<lparr>hs_log := Rd32 (hs_reg HM_RSPREG3) # hs_log st\<rparr>)"
  using assms responds [of "hs_log st"] by (simp_all add: s3c_hsmmc_readl_def talks_def Let_def)

lemma ends_clock_onoff:
  assumes "talks lat sdc cs rq (hs_log st)" and "\<And>log. talks lat sdc cs rq log \<Longrightarrow> Q (st\<lparr>hs_log := log\<rparr>)"
  shows "ends (hsmmc_clock_onoff host on st) Q"
  using assms clock_stable
  by (auto simp: hsmmc_clock_onoff_def s3c_hsmmc_readw_def s3c_hsmmc_writew_def Let_def hs_regs bit_simps
      intro!: ends_repeat_until)

lemma talks_poll:
  assumes "talks lat sdc cs rq (hs_log st)"
  shows "\<exists>log. snd (poll n (\<lambda>st. let (v, st) = s3c_hsmmc_readw host x st in (P v, st)) st) = st\<lparr>hs_log := log\<rparr> \<and>
    talks lat sdc cs rq log"
  using assms
proof (induction n arbitrary: st)
  case 0
  then show ?case by (auto intro: exI [of _ "hs_log st"])
next
  case (Suc n)
  let ?st = "st\<lparr>hs_log := Rd16 (hs_reg x) # hs_log st\<rparr>"
  from Suc.IH [of ?st] Suc.prems show ?case
    by (auto simp: s3c_hsmmc_readw_def Let_def)
qed

lemma ends_set_clock:
  assumes "talks lat sdc cs rq (hs_log st)" and "\<And>log. talks lat sdc cs rq log \<Longrightarrow> Q (st\<lparr>hs_log := log\<rparr>)"
  shows "ends (set_clock host clksrc dv st) Q"
proof -
  let ?f = "\<lambda>st. let (reg16, st) = s3c_hsmmc_readw host HM_CLKCON st in (reg16 AND 0x2 \<noteq> 0, st)"
  obtain st0 where s: "set_clock host clksrc dv st = hsmmc_clock_onoff host 1 (snd (poll 0x10000 ?f st0))"
    and st0: "\<exists>log. st0 = st\<lparr>hs_log := log\<rparr> \<and> talks lat sdc cs rq log"
    using assms(1)
    by (fastforce simp: set_clock_def s3c_hsmmc_readw_def s3c_hsmmc_writew_def s3c_hsmmc_writel_def hs_regs split_def Let_def)
  with talks_poll [of cs rq st0 "0x10000" HM_CLKCON "\<lambda>v. v AND 0x2 \<noteq> 0"] assms(2) show ?thesis
    by (auto intro!: ends_clock_onoff [where cs = cs and rq = rq])
qed

lemma ends_InterruptEnable:
  assumes "talks lat sdc cs rq (hs_log st)" and "\<And>log. talks lat sdc cs rq log \<Longrightarrow> Q (st\<lparr>hs_log := log\<rparr>)"
  shows "ends (InterruptEnable host x y st) Q"
proof -
  have "sd_errors (seen st) = 0"
    using assms(1) by (simp add: talks_def Let_def idle_def sd_errors_def)
  then have "\<not> bit (host (hs_log st) (Rd16 (hs_reg HM_NORINTSTS))) 15"
    using nor_flags(1) by simp
  then show ?thesis
    using assms
    by (auto simp: InterruptEnable_def ClearErrInterruptStatus_def s3c_hsmmc_readw_def s3c_hsmmc_writew_def Let_def
        bit_simps hs_regs [THEN arg_cong [of _ _ hs_reg]] intro!: ends_repeat_until)
qed

end

subsection \<open>A controller for every card\<close>

definition sim_host :: "nat \<Rightarrow> sd_card \<Rightarrow> hw" where
  "sim_host lat sdc log a =
     (let h = sd_after lat sdc log
      in case a of
           Rd16 x \<Rightarrow>
             if x = hs_reg HM_NORINTSTS
             then push_bit 15 (of_bool (sd_errors h \<noteq> 0)) OR push_bit 1 (of_bool (xfer_flag h)) OR of_bool (cmd_flag h)
             else if x = hs_reg HM_ERRINTSTS then ucast (sd_errors h)
             else if x = hs_reg HM_CLKCON then 0xa else 0
         | Rd32 x \<Rightarrow>
             if x = hs_reg HM_RSPREG0 then response_of sdc (sd_cmds h) ! 0
             else if x = hs_reg HM_RSPREG1 then response_of sdc (sd_cmds h) ! 1
             else if x = hs_reg HM_RSPREG2 then response_of sdc (sd_cmds h) ! 2
             else if x = hs_reg HM_RSPREG3 then response_of sdc (sd_cmds h) ! 3 else 0
         | _ \<Rightarrow> 0)"

interpretation sim: sd_controller "sim_host lat sdc" lat sdc for lat sdc
proof
  fix log
  have u: "ucast (ucast w :: u32) = w" for w :: u16
    by (rule bit_word_eqI) (auto simp: bit_simps dest: bit_imp_le_length)
  show "bit (sim_host lat sdc log (Rd16 (hs_reg HM_NORINTSTS))) 15 \<longleftrightarrow> sd_errors (sd_after lat sdc log) \<noteq> 0"
    "bit (sim_host lat sdc log (Rd16 (hs_reg HM_NORINTSTS))) 0 \<longleftrightarrow> cmd_flag (sd_after lat sdc log)"
    "bit (sim_host lat sdc log (Rd16 (hs_reg HM_NORINTSTS))) 1 \<longleftrightarrow> xfer_flag (sd_after lat sdc log)"
    by (simp_all add: sim_host_def Let_def bit_or_iff bit_push_bit_iff bit_of_bool_iff)
  show "ucast (sim_host lat sdc log (Rd16 (hs_reg HM_ERRINTSTS))) = sd_errors (sd_after lat sdc log)"
    by (simp add: sim_host_def Let_def u HM_ERRINTSTS_def HM_NORINTSTS_def)
  show "bit (sim_host lat sdc log (Rd16 (hs_reg HM_CLKCON))) 3"
    by (simp add: sim_host_def Let_def HM_ERRINTSTS_def HM_NORINTSTS_def HM_CLKCON_def)
qed (simp_all add: sim_host_def Let_def hs_regs)

end
