(* ===== verification/Uboot_Mmc.thy ===== *)
theory Uboot_Mmc
  imports Prelude
begin

section \<open>u-boot: the card driver\<close>

text \<open>
  \<^verbatim>\<open>u-boot/cpu/s3c64xx/vfat_hs_mmc.c\<close> above the level of the host controller: the decoding of the
  card's CSD register, the size it gives, the selection and the release of a card, and the command with
  which blocks are read.  Parameters are the card's response to the identification (None: no card answers
  the operating condition commands; the loops that wait for the bus width and the block length end) and
  the data that a read command transfers.
\<close>

subsection \<open>The CSD register\<close>

text \<open>The \<open>size\<close> bits from bit \<open>start\<close> on of four words, the least significant word first.\<close>

definition UNSTUFF_BITS :: "u32 list \<Rightarrow> nat \<Rightarrow> nat \<Rightarrow> u32" where
  "UNSTUFF_BITS resp start sz =
     (let msk = (if sz < 32 then push_bit sz 1 else 0) - 1;
          off = start div 32; shft = start mod 32;
          res = drop_bit shft (resp ! off);
          res = (if 32 < sz + shft then res OR push_bit (32 - shft) (resp ! (off + 1)) else res)
      in res AND msk)"

text \<open>The controller drops the lowest eight bits of the register; the words are moved back.\<close>

definition MOVLEFT_CID_CSD :: "u32 list \<Rightarrow> u32 list" where
  "MOVLEFT_CID_CSD v =
     [push_bit 8 (v ! 0) AND 0xFFFFFF00,
      (push_bit 8 (v ! 1) AND 0xFFFFFF00) OR (drop_bit 24 (v ! 0) AND 0xFF),
      (push_bit 8 (v ! 2) AND 0xFFFFFF00) OR (drop_bit 24 (v ! 1) AND 0xFF),
      (push_bit 8 (v ! 3) AND 0xFFFFFF00) OR (drop_bit 24 (v ! 2) AND 0xFF)]"

definition tran_exp :: "u32 list" where
  "tran_exp = [10000, 100000, 1000000, 10000000, 0, 0, 0, 0]"

definition tran_mant :: "u32 list" where
  "tran_mant = [0, 10, 12, 13, 15, 20, 25, 30, 35, 40, 45, 50, 55, 60, 70, 80]"

definition tacc_exp :: "u32 list" where
  "tacc_exp = [1, 10, 100, 1000, 10000, 100000, 1000000, 10000000]"

definition tacc_mant :: "u32 list" where
  "tacc_mant = [0, 10, 12, 13, 15, 20, 25, 30, 35, 40, 45, 50, 55, 60, 70, 80]"

record mmc_csd =
  csd_cmdclass :: u16
  csd_tacc_clks :: u16
  csd_tacc_ns :: u32
  csd_r2w_factor :: u32
  csd_max_dtr :: u32
  csd_read_blkbits :: u32
  csd_write_blkbits :: u32
  csd_capacity :: u32
  csd_read_partial :: bool
  csd_read_misalign :: bool
  csd_write_partial :: bool
  csd_write_misalign :: bool

text \<open>The second result is the static \<open>block_addr\<close>.\<close>

definition mmc_decode_csd :: "u32 list \<Rightarrow> mmc_csd \<Rightarrow> bool \<Rightarrow> int \<times> mmc_csd \<times> bool" where
  "mmc_decode_csd resp csd block_addr =
     (let csd_struct = UNSTUFF_BITS resp 126 2
      in if csd_struct = 0 then
        let m = UNSTUFF_BITS resp 115 4; e = UNSTUFF_BITS resp 112 3;
            csd = csd\<lparr>csd_tacc_ns := (tacc_exp ! unat e * tacc_mant ! unat m + 9) div 10,
                      csd_tacc_clks := ucast (UNSTUFF_BITS resp 104 8 * 100)\<rparr>;
            m = UNSTUFF_BITS resp 99 4; e = UNSTUFF_BITS resp 96 3;
            csd = csd\<lparr>csd_max_dtr := tran_exp ! unat e * tran_mant ! unat m,
                      csd_cmdclass := ucast (UNSTUFF_BITS resp 84 12)\<rparr>;
            e = UNSTUFF_BITS resp 47 3; m = UNSTUFF_BITS resp 62 12
        in (0, csd\<lparr>csd_capacity := push_bit (unat (e + 2)) (1 + m),
                   csd_read_blkbits := UNSTUFF_BITS resp 80 4,
                   csd_read_partial := (UNSTUFF_BITS resp 79 1 \<noteq> 0),
                   csd_write_misalign := (UNSTUFF_BITS resp 78 1 \<noteq> 0),
                   csd_read_misalign := (UNSTUFF_BITS resp 77 1 \<noteq> 0),
                   csd_r2w_factor := UNSTUFF_BITS resp 26 3,
                   csd_write_blkbits := UNSTUFF_BITS resp 22 4,
                   csd_write_partial := (UNSTUFF_BITS resp 21 1 \<noteq> 0)\<rparr>, block_addr)
      else if csd_struct = 1 then
        let m = UNSTUFF_BITS resp 99 4; e = UNSTUFF_BITS resp 96 3;
            csd = csd\<lparr>csd_tacc_ns := 0, csd_tacc_clks := 0, csd_max_dtr := tran_exp ! unat e * tran_mant ! unat m,
                      csd_cmdclass := ucast (UNSTUFF_BITS resp 84 12)\<rparr>;
            m = UNSTUFF_BITS resp 48 22
        in (1, csd\<lparr>csd_capacity := push_bit 10 (1 + m),
                   csd_read_blkbits := 9, csd_read_partial := False, csd_write_misalign := False,
                   csd_read_misalign := False, csd_r2w_factor := 4, csd_write_blkbits := 9,
                   csd_write_partial := False\<rparr>, True)
      else (- 2, csd, block_addr))"

subsection \<open>Cards\<close>

text \<open>
  The statics of the driver: the selected channel, the block device (None when the structure is zeroed, as
  after \<open>memset\<close>; otherwise its size in blocks, the other fields being constants) and the way a card is
  addressed.  \<open>junk\<close> is the local \<open>mmc_csd\<close> of \<open>display_card_info\<close>, of which \<open>memset\<close> clears the first 24
  bytes: all fields up to \<open>read_blkbits\<close>.
\<close>

record mmc =
  m_sel :: int
  m_dev :: "u32 option"
  m_block_addr :: bool

type_synonym probe = "int \<Rightarrow> u32 list option"
type_synonym transfer = "int \<Rightarrow> nat \<Rightarrow> u32 \<Rightarrow> u16 \<Rightarrow> bytes"

definition clear_csd :: "mmc_csd \<Rightarrow> mmc_csd" where
  "clear_csd junk = junk\<lparr>csd_cmdclass := 0, csd_tacc_clks := 0, csd_tacc_ns := 0, csd_r2w_factor := 0,
     csd_max_dtr := 0, csd_read_blkbits := 0\<rparr>"

definition display_card_info :: "mmc_csd \<Rightarrow> u32 list \<Rightarrow> mmc \<Rightarrow> mmc" where
  "display_card_info junk resp st =
     (let resp = MOVLEFT_CID_CSD resp;
          (_, csd, ba) = mmc_decode_csd resp (clear_csd junk) (m_block_addr st)
      in st\<lparr>m_block_addr := ba, m_dev := Some (csd_capacity csd * (csd_read_blkbits csd - 8))\<rparr>)"

definition hsmmc_init :: "probe \<Rightarrow> mmc_csd \<Rightarrow> mmc \<Rightarrow> int \<times> mmc" where
  "hsmmc_init probe junk st =
     (let st = st\<lparr>m_dev := None\<rparr>
      in case probe (m_sel st) of
           None \<Rightarrow> (- 11, st)
         | Some resp \<Rightarrow>
             let st = st\<lparr>m_dev := Some (NOT 0)\<rparr>
             in (0, display_card_info junk resp st))"

definition mmc_release_dev :: "mmc \<Rightarrow> mmc" where
  "mmc_release_dev st = st\<lparr>m_dev := None\<rparr>"

text \<open>False is the null pointer; otherwise the result is the address of the block device.\<close>

definition mmc_get_dev :: "probe \<Rightarrow> mmc_csd \<Rightarrow> int \<Rightarrow> mmc \<Rightarrow> bool \<times> mmc" where
  "mmc_get_dev probe junk dev st =
     (if dev \<noteq> m_sel st
      then let st = (if m_dev st \<noteq> None then mmc_release_dev st else st);
               st = st\<lparr>m_sel := dev\<rparr>;
               (err, st) = hsmmc_init probe junk st
           in (err = 0, st)
      else (True, st))"

text \<open>The function of the device; errors of the controller are only printed.\<close>

definition mmc_read_block :: "transfer \<Rightarrow> u32 \<Rightarrow> u32 \<Rightarrow> mmc \<Rightarrow> bytes" where
  "mmc_read_block xfer start_blk blknum st =
     xfer (m_sel st) (if 1 < blknum then 18 else 17)
       (if m_block_addr st then start_blk else start_blk * 512) (ucast blknum)"

subsection \<open>What the register says\<close>

text \<open>The CSD is a number of 128 bits; its fields are given by their lowest bit and their width.  The
  controller shows its bits from 8 on in four words.\<close>

definition csd_field :: "128 word \<Rightarrow> nat \<Rightarrow> nat \<Rightarrow> nat" where
  "csd_field w start sz = unat (take_bit sz (drop_bit start w))"

definition shown_csd :: "128 word \<Rightarrow> u32 list" where
  "shown_csd w = [ucast (drop_bit 8 w), ucast (drop_bit 40 w), ucast (drop_bit 72 w), ucast (drop_bit 104 w)]"

lemma bit_FF: "bit (0xFF :: u32) i \<longleftrightarrow> i < 8" "bit (0xFFFFFF00 :: u32) i \<longleftrightarrow> 8 \<le> i \<and> i < 32"
proof -
  have "(0xFF :: u32) = mask 8" "(0xFFFFFF00 :: u32) = NOT (mask 8)" by (simp_all add: mask_eq_exp_minus_1)
  then show "bit (0xFF :: u32) i \<longleftrightarrow> i < 8" "bit (0xFFFFFF00 :: u32) i \<longleftrightarrow> 8 \<le> i \<and> i < 32"
    by (simp_all only: bit_mask_iff bit_not_iff) auto
qed

lemma moved_csd:
  assumes "k < 4" "i < 32" "8 \<le> 32 * k + i"
  shows "bit (MOVLEFT_CID_CSD (shown_csd w) ! k) i = bit w (32 * k + i)"
proof -
  have "k \<in> {0, 1, 2, 3}" using assms(1) by auto
  then show ?thesis
    using assms(2,3) by (elim insertE emptyE)
      (auto simp: MOVLEFT_CID_CSD_def shown_csd_def bit_or_iff bit_and_iff bit_push_bit_iff bit_drop_bit_eq bit_ucast_iff bit_FF
        simp del: bit_numeral_word_iff dest: bit_imp_le_length)
qed

lemma UNSTUFF_bit:
  assumes "8 \<le> start" "start + sz \<le> 128" "0 < sz" "sz < 32" "i < 32"
  shows "bit (UNSTUFF_BITS (MOVLEFT_CID_CSD (shown_csd w)) start sz) i \<longleftrightarrow> i < sz \<and> bit w (start + i)"
proof -
  let ?v = "MOVLEFT_CID_CSD (shown_csd w)"
  have m: "bit ((if sz < 32 then push_bit sz 1 else 0) - 1 :: u32) i \<longleftrightarrow> i < sz"
    using assms(4,5) by (simp add: bit_mask_iff flip: mask_eq_exp_minus_1)
  have d: "start div 32 < 4" "32 * (start div 32) + start mod 32 = start"
    using assms(2,3) by (simp_all add: less_mult_imp_div_less)
  show ?thesis
  proof (cases "i + start mod 32 < 32")
    case True
    have "bit (?v ! (start div 32)) (start mod 32 + i) = bit w (32 * (start div 32) + (start mod 32 + i))"
      using True d assms(1) by (intro moved_csd) linarith+
    also have "32 * (start div 32) + (start mod 32 + i) = start + i" using d(2) by linarith
    finally show ?thesis
      using True m by (auto simp: UNSTUFF_BITS_def Let_def bit_and_iff bit_or_iff bit_drop_bit_eq bit_push_bit_iff)
  next
    case False
    show ?thesis
    proof (cases "i < sz")
      case True
      then have d': "start div 32 + 1 < 4" using False assms(2) d(2) by linarith
      have "bit (?v ! (start div 32 + 1)) (i - (32 - start mod 32)) = bit w (32 * (start div 32 + 1) + (i - (32 - start mod 32)))"
        using False d' assms(5) by (intro moved_csd) simp_all
      also have "32 * (start div 32 + 1) + (i - (32 - start mod 32)) = start + i"
      proof -
        have "i - (32 - start mod 32) + 32 = i + start mod 32" using False by simp
        moreover have "32 * (start div 32 + 1) = 32 * (start div 32) + 32" by simp
        ultimately show ?thesis using d(2) by linarith
      qed
      finally have "bit (?v ! (start div 32 + 1)) (i - (32 - start mod 32)) = bit w (start + i)" .
      moreover have "32 - start mod 32 \<le> i" using False by linarith
      ultimately have "bit (push_bit (32 - start mod 32) (?v ! (start div 32 + 1))) i = bit w (start + i)"
        using assms(5) by (simp only: bit_push_bit_iff) simp
      moreover have "\<not> bit (drop_bit (start mod 32) (?v ! (start div 32))) i"
        using False by (auto simp: bit_drop_bit_eq dest: bit_imp_le_length)
      ultimately show ?thesis
        using True False m by (auto simp: UNSTUFF_BITS_def Let_def bit_and_iff bit_or_iff)
    next
      case not: False
      then show ?thesis using m by (simp add: UNSTUFF_BITS_def Let_def bit_and_iff)
    qed
  qed
qed

lemma UNSTUFF_field:
  assumes "8 \<le> start" "start + sz \<le> 128" "0 < sz" "sz < 32"
  shows "unat (UNSTUFF_BITS (MOVLEFT_CID_CSD (shown_csd w)) start sz) = csd_field w start sz"
proof -
  have "(ucast (UNSTUFF_BITS (MOVLEFT_CID_CSD (shown_csd w)) start sz) :: 128 word) = take_bit sz (drop_bit start w)"
  proof (rule bit_word_eqI)
    fix i assume "i < LENGTH(128)"
    show "bit (ucast (UNSTUFF_BITS (MOVLEFT_CID_CSD (shown_csd w)) start sz) :: 128 word) i =
        bit (take_bit sz (drop_bit start w)) i"
    proof (cases "i < 32")
      case True
      then show ?thesis using UNSTUFF_bit [OF assms True] \<open>i < LENGTH(128)\<close> by (simp add: bit_ucast_iff bit_take_bit_iff bit_drop_bit_eq)
    next
      case False
      then show ?thesis using assms(4) by (auto simp: bit_ucast_iff bit_take_bit_iff dest: bit_imp_le_length)
    qed
  qed
  then have "unat (ucast (UNSTUFF_BITS (MOVLEFT_CID_CSD (shown_csd w)) start sz) :: 128 word) = csd_field w start sz"
    by (simp only: csd_field_def)
  moreover have "unat (ucast r :: 128 word) = unat r" for r :: u32
    using unsigned_less [of r, where ?'a = nat] by (simp add: unsigned_ucast_eq take_bit_nat_def)
  ultimately show ?thesis by simp
qed

lemma UNSTUFF_word:
  "8 \<le> start \<Longrightarrow> start + sz \<le> 128 \<Longrightarrow> 0 < sz \<Longrightarrow> sz < 32 \<Longrightarrow>
   UNSTUFF_BITS (MOVLEFT_CID_CSD (shown_csd w)) start sz = word_of_nat (csd_field w start sz)"
  by (metis UNSTUFF_field word_nat_unat)

subsection \<open>The size of the card\<close>

text \<open>The number of bytes that the register declares: version 1 (up to 2 GB) and version 2 (SDHC).\<close>

definition csd_bytes :: "128 word \<Rightarrow> nat" where
  "csd_bytes w =
     (if csd_field w 126 2 = 0
      then (csd_field w 62 12 + 1) * 2 ^ (csd_field w 47 3 + 2) * 2 ^ csd_field w 80 4
      else (csd_field w 48 22 + 1) * 524288)"

lemma csd_field_less: "csd_field w start sz < 2 ^ sz"
  by (simp add: csd_field_def unsigned_take_bit_eq)

lemma decode_version:
  assumes "csd_field w 126 2 = v" "v < 2"
  shows "UNSTUFF_BITS (MOVLEFT_CID_CSD (shown_csd w)) 126 2 = word_of_nat v"
proof -
  have "unat (UNSTUFF_BITS (MOVLEFT_CID_CSD (shown_csd w)) 126 2) = v" using UNSTUFF_field [of 126 2 w] assms by simp
  then show ?thesis by (metis word_nat_unat)
qed

lemma decoded_lba:
  assumes "csd_field w 126 2 = 0" "csd_field w 80 4 = 9 + k" "k < 3"
  shows "display_card_info junk (shown_csd w) st =
    st\<lparr>m_dev := Some (word_of_nat ((csd_field w 62 12 + 1) * 2 ^ (csd_field w 47 3 + 2) * (k + 1)))\<rparr>"
proof -
  let ?u = "UNSTUFF_BITS (MOVLEFT_CID_CSD (shown_csd w))"
  have m: "?u 62 12 = word_of_nat (csd_field w 62 12)" "?u 80 4 = word_of_nat (9 + k)"
    using UNSTUFF_word [of 62 12 w] UNSTUFF_word [of 80 4 w] assms(2) by simp_all
  have e: "unat (?u 47 3 + 2) = csd_field w 47 3 + 2"
    using UNSTUFF_field [of 47 3 w] csd_field_less [of w 47 3] by (simp add: unat_word_ariths)
  have k: "(word_of_nat (9 + k) - 8 :: u32) = word_of_nat (k + 1)" by simp
  have "push_bit (unat (?u 47 3 + 2)) (1 + ?u 62 12) * (?u 80 4 - 8) =
      word_of_nat ((csd_field w 62 12 + 1) * 2 ^ (csd_field w 47 3 + 2) * (k + 1))"
    unfolding e m k push_bit_eq_mult by (simp add: algebra_simps)
  then show ?thesis
    using decode_version [OF assms(1)] by (simp add: display_card_info_def mmc_decode_csd_def Let_def)
qed

lemma decoded_lba_sdhc:
  assumes "csd_field w 126 2 = 1"
  shows "display_card_info junk (shown_csd w) st =
    st\<lparr>m_block_addr := True, m_dev := Some (word_of_nat ((csd_field w 48 22 + 1) * 1024))\<rparr>"
proof -
  let ?u = "UNSTUFF_BITS (MOVLEFT_CID_CSD (shown_csd w))"
  have m: "?u 48 22 = word_of_nat (csd_field w 48 22)"
    by (rule UNSTUFF_word) simp_all
  have "push_bit 10 (1 + ?u 48 22) * (9 - 8) = word_of_nat ((csd_field w 48 22 + 1) * 1024)"
    unfolding m push_bit_eq_mult by (simp add: algebra_simps)
  then show ?thesis
    using decode_version [OF assms(1)] by (simp add: display_card_info_def mmc_decode_csd_def Let_def)
qed

text \<open>What is known of a card: a read of \<open>n\<close> blocks, single or multiple, transfers its blocks.  The argument
  is a block number on an SDHC card (\<open>hc\<close>) and a byte address on the others.\<close>

definition card_serves :: "transfer \<Rightarrow> int \<Rightarrow> bytes \<Rightarrow> bool \<Rightarrow> bool" where
  "card_serves xfer ch d hc \<longleftrightarrow>
     (\<forall>blk n. 0 < n \<longrightarrow> n < 65536 \<longrightarrow> 512 * (blk + n) \<le> length d \<longrightarrow>
        xfer ch (if 1 < n then 18 else 17) (word_of_nat (if hc then blk else 512 * blk)) (word_of_nat n) =
        region d (512 * blk) (512 * n))"

text \<open>A card that the driver handles: an SDHC card, or one of the first version with blocks of 512 or 1024
  bytes when no SDHC card was selected before.\<close>

definition card_handled :: "128 word \<Rightarrow> mmc \<Rightarrow> bool" where
  "card_handled w st \<longleftrightarrow> csd_field w 126 2 = 1 \<or>
     csd_field w 126 2 = 0 \<and> (csd_field w 80 4 = 9 \<or> csd_field w 80 4 = 10) \<and> \<not> m_block_addr st"

definition selected :: "transfer \<Rightarrow> int \<Rightarrow> bytes \<Rightarrow> mmc \<Rightarrow> bool" where
  "selected xfer ch d st \<longleftrightarrow> m_sel st = ch \<and> m_dev st = Some (word_of_nat (length d div 512)) \<and>
     length d < 2199023255552 \<and> length d mod 512 = 0 \<and>
     (\<forall>start n. 0 < n \<longrightarrow> n < 65536 \<longrightarrow> 512 * (unat start + unat n) \<le> length d \<longrightarrow>
        mmc_read_block xfer start n st = region d (512 * unat start) (512 * unat n))"

lemma display_card_handled:
  assumes "card_handled w st" "csd_bytes w < 2199023255552"
  shows "display_card_info junk (shown_csd w) st =
      st\<lparr>m_dev := Some (word_of_nat (csd_bytes w div 512)), m_block_addr := (csd_field w 126 2 = 1)\<rparr> \<and>
    csd_bytes w mod 512 = 0"
proof -
  consider "csd_field w 126 2 = 1" | k where "csd_field w 126 2 = 0" "csd_field w 80 4 = 9 + k" "k < 2" "\<not> m_block_addr st"
    using assms(1) by (force simp: card_handled_def)
  then show ?thesis
  proof cases
    case 1
    have "csd_bytes w = 512 * ((csd_field w 48 22 + 1) * 1024)" using 1 by (simp add: csd_bytes_def)
    then show ?thesis using decoded_lba_sdhc [OF 1] 1 by simp
  next
    case 2
    then have "(2 :: nat) ^ (9 + k) = 512 * (k + 1)" by (auto simp: less_2_cases_iff)
    then have b: "csd_bytes w = 512 * ((csd_field w 62 12 + 1) * 2 ^ (csd_field w 47 3 + 2) * (k + 1))"
      unfolding csd_bytes_def 2(2) \<open>2 ^ (9 + k) = 512 * (k + 1)\<close> by (simp only: 2(1) refl if_True ac_simps)
    have "k < 3" using 2 by simp
    then show ?thesis using decoded_lba [OF 2(1,2), of junk st] 2 b by simp
  qed
qed

lemma read_block_served:
  assumes "card_serves xfer ch d hc" "m_sel st = ch" "m_block_addr st = hc" "hc \<or> length d < 4294967296"
    and "0 < n" "n < 65536" "512 * (unat start + unat n) \<le> length d"
  shows "mmc_read_block xfer start n st = region d (512 * unat start) (512 * unat n)"
proof -
  have n: "0 < unat n" "unat n < 65536" "1 < n \<longleftrightarrow> 1 < unat n"
    using assms(5,6) by (simp_all add: word_less_nat_alt)
  have "(ucast n :: u16) = word_of_nat (unat n)" by simp
  moreover have "(if hc then start else start * 512) = word_of_nat (if hc then unat start else 512 * unat start)"
    by (simp add: mult.commute)
  moreover have "xfer ch (if 1 < unat n then 18 else 17) (word_of_nat (if hc then unat start else 512 * unat start))
      (word_of_nat (unat n)) = region d (512 * unat start) (512 * unat n)"
    using assms(1,7) n(1,2) unfolding card_serves_def by blast
  ultimately show ?thesis by (simp only: mmc_read_block_def assms(2,3) n(3))
qed

lemma card_selected:
  assumes "m_sel st \<noteq> ch" "probe ch = Some (shown_csd w)" "card_handled w st"
    and "csd_bytes w = length d" "length d < 2199023255552" "card_serves xfer ch d (csd_field w 126 2 = 1)"
  shows "\<exists>st'. mmc_get_dev probe junk ch st = (True, st') \<and> selected xfer ch d st'"
proof -
  let ?st = "st\<lparr>m_sel := ch, m_dev := Some (NOT 0)\<rparr>"
  have h: "card_handled w ?st" using assms(3) by (simp add: card_handled_def)
  note info = display_card_handled [OF h, of junk, unfolded assms(4), OF assms(5)]
  let ?st' = "?st\<lparr>m_dev := Some (word_of_nat (length d div 512)), m_block_addr := (csd_field w 126 2 = 1)\<rparr>"
  have run: "mmc_get_dev probe junk ch st = (True, ?st')"
    using assms(1,2) info by (simp add: mmc_get_dev_def hsmmc_init_def mmc_release_dev_def Let_def)
  have "csd_field w 126 2 = 1 \<or> length d < 4294967296"
  proof (rule disjCI)
    assume "\<not> length d < 4294967296"
    moreover have "length d < 4294967296" if "csd_field w 126 2 = 0" "csd_field w 80 4 \<le> 10"
    proof -
      have "csd_field w 62 12 + 1 \<le> 4096" "csd_field w 47 3 + 2 \<le> 9"
        using csd_field_less [of w 62 12] csd_field_less [of w 47 3] by simp_all
      then have "(csd_field w 62 12 + 1) * 2 ^ (csd_field w 47 3 + 2) * 2 ^ csd_field w 80 4 \<le> 4096 * 2 ^ 9 * 2 ^ 10"
        using that(2) by (intro mult_mono power_increasing) simp_all
      then show ?thesis using that(1) assms(4) by (simp add: csd_bytes_def)
    qed
    ultimately show "csd_field w 126 2 = 1" using assms(3) by (auto simp: card_handled_def)
  qed
  then have "\<forall>start n. 0 < n \<longrightarrow> n < 65536 \<longrightarrow> 512 * (unat start + unat n) \<le> length d \<longrightarrow>
      mmc_read_block xfer start n ?st' = region d (512 * unat start) (512 * unat n)"
    using read_block_served [OF assms(6), of ?st'] by simp
  then show ?thesis using run info assms(5) by (simp add: selected_def)
qed

text \<open>
  C33. Selecting a card makes its whole content readable: for an SDHC card, and for a card of the first
  version with blocks of 512 or 1024 bytes when no SDHC card was used before, mmc_get_dev records the
  size in blocks that the CSD register declares, and every read of 1 to 65535 blocks inside the card gives
  the bytes of the card at that place.
\<close>

theorem card_readable:
  assumes "m_sel st \<noteq> ch" "probe ch = Some (shown_csd w)" "card_handled w st"
    and "csd_bytes w = length d" "length d < 2199023255552" "card_serves xfer ch d (csd_field w 126 2 = 1)"
  shows "\<exists>st'. mmc_get_dev probe junk ch st = (True, st') \<and> selected xfer ch d st'"
  using assms by (rule card_selected)

definition demo_csd :: "128 word" where
  "demo_csd = push_bit 126 1 OR push_bit 48 31"

definition demo_transfer :: "bytes \<Rightarrow> transfer" where
  "demo_transfer d ch cmd arg n = region d (512 * unat arg) (512 * unat n)"

lemma demo_csd_fields: "csd_field demo_csd 126 2 = 1" "csd_field demo_csd 48 22 = 31" "csd_bytes demo_csd = 16777216"
  by (simp_all add: csd_field_def demo_csd_def csd_bytes_def)

lemma demo_transfer_serves:
  assumes "length d < 2199023255552"
  shows "card_serves (demo_transfer d) ch d True"
  unfolding card_serves_def
proof (intro allI impI)
  fix blk n :: nat
  assume n: "0 < n" "n < 65536" "512 * (blk + n) \<le> length d"
  then have "blk < 4294967296" using assms unfolding distrib_left by linarith
  moreover have "unat (word_of_nat n :: u16) = n" using n(2) by (simp add: unat_of_nat)
  ultimately show "demo_transfer d ch (if 1 < n then 18 else 17) (word_of_nat (if True then blk else 512 * blk)) (word_of_nat n) =
      region d (512 * blk) (512 * n)"
    by (simp add: demo_transfer_def)
qed

definition fresh_mmc :: mmc where
  "fresh_mmc = \<lparr>m_sel = - 1, m_dev = None, m_block_addr = False\<rparr>"

theorem card_readable_witness:
  "\<forall>junk. \<exists>st'. mmc_get_dev (\<lambda>ch. Some (shown_csd demo_csd)) junk 1 fresh_mmc = (True, st') \<and>
     selected (demo_transfer (replicate 16777216 7)) 1 (replicate 16777216 7) st'"
proof (intro allI card_readable)
  show "card_serves (demo_transfer (replicate 16777216 7)) 1 (replicate 16777216 7) (csd_field demo_csd 126 2 = 1)"
    using demo_transfer_serves [of "replicate 16777216 7" 1] by (simp add: demo_csd_fields)
qed (simp_all add: fresh_mmc_def card_handled_def demo_csd_fields)

end
