(* ===== verification/Qi_Sdcard.thy ===== *)
theory Qi_Sdcard
  imports Qi_Sdhost Uboot_Mmc
begin

unbundle bit_operations_syntax

section \<open>Cards at the host controller\<close>

text \<open>
  The properties of \<^verbatim>\<open>qi/src/cpu/s3c6410/hs_mmc.c\<close>: the commands that identify a card and the size that comes
  out, what happens without a card, and what is asked of the controller when blocks are read.
\<close>

subsection \<open>The size of the card\<close>

lemma mangled_byte: "k < 16 \<Longrightarrow> byte_at (map (\<lambda>n. p8 ! (mangle ! n)) [0..<16]) k = p8 ! (mangle ! k)"
  by (simp add: byte_at_def)

lemma shifted_word:
  "ucast (ucast (drop_bit 24 a) :: u8) OR push_bit 8 (ucast (ucast b :: u8)) OR
   push_bit 16 (ucast (ucast (drop_bit 8 b) :: u8)) OR push_bit 24 (ucast (ucast (drop_bit 16 b) :: u8)) =
   push_bit 8 b OR drop_bit 24 (a :: u32)"
proof (rule bit_word_eqI)
  fix n assume "n < LENGTH(32)"
  then consider "n < 8" | "8 \<le> n" "n < 16" | "16 \<le> n" "n < 24" | "24 \<le> n" "n < 32" by fastforce
  then show "bit (ucast (ucast (drop_bit 24 a) :: u8) OR push_bit 8 (ucast (ucast b :: u8)) OR
    push_bit 16 (ucast (ucast (drop_bit 8 b) :: u8)) OR push_bit 24 (ucast (ucast (drop_bit 16 b) :: u8)) :: u32) n =
    bit (push_bit 8 b OR drop_bit 24 a) n"
    by cases (auto simp: bit_simps dest: bit_imp_le_length)
qed

lemma mangled_words:
  fixes a b c d :: u32
  defines "r \<equiv> map (\<lambda>n. (put32 d @ put32 c @ put32 b @ put32 a) ! (mangle ! n)) [0..<16]"
  shows "get32 r 8 = push_bit 8 b OR drop_bit 24 a" "get32 r 4 = push_bit 8 c OR drop_bit 24 b"
  unfolding r_def get32_def shifted_word [symmetric] using mangled_byte
  by (simp_all add: mangled_byte) (simp_all add: mangle_def put32_def)

lemma unneeded_masks: "push_bit 8 x AND 0xFFFFFF00 = push_bit 8 (x :: u32)" "drop_bit 24 x AND 0xFF = drop_bit 24 x"
  by (rule bit_word_eqI, auto simp: bit_and_iff bit_push_bit_iff bit_drop_bit_eq bit_FF simp del: bit_numeral_word_iff
      dest: bit_imp_le_length)+

text \<open>The size field of the card's register, from the response as the driver keeps it.\<close>

lemma size_field:
  assumes "shown_csd w = [a, b, c, d]"
  shows "UNSTUFF_BITS_qi (map (\<lambda>i. get32 (map (\<lambda>n. (put32 d @ put32 c @ put32 b @ put32 a) ! (mangle ! n)) [0..<16]) (4 * i)) [0..<4])
    48 22 = word_of_nat (csd_field w 48 22)"
proof -
  let ?r = "map (\<lambda>n. (put32 d @ put32 c @ put32 b @ put32 a) ! (mangle ! n)) [0..<16]"
  let ?ws = "map (\<lambda>i. get32 ?r (4 * i)) [0..<4]"
  have w: "?ws ! 2 = push_bit 8 b OR drop_bit 24 a" "?ws ! 1 = push_bit 8 c OR drop_bit 24 b"
    using mangled_words [of d c b a] by simp_all
  have m: "MOVLEFT_CID_CSD [a, b, c, d] ! 1 = ?ws ! 2" "MOVLEFT_CID_CSD [a, b, c, d] ! 2 = ?ws ! 1"
    unfolding w by (simp_all add: MOVLEFT_CID_CSD_def unneeded_masks)
  have "UNSTUFF_BITS_qi ?ws 48 22 = UNSTUFF_BITS (MOVLEFT_CID_CSD [a, b, c, d]) 48 22"
    using m by (simp add: UNSTUFF_BITS_qi_def UNSTUFF_BITS_def Let_def) (simp add: numeral_2_eq_2)
  then show ?thesis
    using UNSTUFF_word [of 48 22 w] assms by simp
qed

subsection \<open>Operations on a card that answers\<close>

text \<open>The transfer that a read asks for.\<close>

definition bread_request :: "u32 \<Rightarrow> u32 \<Rightarrow> u32 \<Rightarrow> sd_request" where
  "bread_request start_blk blknum dst =
     \<lparr>rq_memory = dst, rq_block = start_blk, rq_count = ucast blknum, rq_size = 0x7200,
      rq_mode = (if 1 < blknum then 0x37 else 0x13), rq_cmd = (if 1 < blknum then 18 else 17)\<rparr>"

context sd_controller
begin

lemma ends_card_status:
  assumes "talks lat sdc cs rq (hs_log st)" and "lat < 0x20000000"
    and ans: "sdc (cs @ [(13, push_bit 16 (hs_rca st))]) \<noteq> None"
    and Q: "\<And>log. talks lat sdc (cs @ [(13, push_bit 16 (hs_rca st))]) rq log \<Longrightarrow> Q (1, st\<lparr>hs_log := log\<rparr>)"
  shows "ends (check_card_status host st) Q"
  unfolding check_card_status_def ends_simps
  by (rule ends_issue [OF assms(1) _ assms(2)])
    (use ans Q in \<open>auto simp: MMC_SEND_STATUS_def s3c_hsmmc_readl_def Let_def\<close>)

lemma ends_bus_width:
  assumes "talks lat sdc cs rq (hs_log st)" and "lat < 0x20000000" and "width \<noteq> 1"
    and ans: "\<And>cs. sdc cs \<noteq> None"
    and Q: "\<And>log. talks lat sdc (cs @ [(55, push_bit 16 (hs_rca st)), (6, 2)]) rq log \<Longrightarrow> Q (0, st\<lparr>hs_log := log\<rparr>)"
  shows "ends (set_bus_width host width st) Q"
proof -
  let ?st = "card_irq_enable host 0 (snd (s3c_hsmmc_readb host HM_HOSTCTL st))"
  have st: "talks lat sdc cs rq (hs_log ?st)" "hs_rca ?st = hs_rca st" "\<exists>log. ?st = st\<lparr>hs_log := log\<rparr>"
    using assms(1) by (auto simp: card_irq_enable_def s3c_hsmmc_readb_def s3c_hsmmc_readw_def s3c_hsmmc_writew_def Let_def hs_regs)
  then obtain l where l: "?st = st\<lparr>hs_log := l\<rparr>" by blast
  show ?thesis
    unfolding set_bus_width_def Let_def split_def ends_simps
    apply (rule ends_issue [OF st(1) _ assms(2)])
     apply (simp add: MMC_APP_CMD_def)
    apply (simp add: ans MMC_APP_CMD_def st(2) assms(3))
    apply (rule ends_issue [OF _ _ assms(2)])
      apply simp
     apply (simp add: MMC_SWITCH_def)
    using Q l assms(3)
    apply (simp add: ans MMC_SWITCH_def s3c_hsmmc_writeb_def card_irq_enable_def s3c_hsmmc_readw_def s3c_hsmmc_writew_def
        Let_def hs_regs)
    done
qed

lemma ends_clock_config:
  assumes "talks lat sdc cs rq (hs_log st)" and Q: "\<And>log. talks lat sdc cs rq log \<Longrightarrow> Q (st\<lparr>hs_log := log\<rparr>)"
  shows "ends (clock_config host d st) Q"
  unfolding clock_config_def Let_def ends_simps
  apply (rule ends_clock_onoff [of cs rq])
   apply (use assms(1) in \<open>simp add: set_hostctl_speed_def s3c_hsmmc_readb_def s3c_hsmmc_writeb_def Let_def\<close>)
  apply (rule ends_set_clock [of cs rq])
   apply simp
  apply (use Q in \<open>auto simp: set_hostctl_speed_def s3c_hsmmc_readb_def s3c_hsmmc_writeb_def Let_def\<close>)
  done

subsection \<open>The operating conditions\<close>

lemma no_answer_loop:
  assumes "talks lat sdc cs rq (hs_log st)" and "lat < 0x20000000" and "n < 0x80000000"
    and "\<And>i. i < n \<Longrightarrow> sdc (cs @ replicate (Suc i) (55, 0)) = None"
    and "\<And>log. talks lat sdc (cs @ replicate n (55, 0)) rq log \<Longrightarrow> Q (- 1, st\<lparr>hs_log := log\<rparr>)"
  shows "ends (op_cond_loop host hcs (int n) st) Q"
  using assms
proof (induction n arbitrary: st cs)
  case 0
  then show ?case using "0.prems"(5) [of "hs_log st"] by (subst op_cond_loop.simps) simp
next
  case (Suc n)
  have r: "s32 (int n) = int n" using Suc.prems(3) by simp
  have none: "sdc (cs @ [(55, 0)]) = None" using Suc.prems(4) [of 0] by simp
  have more: "sdc ((cs @ [(55, 0)]) @ replicate (Suc i) (55, 0)) = None" if "i < n" for i
    using Suc.prems(4) [of "Suc i"] that by simp
  show ?case
    apply (subst op_cond_loop.simps)
    apply (simp add: r Let_def)
    apply (rule ends_issue [OF Suc.prems(1) _ Suc.prems(2)])
     apply (simp add: MMC_APP_CMD_def)
    apply (simp add: MMC_APP_CMD_def none)
    apply (rule Suc.IH [OF _ Suc.prems(2)])
       apply simp
    using Suc.prems(3) apply simp
    using more apply simp
    using Suc.prems(5) apply (simp add: replicate_append_same [symmetric])
    done
qed

text \<open>One turn with a card that answers.\<close>

lemma op_cond_turn:
  assumes t: "talks lat sdc cs rq (hs_log st)" and l: "lat < 0x20000000" and "retries \<noteq> 0"
    and ans: "\<And>cs. sdc cs \<noteq> None"
    and v: "v = response_of sdc (cs @ [(55, 0), (41, hcs OR 0x300000)]) ! 0"
    and busy: "\<And>log. \<not> bit v 30 \<Longrightarrow> \<not> bit v 31 \<Longrightarrow> talks lat sdc (cs @ [(55, 0), (41, hcs OR 0x300000)]) rq log \<Longrightarrow>
      ends (op_cond_loop host hcs (s32 (retries - 1)) (st\<lparr>hs_log := log\<rparr>)) Q"
    and ready: "\<And>log. bit v 31 \<Longrightarrow> talks lat sdc (cs @ [(55, 0), (41, hcs OR 0x300000)]) rq log \<Longrightarrow>
      Q (- 2, st\<lparr>hs_log := log, hs_card_type := CARDTYPE_SDHC\<rparr>)"
    and "bit v 30 \<longleftrightarrow> bit v 31"
  shows "ends (op_cond_loop host hcs retries st) Q"
proof -
  have bits: "drop_bit 24 w AND 0x40 = 0 \<longleftrightarrow> \<not> bit w 30" "drop_bit 24 w AND 0x80 = 0 \<longleftrightarrow> \<not> bit w 31" for w :: u32
    using and_exp_eq_0_iff_not_bit [of "drop_bit 24 w" 6] and_exp_eq_0_iff_not_bit [of "drop_bit 24 w" 7]
    by (simp_all add: bit_simps)
  let ?l1 = "\<lambda>log. Rd32 (hs_reg HM_RSPREG0) # log"
  have r: "s3c_hsmmc_readl host HM_RSPREG0 (st\<lparr>hs_log := log\<rparr>) = (v, st\<lparr>hs_log := ?l1 log\<rparr>)"
    "s3c_hsmmc_readl host HM_RSPREG0 (st\<lparr>hs_log := ?l1 log\<rparr>) = (v, st\<lparr>hs_log := ?l1 (?l1 log)\<rparr>)"
    "s3c_hsmmc_readl host HM_RSPREG0 (st\<lparr>hs_log := ?l1 log, hs_card_type := ct\<rparr>) =
       (v, st\<lparr>hs_log := ?l1 (?l1 log), hs_card_type := ct\<rparr>)"
    if "talks lat sdc (cs @ [(55, 0), (41, hcs OR 0x300000)]) rq log" for log ct
    using that response_word(1) [of "cs @ [(55, 0), (41, hcs OR 0x300000)]" rq] v by simp_all
  show ?thesis
    apply (subst op_cond_loop.simps)
    apply (simp add: assms(3) Let_def)
    apply (rule ends_issue [OF t _ l])
     apply (simp add: MMC_APP_CMD_def)
    apply (simp add: MMC_APP_CMD_def ans)
    apply (rule ends_issue [OF _ _ l])
      apply simp
     apply (simp add: SD_APP_OP_COND_def)
    using assms(8) busy ready
    apply (cases "bit v 31")
     apply (simp_all add: SD_APP_OP_COND_def ans r bits)
    done
qed

text \<open>A card that answers, is busy \<open>n\<close> times and then gives its conditions; \<open>op\<close> is the pair of commands of
  one turn.\<close>

lemma ready_loop:
  assumes "talks lat sdc cs rq (hs_log st)" and l: "lat < 0x20000000" and "int n < retries" and "retries < 0x80000000"
    and ans: "\<And>cs. sdc cs \<noteq> None"
    and op: "op = [(55, 0), (41, hcs OR 0x300000)]"
    and busy: "\<And>i. i < n \<Longrightarrow> \<not> bit (response_of sdc (cs @ concat (replicate (Suc i) op)) ! 0) 30 \<and>
      \<not> bit (response_of sdc (cs @ concat (replicate (Suc i) op)) ! 0) 31"
    and ready: "bit (response_of sdc (cs @ concat (replicate (Suc n) op)) ! 0) 30"
      "bit (response_of sdc (cs @ concat (replicate (Suc n) op)) ! 0) 31"
    and Q: "\<And>log. talks lat sdc (cs @ concat (replicate (Suc n) op)) rq log \<Longrightarrow>
      Q (- 2, st\<lparr>hs_log := log, hs_card_type := CARDTYPE_SDHC\<rparr>)"
  shows "ends (op_cond_loop host hcs retries st) Q"
  using assms(1,3,4) busy ready Q
proof (induction n arbitrary: st cs retries)
  case 0
  then show ?case
    by (intro op_cond_turn [OF "0.prems"(1) l _ ans refl]) (auto simp: op)
next
  case (Suc n)
  have nxt: "cs @ op @ concat (replicate k op) = cs @ concat (replicate (Suc k) op)" for k by simp
  show ?case
  proof (rule op_cond_turn [OF Suc.prems(1) l _ ans refl])
    show "retries \<noteq> 0" using Suc.prems(2) by simp
    fix log assume t: "talks lat sdc (cs @ [(55, 0), (41, hcs OR 0x300000)]) rq log"
    have r: "s32 (retries - 1) = retries - 1" using Suc.prems(2,3) by simp
    show "ends (op_cond_loop host hcs (s32 (retries - 1)) (st\<lparr>hs_log := log\<rparr>)) Q"
      unfolding r
      apply (rule Suc.IH [of "cs @ op"])
      using t Suc.prems by (simp_all add: op [symmetric] nxt del: concat.simps replicate.simps)
  qed (use Suc.prems(4) [of 0] op in auto)
qed

subsection \<open>The start\<close>

lemmas accesses = s3c_hsmmc_readl_def s3c_hsmmc_readw_def s3c_hsmmc_readb_def s3c_hsmmc_writel_def
  s3c_hsmmc_writew_def s3c_hsmmc_writeb_def qi_readl_def qi_writel_def

lemma init_no_card:
  assumes "hs_log st = []" and l: "lat < 0x20000000" and "sdc [(0, 0), (8, 0x1aa)] = None"
    and "\<And>i. i < 50 \<Longrightarrow> sdc ([(0, 0), (8, 0x1aa)] @ replicate (Suc i) (55, 0)) = None"
  shows "ends (s3c6410_mmc_init host csd_fields hcs st) (\<lambda>(r, st').
    r = word_of_int (- 2) \<and> talks lat sdc ([(0, 0), (8, 0x1aa)] @ replicate 50 (55, 0)) [] (hs_log st'))"
  unfolding s3c6410_mmc_init_def Let_def ends_simps
  apply (rule ends_clock_onoff [of "[]" "[]"])
   apply (simp add: assms(1) hsmmc_reset_def hsmmc_set_gpio_def accesses Let_def)
  apply (simp add: assms(1) qi_readl_def qi_writel_def)
  apply (rule ends_set_clock [of "[]" "[]"])
   apply simp
  apply (rule ends_InterruptEnable [of "[]" "[]"])
   apply (simp add: set_hostctl_speed_def accesses Let_def)
  apply (rule ends_issue [of "[]" "[]", OF _ _ l])
    apply (simp add: set_hostctl_speed_def accesses Let_def)
   apply (simp add: MMC_GO_IDLE_STATE_def)
  apply (simp add: MMC_GO_IDLE_STATE_def split_def)
  apply (rule ends_issue [OF _ _ l])
    apply (simp add: set_hostctl_speed_def accesses Let_def)
   apply (simp add: SD_SEND_IF_COND_def)
  apply (simp add: assms(3) SD_SEND_IF_COND_def)
  apply (rule no_answer_loop [of "[(0, 0), (8, 0x1aa)]" "[]" _ 50, simplified, OF _ l])
    apply (simp add: set_hostctl_speed_def accesses Let_def)
  using assms(4)
   apply simp
  apply simp
  done

lemma long_response_is:
  assumes "talks lat sdc cs rq (hs_log st)"
  shows "\<exists>log. long_response host st =
      (map (\<lambda>n. (put32 (response_of sdc cs ! 3) @ put32 (response_of sdc cs ! 2) @ put32 (response_of sdc cs ! 1) @
          put32 (response_of sdc cs ! 0)) ! (mangle ! n)) [0..<16], st\<lparr>hs_log := log\<rparr>) \<and>
    talks lat sdc cs rq log"
  using assms by (auto simp: long_response_def response_word [of cs rq] intro!: exI)

lemma ends_long_response:
  assumes "talks lat sdc cs rq (hs_log st)" and "\<And>log. talks lat sdc cs rq log \<Longrightarrow>
    P (map (\<lambda>n. (put32 (response_of sdc cs ! 3) @ put32 (response_of sdc cs ! 2) @ put32 (response_of sdc cs ! 1) @
          put32 (response_of sdc cs ! 0)) ! (mangle ! n)) [0..<16]) (st\<lparr>hs_log := log\<rparr>)"
  shows "P (fst (long_response host st)) (snd (long_response host st))"
  using long_response_is [OF assms(1)] assms(2) by auto

lemma ends_select:
  assumes t: "talks lat sdc cs rq (hs_log st)" and l: "lat < 0x20000000" and ans: "\<And>cs. sdc cs \<noteq> None"
    and r: "hs_rca st = r"
    and Q: "\<And>log. talks lat sdc (cs @ [(7, push_bit 16 r), (55, push_bit 16 r), (6, 2), (13, push_bit 16 r), (16, 512)]) rq log
      \<Longrightarrow> Q (v, st\<lparr>hs_log := log\<rparr>)"
  shows "ends (select_card host v st) Q"
  unfolding select_card_def ends_simps
  apply (rule ends_issue [OF t _ l])
   apply (simp add: MMC_SELECT_CARD_def)
  apply (simp add: ans MMC_SELECT_CARD_def r)
  apply (rule ends_clock_config)
   apply simp
  apply simp
  apply (rule ends_repeat_until)
  apply (simp add: split_def)
  apply (rule ends_bus_width [OF _ l _ ans])
    apply simp
   apply simp
  apply simp
  apply (rule ends_repeat_until)
  apply (simp add: split_def)
  apply (rule ends_card_status [OF _ l ans])
   apply simp
  apply simp
  apply (rule ends_repeat_until)
  apply (simp add: split_def)
  apply (rule ends_issue [OF _ _ l])
    apply simp
   apply (simp add: MMC_SET_BLOCKLEN_def)
  apply (simp add: ans MMC_SET_BLOCKLEN_def r)
  using Q
  apply (simp add: s3c_hsmmc_writew_def hs_regs [THEN arg_cong [of _ _ hs_reg]])
  done

lemma ends_identify:
  assumes t: "talks lat sdc cs rq (hs_log st)" and l: "lat < 0x20000000" and ans: "\<And>cs. sdc cs \<noteq> None"
    and ct: "hs_card_type st = CARDTYPE_SDHC"
    and addr: "drop_bit 16 (response_of sdc (cs @ [(2, 0), (3, 0x10000)]) ! 0) = r"
    and csd: "response_of sdc (cs @ [(2, 0), (3, 0x10000), (9, push_bit 16 r)]) = shown_csd w" "csd_field w 126 2 \<noteq> 0"
    and Q: "\<And>log. talks lat sdc (cs @ [(2, 0), (3, 0x10000), (9, push_bit 16 r), (7, push_bit 16 r),
        (55, push_bit 16 r), (6, 2), (13, push_bit 16 r), (16, 512)]) rq log
      \<Longrightarrow> Q (word_of_nat (csd_bytes w div 512), st\<lparr>hs_rca := r, hs_log := log\<rparr>)"
  shows "ends (identify_card host csd_fields st) Q"
proof -
  obtain a b c d where w: "shown_csd w = [a, b, c, d]" by (simp add: shown_csd_def)
  have v: "card_sectors csd_fields CARDTYPE_SDHC
      (map (\<lambda>n. (put32 d @ put32 c @ put32 b @ put32 a) ! (mangle ! n)) [0..<16]) = word_of_nat (csd_bytes w div 512)"
    by (simp only: card_sectors_def simp_thms if_True size_field [OF w])
      (simp add: csd_bytes_def csd(2) push_bit_eq_mult algebra_simps)
  show ?thesis
    unfolding identify_card_def Let_def split_def ends_simps
    apply (rule ends_issue [OF t _ l])
     apply (simp add: MMC_ALL_SEND_CID_def)
    apply (simp add: ans MMC_ALL_SEND_CID_def)
    apply (rule ends_long_response [of "cs @ [(2, 0)]" rq])
     apply simp
    apply (simp add: ct)
    apply (rule ends_issue [where cs = "cs @ [(2, 0)]" and rq = rq, OF _ _ l])
      apply simp
     apply (simp add: SD_SEND_RELATIVE_ADDR_def)
    apply (simp add: ans SD_SEND_RELATIVE_ADDR_def MMC_DEFAULT_RCA_def response_word [where cs = "cs @ [(2, 0), (3, 0x10000)]" and rq = rq] addr)
    apply (rule ends_issue [where cs = "cs @ [(2, 0), (3, 0x10000)]" and rq = rq, OF _ _ l])
      apply simp
     apply (simp add: MMC_SEND_CSD_def)
    apply (simp add: ans MMC_SEND_CSD_def)
    apply (rule ends_long_response [of "cs @ [(2, 0), (3, 0x10000), (9, push_bit 16 r)]" rq])
     apply simp
    apply (simp add: csd(1) w ct v)
    apply (rule ends_select [OF _ l ans, where cs = "cs @ [(2, 0), (3, 0x10000), (9, push_bit 16 r)]" and rq = rq and r = r])
      apply simp
     apply simp
    using Q
    apply simp
    done
qed

text \<open>The commands of the loop for an SDHC card, and those that follow it.\<close>

lemma init_sdhc:
  assumes "hs_log st = []" and l: "lat < 0x20000000" and "n < 50"
    and ans: "\<And>cs. sdc cs \<noteq> None"
    and echo: "response_of sdc [(0, 0), (8, 0x1aa)] ! 0 AND 0xff = 0xaa"
    and op: "op = [(55, 0), (41, 0x40300000)]" and hello: "\<And>i. hello i = [(0, 0), (8, 0x1aa)] @ concat (replicate i op)"
    and busy: "\<And>i. i < n \<Longrightarrow> \<not> bit (response_of sdc (hello (Suc i)) ! 0) 30 \<and> \<not> bit (response_of sdc (hello (Suc i)) ! 0) 31"
    and ready: "bit (response_of sdc (hello (Suc n)) ! 0) 30" "bit (response_of sdc (hello (Suc n)) ! 0) 31"
    and addr: "drop_bit 16 (response_of sdc (hello (Suc n) @ [(2, 0), (3, 0x10000)]) ! 0) = r"
    and csd: "response_of sdc (hello (Suc n) @ [(2, 0), (3, 0x10000), (9, push_bit 16 r)]) = shown_csd w"
      "csd_field w 126 2 \<noteq> 0"
  shows "ends (s3c6410_mmc_init host csd_fields hcs st) (\<lambda>(v, st').
    v = word_of_nat (csd_bytes w div 512) \<and> hs_rca st' = r \<and> hs_card_type st' = CARDTYPE_SDHC \<and> movi_hc st' = movi_hc st \<and>
    talks lat sdc (hello (Suc n) @ [(2, 0), (3, 0x10000), (9, push_bit 16 r), (7, push_bit 16 r), (55, push_bit 16 r), (6, 2),
      (13, push_bit 16 r), (16, 512)]) [] (hs_log st'))"
  unfolding s3c6410_mmc_init_def Let_def ends_simps
  apply (rule ends_clock_onoff [of "[]" "[]"])
   apply (simp add: assms(1) hsmmc_reset_def hsmmc_set_gpio_def accesses Let_def)
  apply (simp add: assms(1) qi_readl_def qi_writel_def)
  apply (rule ends_set_clock [of "[]" "[]"])
   apply simp
  apply (rule ends_InterruptEnable [of "[]" "[]"])
   apply (simp add: set_hostctl_speed_def accesses Let_def)
  apply (rule ends_issue [of "[]" "[]", OF _ _ l])
    apply (simp add: set_hostctl_speed_def accesses Let_def)
   apply (simp add: MMC_GO_IDLE_STATE_def)
  apply (simp add: MMC_GO_IDLE_STATE_def split_def)
  apply (rule ends_issue [OF _ _ l])
    apply (simp add: set_hostctl_speed_def accesses Let_def)
   apply (simp add: SD_SEND_IF_COND_def)
  apply (simp add: ans SD_SEND_IF_COND_def response_word echo split_def)
  apply (rule ready_loop [where cs = "[(0, 0), (8, 0x1aa)]" and rq = "[]" and n = n and op = op, OF _ l])
          apply (simp add: set_hostctl_speed_def accesses Let_def)
  using assms(3) apply simp
        apply simp
       apply (rule ans)
      apply (simp add: op)
  apply (unfold hello [symmetric])
     apply (erule busy)
    apply (rule ready(1))
   apply (rule ready(2))
  apply (simp add: split_def set_hostctl_speed_def hsmmc_reset_def hsmmc_set_gpio_def accesses Let_def)
  apply (rule ends_identify [OF _ l ans _ addr csd, where rq = "[]"])
    apply simp
   apply simp
  apply (simp add: assms(1))
  done

subsection \<open>Reading\<close>

lemma status_bits:
  "bit (ucast (host log (Rd16 (hs_reg HM_NORINTSTS))) :: u16) 15 \<longleftrightarrow> sd_errors (sd_after lat sdc log) \<noteq> 0"
  "bit (ucast (host log (Rd16 (hs_reg HM_NORINTSTS))) :: u16) (Suc 0) \<longleftrightarrow> xfer_flag (sd_after lat sdc log)"
  using nor_flags [of log] by (simp_all add: bit_simps)

lemma dma_done:
  assumes "sd_left (seen st) = 0" "\<not> sd_done (seen st)" "sd_err (seen st) = 0" "sd_xfer (seen st)" "sd_derr (seen st) = 0"
    and "sd_data (seen st) + 1 < 2 * n"
  shows "\<exists>log. dma_loop host n st = st\<lparr>HS_DMA_END := 1, hs_log := log\<rparr> \<and>
    sd_after lat sdc log = (seen st)\<lparr>sd_data := 0, sd_xfer := False\<rparr>"
  using assms
proof (induction n arbitrary: st)
  case (Suc n)
  let ?r = "Rd16 (hs_reg HM_NORINTSTS)"
  have tick: "sd_after lat sdc (?r # hs_log st) = (seen st)\<lparr>sd_data := sd_data (seen st) - 1\<rparr>"
    "sd_after lat sdc (?r # ?r # hs_log st) = (seen st)\<lparr>sd_data := sd_data (seen st) - 2\<rparr>"
    using Suc.prems(1) by simp_all
  show ?case
  proof (cases "sd_data (seen st)")
    case 0
    then have "xfer_flag (seen st)" using Suc.prems by (simp add: xfer_flag_def)
    then obtain v where d: "dma_loop host (Suc n) st =
        s3c_hsmmc_writew (v OR 2) HM_NORINTSTS (st\<lparr>HS_DMA_END := 1, hs_log := ?r # ?r # hs_log st\<rparr>)"
      by (simp add: s3c_hsmmc_readw_def status_bits Let_def)
    have "sd_after lat sdc (Wr16 (hs_reg HM_NORINTSTS) (v OR 2) # ?r # ?r # hs_log st) =
        (seen st)\<lparr>sd_data := 0, sd_xfer := False\<rparr>"
      using Suc.prems(1,2) 0
      by (auto simp: bit_or_iff hs_regs [THEN arg_cong [of _ _ hs_reg]] intro!: sd_host.equality)
    then show ?thesis
      unfolding d by (auto simp: s3c_hsmmc_writew_def simp del: sd_after.simps intro!: exI)
  next
    case (Suc d)
    then have "\<not> xfer_flag (seen st)" by (simp add: xfer_flag_def)
    moreover have "sd_errors (sd_after lat sdc (?r # hs_log st)) = 0"
      using tick Suc.prems by (simp add: sd_errors_def)
    moreover have "Suc (d - Suc 0) < 2 * n" using Suc Suc.prems(6) by (cases d) auto
    then have "\<exists>log. dma_loop host n (st\<lparr>hs_log := ?r # ?r # hs_log st\<rparr>) =
        st\<lparr>hs_log := ?r # ?r # hs_log st, HS_DMA_END := 1, hs_log := log\<rparr> \<and>
        sd_after lat sdc log = (seen st)\<lparr>sd_data := 0, sd_xfer := False\<rparr>"
      using Suc.IH [of "st\<lparr>hs_log := ?r # ?r # hs_log st\<rparr>"] Suc.prems Suc tick by simp
    ultimately show ?thesis
      by (auto simp: s3c_hsmmc_readw_def status_bits Let_def simp del: sd_after.simps)
  qed
qed simp

lemma dma_fails:
  "\<not> sd_xfer (seen st) \<Longrightarrow> HS_DMA_END (dma_loop host n st) = HS_DMA_END st"
proof (induction n arbitrary: st)
  case (Suc n)
  let ?r = "Rd16 (hs_reg HM_NORINTSTS)"
  have "\<not> sd_xfer (sd_after lat sdc (?r # hs_log st))" "\<not> sd_xfer (sd_after lat sdc (?r # ?r # hs_log st))"
    using Suc.prems by simp_all
  then show ?case
    using Suc.IH [of "st\<lparr>hs_log := ?r # ?r # hs_log st\<rparr>"] Suc.prems
    by (simp add: s3c_hsmmc_readw_def status_bits xfer_flag_def Let_def del: sd_after.simps)
qed simp

text \<open>The registers as they are programmed before the command is written.\<close>

definition bread_setup :: "hsmmc \<Rightarrow> u32 \<Rightarrow> u32 \<Rightarrow> u32 \<Rightarrow> hsmmc" where
  "bread_setup st start_blk blknum dst =
     (let (v, st) = s3c_hsmmc_readw host HM_NORINTSTSEN st;
          st = s3c_hsmmc_writew (v AND NOT (0x8 OR 0x4)) HM_NORINTSTSEN st;
          st = s3c_hsmmc_writew ((ucast HM_NORINTSIGEN AND NOT 0xffff) OR 0x2) HM_NORINTSIGEN st;
          st = SetSystemAddressReg dst st;
          st = set_blksize_register 7 512 st;
          st = set_blkcnt_register (ucast blknum) st;
          st = (if movi_hc st \<noteq> 0 then set_arg_register start_blk st else set_arg_register (start_blk * 512) st);
          st = set_transfer_mode_register host (if 1 < blknum then 1 else 0) 1 (if 1 < blknum then 1 else 0) 1 1 st
      in set_cmd_register (if 1 < blknum then 18 else 17) 1 MMC_RSP_R1 st)"

lemma halfword_high: "(ucast (v :: u16) :: u32) AND - 65536 = 0"
proof -
  have m: "(- 65536 :: u32) = NOT (mask 16)" by (simp add: mask_eq_exp_minus_1)
  have "n < 16" if "bit v n" for n
    using that bit_imp_le_length [of v n] by simp
  then show ?thesis
    unfolding m by (intro bit_word_eqI) (metis bit_0_eq bit_and_iff bit_mask_iff bit_not_iff bit_ucast_iff bot_apply bot_bool_def)
qed

lemma seen_setup:
  assumes t: "talks lat sdc cs rq (hs_log st)" and "movi_hc st \<noteq> 0"
    and cmd: "cmd = (if 1 < blknum then 18 else 17)" and a: "sdc (cs @ [(cmd, start_blk)]) = Some (r, ok)"
  shows "\<exists>log. bread_setup st start_blk blknum dst = st\<lparr>hs_log := log\<rparr> \<and>
    (let h = sd_after lat sdc log in sd_cmds h = cs @ [(cmd, start_blk)] \<and> sd_reqs h = rq @ [bread_request start_blk blknum dst] \<and>
      sd_left h = lat \<and> sd_done h \<and> sd_err h = 0 \<and> sd_data h = lat \<and> sd_xfer h = ok \<and> sd_derr h = (if ok then 0 else 0x10))"
  using assms
  by (cases "1 < blknum")
    (auto simp: bread_setup_def set_cmd_register_def set_transfer_mode_register_def set_arg_register_def
      set_blkcnt_register_def set_blksize_register_def SetSystemAddressReg_def accesses Let_def sd_start_def
      cmd_value_command cmd_value_data bread_request_def halfword_high talks_def idle_def
      hs_regs [THEN arg_cong [of _ _ hs_reg]] HM_NORINTSIGEN_def intro!: exI)

lemma bread_unfold:
  "s3c6410_mmc_bread host start_blk blknum dst st =
     Option.bind (repeat_until (\<lambda>st. Option.bind (check_card_status host st) (\<lambda>(r, st). Some (r \<noteq> 0, st))) (st\<lparr>HS_DMA_END := 0\<rparr>))
       (\<lambda>st. let (err, st) = wait_for_cmd_done host (bread_setup st start_blk blknum dst)
             in if err \<noteq> 0 then Some (word_of_int (- 1), st)
                else Option.bind (ClearCommandCompleteStatus host st)
                  (\<lambda>st. let st = check_dma_int host st
                        in if HS_DMA_END st = 0 then None else Some (blknum, st\<lparr>HS_DMA_END := 0\<rparr>)))"
  by (simp add: s3c6410_mmc_bread_def bread_setup_def split_def Let_def)

lemma bread_commands:
  assumes t: "talks lat sdc cs rq (hs_log st)" and l: "lat < 0x10000000" and m: "movi_hc st \<noteq> 0"
    and cmd: "cmd = (if 1 < blknum then 18 else 17)"
    and cs': "cs' = cs @ [(13, push_bit 16 (hs_rca st)), (cmd, start_blk)]"
    and st13: "sdc (cs @ [(13, push_bit 16 (hs_rca st))]) \<noteq> None" and a: "sdc cs' = Some (r, ok)" and "ok \<or> 0 < lat"
  shows "\<exists>log. s3c6410_mmc_bread host start_blk blknum dst st =
      (let st = check_dma_int host (st\<lparr>HS_DMA_END := 0, hs_log := log\<rparr>)
       in if HS_DMA_END st = 0 then None else Some (blknum, st\<lparr>HS_DMA_END := 0\<rparr>)) \<and>
    (let h = sd_after lat sdc log in sd_cmds h = cs' \<and> sd_reqs h = rq @ [bread_request start_blk blknum dst] \<and>
      sd_left h = 0 \<and> \<not> sd_done h \<and> sd_err h = 0 \<and> sd_data h \<le> lat \<and> sd_xfer h = ok \<and> sd_derr h = (if ok then 0 else 0x10))"
proof -
  let ?cs = "cs @ [(13, push_bit 16 (hs_rca st))]"
  have "ends (repeat_until (\<lambda>st. Option.bind (check_card_status host st) (\<lambda>(r, st). Some (r \<noteq> 0, st))) (st\<lparr>HS_DMA_END := 0\<rparr>))
      (\<lambda>st'. \<exists>log. st' = st\<lparr>HS_DMA_END := 0, hs_log := log\<rparr> \<and> talks lat sdc ?cs rq log)"
    using t l st13 by (intro ends_repeat_until) (auto simp: split_def intro!: ends_card_status [of cs rq] exI)
  then obtain l1 where s1: "repeat_until (\<lambda>st. Option.bind (check_card_status host st) (\<lambda>(r, st). Some (r \<noteq> 0, st)))
        (st\<lparr>HS_DMA_END := 0\<rparr>) = Some (st\<lparr>HS_DMA_END := 0, hs_log := l1\<rparr>)"
    and t1: "talks lat sdc ?cs rq l1" by (auto simp: ends_iff)
  let ?st1 = "st\<lparr>HS_DMA_END := 0, hs_log := l1\<rparr>"
  obtain l2 where s2: "bread_setup ?st1 start_blk blknum dst = st\<lparr>HS_DMA_END := 0, hs_log := l2\<rparr>"
    and h2: "let h = sd_after lat sdc l2 in sd_cmds h = cs' \<and> sd_reqs h = rq @ [bread_request start_blk blknum dst] \<and>
      sd_left h = lat \<and> sd_done h \<and> sd_err h = 0 \<and> sd_data h = lat \<and> sd_xfer h = ok \<and> sd_derr h = (if ok then 0 else 0x10)"
    using seen_setup [of ?cs rq ?st1 cmd blknum start_blk r ok dst] t1 m cmd a cs' by auto
  let ?st2 = "st\<lparr>HS_DMA_END := 0, hs_log := l2\<rparr>"
  obtain l3 where s3: "wait_for_cmd_done host ?st2 = (0, st\<lparr>HS_DMA_END := 0, hs_log := l3\<rparr>)"
    and h3: "sd_after lat sdc l3 = (sd_after lat sdc l2)\<lparr>sd_left := 0, sd_data := lat - 1, sd_err := 0\<rparr>"
    using wait_done [of ?st2] h2 l assms(8) by (auto simp: Let_def)
  let ?st3 = "st\<lparr>HS_DMA_END := 0, hs_log := l3\<rparr>"
  obtain l4 where s4: "ClearCommandCompleteStatus host ?st3 = Some (st\<lparr>HS_DMA_END := 0, hs_log := l4\<rparr>)"
    and h4: "sd_after lat sdc l4 = (sd_after lat sdc l3)\<lparr>sd_done := False, sd_data := lat - 2\<rparr>"
    using clear_complete [of ?st3] h3 by auto
  show ?thesis
    unfolding bread_unfold using h2 by (intro exI [of _ l4]) (simp add: s1 s2 s3 s4 h3 h4 Let_def)
qed

text \<open>What comes of it when the data arrive, and when they do not.\<close>

lemma bread_returns:
  assumes t: "talks lat sdc cs rq (hs_log st)" and l: "lat < 0x10000000" and m: "movi_hc st \<noteq> 0"
    and cmd: "cmd = (if 1 < blknum then 18 else 17)"
    and cs': "cs' = cs @ [(13, push_bit 16 (hs_rca st)), (cmd, start_blk)]"
    and st13: "sdc (cs @ [(13, push_bit 16 (hs_rca st))]) \<noteq> None" and a: "sdc cs' = Some (r, True)"
  shows "\<exists>log. s3c6410_mmc_bread host start_blk blknum dst st = Some (blknum, st\<lparr>hs_log := log, HS_DMA_END := 0\<rparr>) \<and>
    talks lat sdc cs' (rq @ [bread_request start_blk blknum dst]) log"
proof -
  from bread_commands [OF t l m cmd cs' st13 a, where dst = dst] obtain l4 where
    b: "s3c6410_mmc_bread host start_blk blknum dst st =
      (let st = check_dma_int host (st\<lparr>HS_DMA_END := 0, hs_log := l4\<rparr>)
       in if HS_DMA_END st = 0 then None else Some (blknum, st\<lparr>HS_DMA_END := 0\<rparr>))"
    and h: "let h = sd_after lat sdc l4 in sd_cmds h = cs' \<and> sd_reqs h = rq @ [bread_request start_blk blknum dst] \<and>
      sd_left h = 0 \<and> \<not> sd_done h \<and> sd_err h = 0 \<and> sd_data h \<le> lat \<and> sd_xfer h \<and> sd_derr h = 0" by auto
  from dma_done [of "st\<lparr>HS_DMA_END := 0, hs_log := l4\<rparr>" "0x10000000"] h l obtain l5 where
    "check_dma_int host (st\<lparr>HS_DMA_END := 0, hs_log := l4\<rparr>) = st\<lparr>HS_DMA_END := 1, hs_log := l5\<rparr>"
    "sd_after lat sdc l5 = (sd_after lat sdc l4)\<lparr>sd_data := 0, sd_xfer := False\<rparr>"
    by (auto simp: check_dma_int_def Let_def)
  then show ?thesis
    using b h by (auto simp: talks_def idle_def Let_def intro!: exI [of _ l5])
qed

lemma bread_hangs:
  assumes t: "talks lat sdc cs rq (hs_log st)" and l: "lat < 0x10000000" and m: "movi_hc st \<noteq> 0"
    and cmd: "cmd = (if 1 < blknum then 18 else 17)"
    and cs': "cs' = cs @ [(13, push_bit 16 (hs_rca st)), (cmd, start_blk)]"
    and st13: "sdc (cs @ [(13, push_bit 16 (hs_rca st))]) \<noteq> None" and a: "sdc cs' = Some (r, False)" and "0 < lat"
  shows "s3c6410_mmc_bread host start_blk blknum dst st = None"
proof -
  from bread_commands [OF t l m cmd cs' st13 a, where dst = dst] assms(8) obtain l4 where
    b: "s3c6410_mmc_bread host start_blk blknum dst st =
      (let st = check_dma_int host (st\<lparr>HS_DMA_END := 0, hs_log := l4\<rparr>)
       in if HS_DMA_END st = 0 then None else Some (blknum, st\<lparr>HS_DMA_END := 0\<rparr>))"
    and h: "\<not> sd_xfer (sd_after lat sdc l4)" by (auto simp: Let_def)
  from dma_fails [of "st\<lparr>HS_DMA_END := 0, hs_log := l4\<rparr>" "0x10000000"] h show ?thesis
    unfolding b check_dma_int_def by (simp add: Let_def)
qed

end

subsection \<open>Properties\<close>

text \<open>An SDHC card that is busy for \<open>n\<close> turns: the commands it sees until it is ready, and its responses.\<close>

definition hello_cmds :: "nat \<Rightarrow> (nat \<times> u32) list" where
  "hello_cmds i = [(0, 0), (8, 0x1aa)] @ concat (replicate i [(55, 0), (41, 0x40300000)])"

definition setup_cmds :: "u32 \<Rightarrow> (nat \<times> u32) list" where
  "setup_cmds r = [(2, 0), (3, 0x10000), (9, push_bit 16 r), (7, push_bit 16 r), (55, push_bit 16 r), (6, 2),
     (13, push_bit 16 r), (16, 512)]"

definition sdhc_card :: "sd_card \<Rightarrow> nat \<Rightarrow> u32 \<Rightarrow> 128 word \<Rightarrow> bool" where
  "sdhc_card sdc n r w \<longleftrightarrow> (\<forall>cs. sdc cs \<noteq> None) \<and>
     response_of sdc (hello_cmds 0) ! 0 AND 0xff = 0xaa \<and>
     (\<forall>i<n. \<not> bit (response_of sdc (hello_cmds (Suc i)) ! 0) 30 \<and> \<not> bit (response_of sdc (hello_cmds (Suc i)) ! 0) 31) \<and>
     bit (response_of sdc (hello_cmds (Suc n)) ! 0) 30 \<and> bit (response_of sdc (hello_cmds (Suc n)) ! 0) 31 \<and>
     drop_bit 16 (response_of sdc (hello_cmds (Suc n) @ [(2, 0), (3, 0x10000)]) ! 0) = r \<and>
     response_of sdc (hello_cmds (Suc n) @ [(2, 0), (3, 0x10000), (9, push_bit 16 r)]) = shown_csd w \<and>
     csd_field w 126 2 \<noteq> 0"

definition delivers :: "sd_card \<Rightarrow> bool" where
  "delivers sdc \<longleftrightarrow> (\<forall>cs cmd arg. cmd = 17 \<or> cmd = 18 \<longrightarrow> (\<exists>r. sdc (cs @ [(cmd, arg)]) = Some (r, True)))"

text \<open>C21. s3c6410_mmc_init on an SDHC card: on any controller that keeps its contract, whatever it answers elsewhere
  and however late its flags come up, the function returns the size of the card in sectors, keeps the
  address that the card has taken, and the card has seen exactly these commands, in this order.\<close>

theorem sdhc_card_identified:
  assumes "sd_controller host lat sdc" and "lat < 0x20000000" and "n < 50" and "sdhc_card sdc n r w" and "hs_log st = []"
  shows "\<exists>st'. s3c6410_mmc_init host csd_fields hcs st = Some (word_of_nat (csd_bytes w div 512), st') \<and>
    hs_rca st' = r \<and> hs_card_type st' = CARDTYPE_SDHC \<and> movi_hc st' = movi_hc st \<and>
    talks lat sdc (hello_cmds (Suc n) @ setup_cmds r) [] (hs_log st')"
  using sd_controller.init_sdhc [OF assms(1,5,2,3), of "[(55, 0), (41, 0x40300000)]" hello_cmds r w csd_fields hcs] assms(4)
  by (auto simp: sdhc_card_def ends_iff hello_cmds_def setup_cmds_def)

definition demo_sdc :: sd_card where
  "demo_sdc cs = Some
     (case rev cs of
        [] \<Rightarrow> [0, 0, 0, 0]
      | (cmd, arg) # _ \<Rightarrow>
          if cmd = 8 then [0x1aa, 0, 0, 0]
          else if cmd = 41 then [if length cs < 6 then 0x00ff8000 else 0xc0ff8000, 0, 0, 0]
          else if cmd = 3 then [0xb3680500, 0, 0, 0]
          else if cmd = 9 then shown_csd demo_csd
          else [0x900, 0, 0, 0], True)"

lemma demo_sdhc: "sdhc_card demo_sdc 1 0xb368 demo_csd"
proof -
  have r: "replicate 2 x = [x, x]" for x :: "'a" by (simp add: numeral_2_eq_2)
  show ?thesis
    by (simp add: sdhc_card_def hello_cmds_def demo_sdc_def response_of_def demo_csd_fields r)
qed

theorem sdhc_card_identified_witness:
  "\<exists>st'. s3c6410_mmc_init (sim_host 7 demo_sdc) (\<lambda>bs. (0, 0)) 0 fresh_hsmmc = Some (32768, st') \<and> hs_rca st' = 0xb368 \<and>
     talks 7 demo_sdc (hello_cmds 2 @ setup_cmds 0xb368) [] (hs_log st')"
  using sdhc_card_identified [OF sim.sd_controller_axioms _ _ demo_sdhc, of 7 fresh_hsmmc "\<lambda>bs. (0, 0)" 0]
  by (auto simp: fresh_hsmmc_def demo_csd_fields numeral_2_eq_2)

text \<open>C22. Without a card no command but the first is answered: s3c6410_mmc_init gives up with -2 after exactly
  50 attempts, and the board's function reports a negative number.\<close>

theorem no_card_gives_up:
  assumes "sd_controller host lat sdc" and "lat < 0x20000000" and "hs_log st = []"
    and "\<forall>cs c. fst c \<noteq> 0 \<longrightarrow> sdc (cs @ [c]) = None"
  shows "\<exists>st'. sd_card_init_smdk6410 host csd_fields hcs st = Some (- 2, st') \<and>
    talks lat sdc ([(0, 0), (8, 0x1aa)] @ replicate 50 (55, 0)) [] (hs_log st')"
proof -
  have "sdc [(0, 0), (8, 0x1aa)] = None"
    using assms(4) [rule_format, of "(8, 0x1aa)" "[(0, 0)]"] by simp
  moreover have "sdc ([(0, 0), (8, 0x1aa)] @ replicate (Suc i) (55, 0)) = None" for i
    using assms(4) [rule_format, of "(55, 0)" "[(0, 0), (8, 0x1aa)] @ replicate i (55, 0)"]
    by (simp add: replicate_append_same [symmetric])
  ultimately show ?thesis
    using sd_controller.init_no_card [OF assms(1,3,2), of csd_fields hcs]
    by (auto simp: ends_iff sd_card_init_smdk6410_def)
qed

theorem no_card_gives_up_witness:
  "\<exists>st'. sd_card_init_smdk6410 (sim_host 7 (\<lambda>cs. if fst (last cs) = 0 then Some ([0, 0, 0, 0], True) else None))
       (\<lambda>bs. (0, 0)) 0 fresh_hsmmc = Some (- 2, st')"
proof -
  let ?sdc = "\<lambda>cs :: (nat \<times> u32) list. if fst (last cs) = 0 then Some ([0, 0, 0, 0], True) else None"
  have "\<forall>cs c. fst c \<noteq> 0 \<longrightarrow> ?sdc (cs @ [c]) = None" by simp
  then show ?thesis
    using no_card_gives_up [OF sim.sd_controller_axioms, of 7 fresh_hsmmc ?sdc "\<lambda>bs. (0, 0)" 0]
    by (auto simp: fresh_hsmmc_def)
qed

text \<open>A sequence of reads, as a file system makes them.\<close>

primrec read_sequence :: "hw \<Rightarrow> (u32 \<times> u32 \<times> int) list \<Rightarrow> hsmmc \<Rightarrow> (int list \<times> hsmmc) option" where
  "read_sequence host [] st = Some ([], st)"
| "read_sequence host (x # xs) st = do {
     let (buf, start512, blocks512) = x;
     (r, st) \<leftarrow> sd_card_block_read_smdk6410 host buf start512 blocks512 st;
     (rs, st) \<leftarrow> read_sequence host xs st;
     Some (r # rs, st)
   }"

text \<open>The transfers that a sequence of reads of an identified card asks for.\<close>

lemma reads_transfer:
  assumes "sd_controller host lat sdc" and "lat < 0x10000000" and "movi_hc st \<noteq> 0" and "talks lat sdc cs rq (hs_log st)"
    and "\<forall>cs. sdc cs \<noteq> None" and "delivers sdc" and "\<forall>(buf, start, n) \<in> set xs. 0 < n \<and> n < 0x80000000"
  shows "\<exists>st' cs'. read_sequence host xs st = Some (map (\<lambda>(buf, start, n). n) xs, st') \<and>
    talks lat sdc (cs @ cs') (rq @ map (\<lambda>(buf, start, n). bread_request start (word_of_int n) buf) xs) (hs_log st')"
  using assms(3,4,7)
proof (induction xs arbitrary: st cs rq)
  case Nil
  then show ?case by (auto intro!: exI [of _ "[]"])
next
  case (Cons x xs)
  obtain buf start n where x: "x = (buf, start, n)" by (cases x)
  then have n: "0 < n" "n < 0x80000000" using Cons.prems(3) by auto
  let ?c = "if 1 < (word_of_int n :: u32) then 18 else 17"
  let ?cs = "[(13, push_bit 16 (hs_rca st)), (?c, start)]"
  obtain r where "sdc (cs @ ?cs) = Some (r, True)"
    using assms(6) [unfolded delivers_def, rule_format, of ?c "cs @ [(13, push_bit 16 (hs_rca st))]" start]
    by (cases "1 < (word_of_int n :: u32)") auto
  from sd_controller.bread_returns [OF assms(1) Cons.prems(2) assms(2) Cons.prems(1) refl refl _ this, of buf] assms(5)
  obtain log where b: "s3c6410_mmc_bread host start (word_of_int n) buf st =
      Some (word_of_int n, st\<lparr>hs_log := log, HS_DMA_END := 0\<rparr>)"
    and t: "talks lat sdc (cs @ ?cs) (rq @ [bread_request start (word_of_int n) buf]) log" by auto
  have "sint (word_of_int n :: u32) = n"
    using n by (simp add: sint_word_of_int_s32)
  then have r: "sd_card_block_read_smdk6410 host buf start n st = Some (n, st\<lparr>hs_log := log, HS_DMA_END := 0\<rparr>)"
    by (simp add: sd_card_block_read_smdk6410_def b)
  obtain st' cs' where "read_sequence host xs (st\<lparr>hs_log := log, HS_DMA_END := 0\<rparr>) = Some (map (\<lambda>(buf, start, n). n) xs, st')"
      "talks lat sdc ((cs @ ?cs) @ cs') ((rq @ [bread_request start (word_of_int n) buf]) @
        map (\<lambda>(buf, start, n). bread_request start (word_of_int n) buf) xs) (hs_log st')"
    using Cons.IH [of "st\<lparr>hs_log := log, HS_DMA_END := 0\<rparr>" "cs @ ?cs" "rq @ [bread_request start (word_of_int n) buf]"]
      Cons.prems(1,3) t by auto
  then show ?case
    by (intro exI [of _ st'] exI [of _ "?cs @ cs'"]) (simp add: x r)
qed

lemma bread_request_fields:
  fixes start buf :: u32 and n :: int
  assumes "0 < n" "n < 65536"
  defines "q \<equiv> bread_request start (word_of_int n) buf"
  shows "rq_memory q = buf" "rq_block q = start" "uint (rq_count q) = n" "rq_size q = 0x7200"
    "rq_mode q = (if n = 1 then 0x13 else 0x37)" "rq_cmd q = (if n = 1 then 17 else 18)"
proof -
  have u: "uint (word_of_int n :: u32) = n" using assms(1,2) by (simp add: uint_word_of_int_eq take_bit_int_eq_self_iff)
  then have "1 < (word_of_int n :: u32) \<longleftrightarrow> n \<noteq> 1" using assms(1) by (auto simp: word_less_def)
  then show "rq_mode q = (if n = 1 then 0x13 else 0x37)" "rq_cmd q = (if n = 1 then 17 else 18)"
    by (simp_all add: q_def bread_request_def)
  show "uint (rq_count q) = n"
    using assms(1,2) u by (simp add: q_def bread_request_def unsigned_ucast_eq take_bit_int_eq_self_iff)
qed (simp_all add: q_def bread_request_def)

text \<open>C23. Reads of an identified card, each of at least one and fewer than 65536 blocks: every read of a sequence
  returns the number of blocks it was asked for, and the controller has been asked for exactly one transfer
  for each, in this order: to the caller's buffer, from the first block on, of just this number of blocks of
  512 bytes, with the command and the mode of a single read for one block and of a multiple read else.  The
  register of the number has 16 bits: for more blocks the controller is asked for fewer than the function
  says, which the theorem behind the witness shows.\<close>

theorem reads_requested:
  assumes "sd_controller host lat sdc" and "lat < 0x10000000" and "movi_hc st \<noteq> 0" and "talks lat sdc cs rq (hs_log st)"
    and "\<forall>cs. sdc cs \<noteq> None" and "delivers sdc" and "\<forall>(buf, start, n) \<in> set xs. 0 < n \<and> n < 65536"
  shows "\<exists>st' cs' rqs. read_sequence host xs st = Some (map (\<lambda>(buf, start, n). n) xs, st') \<and>
    talks lat sdc (cs @ cs') (rq @ rqs) (hs_log st') \<and>
    list_all2 (\<lambda>(buf, start, n) q. rq_memory q = buf \<and> rq_block q = start \<and> uint (rq_count q) = n \<and> rq_size q = 0x7200 \<and>
      rq_mode q = (if n = 1 then 0x13 else 0x37) \<and> rq_cmd q = (if n = 1 then 17 else 18)) xs rqs"
proof -
  have "\<forall>(buf, start, n) \<in> set xs. 0 < n \<and> n < 0x80000000" using assms(7) by auto
  moreover have "list_all2 (\<lambda>(buf, start, n) q. rq_memory q = buf \<and> rq_block q = start \<and> uint (rq_count q) = n \<and>
      rq_size q = 0x7200 \<and> rq_mode q = (if n = 1 then 0x13 else 0x37) \<and> rq_cmd q = (if n = 1 then 17 else 18)) xs
      (map (\<lambda>(buf, start, n). bread_request start (word_of_int n) buf) xs)"
    using assms(7) bread_request_fields by (fastforce simp: list.rel_map intro!: list.rel_refl_strong)
  ultimately show ?thesis using reads_transfer [OF assms(1-6)] by blast
qed

theorem reads_requested_witness:
  "\<exists>st' cs' q1 q2. read_sequence (sim_host 7 demo_sdc) [(0x50008000, 63, 1), (0x50008200, 100, 64)] fresh_hsmmc = Some ([1, 64], st') \<and>
     talks 7 demo_sdc cs' [q1, q2] (hs_log st') \<and>
     q1 = \<lparr>rq_memory = 0x50008000, rq_block = 63, rq_count = 1, rq_size = 0x7200, rq_mode = 0x13, rq_cmd = 17\<rparr> \<and>
     q2 = \<lparr>rq_memory = 0x50008200, rq_block = 100, rq_count = 64, rq_size = 0x7200, rq_mode = 0x37, rq_cmd = 18\<rparr>"
proof -
  let ?xs = "[(0x50008000, 63, 1), (0x50008200, 100, 64)] :: (u32 \<times> u32 \<times> int) list"
  have card: "delivers demo_sdc" "\<forall>cs. demo_sdc cs \<noteq> None" by (simp_all add: delivers_def demo_sdc_def)
  have st: "movi_hc fresh_hsmmc \<noteq> 0" "talks 7 demo_sdc [] [] (hs_log fresh_hsmmc)" by (simp_all add: fresh_hsmmc_def)
  have xs: "\<forall>(buf, start, n) \<in> set ?xs. 0 < n \<and> n < 65536" by simp
  from reads_requested [OF sim.sd_controller_axioms _ st card(2,1) xs]
  obtain st' cs' rqs where r: "read_sequence (sim_host 7 demo_sdc) ?xs fresh_hsmmc = Some ([1, 64], st')"
      "talks 7 demo_sdc cs' rqs (hs_log st')"
    and rqs: "list_all2 (\<lambda>(buf, start, n) q. rq_memory q = buf \<and> rq_block q = start \<and> uint (rq_count q) = n \<and> rq_size q = 0x7200 \<and>
      rq_mode q = (if n = 1 then 0x13 else 0x37) \<and> rq_cmd q = (if n = 1 then 17 else 18)) ?xs rqs" by auto
  obtain q1 q2 where q: "rqs = [q1, q2]" using rqs by (auto simp: list_all2_Cons1)
  have "rq_count q1 = 1" "rq_count q2 = 64"
    using rqs word_uint_eq_iff [of "rq_count q1" 1] word_uint_eq_iff [of "rq_count q2" 64] unfolding q by simp_all
  then have "q1 = \<lparr>rq_memory = 0x50008000, rq_block = 63, rq_count = 1, rq_size = 0x7200, rq_mode = 0x13, rq_cmd = 17\<rparr>"
    "q2 = \<lparr>rq_memory = 0x50008200, rq_block = 100, rq_count = 64, rq_size = 0x7200, rq_mode = 0x37, rq_cmd = 18\<rparr>"
    using rqs unfolding q by simp_all
  then show ?thesis using r unfolding q by blast
qed

text \<open>A read of 65537 blocks asks for one block, and returns 65537.\<close>

theorem long_read_cut:
  assumes "sd_controller host lat sdc" and "lat < 0x10000000" and "movi_hc st \<noteq> 0" and "talks lat sdc cs rq (hs_log st)"
    and "\<forall>cs. sdc cs \<noteq> None" and "delivers sdc"
  shows "\<exists>st' cs' q. sd_card_block_read_smdk6410 host buf start 65537 st = Some (65537, st') \<and>
    talks lat sdc (cs @ cs') (rq @ [q]) (hs_log st') \<and> rq_memory q = buf \<and> rq_block q = start \<and> rq_count q = 1"
proof -
  have "bread_request start 65537 buf =
      \<lparr>rq_memory = buf, rq_block = start, rq_count = 1, rq_size = 0x7200, rq_mode = 0x37, rq_cmd = 18\<rparr>"
    by (simp add: bread_request_def)
  then show ?thesis
    using reads_transfer [OF assms, of "[(buf, start, 65537)]"] by (fastforce simp: bind_eq_Some_conv)
qed

text \<open>C24. A read whose data do not arrive never returns: the error is printed, and the driver waits for a flag
  that only the end of the transfer sets.\<close>

theorem failed_transfer_hangs:
  assumes "sd_controller host lat sdc" and "0 < lat" and "lat < 0x10000000" and "movi_hc st \<noteq> 0"
    and "talks lat sdc cs rq (hs_log st)" and "sdc (cs @ [(13, push_bit 16 (hs_rca st))]) \<noteq> None"
    and "sdc (cs @ [(13, push_bit 16 (hs_rca st)), (if 1 < blknum then 18 else 17, start_blk)]) = Some (r, False)"
  shows "s3c6410_mmc_bread host start_blk blknum dst st = None"
  by (rule sd_controller.bread_hangs [OF assms(1,5,3,4) refl refl assms(6,7,2)])

theorem failed_transfer_hangs_witness:
  "s3c6410_mmc_bread (sim_host 7 (\<lambda>cs. Some ([0x900, 0, 0, 0], fst (last cs) \<noteq> 17))) 63 1 0x50008000 fresh_hsmmc = None"
  by (rule failed_transfer_hangs [OF sim.sd_controller_axioms, where cs = "[]" and rq = "[]"]) (simp_all add: fresh_hsmmc_def)

end
