(* ===== verification/Uboot_Gpio.thy ===== *)
theory Uboot_Gpio
  imports Prelude
begin

section \<open>u-boot: the pins\<close>

text \<open>
  \<^verbatim>\<open>u-boot/board/samsung/smdk6410/misc.c\<close> and the keys, the lights and the power switch of
  \<^verbatim>\<open>cmd_hhtech.c\<close>.  A pin is \<open>16 * group + number\<close>.  Its configuration, its level and its pull
  resistor are in three registers; the code computes their addresses from three tables.  What a register
  shows when it is read is a parameter: a function of the number of reads so far, the address and the
  value that was written last, so that the level of an input can change from one read to the next.
\<close>

record gpio_regs =
  gp_reg :: "u32 \<Rightarrow> u32"
  gp_reads :: nat

type_synonym pins = "nat \<Rightarrow> u32 \<Rightarrow> u32 \<Rightarrow> u32"

definition readl :: "pins \<Rightarrow> u32 \<Rightarrow> gpio_regs \<Rightarrow> u32 \<times> gpio_regs" where
  "readl pins a g = (pins (gp_reads g) a (gp_reg g a), g\<lparr>gp_reads := gp_reads g + 1\<rparr>)"

definition writel :: "u32 \<Rightarrow> u32 \<Rightarrow> gpio_regs \<Rightarrow> gpio_regs" where
  "writel val a g = g\<lparr>gp_reg := (gp_reg g)(a := val)\<rparr>"

subsection \<open>The registers of a pin\<close>

definition gdat :: "u32 list" where
  "gdat = [4, 4, 4, 4, 4, 4, 4, 8, 4, 4, 8, 8, 4, 4, 4, 4, 4]"

definition gcsz :: "nat list" where
  "gcsz = [4, 4, 4, 4, 4, 2, 4, 4, 2, 2, 4, 4, 4, 2, 2, 2, 2]"

definition gbase :: "u32 list" where
  "gbase = [0x000, 0x020, 0x040, 0x060, 0x080, 0x0A0, 0x0C0, 0x0E0, 0x100, 0x120,
            0x800, 0x810, 0x820, 0x830, 0x140, 0x160, 0x180]"

definition gpio_base :: u32 where "gpio_base = 0x7f008000"

text \<open>\<open>gdat\<close> is indexed by the number of the pin, as in the code.\<close>

definition regconf :: "nat \<Rightarrow> u32" where
  "regconf gpio =
     (let group = gpio div 16; sub = gpio mod 16; r = gpio_base + gbase ! group
      in if gcsz ! group = 4 \<and> 8 \<le> sub then r + 4 else r)"

definition regdat :: "nat \<Rightarrow> u32" where
  "regdat gpio =
     (let group = gpio div 16; sub = gpio mod 16; r = gpio_base + gbase ! group + gdat ! sub
      in if gcsz ! group = 4 then r + 4 else r)"

definition regpud :: "nat \<Rightarrow> u32" where
  "regpud gpio =
     (let group = gpio div 16; sub = gpio mod 16; r = gpio_base + gbase ! group + gdat ! sub + 4
      in if gcsz ! group = 4 then r + 4 else r)"

definition conf_shift :: "nat \<Rightarrow> nat" where
  "conf_shift gpio =
     (let group = gpio div 16; sub = gpio mod 16
      in if gcsz ! group = 4 \<and> 8 \<le> sub then gcsz ! group * (sub - 8) else gcsz ! group * sub)"

definition gpio_direction_set :: "pins \<Rightarrow> nat \<Rightarrow> bool \<Rightarrow> gpio_regs \<Rightarrow> gpio_regs" where
  "gpio_direction_set pins gpio out g =
     (let mask = (if gcsz ! (gpio div 16) = 4 then 0x0f else 0x03);
          (val, g) = readl pins (regconf gpio) g;
          val = val AND NOT (push_bit (conf_shift gpio) mask);
          val = (if out then val OR push_bit (conf_shift gpio) 1 else val);
          g = writel val (regconf gpio) g;
          (val, g) = readl pins (regpud gpio) g;
          val = val AND NOT (push_bit (gpio mod 16 * 2) 3)
      in writel val (regpud gpio) g)"

definition gpio_set_value :: "pins \<Rightarrow> nat \<Rightarrow> bool \<Rightarrow> gpio_regs \<Rightarrow> gpio_regs" where
  "gpio_set_value pins gpio dat g =
     (let (val, g) = readl pins (regdat gpio) g;
          val = (if dat then val OR push_bit (gpio mod 16) 1 else val AND NOT (push_bit (gpio mod 16) 1))
      in writel val (regdat gpio) g)"

definition gpio_get_value :: "pins \<Rightarrow> nat \<Rightarrow> gpio_regs \<Rightarrow> bool \<times> gpio_regs" where
  "gpio_get_value pins gpio g =
     (let (val, g) = readl pins (regdat gpio) g in (val AND push_bit (gpio mod 16) 1 \<noteq> 0, g))"

definition gpio_direction_input :: "pins \<Rightarrow> nat \<Rightarrow> gpio_regs \<Rightarrow> gpio_regs" where
  "gpio_direction_input pins gpio g = gpio_direction_set pins gpio False g"

definition gpio_direction_output :: "pins \<Rightarrow> nat \<Rightarrow> bool \<Rightarrow> gpio_regs \<Rightarrow> gpio_regs" where
  "gpio_direction_output pins gpio dat g = gpio_set_value pins gpio dat (gpio_direction_set pins gpio True g)"

subsection \<open>Keys, lights and power\<close>

record key_info =
  ki_key :: u32
  ki_gpio :: nat
  ki_vtg :: bool

definition KEY_POWER :: u32 where "KEY_POWER = push_bit 4 1"
definition KEY_UP :: u32 where "KEY_UP = push_bit 0 1"
definition KEY_DOWN :: u32 where "KEY_DOWN = push_bit 1 1"
definition KEY_LEFT :: u32 where "KEY_LEFT = push_bit 2 1"
definition KEY_LOCK :: u32 where "KEY_LOCK = push_bit 9 1"
definition KEY_NONE :: u32 where "KEY_NONE = 0"
definition KEY_UPGRADE :: u32 where "KEY_UPGRADE = KEY_UP"
definition KEY_UPGRADE2 :: u32 where "KEY_UPGRADE2 = KEY_LEFT"
definition KEY_UPGRADE3 :: u32 where "KEY_UPGRADE3 = KEY_UP OR KEY_POWER"
definition KEY_POWER_ON :: u32 where "KEY_POWER_ON = KEY_POWER"
definition KEY_FACTORY :: u32 where "KEY_FACTORY = KEY_DOWN OR KEY_POWER"

text \<open>The letter of a group, \<open>'A'\<close> being 0.\<close>

definition gkeys :: "key_info list" where
  "gkeys = [\<lparr>ki_key = KEY_POWER, ki_gpio = 11 * 16 + 14, ki_vtg = False\<rparr>,
            \<lparr>ki_key = KEY_UP, ki_gpio = 13 * 16 + 15, ki_vtg = False\<rparr>,
            \<lparr>ki_key = KEY_DOWN, ki_gpio = 13 * 16 + 12, ki_vtg = False\<rparr>,
            \<lparr>ki_key = KEY_LEFT, ki_gpio = 13 * 16 + 2, ki_vtg = False\<rparr>]"

definition GPIO_DCIN :: nat where "GPIO_DCIN = 11 * 16 + 13"
definition GPIO_GPN13 :: nat where "GPIO_GPN13 = 13 * 16 + 13"
definition GPIO_GPN14 :: nat where "GPIO_GPN14 = 13 * 16 + 14"
definition GPIO_LED_0 :: nat where "GPIO_LED_0 = 13 * 16 + 8"
definition GPIO_LED_1 :: nat where "GPIO_LED_1 = 13 * 16 + 9"
definition GPIO_LCD_BACKLIGHT :: nat where "GPIO_LCD_BACKLIGHT = 5 * 16 + 15"
definition GPIO_POWEROFF :: nat where "GPIO_POWEROFF = 10 * 16 + 15"

definition key_init :: "pins \<Rightarrow> gpio_regs \<Rightarrow> gpio_regs" where
  "key_init pins g = foldl (\<lambda>g k. gpio_direction_input pins (ki_gpio k) g) g gkeys"

fun key_read_loop :: "pins \<Rightarrow> key_info list \<Rightarrow> u32 \<Rightarrow> gpio_regs \<Rightarrow> u32 \<times> gpio_regs" where
  "key_read_loop pins [] key g = (key, g)"
| "key_read_loop pins (k # ks) key g =
     (let (v, g) = gpio_get_value pins (ki_gpio k) g
      in key_read_loop pins ks (if ki_vtg k \<and> v \<or> \<not> ki_vtg k \<and> \<not> v then key OR ki_key k else key) g)"

definition key_read :: "pins \<Rightarrow> gpio_regs \<Rightarrow> u32 \<times> gpio_regs" where
  "key_read pins g = key_read_loop pins gkeys 0 g"

text \<open>The lights are the other way round on a SmartQ 5; a light is on when its pin is low.\<close>

definition set_led :: "pins \<Rightarrow> bool \<Rightarrow> u32 \<Rightarrow> gpio_regs \<Rightarrow> gpio_regs" where
  "set_led pins q5 flag g =
     (let flag = flag AND 3;
          led0 = (if q5 then GPIO_LED_0 else GPIO_LED_1);
          led1 = (if q5 then GPIO_LED_1 else GPIO_LED_0);
          g = gpio_direction_output pins led0 (flag AND 1 = 0) g
      in gpio_direction_output pins led1 (flag AND 2 = 0) g)"

definition set_lcd_backlight :: "pins \<Rightarrow> bool \<Rightarrow> gpio_regs \<Rightarrow> gpio_regs" where
  "set_lcd_backlight pins flag g = gpio_direction_output pins GPIO_LCD_BACKLIGHT flag g"

definition get_dc_status :: "pins \<Rightarrow> bool \<Rightarrow> gpio_regs \<Rightarrow> bool \<times> gpio_regs" where
  "get_dc_status pins q5 g =
     (let (v, g) = gpio_get_value pins GPIO_DCIN g in (if q5 then v else \<not> v, g))"

definition do_poweroff :: "pins \<Rightarrow> bool \<Rightarrow> gpio_regs \<Rightarrow> gpio_regs" where
  "do_poweroff pins q5 g = gpio_direction_output pins GPIO_POWEROFF True (set_led pins q5 0 g)"

subsection \<open>The registers the header file names\<close>

text \<open>The offsets of \<open>GPxCON\<close> (or \<open>GPxCON0\<close>), \<open>GPxDAT\<close> and \<open>GPxPUD\<close> in \<^verbatim>\<open>include/s3c6410.h\<close>, and whether a
  group has the second register \<open>GPxCON1\<close>.\<close>

record gpio_group =
  gg_con :: u32
  gg_two :: bool
  gg_dat :: u32
  gg_pud :: u32

definition gpio_groups :: "gpio_group list" where
  "gpio_groups = map (\<lambda>(c, t, d, p). \<lparr>gg_con = c, gg_two = t, gg_dat = d, gg_pud = p\<rparr>)
    [(0x00, False, 0x04, 0x08), (0x20, False, 0x04, 0x08), (0x40, False, 0x44, 0x48), (0x60, False, 0x64, 0x68),
     (0x80, False, 0x84, 0x88), (0xA0, False, 0xA4, 0xA8), (0xC0, False, 0xC4, 0xC8), (0xE0, True, 0xE8, 0xEC),
     (0x100, False, 0x104, 0x108), (0x120, False, 0x124, 0x128), (0x800, True, 0x808, 0x80C),
     (0x810, True, 0x818, 0x81C), (0x820, False, 0x824, 0x828), (0x830, False, 0x834, 0x838),
     (0x140, False, 0x144, 0x148), (0x160, False, 0x164, 0x168), (0x180, False, 0x184, 0x188)]"

definition right_registers :: "nat \<Rightarrow> bool" where
  "right_registers gpio =
     (let g = gpio_groups ! (gpio div 16)
      in regconf gpio = gpio_base + gg_con g + (if gg_two g \<and> 8 \<le> gpio mod 16 then 4 else 0) \<and>
         regdat gpio = gpio_base + gg_dat g \<and> regpud gpio = gpio_base + gg_pud g)"

definition pins_used :: "nat list" where
  "pins_used = map ki_gpio gkeys @
     [GPIO_DCIN, GPIO_GPN13, GPIO_GPN14, GPIO_LED_0, GPIO_LED_1, GPIO_LCD_BACKLIGHT, GPIO_POWEROFF]"

lemma pins_used_right:
  "list_all (\<lambda>gpio. gpio < 272 \<and> right_registers gpio) pins_used"
  by code_simp

lemma tables:
  "list_all (\<lambda>s. gdat ! s = 4 \<or> gdat ! s = 8) [0..<16]"
  "list_all (\<lambda>g. gcsz ! g = 2 \<or> gcsz ! g = 4) [0..<17]"
  by code_simp+

lemma gdat_cases:
  "list_all (\<lambda>s. s \<in> {7, 10, 11} \<and> gdat ! s = 8 \<or> s \<notin> {7, 10, 11} \<and> gdat ! s = 4) [0..<16]"
  by code_simp

lemma pin_layout:
  assumes "gpio < 272"
  shows "regconf gpio \<noteq> regdat gpio" "regconf gpio \<noteq> regpud gpio" "regdat gpio \<noteq> regpud gpio"
    "conf_shift gpio + gcsz ! (gpio div 16) \<le> 32" "gcsz ! (gpio div 16) = 2 \<or> gcsz ! (gpio div 16) = 4"
proof -
  have "gpio div 16 \<in> set [0..<17]" "gpio mod 16 \<in> set [0..<16]" using assms by auto
  then have t: "gdat ! (gpio mod 16) = 4 \<or> gdat ! (gpio mod 16) = 8" "gcsz ! (gpio div 16) = 2 \<or> gcsz ! (gpio div 16) = 4"
    using tables unfolding list_all_iff by blast+
  show "regconf gpio \<noteq> regdat gpio" "regconf gpio \<noteq> regpud gpio" "regdat gpio \<noteq> regpud gpio"
    using t by (auto simp: regconf_def regdat_def regpud_def Let_def add.assoc)
  show "conf_shift gpio + gcsz ! (gpio div 16) \<le> 32" using t(2) by (auto simp: conf_shift_def Let_def)
  show "gcsz ! (gpio div 16) = 2 \<or> gcsz ! (gpio div 16) = 4" by (rule t(2))
qed

subsection \<open>What the operations do to the registers\<close>

definition reads_back :: "pins \<Rightarrow> nat \<Rightarrow> bool" where
  "reads_back pins gpio \<longleftrightarrow>
     (\<forall>n v. pins n (regconf gpio) v = v \<and> pins n (regdat gpio) v = v \<and> pins n (regpud gpio) v = v)"

definition conf_mask :: "nat \<Rightarrow> u32" where
  "conf_mask gpio = push_bit (conf_shift gpio) (if gcsz ! (gpio div 16) = 4 then 0x0f else 0x03)"

lemma direction_set_regs:
  assumes "reads_back pins gpio" "gpio < 272"
  shows "gp_reg (gpio_direction_set pins gpio out g) =
    (gp_reg g)(regconf gpio := gp_reg g (regconf gpio) AND NOT (conf_mask gpio) OR (if out then push_bit (conf_shift gpio) 1 else 0),
               regpud gpio := gp_reg g (regpud gpio) AND NOT (push_bit (gpio mod 16 * 2) 3))"
  using assms pin_layout [OF assms(2)]
  by (auto simp: gpio_direction_set_def readl_def writel_def reads_back_def conf_mask_def Let_def fun_eq_iff)

lemma set_value_regs:
  assumes "reads_back pins gpio"
  shows "gp_reg (gpio_set_value pins gpio dat g) =
    (gp_reg g)(regdat gpio := (if dat then gp_reg g (regdat gpio) OR push_bit (gpio mod 16) 1
                               else gp_reg g (regdat gpio) AND NOT (push_bit (gpio mod 16) 1)))"
  using assms by (simp add: gpio_set_value_def readl_def writel_def reads_back_def)

lemma mask_bits:
  "(3 :: u32) = mask 2" "(0x0f :: u32) = mask 4"
  by (simp_all add: mask_eq_exp_minus_1)

lemma bit_masks:
  "bit (push_bit k 3 :: u32) i \<longleftrightarrow> k \<le> i \<and> i < k + 2 \<and> i < 32"
  "bit (push_bit k 0x0f :: u32) i \<longleftrightarrow> k \<le> i \<and> i < k + 4 \<and> i < 32"
  unfolding mask_bits by (auto simp: bit_push_bit_iff bit_mask_iff)

lemma conf_mask_bits:
  assumes "gpio < 272"
  shows "bit (conf_mask gpio) i \<longleftrightarrow> conf_shift gpio \<le> i \<and> i < conf_shift gpio + gcsz ! (gpio div 16)"
  using pin_layout(4,5) [OF assms] by (auto simp: conf_mask_def bit_masks)

text \<open>The bits that belong to a pin in the three registers.\<close>

definition pin_bits :: "nat \<Rightarrow> u32 \<Rightarrow> nat \<Rightarrow> bool" where
  "pin_bits gpio a i \<longleftrightarrow>
     a = regconf gpio \<and> conf_shift gpio \<le> i \<and> i < conf_shift gpio + gcsz ! (gpio div 16) \<or>
     a = regdat gpio \<and> i = gpio mod 16 \<or>
     a = regpud gpio \<and> (i = gpio mod 16 * 2 \<or> i = gpio mod 16 * 2 + 1)"

lemma registers_right:
  "gpio < 272 \<Longrightarrow> right_registers gpio \<longleftrightarrow>
     gpio div 16 \<in> {5, 7, 8, 9, 10, 11, 13, 14, 15, 16} \<and> gpio mod 16 \<notin> {7, 10, 11}"
  "\<forall>gpio \<in> set pins_used. gpio < 272 \<and> right_registers gpio"
proof -
  assume "gpio < 272"
  then have g: "gpio div 16 \<in> set [0..<17]" and "gpio mod 16 \<in> set [0..<16]" by auto
  then have d: "gpio mod 16 \<in> {7, 10, 11} \<and> gdat ! (gpio mod 16) = 8 \<or>
      gpio mod 16 \<notin> {7, 10, 11} \<and> gdat ! (gpio mod 16) = 4"
    using gdat_cases unfolding list_all_iff by blast
  have "gpio div 16 \<in> {0, 1, 2, 3, 4, 5, 6, 7, 8, 9, 10, 11, 12, 13, 14, 15, 16}"
  proof -
    have "[0..<17] = [0, 1, 2, 3, 4, 5, 6, 7, 8, 9, 10, 11, 12, 13, 14, 15, 16]" by code_simp
    then show ?thesis using g by (simp only: list.set)
  qed
  then show "right_registers gpio \<longleftrightarrow>
      gpio div 16 \<in> {5, 7, 8, 9, 10, 11, 13, 14, 15, 16} \<and> gpio mod 16 \<notin> {7, 10, 11}"
    using d unfolding right_registers_def regconf_def regdat_def regpud_def gpio_groups_def gcsz_def gbase_def Let_def
    by (elim insertE disjE conjE emptyE) (simp_all add: gpio_base_def)
next
  show "\<forall>gpio \<in> set pins_used. gpio < 272 \<and> right_registers gpio"
    using pins_used_right by (simp add: list_all_iff)
qed

text \<open>
  C32. The addresses that the pin functions compute are those of the header file for every pin of the groups
  whose pins have two bits each (F, I, J, N to Q) and of the groups with two configuration registers
  (H, K, L), except pins 7, 10 and 11 of each; for every other pin one of the three addresses is wrong.
  Every pin that the boot code uses is among the right ones.
\<close>

theorem gpio_registers:
  assumes "gpio < 272"
  shows "(right_registers gpio \<longleftrightarrow>
      gpio div 16 \<in> {5, 7, 8, 9, 10, 11, 13, 14, 15, 16} \<and> gpio mod 16 \<notin> {7, 10, 11}) \<and>
    (gpio \<in> set pins_used \<longrightarrow> right_registers gpio)"
  using registers_right assms by blast

theorem gpio_registers_witness:
  "right_registers GPIO_LED_0 \<and> \<not> right_registers (13 * 16 + 7)"
proof -
  have "GPIO_LED_0 < 272" "GPIO_LED_0 \<in> set pins_used" "(13 * 16 + 7 :: nat) < 272"
    by (simp_all add: GPIO_LED_0_def pins_used_def)
  then have "right_registers GPIO_LED_0" using gpio_registers [of GPIO_LED_0] by blast
  then show ?thesis using gpio_registers [of "13 * 16 + 7"] by simp
qed

text \<open>
  Making a pin an output drives it: for every pin, when the three registers read back what was written,
  the configuration field of the pin is then 1 (output), its data bit is the level asked for, its pull
  resistor is off, and no bit of any register that does not belong to the pin has changed.
\<close>

theorem output_drives_pin:
  assumes "gpio < 272" "reads_back pins gpio"
  shows "take_bit (gcsz ! (gpio div 16)) (drop_bit (conf_shift gpio) (gp_reg (gpio_direction_output pins gpio dat g) (regconf gpio))) = 1"
    and "bit (gp_reg (gpio_direction_output pins gpio dat g) (regdat gpio)) (gpio mod 16) = dat"
    and "take_bit 2 (drop_bit (gpio mod 16 * 2) (gp_reg (gpio_direction_output pins gpio dat g) (regpud gpio))) = 0"
    and "\<not> pin_bits gpio a i \<Longrightarrow>
      bit (gp_reg (gpio_direction_output pins gpio dat g) a) i = bit (gp_reg g a) i"
proof -
  let ?c = "gp_reg g (regconf gpio) AND NOT (conf_mask gpio) OR push_bit (conf_shift gpio) 1"
  let ?d = "if dat then gp_reg g (regdat gpio) OR push_bit (gpio mod 16) 1
            else gp_reg g (regdat gpio) AND NOT (push_bit (gpio mod 16) 1)"
  let ?p = "gp_reg g (regpud gpio) AND NOT (push_bit (gpio mod 16 * 2) 3)"
  have r: "gp_reg (gpio_direction_output pins gpio dat g) =
      (gp_reg g)(regconf gpio := ?c, regdat gpio := ?d, regpud gpio := ?p)"
    using direction_set_regs [OF assms(2,1), of True g] set_value_regs [OF assms(2)] pin_layout(1-3) [OF assms(1)]
    by (auto simp: gpio_direction_output_def fun_eq_iff)
  have s: "gpio mod 16 < 16" by simp
  show "take_bit (gcsz ! (gpio div 16)) (drop_bit (conf_shift gpio) (gp_reg (gpio_direction_output pins gpio dat g) (regconf gpio))) = 1"
    unfolding r using pin_layout(1-5) [OF assms(1)]
    by (auto intro!: bit_word_eqI simp: bit_simps conf_mask_bits [OF assms(1)])
  show "bit (gp_reg (gpio_direction_output pins gpio dat g) (regdat gpio)) (gpio mod 16) = dat"
    unfolding r using pin_layout(3) [OF assms(1)] s by (auto simp: bit_simps)
  show "take_bit 2 (drop_bit (gpio mod 16 * 2) (gp_reg (gpio_direction_output pins gpio dat g) (regpud gpio))) = 0"
    unfolding r using s by (auto intro!: bit_word_eqI simp: bit_masks bit_and_iff bit_not_iff bit_take_bit_iff bit_drop_bit_eq)
  show "bit (gp_reg (gpio_direction_output pins gpio dat g) a) i = bit (gp_reg g a) i" if h: "\<not> pin_bits gpio a i"
  proof -
    consider "a = regconf gpio" | "a = regdat gpio" | "a = regpud gpio"
      | "a \<noteq> regconf gpio" "a \<noteq> regdat gpio" "a \<noteq> regpud gpio" by blast
    then show ?thesis
    proof cases
      case 1
      then have "\<not> bit (conf_mask gpio) i" "\<not> bit (push_bit (conf_shift gpio) 1 :: u32) i"
        using h pin_layout(4,5) [OF assms(1)]
        by (auto simp: pin_bits_def conf_mask_bits [OF assms(1)] bit_exp_iff)
      then show ?thesis unfolding r using 1 pin_layout(1,2) [OF assms(1)] by (auto simp: bit_simps dest: bit_imp_le_length)
    next
      case 2
      then have "i \<noteq> gpio mod 16" using h by (simp add: pin_bits_def)
      then show ?thesis unfolding r using 2 pin_layout(1,3) [OF assms(1)] by (auto simp: bit_simps dest: bit_imp_le_length)
    next
      case 3
      then have "\<not> bit (push_bit (gpio mod 16 * 2) 3 :: u32) i" using h by (auto simp: pin_bits_def bit_masks)
      then show ?thesis unfolding r using 3 pin_layout(2,3) [OF assms(1)]
        by (auto simp: bit_and_iff bit_not_iff dest: bit_imp_le_length)
    qed (simp add: r)
  qed
qed

theorem output_drives_pin_witness:
  "bit (gp_reg (gpio_direction_output (\<lambda>n a v. v) GPIO_POWEROFF True \<lparr>gp_reg = \<lambda>a. 0, gp_reads = 0\<rparr>) (regdat GPIO_POWEROFF)) 15 \<and>
   \<not> bit (gp_reg (gpio_direction_output (\<lambda>n a v. v) GPIO_POWEROFF True \<lparr>gp_reg = \<lambda>a. 0, gp_reads = 0\<rparr>) 0) 0"
proof -
  have r: "reads_back (\<lambda>n a v. v) GPIO_POWEROFF" "GPIO_POWEROFF < 272" "GPIO_POWEROFF mod 16 = 15"
    by (simp_all add: reads_back_def GPIO_POWEROFF_def)
  have "\<not> pin_bits GPIO_POWEROFF 0 0" by code_simp
  then show ?thesis
    using output_drives_pin(2) [OF r(2,1), of True] output_drives_pin(4) [OF r(2,1), of 0 0 True] r(3) by simp
qed

end
