(* ===== verification/Uboot_Bootm.thy ===== *)
theory Uboot_Bootm
  imports Qi_Tags Firmware_Header Uboot_Mmc Uboot_Gpio
begin

section \<open>u-boot: starting an image in memory\<close>

text \<open>
  \<open>do_bootm\<close> of \<^verbatim>\<open>u-boot/common/cmd_bootm.c\<close> and \<open>do_bootm_linux\<close> of \<^verbatim>\<open>u-boot/lib_arm/armlinux.c\<close>, as
  \<^verbatim>\<open>include/configs/smdk6410.h\<close> configures them (zImage and Image boot, no MMU, no bzip2, no data flash,
  tags for memory, command line and initrd).  Memory is the bytes from \<open>MEMORY_BASE_ADDRESS\<close> up to u-boot's
  own; an access outside is \<open>Fault\<close>.  Calls that do not come back are outcomes of their own: a kernel that
  was started, a stand-alone program, another operating system, a reset.  The decompressor is a parameter;
  its CRC-32 is the text of \<^verbatim>\<open>lib_generic/crc32.c\<close>, which is that of \<^verbatim>\<open>qi/src/crc32.c\<close>.
\<close>

subsection \<open>State and outcomes\<close>

text \<open>\<open>u_header\<close> is the global \<open>header\<close>; \<open>u_arch\<close> is \<open>gd->bd->bi_arch_number\<close>; \<open>u_q5\<close> tells which of the two
  names the static \<open>firmware\<close> points to.\<close>

record uboot =
  u_ram :: bytes
  u_env :: "string \<Rightarrow> string option"
  u_header :: bytes
  u_arch :: u32
  u_mmc :: mmc
  u_gpio :: gpio_regs
  u_machType :: u32
  u_q5 :: bool
  u_key_factory :: bool
  u_tick_reads :: nat

datatype 'a outcome =
    Ret 'a uboot
  | Launched u32 u32 u32 uboot \<comment> \<open>entry, machine type, address of the tags\<close>
  | Standalone u32 "string list" uboot
  | Other_os u8 uboot
  | Reset_board uboot
  | Fault

fun and_next :: "'a outcome \<Rightarrow> ('a \<Rightarrow> uboot \<Rightarrow> 'b outcome) \<Rightarrow> 'b outcome" where
  "and_next (Ret a st) f = f a st"
| "and_next (Launched e m p st) f = Launched e m p st"
| "and_next (Standalone e args st) f = Standalone e args st"
| "and_next (Other_os os st) f = Other_os os st"
| "and_next (Reset_board st) f = Reset_board st"
| "and_next Fault f = Fault"

text \<open>\<open>hdr\<close>, \<open>load\<close>: what a partial computation on memory gives, or \<open>Fault\<close>.\<close>

fun or_fault :: "'a option \<Rightarrow> ('a \<Rightarrow> 'b outcome) \<Rightarrow> 'b outcome" where
  "or_fault None f = Fault"
| "or_fault (Some a) f = f a"

definition MEMORY_BASE_ADDRESS :: u32 where "MEMORY_BASE_ADDRESS = 0x50000000"
definition PHYS_SDRAM_1_SIZE :: u32 where "PHYS_SDRAM_1_SIZE = 0x08000000"

text \<open>The place of an address in \<open>u_ram\<close>; an address below the memory wraps around to one behind it.\<close>

definition place :: "u32 \<Rightarrow> nat" where
  "place a = unat (a - MEMORY_BASE_ADDRESS)"

definition load_bytes :: "uboot \<Rightarrow> u32 \<Rightarrow> nat \<Rightarrow> bytes option" where
  "load_bytes st a n = (if place a + n \<le> length (u_ram st) then Some (region (u_ram st) (place a) n) else None)"

definition load_word :: "uboot \<Rightarrow> u32 \<Rightarrow> u32 option" where
  "load_word st a = map_option (\<lambda>bs. get32 bs 0) (load_bytes st a 4)"

definition store_bytes :: "u32 \<Rightarrow> bytes \<Rightarrow> uboot \<Rightarrow> uboot option" where
  "store_bytes a bs st = map_option (\<lambda>ram. st\<lparr>u_ram := ram\<rparr>) (wr (u_ram st) (place a) bs)"

definition getenv :: "uboot \<Rightarrow> string \<Rightarrow> string option" where
  "getenv st name = u_env st name"

definition setenv :: "string \<Rightarrow> string \<Rightarrow> uboot \<Rightarrow> uboot" where
  "setenv name val st = st\<lparr>u_env := (u_env st)(name \<mapsto> val)\<rparr>"

subsection \<open>Numbers in text\<close>

definition char_value :: "char \<Rightarrow> nat option" where
  "char_value c =
     (let n = of_char c :: nat
      in if 48 \<le> n \<and> n \<le> 57 then Some (n - 48)
         else if 97 \<le> n \<and> n \<le> 102 then Some (n - 87)
         else if 65 \<le> n \<and> n \<le> 70 then Some (n - 55) else None)"

fun strtoul_loop :: "nat \<Rightarrow> u32 \<Rightarrow> string \<Rightarrow> u32 \<times> string" where
  "strtoul_loop base result [] = (result, [])"
| "strtoul_loop base result (c # cp) =
     (case char_value c of
        Some value \<Rightarrow>
          if value < base then strtoul_loop base (result * word_of_nat base + word_of_nat value) cp else (result, c # cp)
      | None \<Rightarrow> (result, c # cp))"

text \<open>The number and the rest of the text (\<open>*endp\<close>).\<close>

definition simple_strtoul :: "string \<Rightarrow> nat \<Rightarrow> u32 \<times> string" where
  "simple_strtoul cp base =
     (let (cp, base) =
        (if cp \<noteq> [] \<and> hd cp = CHR ''0'' then
           let cp = tl cp;
               (cp, base) = (if 2 \<le> length cp \<and> cp ! 0 = CHR ''x'' \<and> char_value (cp ! 1) \<noteq> None
                             then (tl cp, 16) else (cp, base))
           in (cp, if base = 0 then 8 else base)
         else (cp, base));
          base = (if base = 0 then 10 else base)
      in strtoul_loop base 0 cp)"

text \<open>\<open>%x\<close> and \<open>%lX\<close> of \<open>sprintf\<close>.\<close>

definition hex_char :: "bool \<Rightarrow> nat \<Rightarrow> char" where
  "hex_char upper d = char_of (if d < 10 then 48 + d else if upper then 55 + d else 87 + d)"

fun hex_text :: "bool \<Rightarrow> nat \<Rightarrow> string" where
  "hex_text upper n = (if n < 16 then [hex_char upper n] else hex_text upper (n div 16) @ [hex_char upper (n mod 16)])"

declare hex_text.simps [simp del]

definition sprintf_0x :: "u32 \<Rightarrow> string" where
  "sprintf_0x a = ''0x'' @ hex_text False (unat a)"

subsection \<open>The tags\<close>

text \<open>A tag has the layout of the first stage's; \<open>params\<close> is its place.\<close>

definition setup_start_tag :: "bytes \<times> nat \<Rightarrow> (bytes \<times> nat) option" where
  "setup_start_tag s = put_tag ATAG_CORE [0, 0, 0] s"

definition setup_memory_tags :: "bytes \<times> nat \<Rightarrow> (bytes \<times> nat) option" where
  "setup_memory_tags s = put_tag ATAG_MEM [PHYS_SDRAM_1_SIZE, MEMORY_BASE_ADDRESS] s"

definition setup_commandline_tag :: "string option \<Rightarrow> bytes \<times> nat \<Rightarrow> (bytes \<times> nat) option" where
  "setup_commandline_tag commandline s =
     (case commandline of
        None \<Rightarrow> Some s
      | Some commandline \<Rightarrow>
          let p = bytes_of_string (dropWhile (\<lambda>c. c = CHR '' '') commandline);
              words = (8 + length p + 1 + 4) div 4
          in if p = [] then Some s
             else do {
               ram \<leftarrow> wr (fst s) (snd s) (put32 (word_of_nat words) @ put32 ATAG_CMDLINE);
               ram \<leftarrow> wr ram (snd s + 8) (p @ [0]);
               Some (ram, snd s + 4 * words) })"

definition setup_initrd_tag :: "u32 \<Rightarrow> u32 \<Rightarrow> bytes \<times> nat \<Rightarrow> (bytes \<times> nat) option" where
  "setup_initrd_tag initrd_start initrd_end s = put_tag ATAG_INITRD2 [initrd_start, initrd_end - initrd_start] s"

definition setup_end_tag :: "bytes \<times> nat \<Rightarrow> bytes option" where
  "setup_end_tag s = wr (fst s) (snd s) (put32 0 @ put32 ATAG_NONE)"

definition setup_tags :: "string option \<Rightarrow> u32 \<Rightarrow> u32 \<Rightarrow> bytes \<Rightarrow> nat \<Rightarrow> bytes option" where
  "setup_tags commandline initrd_start initrd_end ram params =
     do { s \<leftarrow> setup_start_tag (ram, params);
          s \<leftarrow> setup_memory_tags s;
          s \<leftarrow> setup_commandline_tag commandline s;
          s \<leftarrow> (if initrd_start \<noteq> 0 \<and> initrd_end \<noteq> 0 then setup_initrd_tag initrd_start initrd_end s else Some s);
          setup_end_tag s }"

subsection \<open>The header of an image\<close>

definition IH_OS_NETBSD :: u8 where "IH_OS_NETBSD = 2"
definition IH_OS_LINUX :: u8 where "IH_OS_LINUX = 5"
definition IH_OS_RTEMS :: u8 where "IH_OS_RTEMS = 18"
definition IH_CPU_ARM :: u8 where "IH_CPU_ARM = 2"
definition IH_TYPE_STANDALONE :: u8 where "IH_TYPE_STANDALONE = 1"
definition IH_TYPE_KERNEL :: u8 where "IH_TYPE_KERNEL = 2"
definition IH_TYPE_RAMDISK :: u8 where "IH_TYPE_RAMDISK = 3"
definition IH_TYPE_MULTI :: u8 where "IH_TYPE_MULTI = 4"
definition IH_COMP_NONE :: u8 where "IH_COMP_NONE = 0"
definition IH_COMP_GZIP :: u8 where "IH_COMP_GZIP = 1"
definition LINUX_ZIMAGE_MAGIC :: u32 where "LINUX_ZIMAGE_MAGIC = 0x016f2818"

definition ih_hcrc :: "bytes \<Rightarrow> u32" where "ih_hcrc hdr = get32_be hdr 4"
definition ih_load :: "bytes \<Rightarrow> u32" where "ih_load hdr = get32_be hdr 16"
definition ih_ep :: "bytes \<Rightarrow> u32" where "ih_ep hdr = get32_be hdr 20"
definition ih_os :: "bytes \<Rightarrow> u8" where "ih_os hdr = byte_at hdr 28"
definition ih_arch :: "bytes \<Rightarrow> u8" where "ih_arch hdr = byte_at hdr 29"
definition ih_type :: "bytes \<Rightarrow> u8" where "ih_type hdr = byte_at hdr 30"
definition ih_comp :: "bytes \<Rightarrow> u8" where "ih_comp hdr = byte_at hdr 31"

text \<open>\<open>htonl\<close>: a word with its most significant byte first.\<close>

definition put32_be :: "u32 \<Rightarrow> bytes" where
  "put32_be w = rev (put32 w)"

text \<open>\<open>crc32(0, p, len)\<close> over bytes in memory.\<close>

definition crc_of :: "bytes \<Rightarrow> u32" where
  "crc_of bs = crc32 (byte_at bs) 0 0 (length bs)"

text \<open>The header with its CRC field cleared, as it stays in \<open>header\<close>, and whether the CRC was right.\<close>

definition header_crc_ok :: "bytes \<Rightarrow> bool \<times> bytes" where
  "header_crc_ok hdr = (let hdr' = patch hdr 4 (put32 0) in (crc_of hdr' = ih_hcrc hdr, hdr'))"

subsection \<open>Starting Linux\<close>

text \<open>\<open>len_ptr[i]\<close>, in the byte order of the image; a null pointer is a \<open>Fault\<close>.\<close>

definition len_at :: "uboot \<Rightarrow> u32 option \<Rightarrow> nat \<Rightarrow> u32 option" where
  "len_at st len_ptr i = (case len_ptr of None \<Rightarrow> None
     | Some p \<Rightarrow> map_option (\<lambda>bs. get32_be bs 0) (load_bytes st (p + word_of_nat (4 * i)) 4))"

text \<open>\<open>for (i = 1; len_ptr[i]; ++i) data += 4\<close>; the list of lengths ends inside the memory or not at all, so
  that a quarter of the memory is enough fuel.\<close>

fun skip_lengths :: "uboot \<Rightarrow> u32 option \<Rightarrow> nat \<Rightarrow> nat \<Rightarrow> u32 \<Rightarrow> u32 option" where
  "skip_lengths st len_ptr 0 i data = None"
| "skip_lengths st len_ptr (Suc fuel) i data =
     (case len_at st len_ptr i of
        None \<Rightarrow> None
      | Some l \<Rightarrow> if l = 0 then Some data else skip_lengths st len_ptr fuel (i + 1) (data + 4))"

definition skip_all :: "uboot \<Rightarrow> u32 option \<Rightarrow> u32 \<Rightarrow> u32 option" where
  "skip_all st len_ptr data = skip_lengths st len_ptr (length (u_ram st)) 1 data"

text \<open>The initrd that the third argument names: its place and length, or a reset.\<close>

definition load_ramdisk :: "u32 \<Rightarrow> bool \<Rightarrow> uboot \<Rightarrow> (u32 \<times> u32) outcome" where
  "load_ramdisk addr verify st =
     or_fault (load_bytes st addr sizeof_image_header) (\<lambda>hdr.
       let st = st\<lparr>u_header := hdr\<rparr> in
       if get32_be hdr 0 \<noteq> IH_MAGIC then Reset_board st
       else
         let (good, hdr) = header_crc_ok hdr;
             st = st\<lparr>u_header := hdr\<rparr> in
         if \<not> good then Reset_board st
         else
           let data = addr + word_of_nat sizeof_image_header; len = ih_size hdr 0 in
           or_fault (if verify then load_bytes st data (unat len) else Some []) (\<lambda>content.
             if verify \<and> crc_of content \<noteq> ih_dcrc hdr 0 then Reset_board st
             else if ih_os hdr \<noteq> IH_OS_LINUX \<or> ih_arch hdr \<noteq> IH_CPU_ARM \<or> ih_type hdr \<noteq> IH_TYPE_RAMDISK
             then Reset_board st
             else Ret (data, len) st))"

definition find_initrd :: "string list \<Rightarrow> u32 option \<Rightarrow> bool \<Rightarrow> uboot \<Rightarrow> (u32 \<times> u32) outcome" where
  "find_initrd argv len_ptr verify st =
     (if 3 \<le> length argv then load_ramdisk (fst (simple_strtoul (argv ! 2) 16)) verify st
      else if ih_type (u_header st) \<noteq> IH_TYPE_MULTI then Ret (0, 0) st
      else or_fault (len_at st len_ptr 1) (\<lambda>len1.
        if len1 = 0 then Ret (0, 0) st
        else or_fault (len_at st len_ptr 0) (\<lambda>len0.
          or_fault (skip_all st len_ptr (the len_ptr + 8)) (\<lambda>data.
            let data = data + len0;
                tail = len0 mod 4;
                data = (if tail \<noteq> 0 then data + (4 - tail) else data)
            in Ret (data, len1) st))))"

text \<open>The entry is read from the header before an initrd replaces it.\<close>

definition do_bootm_linux :: "string list \<Rightarrow> u32 option \<Rightarrow> bool \<Rightarrow> u32 \<Rightarrow> uboot \<Rightarrow> unit outcome" where
  "do_bootm_linux argv len_ptr verify theKernel st =
     (let commandline = getenv st ''bootargs''
      in and_next (find_initrd argv len_ptr verify st) (\<lambda>(data, len) st.
           let initrd_start = data;
               initrd_end = (if data \<noteq> 0 then data + len else 0);
               params = MEMORY_BASE_ADDRESS + 0x100
           in or_fault (setup_tags commandline initrd_start initrd_end (u_ram st) (place params)) (\<lambda>ram.
                Launched theKernel (u_arch st) params (st\<lparr>u_ram := ram\<rparr>))))"

subsection \<open>do_bootm\<close>

text \<open>
  The switch over the operating system, for every image that got so far.  For a zImage and an Image the
  code sets \<open>ih_os\<close> and \<open>ih_ep\<close> in \<open>header\<close> and leaves its other fields.
\<close>

definition boot_os :: "string list \<Rightarrow> u32 option \<Rightarrow> bool \<Rightarrow> uboot \<Rightarrow> int outcome" where
  "boot_os argv len_ptr verify st =
     (let os = ih_os (u_header st) in
      if os = IH_OS_NETBSD \<or> os = IH_OS_RTEMS then Other_os os st
      else and_next (do_bootm_linux argv len_ptr verify (ih_ep (u_header st)) st) (\<lambda>_ st. Ret 1 st))"

definition bare_header :: "u32 \<Rightarrow> bytes \<Rightarrow> bytes" where
  "bare_header addr hdr = patch (patch hdr 28 [IH_OS_LINUX]) 20 (put32_be addr)"

text \<open>\<open>gunzip\<close>: the bytes that were packed, None when they are damaged or more than \<open>CFG_BOOTM_LEN\<close>.  The result
  is \<open>len\<close> after the step; None: another kind of compression.\<close>

definition unpack_image :: "(bytes \<Rightarrow> bytes option) \<Rightarrow> u32 \<Rightarrow> u32 \<Rightarrow> u32 \<Rightarrow> uboot \<Rightarrow> u32 option outcome" where
  "unpack_image gunzip addr data len st =
     (let hdr = u_header st in
      if ih_comp hdr = IH_COMP_NONE then
        if ih_load hdr = addr then Ret (Some len) st
        else or_fault (load_bytes st data (unat len)) (\<lambda>bs.
          or_fault (store_bytes (ih_load hdr) bs st) (\<lambda>st. Ret (Some len) st))
      else if ih_comp hdr = IH_COMP_GZIP then
        or_fault (load_bytes st data (unat len)) (\<lambda>bs.
          case gunzip bs of
            None \<Rightarrow> Reset_board st
          | Some bs \<Rightarrow> or_fault (store_bytes (ih_load hdr) bs st) (\<lambda>st. Ret (Some (word_of_nat (length bs))) st))
      else Ret None st)"

definition find_kernel :: "string list \<Rightarrow> u32 \<Rightarrow> u32 \<Rightarrow> uboot \<Rightarrow> (u32 \<times> u32) outcome" where
  "find_kernel argv data len st =
     (let hdr = u_header st; len_ptr = Some data in
      if ih_type hdr = IH_TYPE_STANDALONE then
        Ret (data, len) (if 2 < length argv
          then st\<lparr>u_header := patch hdr 16 (put32_be (fst (simple_strtoul (argv ! 2) 16)))\<rparr> else st)
      else if ih_type hdr = IH_TYPE_KERNEL then Ret (data, len) st
      else if ih_type hdr = IH_TYPE_MULTI then
        or_fault (len_at st len_ptr 0) (\<lambda>len.
          or_fault (skip_all st len_ptr (data + 8)) (\<lambda>data. Ret (data, len) st))
      else Fault)"

definition start_kernel_image :: "string list \<Rightarrow> u32 option \<Rightarrow> bool \<Rightarrow> u32 option \<Rightarrow> uboot \<Rightarrow> int outcome" where
  "start_kernel_image argv len_ptr verify ret st =
     (if ret = None then Ret 1 st
      else if ih_type (u_header st) = IH_TYPE_STANDALONE then
        if getenv st ''autostart'' = Some ''no''
        then Ret 0 (setenv ''filesize'' (hex_text True (unat (the ret))) st)
        else Standalone (ih_ep (u_header st)) (tl argv) st
      else boot_os argv len_ptr verify st)"

definition bootm_uimage :: "(bytes \<Rightarrow> bytes option) \<Rightarrow> string list \<Rightarrow> bool \<Rightarrow> u32 \<Rightarrow> uboot \<Rightarrow> int outcome" where
  "bootm_uimage gunzip argv verify addr st =
     (let (good, hdr) = header_crc_ok (u_header st);
          st = st\<lparr>u_header := hdr\<rparr>;
          data = addr + word_of_nat sizeof_image_header;
          len = ih_size hdr 0
      in if \<not> good then Ret 1 st
         else or_fault (if verify then load_bytes st data (unat len) else Some []) (\<lambda>content.
           if verify \<and> crc_of content \<noteq> ih_dcrc hdr 0 then Ret 1 st
           else if ih_arch hdr \<noteq> IH_CPU_ARM then Ret 1 st
           else and_next (find_kernel argv data len st) (\<lambda>(kdata, klen) st.
                and_next (unpack_image gunzip addr kdata klen st) (start_kernel_image argv (Some data) verify))))"

text \<open>An image of another type is a \<open>Fault\<close>: the boot code passes a null pointer for the command, whose name
  is then printed.\<close>

definition do_bootm :: "(bytes \<Rightarrow> bytes option) \<Rightarrow> string list \<Rightarrow> uboot \<Rightarrow> int outcome" where
  "do_bootm gunzip argv st =
     (let verify = (case getenv st ''verify'' of Some (c # _) \<Rightarrow> c \<noteq> CHR ''n'' | _ \<Rightarrow> True);
          addr = (if length argv < 2 then MEMORY_BASE_ADDRESS else fst (simple_strtoul (argv ! 1) 16))
      in or_fault (load_word st (addr + 36)) (\<lambda>magic.
           if magic = LINUX_ZIMAGE_MAGIC
           then boot_os argv None verify (st\<lparr>u_header := bare_header addr (u_header st)\<rparr>)
           else or_fault (load_bytes st addr sizeof_image_header) (\<lambda>hdr.
             if get32_be hdr 0 \<noteq> IH_MAGIC
             then boot_os argv None verify (st\<lparr>u_header := patch (bare_header addr hdr) 31 [IH_COMP_NONE]\<rparr>)
             else bootm_uimage gunzip argv verify addr (st\<lparr>u_header := hdr\<rparr>))))"

subsection \<open>The tags are read back\<close>

definition cmdline_text :: "string \<Rightarrow> bytes" where
  "cmdline_text cl = bytes_of_string (dropWhile (\<lambda>c. c = CHR '' '') cl)"

definition linux_tags :: "u32 \<Rightarrow> u32 \<Rightarrow> bytes \<Rightarrow> (u32 \<times> bytes) list" where
  "linux_tags initrd_start initrd_end body =
     [(ATAG_CORE, concat (map put32 [0, 0, 0])), (ATAG_MEM, concat (map put32 [PHYS_SDRAM_1_SIZE, MEMORY_BASE_ADDRESS])),
      (ATAG_CMDLINE, body)] @
     (if initrd_start \<noteq> 0 \<and> initrd_end \<noteq> 0
      then [(ATAG_INITRD2, concat (map put32 [initrd_start, initrd_end - initrd_start]))] else [])"

lemma commandline_written:
  fixes ram cl
  defines "p \<equiv> cmdline_text cl" and "w \<equiv> (8 + length (cmdline_text cl) + 1 + 4) div 4"
  assumes room: "q + 4 * w \<le> length ram" "length ram < 4294967296" and p: "p \<noteq> []" "0 \<notin> set p"
  shows "\<exists>ram'. setup_commandline_tag (Some cl) (ram, q) = Some (ram', q + 4 * w) \<and> length ram' = length ram \<and>
    cstr_of (region ram' (q + 8) (4 * w - 8)) = p \<and> 0 < w \<and>
    (\<forall>r. holds r q (region ram' q (4 * w)) \<longrightarrow>
       parse_tags (Suc n) r q = (ATAG_CMDLINE, region ram' (q + 8) (4 * w - 8)) # parse_tags n r (q + 4 * w)) \<and>
    (\<forall>a bs. holds ram a bs \<longrightarrow> a + length bs \<le> q \<or> q + 4 * w \<le> a \<longrightarrow> holds ram' a bs)"
proof -
  have w: "8 + length p + 1 \<le> 4 * w" "0 < w" unfolding p_def w_def by linarith+
  let ?h = "put32 (word_of_nat w) @ put32 ATAG_CMDLINE"
  let ?r1 = "patch ram q ?h"
  let ?r2 = "patch ?r1 (q + 8) (p @ [0])"
  have len: "length ?r1 = length ram" "length ?r2 = length ram" using room(1) w by simp_all
  have run: "setup_commandline_tag (Some cl) (ram, q) = Some (?r2, q + 4 * w)"
    using room w p(1) len by (simp add: setup_commandline_tag_def Let_def p_def w_def cmdline_text_def wr_def)
  have h: "holds ?r2 q ?h" "holds ?r2 (q + 8) (p @ [0])"
    using room(1) w len(1) by (auto intro!: holds_patch_other holds_patch_same)
  have str: "cstr_of (region ?r2 (q + 8) (4 * w - 8)) = p"
    using h(2) p(2) w(1) by (intro cmdline_bytes) linarith+
  have u: "unat (word_of_nat w :: u32) = w" using room by (intro unat_word_of_nat32) linarith
  have parse: "parse_tags (Suc n) r q = (ATAG_CMDLINE, region ?r2 (q + 8) (4 * w - 8)) # parse_tags n r (q + 4 * w)"
    if r: "holds r q (region ?r2 q (4 * w))" for r
  proof -
    have rl: "length (region ?r2 q (4 * w)) = 4 * w" using room(1) len(2) by simp
    have g: "get32 (region ?r2 q (4 * w)) 0 = get32 ?h 0" "get32 (region ?r2 q (4 * w)) 4 = get32 ?h 4"
      using get32_holds [OF h(1), of 0] get32_holds [OF h(1), of 4] w by (simp_all add: get32_region)
    have "get32 ?h 0 = word_of_nat w" "get32 ?h 4 = ATAG_CMDLINE"
      by (simp_all add: get32_append_left get32_append_right get32_put32)
    moreover have "get32 r (q + 0) = get32 (region ?r2 q (4 * w)) 0" "get32 r (q + 4) = get32 (region ?r2 q (4 * w)) 4"
      using r rl w by (intro get32_holds; simp)+
    moreover have "region r (q + 8) (4 * w - 8) = region (region ?r2 q (4 * w)) 8 (4 * w - 8)"
      using r rl w by (intro region_holds) simp_all
    moreover have "region (region ?r2 q (4 * w)) 8 (4 * w - 8) = region ?r2 (q + 8) (4 * w - 8)"
      using w by (intro region_region) simp
    ultimately show ?thesis using g u w(2) by (simp add: Let_def)
  qed
  have "holds ?r2 a bs" if "holds ram a bs" "a + length bs \<le> q \<or> q + 4 * w \<le> a" for a bs
    using that room(1) w len(1) by (auto intro!: holds_patch_other)
  then show ?thesis using run len(2) str parse w(2) by blast
qed

lemma initrd_written:
  assumes "q + 24 \<le> length ram"
  shows "\<exists>ram'. (do { s \<leftarrow> (if i \<noteq> 0 \<and> e \<noteq> 0 then setup_initrd_tag i e (ram, q) else Some (ram, q)); setup_end_tag s }) = Some ram' \<and>
    length ram' = length ram \<and>
    parse_tags 2 ram' q = (if i \<noteq> 0 \<and> e \<noteq> 0 then [(ATAG_INITRD2, concat (map put32 [i, e - i]))] else []) \<and>
    (\<forall>a bs. holds ram a bs \<longrightarrow> a + length bs \<le> q \<or> q + 24 \<le> a \<longrightarrow> holds ram' a bs)"
proof -
  have fin: "\<exists>ram'. setup_end_tag (r, k) = Some ram' \<and> length ram' = length r \<and> (\<forall>n. parse_tags (Suc n) ram' k = []) \<and>
      (\<forall>a bs. holds r a bs \<longrightarrow> a + length bs \<le> k \<or> k + 8 \<le> a \<longrightarrow> holds ram' a bs)" if "k + 8 \<le> length r" for r k
  proof -
    let ?e = "put32 0 @ put32 ATAG_NONE"
    have "holds (patch r k ?e) k ?e" using that by (intro holds_patch_same) simp
    then have "get32 (patch r k ?e) (k + 0) = get32 ?e 0" by (intro get32_holds) simp_all
    moreover have "get32 ?e 0 = 0" by (simp add: get32_append_left get32_put32)
    ultimately have "parse_tags (Suc n) (patch r k ?e) k = []" for n by simp
    then show ?thesis using that
      by (intro exI [of _ "patch r k ?e"]) (auto simp: setup_end_tag_def wr_def intro!: holds_patch_other)
  qed
  show ?thesis
  proof (cases "i \<noteq> 0 \<and> e \<noteq> 0")
    case False
    then show ?thesis using fin [of q ram] assms by (auto simp: numeral_2_eq_2)
  next
    case True
    obtain r where r: "setup_initrd_tag i e (ram, q) = Some (r, q + 16)" "holds r q (tag_bytes ATAG_INITRD2 [i, e - i])"
      "length r = length ram" "\<forall>a bs. holds ram a bs \<longrightarrow> a + length bs \<le> q \<or> q + 16 \<le> a \<longrightarrow> holds r a bs"
      using put_tag_step [of ram q "[]" ATAG_INITRD2 "[i, e - i]"] assms by (auto simp: holds_Nil setup_initrd_tag_def)
    obtain ram' where ram': "setup_end_tag (r, q + 16) = Some ram'" "length ram' = length ram"
      "\<forall>n. parse_tags (Suc n) ram' (q + 16) = []"
      "\<forall>a bs. holds r a bs \<longrightarrow> a + length bs \<le> q + 16 \<or> q + 16 + 8 \<le> a \<longrightarrow> holds ram' a bs"
      using fin [of "q + 16" r] assms r(3) by auto
    have "holds ram' q (tag_bytes ATAG_INITRD2 [i, e - i])" using ram'(4) r(2) by simp
    then have "parse_tags 2 ram' q = (ATAG_INITRD2, concat (map put32 [i, e - i])) # parse_tags 1 ram' (q + 16)"
      using parse_tag_num [of ram' q ATAG_INITRD2 "[i, e - i]" 2] by simp
    then show ?thesis using True r(1,4) ram' by (auto simp: One_nat_def simp del: parse_tags.simps)
  qed
qed

lemma setup_tags_ok:
  fixes cl
  defines "p \<equiv> cmdline_text cl"
  assumes room: "pos + 73 + length p \<le> length ram" "length ram < 4294967296" and p: "p \<noteq> []" "0 \<notin> set p"
  shows "\<exists>ram' body. setup_tags (Some cl) i e ram pos = Some ram' \<and> length ram' = length ram \<and>
    parse_tags 5 ram' pos = linux_tags i e body \<and> cstr_of body = p \<and>
    (\<forall>a bs. holds ram a bs \<longrightarrow> a + length bs \<le> pos \<or> pos + 73 + length p \<le> a \<longrightarrow> holds ram' a bs)"
proof -
  let ?c = "tag_bytes ATAG_CORE [0, 0, 0]" and ?m = "tag_bytes ATAG_MEM [PHYS_SDRAM_1_SIZE, MEMORY_BASE_ADDRESS]"
  define w where "w = (8 + length (cmdline_text cl) + 1 + 4) div 4"
  have w: "4 * w \<le> length p + 13" unfolding p_def w_def by linarith
  obtain r1 where r1: "setup_start_tag (ram, pos) = Some (r1, pos + 20)" "holds r1 pos ?c" "length r1 = length ram"
    "\<forall>a bs. holds ram a bs \<longrightarrow> a + length bs \<le> pos \<or> pos + 20 \<le> a \<longrightarrow> holds r1 a bs"
    using put_tag_step [of ram pos "[]" ATAG_CORE "[0, 0, 0]"] room(1) by (auto simp: holds_Nil setup_start_tag_def)
  obtain r2 where r2: "setup_memory_tags (r1, pos + 20) = Some (r2, pos + 36)" "holds r2 (pos + 20) ?m" "length r2 = length ram"
    "\<forall>a bs. holds r1 a bs \<longrightarrow> a + length bs \<le> pos + 20 \<or> pos + 36 \<le> a \<longrightarrow> holds r2 a bs"
    using put_tag_step [of r1 "pos + 20" "[]" ATAG_MEM "[PHYS_SDRAM_1_SIZE, MEMORY_BASE_ADDRESS]"] room(1) r1(3)
    by (auto simp: holds_Nil setup_memory_tags_def)
  obtain r3 where r3: "setup_commandline_tag (Some cl) (r2, pos + 36) = Some (r3, pos + 36 + 4 * w)" "length r3 = length ram"
    "cstr_of (region r3 (pos + 36 + 8) (4 * w - 8)) = p"
    "\<forall>r. holds r (pos + 36) (region r3 (pos + 36) (4 * w)) \<longrightarrow>
       parse_tags (Suc 2) r (pos + 36) = (ATAG_CMDLINE, region r3 (pos + 36 + 8) (4 * w - 8)) # parse_tags 2 r (pos + 36 + 4 * w)"
    "\<forall>a bs. holds r2 a bs \<longrightarrow> a + length bs \<le> pos + 36 \<or> pos + 36 + 4 * w \<le> a \<longrightarrow> holds r3 a bs"
    using commandline_written [of "pos + 36" cl r2, folded p_def w_def, where n = 2] room w r2(3) p by auto
  obtain r4 where r4: "(do { s \<leftarrow> (if i \<noteq> 0 \<and> e \<noteq> 0 then setup_initrd_tag i e (r3, pos + 36 + 4 * w) else Some (r3, pos + 36 + 4 * w));
      setup_end_tag s }) = Some r4" "length r4 = length ram"
    "parse_tags 2 r4 (pos + 36 + 4 * w) = (if i \<noteq> 0 \<and> e \<noteq> 0 then [(ATAG_INITRD2, concat (map put32 [i, e - i]))] else [])"
    "\<forall>a bs. holds r3 a bs \<longrightarrow> a + length bs \<le> pos + 36 + 4 * w \<or> pos + 36 + 4 * w + 24 \<le> a \<longrightarrow> holds r4 a bs"
    using initrd_written [of "pos + 36 + 4 * w" r3 i e] room(1) w r3(2) by auto
  have h: "holds r4 pos ?c" "holds r4 (pos + 20) ?m" using r1(2) r2(2,4) r3(5) r4(4) by simp_all
  have "holds r3 (pos + 36) (region r3 (pos + 36) (4 * w))"
    using room(1) w r3(2) by (simp add: holds_def)
  then have "holds r4 (pos + 36) (region r3 (pos + 36) (4 * w))" using r4(4) by simp
  then have s3: "parse_tags 3 r4 (pos + 36) = (ATAG_CMDLINE, region r3 (pos + 36 + 8) (4 * w - 8)) # parse_tags 2 r4 (pos + 36 + 4 * w)"
    using r3(4) by (simp only: numeral_3_eq_3 numeral_2_eq_2)
  have s1: "parse_tags 5 r4 pos = (ATAG_CORE, concat (map put32 [0, 0, 0])) # parse_tags 4 r4 (pos + 20)"
    using parse_tag_num [OF h(1), of 5] by (simp del: parse_tags.simps)
  have s2: "parse_tags 4 r4 (pos + 20) =
      (ATAG_MEM, concat (map put32 [PHYS_SDRAM_1_SIZE, MEMORY_BASE_ADDRESS])) # parse_tags 3 r4 (pos + 36)"
    using parse_tag_num [OF h(2), of 4] by (simp add: add.assoc del: parse_tags.simps)
  have "parse_tags 5 r4 pos = linux_tags i e (region r3 (pos + 36 + 8) (4 * w - 8))"
    unfolding s1 s2 s3 r4(3) linux_tags_def by simp
  moreover have "setup_tags (Some cl) i e ram pos = Some r4"
    using r1(1) r2(1) r3(1) r4(1) by (simp add: setup_tags_def)
  moreover have "holds r4 a bs" if "holds ram a bs" "a + length bs \<le> pos \<or> pos + 73 + length p \<le> a" for a bs
    using that r1(4) r2(4) r3(5) r4(4) w by auto
  ultimately show ?thesis using r3(3) r4(2) by blast
qed

subsection \<open>Numbers in text are read back\<close>

definition hex_digits :: "string \<Rightarrow> bool" where
  "hex_digits s \<longleftrightarrow> (\<forall>c \<in> set s. char_value c \<noteq> None \<and> the (char_value c) < 16)"

definition hex_number :: "u32 \<Rightarrow> string \<Rightarrow> u32" where
  "hex_number r s = foldl (\<lambda>r c. r * 16 + word_of_nat (the (char_value c))) r s"

lemma strtoul_loop_hex: "hex_digits s \<Longrightarrow> strtoul_loop 16 r s = (hex_number r s, [])"
  by (induction s arbitrary: r) (auto simp: hex_digits_def hex_number_def)

lemma char_value_zero_x: "char_value (CHR ''0'') = Some 0" "char_value (CHR ''x'') = None"
  by (simp_all add: char_value_def)

lemma strtoul_hex:
  assumes "hex_digits s"
  shows "fst (simple_strtoul s 16) = hex_number 0 s"
proof (cases "s \<noteq> [] \<and> hd s = CHR ''0''")
  case False
  then have "simple_strtoul s 16 = strtoul_loop 16 0 s" by (auto simp: simple_strtoul_def Let_def)
  then show ?thesis using strtoul_loop_hex [OF assms] by simp
next
  case True
  then obtain cp where cp: "s = CHR ''0'' # cp" by (cases s) auto
  then have h: "hex_digits cp" using assms by (simp add: hex_digits_def)
  have "\<not> (2 \<le> length cp \<and> cp ! 0 = CHR ''x'')" using h by (cases cp) (auto simp: hex_digits_def char_value_zero_x)
  then have "simple_strtoul s 16 = strtoul_loop 16 0 cp"
    unfolding cp by (auto simp: simple_strtoul_def Let_def)
  then show ?thesis using strtoul_loop_hex [OF h] by (simp add: cp hex_number_def char_value_zero_x)
qed

lemma strtoul_0x:
  assumes "hex_digits s" "s \<noteq> []"
  shows "fst (simple_strtoul (''0x'' @ s) 16) = hex_number 0 s"
proof -
  obtain c cp where s: "s = c # cp" using assms(2) by (cases s) auto
  have "char_value c \<noteq> None" using assms(1) s by (simp add: hex_digits_def)
  then have "simple_strtoul (''0x'' @ s) 16 = strtoul_loop 16 0 s" by (simp add: simple_strtoul_def s Let_def)
  then show ?thesis using strtoul_loop_hex [OF assms(1)] by simp
qed

lemma char_value_hex_char: "d < 16 \<Longrightarrow> char_value (hex_char u d) = Some d"
  by (auto simp: char_value_def hex_char_def Let_def)

lemma hex_text_number: "hex_digits (hex_text u n) \<and> hex_text u n \<noteq> [] \<and> hex_number 0 (hex_text u n) = word_of_nat n"
proof (induction u n rule: hex_text.induct)
  case (1 u n)
  show ?case
  proof (cases "n < 16")
    case True
    then show ?thesis
      by (subst (1 2 3) hex_text.simps) (simp add: hex_digits_def hex_number_def char_value_hex_char)
  next
    case False
    have d: "char_value (hex_char u (n mod 16)) = Some (n mod 16)" by (rule char_value_hex_char) simp
    have t: "hex_text u n = hex_text u (n div 16) @ [hex_char u (n mod 16)]" using False by (subst hex_text.simps) simp
    have "word_of_nat (n div 16) * 16 + word_of_nat (n mod 16) = (word_of_nat (n div 16 * 16 + n mod 16) :: u32)"
      by (simp only: of_nat_add of_nat_mult of_nat_numeral)
    from this [unfolded div_mult_mod_eq] have "hex_number 0 (hex_text u n) = word_of_nat n"
      using 1 [OF False] d unfolding t by (simp add: hex_number_def)
    then show ?thesis using 1 [OF False] d unfolding t by (auto simp: hex_digits_def)
  qed
qed

lemma strtoul_sprintf [simp]: "fst (simple_strtoul (sprintf_0x a) 16) = a"
  using strtoul_0x hex_text_number [of False "unat a"] by (simp add: sprintf_0x_def)

lemma strtoul_hex_text [simp]: "fst (simple_strtoul (hex_text u n) 16) = word_of_nat n"
  using strtoul_hex hex_text_number [of u n] by simp

subsection \<open>A kernel that is started\<close>

lemma place_add:
  assumes "place a + n < 4294967296"
  shows "place (a + word_of_nat n) = place a + n"
proof -
  define b where "b = a - MEMORY_BASE_ADDRESS"
  have n: "unat b + n < 4294967296" using assms by (simp add: place_def b_def)
  have "unat (word_of_nat n :: u32) = n" using n by (intro unat_word_of_nat32) linarith
  then have "unat (b + word_of_nat n) = unat b + n" using n by (simp add: unat_word_ariths)
  moreover have "a + word_of_nat n - MEMORY_BASE_ADDRESS = b + word_of_nat n" by (simp add: b_def)
  ultimately show ?thesis by (simp only: place_def b_def)
qed

lemma place_nonzero: "place a \<le> 134217728 \<Longrightarrow> a \<noteq> 0"
  by (auto simp: place_def MEMORY_BASE_ADDRESS_def)

lemma load_bytes_header [simp]: "load_bytes (st\<lparr>u_header := h\<rparr>) a n = load_bytes st a n"
  by (simp add: load_bytes_def)

lemma load_bytes_holds: "holds (u_ram st) (place a) bs \<Longrightarrow> load_bytes st a (length bs) = Some bs"
  by (simp add: load_bytes_def holds_def)

definition good_ramdisk :: "bytes \<Rightarrow> bool" where
  "good_ramdisk bs \<longleftrightarrow> 64 \<le> length bs \<and> get32_be bs 0 = IH_MAGIC \<and> fst (header_crc_ok (take 64 bs)) \<and>
     unat (ih_size bs 0) = length bs - 64 \<and> crc_of (drop 64 bs) = ih_dcrc bs 0 \<and>
     ih_os bs = IH_OS_LINUX \<and> ih_arch bs = IH_CPU_ARM \<and> ih_type bs = IH_TYPE_RAMDISK"

lemma header_field_take:
  "off + 4 \<le> 64 \<Longrightarrow> get32_be (take 64 bs) off = get32_be bs off"
  "off < 64 \<Longrightarrow> byte_at (take 64 bs) off = byte_at bs off"
  by (auto simp: get32_be_def byte_at_def)

lemma header_field_patch:
  "64 \<le> length bs \<Longrightarrow> 8 \<le> off \<Longrightarrow> get32_be (patch bs 4 (put32 0)) off = get32_be bs off"
  "64 \<le> length bs \<Longrightarrow> 8 \<le> off \<Longrightarrow> byte_at (patch bs 4 (put32 0)) off = byte_at bs off"
  by (auto simp: get32_be_def byte_at_def nth_patch)

lemma load_ramdisk_ok:
  assumes good: "good_ramdisk bs" and at: "holds (u_ram st) (place addr) bs" and ram: "length (u_ram st) \<le> 134217728"
  shows "\<exists>hdr. load_ramdisk addr verify st = Ret (addr + 64, ih_size bs 0) (st\<lparr>u_header := hdr\<rparr>)"
proof -
  have g: "64 \<le> length bs" "get32_be bs 0 = IH_MAGIC" "fst (header_crc_ok (take 64 bs))" "unat (ih_size bs 0) = length bs - 64"
    "crc_of (drop 64 bs) = ih_dcrc bs 0" "ih_os bs = IH_OS_LINUX" "ih_arch bs = IH_CPU_ARM" "ih_type bs = IH_TYPE_RAMDISK"
    using good by (simp_all add: good_ramdisk_def)
  have "holds (u_ram st) (place addr) (take 64 bs @ drop 64 bs)" using at by simp
  then have h: "holds (u_ram st) (place addr) (take 64 bs)" "holds (u_ram st) (place addr + 64) (drop 64 bs)"
    using g(1) by (simp_all add: holds_append del: append_take_drop_id)
  have fits: "place addr + length bs \<le> 134217728" using at ram by (simp add: holds_def)
  have "place (addr + 64) = place addr + 64" using place_add [of addr 64] fits g(1) by simp
  then have l2: "load_bytes st (addr + 64) (length bs - 64) = Some (drop 64 bs)"
    using load_bytes_holds [of st "addr + 64" "drop 64 bs"] h(2) by simp
  have l1: "load_bytes st addr 64 = Some (take 64 bs)" using load_bytes_holds [OF h(1)] g(1) by simp
  let ?hdr = "patch (take 64 bs) 4 (put32 0)"
  have f: "ih_size ?hdr 0 = ih_size bs 0" "ih_dcrc ?hdr 0 = ih_dcrc bs 0" "ih_os ?hdr = ih_os bs"
    "ih_arch ?hdr = ih_arch bs" "ih_type ?hdr = ih_type bs"
    using g(1) by (simp_all add: ih_size_def ih_dcrc_def ih_os_def ih_arch_def ih_type_def header_field_patch header_field_take)
  have m: "get32_be (take 64 bs) 0 = IH_MAGIC" using g(2) by (simp add: header_field_take)
  obtain ok where ok: "header_crc_ok (take 64 bs) = (ok, ?hdr)" "ok" using g(3) by (auto simp: header_crc_ok_def Let_def)
  show ?thesis
    using l1 l2 m ok f g(4-8)
    by (intro exI [of _ ?hdr]) (simp add: load_ramdisk_def sizeof_image_header_def Let_def)
qed

text \<open>The argument and the tags for an initrd.\<close>

definition initrd_args :: "(u32 \<times> bytes) option \<Rightarrow> string list" where
  "initrd_args rd = (case rd of None \<Rightarrow> [] | Some (r, bs) \<Rightarrow> [sprintf_0x r])"

definition initrd_tags :: "(u32 \<times> bytes) option \<Rightarrow> bytes \<Rightarrow> (u32 \<times> bytes) list" where
  "initrd_tags rd body =
     (case rd of None \<Rightarrow> linux_tags 0 0 body
      | Some (r, bs) \<Rightarrow> linux_tags (r + 64) (r + 64 + word_of_nat (length bs - 64)) body)"

definition initrd_there :: "uboot \<Rightarrow> (u32 \<times> bytes) option \<Rightarrow> bool" where
  "initrd_there st rd \<longleftrightarrow>
     (case rd of None \<Rightarrow> ih_type (u_header st) \<noteq> IH_TYPE_MULTI
      | Some (r, bs) \<Rightarrow> good_ramdisk bs \<and> holds (u_ram st) (place r) bs)"

lemma do_bootm_linux_ok:
  fixes cl st
  defines "p \<equiv> cmdline_text cl"
  assumes argv: "length argv = 2" and rd: "initrd_there st rd" and env: "getenv st ''bootargs'' = Some cl"
    and p: "p \<noteq> []" "0 \<notin> set p" and room: "329 + length p \<le> length (u_ram st)" "length (u_ram st) \<le> 134217728"
  shows "\<exists>st' body. do_bootm_linux (argv @ initrd_args rd) len_ptr verify entry st =
      Launched entry (u_arch st) (MEMORY_BASE_ADDRESS + 0x100) st' \<and>
    length (u_ram st') = length (u_ram st) \<and> parse_tags 5 (u_ram st') 0x100 = initrd_tags rd body \<and> cstr_of body = p \<and>
    (\<forall>a bs. holds (u_ram st) a bs \<longrightarrow> 329 + length p \<le> a \<longrightarrow> holds (u_ram st') a bs)"
proof -
  have params: "place (MEMORY_BASE_ADDRESS + 0x100) = 256" by (simp add: place_def)
  obtain data len hdr where found: "find_initrd (argv @ initrd_args rd) len_ptr verify st = Ret (data, len) (st\<lparr>u_header := hdr\<rparr>)"
    and tags: "\<And>body. linux_tags data (if data \<noteq> 0 then data + len else 0) body = initrd_tags rd body"
  proof (cases rd)
    case None
    have "find_initrd (argv @ initrd_args rd) len_ptr verify st = Ret (0, 0) (st\<lparr>u_header := u_header st\<rparr>)"
      using rd argv None by (simp add: find_initrd_def initrd_args_def initrd_there_def)
    then show thesis using that [of 0 0 "u_header st"] None by (simp add: initrd_tags_def)
  next
    case (Some b)
    obtain r bs where b: "b = (r, bs)" by (cases b)
    have good: "good_ramdisk bs" and at: "holds (u_ram st) (place r) bs" using rd Some b by (simp_all add: initrd_there_def)
    obtain hdr where hdr: "load_ramdisk r verify st = Ret (r + 64, ih_size bs 0) (st\<lparr>u_header := hdr\<rparr>)"
      using load_ramdisk_ok [OF good at room(2)] by blast
    have "word_of_nat (unat (ih_size bs 0)) = (word_of_nat (length bs - 64) :: u32)"
      using good by (simp only: good_ramdisk_def)
    then have s: "ih_size bs 0 = word_of_nat (length bs - 64)" "64 \<le> length bs"
      using good by (simp_all only: word_nat_unat good_ramdisk_def)
    have "place r + 64 \<le> 134217728" using at room(2) s(2) by (simp add: holds_def)
    then have "r + 64 \<noteq> 0" using place_add [of r 64] by (intro place_nonzero) simp
    then show thesis
      using that [of "r + 64" "ih_size bs 0" hdr] hdr argv Some b s(1)
      by (simp add: find_initrd_def initrd_args_def initrd_tags_def nth_append)
  qed
  obtain ram' body where ram': "setup_tags (Some cl) data (if data \<noteq> 0 then data + len else 0) (u_ram st) 256 = Some ram'"
    "length ram' = length (u_ram st)" "parse_tags 5 ram' 256 = initrd_tags rd body" "cstr_of body = p"
    "\<forall>a bs. holds (u_ram st) a bs \<longrightarrow> a + length bs \<le> 256 \<or> 256 + 73 + length p \<le> a \<longrightarrow> holds ram' a bs"
  proof -
    have "256 + 73 + length p \<le> length (u_ram st)" "length (u_ram st) < 4294967296" using room by linarith+
    from setup_tags_ok [OF this [unfolded p_def] p [unfolded p_def], of data "if data \<noteq> 0 then data + len else 0"]
    show thesis using that unfolding p_def tags by blast
  qed
  show ?thesis
    using found ram' env params
    by (intro exI [of _ "st\<lparr>u_header := hdr, u_ram := ram'\<rparr>"] exI [of _ body])
      (simp add: do_bootm_linux_def Let_def)
qed

lemma word32_be_bytes:
  "push_bit 24 (ucast (ucast (drop_bit 24 w) :: u8)) OR push_bit 16 (ucast (ucast (drop_bit 16 w) :: u8))
   OR push_bit 8 (ucast (ucast (drop_bit 8 w) :: u8)) OR ucast (ucast w :: u8) = (w :: u32)"
  using word32_of_bytes [of w] by (simp only: or.commute or.left_commute or.assoc)

lemma length_swapped [simp]: "length (put32_be w) = 4"
  by (simp add: put32_be_def)

lemma get32_be_put32_be: "off + 4 \<le> length hdr \<Longrightarrow> get32_be (patch hdr off (put32_be w)) off = w"
proof -
  assume off: "off + 4 \<le> length hdr"
  have "byte_at (patch hdr off (put32_be w)) (off + i) = put32_be w ! i" if "i < 4" for i
    using that off by (simp add: byte_at_def nth_patch put32_be_def)
  from this [of 0] this [of 1] this [of 2] this [of 3]
  show ?thesis by (simp add: get32_be_def put32_be_def put32_def word32_be_bytes)
qed

lemma bare_header_fields:
  assumes "length hdr = 64"
  shows "length (bare_header addr hdr) = 64" "ih_ep (bare_header addr hdr) = addr"
    "ih_os (bare_header addr hdr) = IH_OS_LINUX" "ih_type (bare_header addr hdr) = ih_type hdr"
  using assms by (simp_all add: bare_header_def ih_ep_def ih_os_def ih_type_def get32_be_put32_be byte_at_def nth_patch)

lemma zimage_runs:
  assumes "load_word st (addr + 36) = Some LINUX_ZIMAGE_MAGIC" "length (u_header st) = 64" "initrd_there st rd"
    and "getenv st ''bootargs'' = Some cl" "cmdline_text cl \<noteq> []" "0 \<notin> set (cmdline_text cl)"
    and "329 + length (cmdline_text cl) \<le> length (u_ram st)" "length (u_ram st) \<le> 134217728"
  shows "\<exists>st' body. do_bootm gunzip (''bootm'' # sprintf_0x addr # initrd_args rd) st =
      Launched addr (u_arch st) (MEMORY_BASE_ADDRESS + 0x100) st' \<and>
    parse_tags 5 (u_ram st') 0x100 = initrd_tags rd body \<and> cstr_of body = cmdline_text cl \<and>
    length (u_ram st') = length (u_ram st) \<and>
    (\<forall>a bs. holds (u_ram st) a bs \<longrightarrow> 329 + length (cmdline_text cl) \<le> a \<longrightarrow> holds (u_ram st') a bs)"
proof -
  let ?st = "st\<lparr>u_header := bare_header addr (u_header st)\<rparr>"
  have rd: "initrd_there ?st rd"
    using assms(3) bare_header_fields [OF assms(2), of addr] by (auto simp: initrd_there_def split: option.splits)
  have env: "getenv ?st ''bootargs'' = Some cl" using assms(4) by (simp add: getenv_def)
  have two: "length [''bootm'', sprintf_0x addr] = 2" by simp
  obtain st' body where run: "\<And>v. do_bootm_linux ([''bootm'', sprintf_0x addr] @ initrd_args rd) None v addr ?st =
      Launched addr (u_arch ?st) (MEMORY_BASE_ADDRESS + 0x100) (st' v)"
    "\<And>v. length (u_ram (st' v)) = length (u_ram ?st)" "\<And>v. parse_tags 5 (u_ram (st' v)) 0x100 = initrd_tags rd (body v)"
    "\<And>v. cstr_of (body v) = cmdline_text cl"
    "\<And>v. \<forall>a bs. holds (u_ram ?st) a bs \<longrightarrow> 329 + length (cmdline_text cl) \<le> a \<longrightarrow> holds (u_ram (st' v)) a bs"
    using do_bootm_linux_ok [OF two rd env assms(5,6), of None _ addr] assms(7,8) by simp metis
  define v where "v = (case getenv st ''verify'' of Some (c # _) \<Rightarrow> c \<noteq> CHR ''n'' | _ \<Rightarrow> True)"
  have "IH_OS_LINUX \<noteq> IH_OS_NETBSD" "IH_OS_LINUX \<noteq> IH_OS_RTEMS"
    by (simp_all add: IH_OS_LINUX_def IH_OS_NETBSD_def IH_OS_RTEMS_def)
  then have "do_bootm gunzip (''bootm'' # sprintf_0x addr # initrd_args rd) st =
      Launched addr (u_arch st) (MEMORY_BASE_ADDRESS + 0x100) (st' v)"
    using assms(1) run(1) [of v] bare_header_fields [OF assms(2), of addr]
    by (simp add: do_bootm_def v_def [symmetric] Let_def boot_os_def)
  then show ?thesis using run(2-5) [of v] by auto
qed

text \<open>
  C34. Booting a zImage.  When the word at offset 36 of the image is the magic number of a zImage, do_bootm
  jumps to the start of the image with the machine type that u-boot holds and the address 0x50000100; there
  an independent reader of tag lists finds the core tag, the 128 MB of memory, the command line in
  bootargs without its leading blanks and, when a sound ramdisk image was named, an initrd tag for the
  content behind its 64 byte header.  Memory from behind the tags on is unchanged.
\<close>

theorem zimage_started:
  assumes "load_word st (addr + 36) = Some LINUX_ZIMAGE_MAGIC" "length (u_header st) = 64" "initrd_there st rd"
    and "getenv st ''bootargs'' = Some cl" "cmdline_text cl \<noteq> []" "0 \<notin> set (cmdline_text cl)"
    and "329 + length (cmdline_text cl) \<le> length (u_ram st)" "length (u_ram st) \<le> 134217728"
  shows "\<exists>st' body. do_bootm gunzip (''bootm'' # sprintf_0x addr # initrd_args rd) st =
      Launched addr (u_arch st) (MEMORY_BASE_ADDRESS + 0x100) st' \<and>
    parse_tags 5 (u_ram st') 0x100 = initrd_tags rd body \<and> cstr_of body = cmdline_text cl \<and>
    length (u_ram st') = length (u_ram st) \<and>
    (\<forall>a bs. holds (u_ram st) a bs \<longrightarrow> 329 + length (cmdline_text cl) \<le> a \<longrightarrow> holds (u_ram st') a bs)"
  using assms by (rule zimage_runs)

text \<open>A small memory with a zImage at 0x50000300.\<close>

definition demo_uboot :: uboot where
  "demo_uboot = \<lparr>u_ram = replicate 804 0 @ put32 LINUX_ZIMAGE_MAGIC, u_env = [''bootargs'' \<mapsto> '' quiet''],
     u_header = replicate 64 0, u_arch = 1626, u_mmc = fresh_mmc, u_gpio = \<lparr>gp_reg = (\<lambda>_. 0), gp_reads = 0\<rparr>,
     u_machType = 0, u_q5 = False, u_key_factory = False, u_tick_reads = 0\<rparr>"

lemma demo_uboot_facts:
  "load_word demo_uboot (0x50000300 + 36) = Some LINUX_ZIMAGE_MAGIC" "length (u_header demo_uboot) = 64"
  "initrd_there demo_uboot None" "getenv demo_uboot ''bootargs'' = Some '' quiet''" "cmdline_text '' quiet'' = bytes_of_string ''quiet''"
  "length (u_ram demo_uboot) = 808" "u_arch demo_uboot = 1626" "getenv demo_uboot ''verify'' = None"
proof -
  have "region (replicate 804 0 @ put32 LINUX_ZIMAGE_MAGIC) 804 4 = put32 LINUX_ZIMAGE_MAGIC"
    using region_append_offset [of "replicate 804 0" "put32 LINUX_ZIMAGE_MAGIC" 0 4] by (simp add: region_def)
  then show "load_word demo_uboot (0x50000300 + 36) = Some LINUX_ZIMAGE_MAGIC"
    using get32_put32 [of LINUX_ZIMAGE_MAGIC]
    by (simp add: load_word_def load_bytes_def demo_uboot_def place_def MEMORY_BASE_ADDRESS_def)
qed (simp_all add: demo_uboot_def initrd_there_def ih_type_def byte_at_def IH_TYPE_MULTI_def getenv_def cmdline_text_def)

theorem zimage_started_witness:
  "\<exists>st' body. do_bootm (\<lambda>_. None) [''bootm'', sprintf_0x 0x50000300] demo_uboot = Launched 0x50000300 1626 0x50000100 st' \<and>
     parse_tags 5 (u_ram st') 0x100 = initrd_tags None body \<and> cstr_of body = bytes_of_string ''quiet''"
  using zimage_started [of demo_uboot "0x50000300" None "'' quiet''" "\<lambda>_. None"] demo_uboot_facts
  by (simp add: initrd_args_def bytes_of_string_def MEMORY_BASE_ADDRESS_def) blast

subsection \<open>What is checked before a kernel is started\<close>

lemma launched_cases:
  "or_fault x f = Launched e m p st \<longleftrightarrow> (\<exists>a. x = Some a \<and> f a = Launched e m p st)"
  "and_next r g = Launched e m p st \<longleftrightarrow> r = Launched e m p st \<or> (\<exists>a st'. r = Ret a st' \<and> g a st' = Launched e m p st)"
proof -
  show "or_fault x f = Launched e m p st \<longleftrightarrow> (\<exists>a. x = Some a \<and> f a = Launched e m p st)" by (cases x) auto
qed (cases r; auto)

lemma not_launched:
  "load_ramdisk r verify st \<noteq> Launched e m p st'"
  "find_initrd argv len_ptr verify st \<noteq> Launched e m p st'"
  "unpack_image gunzip addr data len st \<noteq> Launched e m p st'"
proof -
  show r: "load_ramdisk r verify st \<noteq> Launched e m p st'" for r
    by (auto simp: load_ramdisk_def Let_def launched_cases split: if_splits prod.splits)
  show "find_initrd argv len_ptr verify st \<noteq> Launched e m p st'"
    by (auto simp: find_initrd_def launched_cases r Let_def split: if_splits)
  show "unpack_image gunzip addr data len st \<noteq> Launched e m p st'"
    by (auto simp: unpack_image_def launched_cases Let_def split: if_splits option.splits)
qed

lemma ret_cases:
  "or_fault x f = Ret b st \<longleftrightarrow> (\<exists>a. x = Some a \<and> f a = Ret b st)"
  "and_next r g = Ret b st \<longleftrightarrow> (\<exists>a st'. r = Ret a st' \<and> g a st' = Ret b st)"
proof -
  show "or_fault x f = Ret b st \<longleftrightarrow> (\<exists>a. x = Some a \<and> f a = Ret b st)" by (cases x) auto
qed (cases r; auto)

lemma bootm_keeps_arch:
  "load_ramdisk r verify st = Ret a st' \<Longrightarrow> u_arch st' = u_arch st"
  "find_initrd argv len_ptr verify st = Ret a st' \<Longrightarrow> u_arch st' = u_arch st"
  "unpack_image gunzip addr data len st = Ret b st' \<Longrightarrow> u_arch st' = u_arch st \<and> u_header st' = u_header st"
proof -
  show r: "load_ramdisk r verify st = Ret a st' \<Longrightarrow> u_arch st' = u_arch st" for r
    by (auto simp: load_ramdisk_def Let_def ret_cases split: if_splits prod.splits)
  show "find_initrd argv len_ptr verify st = Ret a st' \<Longrightarrow> u_arch st' = u_arch st"
    by (auto simp: find_initrd_def ret_cases Let_def split: if_splits dest: r)
  show "unpack_image gunzip addr data len st = Ret b st' \<Longrightarrow> u_arch st' = u_arch st \<and> u_header st' = u_header st"
    by (auto simp: unpack_image_def ret_cases Let_def store_bytes_def split: if_splits option.splits)
qed

lemma boot_os_launched:
  assumes "boot_os argv len_ptr verify st = Launched e m p st'"
  shows "e = ih_ep (u_header st) \<and> m = u_arch st \<and> p = MEMORY_BASE_ADDRESS + 0x100"
  using assms bootm_keeps_arch(2)
  by (auto simp: boot_os_def do_bootm_linux_def Let_def launched_cases not_launched split: if_splits prod.splits)

text \<open>An image that \<open>do_bootm\<close> starts as it is, and the kernel images in u-boot's own format.\<close>

definition bare_image :: "uboot \<Rightarrow> u32 \<Rightarrow> bool" where
  "bare_image st addr \<longleftrightarrow> load_word st (addr + 36) = Some LINUX_ZIMAGE_MAGIC \<or>
     (\<exists>hdr. load_bytes st addr 64 = Some hdr \<and> get32_be hdr 0 \<noteq> IH_MAGIC)"

definition checked_image :: "uboot \<Rightarrow> u32 \<Rightarrow> bytes \<Rightarrow> bytes \<Rightarrow> bool" where
  "checked_image st addr hdr content \<longleftrightarrow>
     load_bytes st addr 64 = Some hdr \<and> load_bytes st (addr + 64) (unat (ih_size hdr 0)) = Some content \<and>
     get32_be hdr 0 = IH_MAGIC \<and> fst (header_crc_ok hdr) \<and> crc_of content = ih_dcrc hdr 0 \<and>
     ih_arch hdr = IH_CPU_ARM \<and> (ih_type hdr = IH_TYPE_KERNEL \<or> ih_type hdr = IH_TYPE_MULTI) \<and>
     (ih_comp hdr = IH_COMP_NONE \<or> ih_comp hdr = IH_COMP_GZIP)"

lemma header_crc_fields:
  assumes "length hdr = 64" "header_crc_ok hdr = (good, hdr')"
  shows "ih_size hdr' 0 = ih_size hdr 0" "ih_dcrc hdr' 0 = ih_dcrc hdr 0" "ih_arch hdr' = ih_arch hdr"
    "ih_type hdr' = ih_type hdr" "ih_comp hdr' = ih_comp hdr" "ih_ep hdr' = ih_ep hdr" "good = fst (header_crc_ok hdr)"
  using assms by (auto simp: header_crc_ok_def Let_def ih_size_def ih_dcrc_def ih_arch_def ih_type_def ih_comp_def
      ih_ep_def header_field_patch)

lemma find_kernel_ret:
  assumes "find_kernel argv data len st = Ret a st'"
  shows "u_arch st' = u_arch st \<and> ih_type (u_header st) \<in> {IH_TYPE_STANDALONE, IH_TYPE_KERNEL, IH_TYPE_MULTI} \<and>
    (ih_type (u_header st) \<noteq> IH_TYPE_STANDALONE \<longrightarrow> u_header st' = u_header st)"
    and "length (u_header st) = 64 \<Longrightarrow> ih_type (u_header st') = ih_type (u_header st)"
  using assms
  by (auto simp: find_kernel_def Let_def ret_cases ih_type_def byte_at_def nth_patch split: if_splits)

lemma find_kernel_not_launched: "find_kernel argv data len st \<noteq> Launched e m p st'"
  by (auto simp: find_kernel_def Let_def launched_cases)

lemma start_kernel_image_launched:
  assumes "start_kernel_image argv len_ptr verify ret st = Launched e m p st'"
  shows "ret \<noteq> None \<and> ih_type (u_header st) \<noteq> IH_TYPE_STANDALONE \<and>
    e = ih_ep (u_header st) \<and> m = u_arch st \<and> p = MEMORY_BASE_ADDRESS + 0x100"
  using assms boot_os_launched by (auto simp: start_kernel_image_def split: if_splits)

lemma unpack_image_ret:
  "unpack_image gunzip addr data len st = Ret b st' \<Longrightarrow> b \<noteq> None \<Longrightarrow>
   ih_comp (u_header st) = IH_COMP_NONE \<or> ih_comp (u_header st) = IH_COMP_GZIP"
  by (auto simp: unpack_image_def Let_def split: if_splits)

lemma bootm_uimage_launched:
  assumes run: "bootm_uimage gunzip argv True addr (st\<lparr>u_header := hdr\<rparr>) = Launched e m p st'"
    and hdr: "load_bytes st addr 64 = Some hdr" "get32_be hdr 0 = IH_MAGIC"
  shows "(\<exists>content. checked_image st addr hdr content) \<and> e = ih_ep hdr \<and> m = u_arch st \<and> p = MEMORY_BASE_ADDRESS + 0x100"
proof -
  have len: "length hdr = 64" using hdr(1) by (auto simp: load_bytes_def split: if_splits)
  obtain good hdr' where h: "header_crc_ok hdr = (good, hdr')" by (cases "header_crc_ok hdr")
  note f = header_crc_fields [OF len h]
  have len': "length hdr' = 64" using h len by (auto simp: header_crc_ok_def Let_def)
  let ?st = "st\<lparr>u_header := hdr'\<rparr>" and ?data = "addr + 64"
  obtain content where c: "good" "load_bytes st ?data (unat (ih_size hdr 0)) = Some content" "crc_of content = ih_dcrc hdr 0"
    "ih_arch hdr = IH_CPU_ARM"
    and r: "and_next (find_kernel argv ?data (ih_size hdr 0) ?st) (\<lambda>(kdata, klen) st.
              and_next (unpack_image gunzip addr kdata klen st) (start_kernel_image argv (Some ?data) True)) = Launched e m p st'"
    using run h f(1-3) by (auto simp: bootm_uimage_def Let_def sizeof_image_header_def launched_cases(1) split: if_splits)
  from r obtain a st1 where k: "find_kernel argv ?data (ih_size hdr 0) ?st = Ret a st1"
    and r1: "and_next (unpack_image gunzip addr (fst a) (snd a) st1) (start_kernel_image argv (Some ?data) True) = Launched e m p st'"
    unfolding launched_cases(2) [where r = "find_kernel argv ?data (ih_size hdr 0) ?st"]
    by (auto simp: find_kernel_not_launched split_def)
  from r1 obtain b st2 where u: "unpack_image gunzip addr (fst a) (snd a) st1 = Ret b st2"
    and s: "start_kernel_image argv (Some ?data) True b st2 = Launched e m p st'"
    unfolding launched_cases(2) by (auto simp: not_launched(3))
  note s' = start_kernel_image_launched [OF s] and u' = bootm_keeps_arch(3) [OF u]
  have t: "ih_type (u_header st1) = ih_type hdr" using find_kernel_ret(2) [OF k] len' f(4) by simp
  then have ns: "ih_type hdr \<noteq> IH_TYPE_STANDALONE" using s' u' by simp
  then have k': "u_arch st1 = u_arch st" "u_header st1 = hdr'" "ih_type hdr \<in> {IH_TYPE_KERNEL, IH_TYPE_MULTI}"
    using find_kernel_ret(1) [OF k] f(4) by auto
  have "ih_comp hdr = IH_COMP_NONE \<or> ih_comp hdr = IH_COMP_GZIP"
    using unpack_image_ret [OF u] s' k'(2) f(5) by simp
  then have "checked_image st addr hdr content" using hdr c f(7) k'(3) by (auto simp: checked_image_def)
  then show ?thesis using s' u' k' f(6) by auto
qed

text \<open>
  C35. What a started kernel has passed.  When do_bootm starts a kernel from an address and the environment
  does not turn the check off, then either the memory there is a zImage or does not begin with the magic
  number of u-boot's image format, and it is started as it is, without any check; or it is an image whose
  header and content have the check sums that the header gives, for an ARM kernel, stored or packed with
  gzip, and the jump is to the entry in its header.  The machine type is the one u-boot holds.
\<close>

theorem started_image_checked:
  assumes "do_bootm gunzip (c # sprintf_0x addr # args) st = Launched e m p st'"
    and "\<forall>cs. getenv st ''verify'' \<noteq> Some (CHR ''n'' # cs)" "length (u_header st) = 64"
  shows "(bare_image st addr \<and> e = addr \<or> (\<exists>hdr content. checked_image st addr hdr content \<and> e = ih_ep hdr)) \<and>
    m = u_arch st \<and> p = MEMORY_BASE_ADDRESS + 0x100"
proof -
  have v: "(case getenv st ''verify'' of Some (c # _) \<Rightarrow> c \<noteq> CHR ''n'' | _ \<Rightarrow> True) = True"
    using assms(2) by (auto split: option.splits list.splits)
  obtain magic where magic: "load_word st (addr + 36) = Some magic" using assms(1) by (auto simp: do_bootm_def Let_def launched_cases)
  show ?thesis
  proof (cases "magic = LINUX_ZIMAGE_MAGIC")
    case True
    then have "boot_os (c # sprintf_0x addr # args) None True (st\<lparr>u_header := bare_header addr (u_header st)\<rparr>) = Launched e m p st'"
      using assms(1) magic v by (simp add: do_bootm_def Let_def)
    then show ?thesis
      using boot_os_launched bare_header_fields [OF assms(3), of addr] magic True by (fastforce simp: bare_image_def)
  next
    case False
    then obtain hdr where hdr: "load_bytes st addr 64 = Some hdr"
      using assms(1) magic by (auto simp: do_bootm_def Let_def launched_cases sizeof_image_header_def)
    then have len: "length hdr = 64" by (auto simp: load_bytes_def split: if_splits)
    show ?thesis
    proof (cases "get32_be hdr 0 = IH_MAGIC")
      case True
      then have "bootm_uimage gunzip (c # sprintf_0x addr # args) True addr (st\<lparr>u_header := hdr\<rparr>) = Launched e m p st'"
        using assms(1) magic v False hdr by (simp add: do_bootm_def Let_def sizeof_image_header_def)
      then show ?thesis using bootm_uimage_launched [OF _ hdr True] by blast
    next
      case no: False
      then have "boot_os (c # sprintf_0x addr # args) None True (st\<lparr>u_header := patch (bare_header addr hdr) 31 [IH_COMP_NONE]\<rparr>) =
          Launched e m p st'"
        using assms(1) magic v False hdr by (simp add: do_bootm_def Let_def sizeof_image_header_def)
      moreover have "ih_ep (patch (bare_header addr hdr) 31 [IH_COMP_NONE]) = addr"
        using bare_header_fields(1,2) [OF len, of addr] by (simp add: ih_ep_def get32_be_def byte_at_def nth_patch)
      ultimately show ?thesis using boot_os_launched hdr no by (fastforce simp: bare_image_def)
    qed
  qed
qed

theorem started_image_checked_witness:
  "\<exists>st'. do_bootm (\<lambda>_. None) (''bootm'' # sprintf_0x 0x50000300 # []) demo_uboot = Launched 0x50000300 1626 0x50000100 st' \<and>
     (bare_image demo_uboot 0x50000300 \<or> (\<exists>hdr content. checked_image demo_uboot 0x50000300 hdr content))"
proof -
  obtain st' where run: "do_bootm (\<lambda>_. None) (''bootm'' # sprintf_0x 0x50000300 # []) demo_uboot =
      Launched 0x50000300 1626 0x50000100 st'"
    using zimage_runs [of demo_uboot "0x50000300" None "'' quiet''" "\<lambda>_. None"] demo_uboot_facts
    by (auto simp: initrd_args_def bytes_of_string_def MEMORY_BASE_ADDRESS_def)
  then show ?thesis
    using started_image_checked [OF run] demo_uboot_facts(2,8) by auto
qed

end
