(* ===== verification/Uboot_Start.thy ===== *)
theory Uboot_Start
  imports Uboot_Bootm Firmware_Install
begin

section \<open>u-boot: the choice of what to start\<close>

text \<open>
  \<^verbatim>\<open>u-boot/board/samsung/smdk6410/cmd_hhtech.c\<close> as the configuration builds it (\<open>INAND_RW_DIRECT\<close>, NOR
  boot, no MMU, VFAT): the keys decide between the kernel on the iNAND, the installer on the iNAND and the
  installer in a file on the SD card; the firmware copy is read, and the image is handed to \<open>do_bootm\<close>.
  \<open>do_fat_fsload\<close> of \<^verbatim>\<open>common/cmd_fat.c\<close> loads the file.  Parameters are the pins, the cards, the files of
  the FAT file systems (device, partition, name), the decompressor, the timer, the converter of the
  battery voltage and the flash chip.  Delays and messages are left out.
\<close>

record board_env =
  bo_pins :: pins
  bo_probe :: probe
  bo_junk :: mmc_csd
  bo_xfer :: transfer
  bo_fat :: "int \<Rightarrow> u32 \<Rightarrow> string \<Rightarrow> bytes option"
  bo_gunzip :: "bytes \<Rightarrow> bytes option"
  bo_ticks :: "nat \<Rightarrow> u32" \<comment> \<open>the n-th reading of the timer\<close>
  bo_adc :: "nat \<Rightarrow> u32" \<comment> \<open>the n-th conversion\<close>
  bo_flash :: "nat \<Rightarrow> bytes \<Rightarrow> bytes" \<comment> \<open>what the flash holds after the n-th attempt to write\<close>

definition INAND_DEV :: int where "INAND_DEV = 1"
definition INAND_BLOCK :: u32 where "INAND_BLOCK = 512"
definition KERNEL0_BEND :: u32 where "KERNEL0_BEND = push_bit 20 8 div INAND_BLOCK"
definition KERNEL1_BEND :: u32 where "KERNEL1_BEND = push_bit 20 16 div INAND_BLOCK"
definition Q5_file :: string where "Q5_file = ''/SmartQ5''"
definition Q7_file :: string where "Q7_file = ''/SmartQ7''"
definition UBOOTNAME :: string where "UBOOTNAME = ''/u-boot.bin''"
definition MEM_KERNEL_START :: u32 where "MEM_KERNEL_START = 0x50008000"
definition MEM_INITRAMFS :: u32 where "MEM_INITRAMFS = 0x51000000"
definition MEM_READ_FILE :: u32 where "MEM_READ_FILE = 0x54008000"
definition MEM_RDTEST :: u32 where "MEM_RDTEST = 0x52000000"
definition MACH_TYPE_SMDK6410 :: u32 where "MACH_TYPE_SMDK6410 = 1626"

definition firmware :: "uboot \<Rightarrow> string" where
  "firmware st = (if u_q5 st then Q5_file else Q7_file)"

definition is_q5 :: "uboot \<Rightarrow> bool" where
  "is_q5 st \<longleftrightarrow> u_machType st = MACH_TYPE_SMARTQ5"

definition get_mach_type :: "uboot \<Rightarrow> u32" where
  "get_mach_type st = u_machType st"

text \<open>\<open>board_init\<close> of \<^verbatim>\<open>smdk6410.c\<close>: the only place that sets \<open>bi_arch_number\<close>.\<close>

definition board_init :: "uboot \<Rightarrow> uboot" where
  "board_init st = st\<lparr>u_arch := get_mach_type st\<rparr>"

definition on_gpio :: "(gpio_regs \<Rightarrow> gpio_regs) \<Rightarrow> uboot \<Rightarrow> uboot" where
  "on_gpio f st = st\<lparr>u_gpio := f (u_gpio st)\<rparr>"

definition leds :: "board_env \<Rightarrow> u32 \<Rightarrow> uboot \<Rightarrow> uboot" where
  "leds env flag st = on_gpio (set_led (bo_pins env) (is_q5 st) flag) st"

definition poweroff :: "board_env \<Rightarrow> uboot \<Rightarrow> uboot" where
  "poweroff env st = on_gpio (do_poweroff (bo_pins env) (is_q5 st)) st"

definition do_firmware_error :: "board_env \<Rightarrow> uboot \<Rightarrow> uboot" where
  "do_firmware_error env st = poweroff env st"

subsection \<open>The firmware copy on the iNAND\<close>

definition get_dev_mmc :: "board_env \<Rightarrow> int \<Rightarrow> uboot \<Rightarrow> bool \<times> uboot" where
  "get_dev_mmc env d st =
     (let (ok, m) = mmc_get_dev (bo_probe env) (bo_junk env) d (u_mmc st) in (ok, st\<lparr>u_mmc := m\<rparr>))"

text \<open>\<open>desc->block_read\<close> into memory; the structure of a released card holds a null pointer.\<close>

definition block_read :: "board_env \<Rightarrow> u32 \<Rightarrow> u32 \<Rightarrow> u32 \<Rightarrow> uboot \<Rightarrow> uboot option" where
  "block_read env start n a st =
     (if m_dev (u_mmc st) = None then None
      else store_bytes a (mmc_read_block (bo_xfer env) start n (u_mmc st)) st)"

definition desc_lba :: "uboot \<Rightarrow> u32" where
  "desc_lba st = (case m_dev (u_mmc st) of None \<Rightarrow> 0 | Some lba \<Rightarrow> lba)"

definition file_header :: "uboot \<Rightarrow> fw_header option" where
  "file_header st = map_option header_of_bytes (load_bytes st MEM_READ_FILE sizeof_FWFileHdr)"

text \<open>The platform in the header; \<open>machType\<close> follows it unless it is 0.\<close>

definition take_mach_type :: "uboot \<Rightarrow> uboot option" where
  "take_mach_type st =
     do { fh \<leftarrow> file_header st;
          if fh_machType fh = 0 then store_bytes (MEM_READ_FILE + 48) (put32 MACH_TYPE_SMDK6410) st
          else Some (st\<lparr>u_machType := fh_machType fh\<rparr>) }"

definition read_section :: "board_env \<Rightarrow> u32 \<Rightarrow> stanza \<Rightarrow> u32 \<Rightarrow> int \<Rightarrow> uboot \<Rightarrow> int outcome" where
  "read_section env offset_end_inand s a err st =
     (let blk_addr = desc_lba st - offset_end_inand + st_nand_offset s;
          blk_num = st_nand_size s div INAND_BLOCK + 1
      in if push_bit 11 16 < blk_num then Ret err st
         else or_fault (block_read env blk_addr blk_num a st) (Ret 0))"

definition do_read_inand_ub :: "board_env \<Rightarrow> int \<Rightarrow> u32 \<Rightarrow> bool \<Rightarrow> uboot \<Rightarrow> int outcome" where
  "do_read_inand_ub env d offset_end_inand flag st =
     (let (ok, st) = get_dev_mmc env d st in
      if \<not> ok then Ret (- 1) st
      else
        let blk_addr = desc_lba st - offset_end_inand in
        or_fault (store_bytes MEM_READ_FILE (replicate sizeof_FWFileHdr 0) st) (\<lambda>st.
        or_fault (block_read env blk_addr 1 MEM_READ_FILE st) (\<lambda>st.
        or_fault (file_header st) (\<lambda>fh.
          if fh_magic fh \<noteq> HEAD_MAGIC then Ret (- 2) st
          else
            or_fault (take_mach_type st) (\<lambda>st.
              let st = (if fh_machType fh = MACH_TYPE_SMARTQ5 then st\<lparr>u_q5 := True\<rparr> else st) in
              and_next (read_section env offset_end_inand (fh_zimage fh) MEM_KERNEL_START (- 3) st) (\<lambda>ret st.
                if ret \<noteq> 0 \<or> \<not> flag then Ret ret st
                else read_section env offset_end_inand (fh_initramfs fh) MEM_INITRAMFS (- 4) st))))))"

subsection \<open>Starting an image\<close>

definition bootargs_for :: "bool \<Rightarrow> bool \<Rightarrow> string" where
  "bootargs_for factory initramfs =
     (if initramfs then ''console=tty0 nosplash rdinit=/sbin/init''
      else if factory then ''console=ttySAC0,115200n8 root=/dev/mmcblk0p1 rootwait splash factory''
      else ''console=ttySAC0,115200n8 root=/dev/mmcblk0p1 rootwait splash'')"

definition boot_image :: "board_env \<Rightarrow> u32 \<Rightarrow> u32 \<Rightarrow> uboot \<Rightarrow> int outcome" where
  "boot_image env addr addr2 st =
     (let st = setenv ''bootargs'' (bootargs_for (u_key_factory st) (addr2 \<noteq> 0)) st;
          cmd_argv = [''bootm'', sprintf_0x addr] @ (if addr2 \<noteq> 0 then [sprintf_0x addr2] else []);
          st = st\<lparr>u_mmc := mmc_release_dev (u_mmc st)\<rparr>
      in do_bootm (bo_gunzip env) cmd_argv st)"

text \<open>\<open>do_read_inand(...) || boot_image(...)\<close>: whether one of them failed.\<close>

definition try_inand :: "board_env \<Rightarrow> u32 \<Rightarrow> bool \<Rightarrow> uboot \<Rightarrow> bool outcome" where
  "try_inand env bend flag st =
     and_next (do_read_inand_ub env INAND_DEV bend flag st) (\<lambda>ret st.
       if ret \<noteq> 0 then Ret True st
       else and_next (boot_image env MEM_KERNEL_START (if flag then MEM_INITRAMFS else 0) st) (\<lambda>ret st.
         Ret (ret \<noteq> 0) st))"

subsection \<open>A file on the SD card\<close>

text \<open>\<open>fatload mmc dev:part addr name [count]\<close>; nonzero is an error.  A count of 0 reads the whole file.\<close>

definition do_fat_fsload :: "board_env \<Rightarrow> string list \<Rightarrow> uboot \<Rightarrow> bool outcome" where
  "do_fat_fsload env argv st =
     (if length argv < 5 \<or> take 3 (argv ! 1) \<noteq> ''mmc'' then Ret True st
      else
        let (d, ep) = simple_strtoul (argv ! 2) 16;
            (ok, st) = get_dev_mmc env (sint d) st
        in if \<not> ok then Ret True st
           else if ep \<noteq> [] \<and> hd ep \<noteq> CHR '':'' then Ret True st
           else
             let part = (if ep \<noteq> [] then fst (simple_strtoul (tl ep) 16) else 1) in
             if m_dev (u_mmc st) = None then Ret True st
             else case bo_fat env (sint d) part (argv ! 4) of
                 None \<Rightarrow> Ret True st
               | Some content \<Rightarrow>
                   let count = (if length argv = 6 then unat (fst (simple_strtoul (argv ! 5) 16)) else 0);
                       bs = (if count \<noteq> 0 then take count content else content)
                   in or_fault (store_bytes (fst (simple_strtoul (argv ! 3) 16)) bs st) (\<lambda>st.
                        Ret False (setenv ''filesize'' (hex_text True (length bs)) st)))"

definition load_sd_file :: "board_env \<Rightarrow> int \<Rightarrow> string \<Rightarrow> u32 \<Rightarrow> u32 \<Rightarrow> uboot \<Rightarrow> int outcome" where
  "load_sd_file env d file addr sz st =
     (let cmd_argv = (\<lambda>part. [''fatload'', ''mmc'', dec_int d @ part, sprintf_0x addr, file, sprintf_0x sz]);
          got = (\<lambda>st. case getenv st ''filesize'' of
                    None \<Rightarrow> Fault
                  | Some s \<Rightarrow> Ret (sint (fst (simple_strtoul s 16))) st)
      in and_next (do_fat_fsload env (cmd_argv '':1'') st) (\<lambda>err st.
           if \<not> err then got st
           else and_next (do_fat_fsload env (cmd_argv '':0'') st) (\<lambda>err st.
             if err then Ret (- 2) st else got st)))"

definition copy_bytes :: "u32 \<Rightarrow> u32 \<Rightarrow> u32 \<Rightarrow> uboot \<Rightarrow> uboot option" where
  "copy_bytes dst src n st = do { bs \<leftarrow> load_bytes st src (unat n); store_bytes dst bs st }"

text \<open>The result of \<open>load_sd_file\<close> is only looked at when it is positive.\<close>

definition do_readsd_upgrade :: "board_env \<Rightarrow> int \<Rightarrow> string \<Rightarrow> uboot \<Rightarrow> int outcome" where
  "do_readsd_upgrade env d file st =
     or_fault (store_bytes MEM_READ_FILE (replicate sizeof_FWFileHdr 0) st) (\<lambda>st.
     and_next (load_sd_file env d file MEM_READ_FILE INAND_BLOCK st) (\<lambda>sz st.
     or_fault (file_header st) (\<lambda>fh.
       if 0 < sz \<and> fh_magic fh \<noteq> HEAD_MAGIC then Ret (- 2) st
       else
         or_fault (take_mach_type st) (\<lambda>st.
           let last = (if st_file_offset (fh_zimage fh) < st_file_offset (fh_initramfs fh)
                       then fh_initramfs fh else fh_zimage fh) in
           and_next (load_sd_file env d file MEM_READ_FILE (st_file_offset last + st_file_size last) st) (\<lambda>sz st.
             or_fault (file_header st) (\<lambda>fh.
               if 0 < sz \<and> fh_magic fh \<noteq> HEAD_MAGIC then Ret (- 2) st
               else
                 or_fault (copy_bytes MEM_KERNEL_START (MEM_READ_FILE + st_file_offset (fh_zimage fh))
                             (st_file_size (fh_zimage fh)) st) (\<lambda>st.
                 or_fault (file_header st) (\<lambda>fh.
                 or_fault (copy_bytes MEM_INITRAMFS (MEM_READ_FILE + st_file_offset (fh_initramfs fh))
                             (st_file_size (fh_initramfs fh)) st) (\<lambda>st.
                   and_next (boot_image env MEM_KERNEL_START MEM_INITRAMFS st) (\<lambda>_ st. Ret 0 st))))))))))"

subsection \<open>Start and upgrade\<close>

definition do_start_firmware :: "board_env \<Rightarrow> bool \<Rightarrow> uboot \<Rightarrow> int outcome" where
  "do_start_firmware env flag st =
     (case getenv st ''stop'' of
        Some (CHR ''y'' # _) \<Rightarrow> Ret 0 st
      | _ \<Rightarrow>
          and_next (try_inand env KERNEL1_BEND False st) (\<lambda>failed st.
          and_next (if failed then try_inand env KERNEL0_BEND False st else Ret False st) (\<lambda>failed st.
            let ret = (if failed then - 1 else 0) in
            and_next (if flag then do_readsd_upgrade env 0 (firmware st) st else Ret 0 st) (\<lambda>_ st.
              Ret ret (if ret \<noteq> 0 then do_firmware_error env st else st)))))"

definition do_upgrade :: "board_env \<Rightarrow> bool \<Rightarrow> uboot \<Rightarrow> int outcome" where
  "do_upgrade env flag st =
     and_next (if flag
       then and_next (try_inand env KERNEL1_BEND True st) (\<lambda>failed st.
              if failed then try_inand env KERNEL0_BEND True st else Ret False st)
       else Ret False st) (\<lambda>_ st.
     and_next (do_readsd_upgrade env 0 (firmware st) st) (\<lambda>_ st. Ret 0 st))"

subsection \<open>Writing u-boot itself\<close>

text \<open>\<open>for (i = 0; i < len/4 - 1; i++) check += pp[i]\<close>, with an unsigned \<open>i\<close>: for fewer than four bytes the
  bound is -1 and the loop runs out of the memory.\<close>

fun word_sum :: "uboot \<Rightarrow> u32 \<Rightarrow> nat \<Rightarrow> nat \<Rightarrow> u32 \<Rightarrow> u32 option" where
  "word_sum st addr i 0 check = Some check"
| "word_sum st addr i (Suc n) check =
     do { w \<leftarrow> load_word st (addr + word_of_nat (4 * i)); word_sum st addr (i + 1) n (check + w) }"

text \<open>\<open>len & 0x3 != 0\<close> is \<open>len & (0x3 != 0)\<close>.\<close>

definition file_check_sum :: "u32 \<Rightarrow> int \<Rightarrow> uboot \<Rightarrow> int option" where
  "file_check_sum addr len st =
     (if (word_of_int len :: u32) AND 1 \<noteq> 0 then Some (- 1)
      else
        let last = unat (word_of_int (cdiv len 4 - 1) :: u32) in
        do { check \<leftarrow> word_sum st addr 0 last 0;
             w \<leftarrow> load_word st (addr + word_of_nat (4 * last));
             Some (if check = w then 0 else - 1) })"

text \<open>The attempt to write, and up to three more when what is read back has the wrong sum; \<open>err\<close> counts.\<close>

fun write_uboot :: "board_env \<Rightarrow> int \<Rightarrow> nat \<Rightarrow> nat \<Rightarrow> uboot \<Rightarrow> int outcome" where
  "write_uboot env len n tries st =
     or_fault (load_bytes st MEM_READ_FILE (nat len)) (\<lambda>bs.
     or_fault (store_bytes MEM_RDTEST (bo_flash env n bs) st) (\<lambda>st.
     or_fault (file_check_sum MEM_RDTEST len st) (\<lambda>ret.
       if ret = 0 then Ret 0 st
       else case tries of 0 \<Rightarrow> Ret 0 st | Suc tries \<Rightarrow> write_uboot env len (n + 1) tries st)))"

definition do_boot_upgrade :: "board_env \<Rightarrow> int \<Rightarrow> uboot \<Rightarrow> int outcome" where
  "do_boot_upgrade env param st =
     and_next (load_sd_file env param UBOOTNAME MEM_READ_FILE 0 st) (\<lambda>len st.
       if len < 0 then Ret (- 1) st
       else or_fault (file_check_sum MEM_READ_FILE len st) (\<lambda>ret.
         if ret \<noteq> 0 then Ret (- 1) st else write_uboot env len 0 3 st))"

subsection \<open>The keys at power on\<close>

definition read_keys :: "board_env \<Rightarrow> uboot \<Rightarrow> u32 \<times> uboot" where
  "read_keys env st = (let (key, g) = key_read (bo_pins env) (u_gpio st) in (key, st\<lparr>u_gpio := g\<rparr>))"

definition dc_status :: "board_env \<Rightarrow> uboot \<Rightarrow> bool \<times> uboot" where
  "dc_status env st =
     (let (on, g) = get_dc_status (bo_pins env) (is_q5 st) (u_gpio st) in (on, st\<lparr>u_gpio := g\<rparr>))"

definition get_ticks :: "board_env \<Rightarrow> uboot \<Rightarrow> u32 \<times> uboot" where
  "get_ticks env st = (bo_ticks env (u_tick_reads st), st\<lparr>u_tick_reads := u_tick_reads st + 1\<rparr>)"

text \<open>One pass of the loop: the keys are read and served; the result is the value of \<open>key\<close>.\<close>

definition serve_key :: "board_env \<Rightarrow> uboot \<Rightarrow> u32 outcome" where
  "serve_key env st =
     (let st = st\<lparr>u_key_factory := False\<rparr>;
          (key, st) = read_keys env st
      in if key = KEY_UPGRADE \<or> key = KEY_UPGRADE3 then
           and_next (do_upgrade env False (leds env 3 st)) (\<lambda>_ st. Ret 0 (poweroff env st))
         else if key = KEY_UPGRADE2 then
           and_next (do_upgrade env True (leds env 3 st)) (\<lambda>_ st. Ret 0 (poweroff env st))
         else if key = KEY_FACTORY then Ret key (leds env 1 (st\<lparr>u_key_factory := True\<rparr>))
         else if key = KEY_POWER_ON then Ret 1 (leds env 1 st)
         else if key = KEY_NONE then
           (let (dc, st) = dc_status env st;
                st = (if \<not> dc then poweroff env st else st)
            in Ret 0 (leds env 1 st))
         else Ret 0 (poweroff env st))"

text \<open>\<open>goto ReRead\<close> until 1000 ticks have passed; the first argument bounds the passes, None is more of them.\<close>

fun press_key_loop :: "nat \<Rightarrow> board_env \<Rightarrow> u32 \<Rightarrow> uboot \<Rightarrow> u32 option outcome" where
  "press_key_loop 0 env start_tick st = Ret None st"
| "press_key_loop (Suc fuel) env start_tick st =
     and_next (serve_key env st) (\<lambda>key st.
       let (cur_tick, st) = get_ticks env st
       in if cur_tick - start_tick < 1000 then press_key_loop fuel env start_tick st else Ret (Some key) st)"

definition press_key :: "nat \<Rightarrow> board_env \<Rightarrow> uboot \<Rightarrow> u32 option outcome" where
  "press_key fuel env st =
     (let (_, st) = read_keys env st;
          (start_tick, st) = get_ticks env st
      in press_key_loop fuel env start_tick st)"

definition battery_probe :: "board_env \<Rightarrow> uboot \<Rightarrow> uboot" where
  "battery_probe env st =
     (let (dc, st) = dc_status env st in
      if dc then st
      else
        let powerflag = foldl (\<lambda>_ i. bo_adc env i AND 0xFFF < 2192) False [0..<5]
        in if powerflag then poweroff env (foldl (\<lambda>st flag. leds env flag st) st [2, 0, 2, 0, 2, 0, 2, 0]) else st)"

text \<open>The result of \<open>press_key\<close> is compared with -1, which it never is.\<close>

definition init_hard_last :: "nat \<Rightarrow> board_env \<Rightarrow> int \<Rightarrow> int \<Rightarrow> uboot \<Rightarrow> int option outcome" where
  "init_hard_last fuel env flag param st =
     (let inp = (\<lambda>gpio. on_gpio (gpio_direction_input (bo_pins env) gpio));
          st = on_gpio (key_init (bo_pins env)) (inp GPIO_GPN14 (inp GPIO_GPN13 (inp GPIO_DCIN st)))
      in if flag = 1 \<and> param = 1 then and_next (do_upgrade env False st) (\<lambda>_ st. Ret (Some 0) st)
         else if flag = 2 then and_next (do_boot_upgrade env param st) (\<lambda>_ st. Ret (Some 0) st)
         else case getenv st ''stop'' of
             Some (CHR ''y'' # _) \<Rightarrow> Ret (Some 0) st
           | _ \<Rightarrow>
               and_next (press_key fuel env (battery_probe env st)) (\<lambda>key st.
                 Ret (map_option (\<lambda>key. if key = - 1 then - 1 else 0) key) st))"

text \<open>The end of \<open>start_armboot\<close> in \<^verbatim>\<open>lib_arm/board.c\<close>: \<open>space\<close> tells whether a blank was typed.  False: the
  function returns instead of entering the command loop.\<close>

definition start_armboot_end :: "nat \<Rightarrow> board_env \<Rightarrow> bool \<Rightarrow> uboot \<Rightarrow> bool option outcome" where
  "start_armboot_end fuel env space st =
     (if space then Ret (Some True) (st\<lparr>u_env := (u_env st)(''bootcmd'' := None)\<rparr>)
      else and_next (init_hard_last fuel env 0 0 st) (\<lambda>r st.
        case r of
          None \<Rightarrow> Ret None st
        | Some r \<Rightarrow> if r = 0 then and_next (do_start_firmware env True st) (\<lambda>_ st. Ret (Some True) st)
                    else Ret (Some False) st))"

end
