(* ===== verification/Uboot_Props.thy ===== *)
theory Uboot_Props
  imports Uboot_Start Qi_Start
begin

section \<open>u-boot: from the device to the kernel\<close>

text \<open>
  The properties of the boot code: what \<open>do_read_inand\<close> leaves in memory when the installer's copies are on
  the device, which kernel is started then and with what, and what happens when a copy is damaged or the
  first attempt fails.
\<close>

subsection \<open>A device that answers\<close>

text \<open>The iNAND is found, or is selected already, and holds the bytes \<open>d\<close>.\<close>

definition inand_ready :: "board_env \<Rightarrow> bytes \<Rightarrow> uboot \<Rightarrow> bool" where
  "inand_ready env d st \<longleftrightarrow>
     (\<exists>m. mmc_get_dev (bo_probe env) (bo_junk env) INAND_DEV (u_mmc st) = (True, m) \<and> selected (bo_xfer env) INAND_DEV d m)"

lemma selected_ready:
  "selected (bo_xfer env) INAND_DEV d (u_mmc st) \<Longrightarrow> inand_ready env d st"
  by (simp add: inand_ready_def mmc_get_dev_def selected_def)

text \<open>A copy of the firmware at byte \<open>B\<close>: header, kernel and initramfs at the places of the installer.\<close>

definition firmware_copy :: "bytes \<Rightarrow> nat \<Rightarrow> fw_header \<Rightarrow> bytes \<Rightarrow> bytes \<Rightarrow> bool" where
  "firmware_copy d B fh z i \<longleftrightarrow> B mod 512 = 0 \<and> B + 8388608 \<le> length d \<and> header_of_bytes (region d B 176) = fh \<and>
     fh_magic fh = HEAD_MAGIC \<and>
     st_nand_offset (fh_zimage fh) = 514 \<and> unat (st_nand_size (fh_zimage fh)) = length z \<and>
     length z \<le> 1833984 \<and> region d (B + 263168) (length z) = z \<and>
     st_nand_offset (fh_initramfs fh) = 4096 \<and> unat (st_nand_size (fh_initramfs fh)) = length i \<and>
     length i \<le> 6282240 \<and> region d (B + 2097152) (length i) = i"

lemma device_read_ok:
  assumes "selected (bo_xfer env) ch d (u_mmc st)" "0 < n" "n < 65536" "512 * (unat start + unat n) \<le> length d"
    and "place a + 512 * unat n \<le> length (u_ram st)"
  shows "block_read env start n a st = Some (st\<lparr>u_ram := patch (u_ram st) (place a) (region d (512 * unat start) (512 * unat n))\<rparr>)"
  using assms by (simp add: block_read_def selected_def store_bytes_def wr_def distrib_left)

lemma block_count:
  fixes sz :: u32
  assumes "unat sz = n" "n \<le> 6282240"
  shows "unat (sz div INAND_BLOCK + 1) = n div 512 + 1" "n \<le> 512 * (n div 512 + 1)"
    "sz div INAND_BLOCK + 1 \<le> push_bit 11 16" "0 < sz div INAND_BLOCK + 1" "sz div INAND_BLOCK + 1 < 65536"
proof -
  have d: "n div 512 \<le> 12270" using assms(2) div_le_mono [of n 6282240 512] by simp
  show u: "unat (sz div INAND_BLOCK + 1) = n div 512 + 1"
    using assms(1) d by (simp add: INAND_BLOCK_def unat_word_ariths unat_div_distrib)
  show "n \<le> 512 * (n div 512 + 1)"
    using mult_div_mod_eq [of 512 n] mod_less_divisor [of 512 n] unfolding distrib_left by linarith
  show "sz div INAND_BLOCK + 1 \<le> push_bit 11 16" "0 < sz div INAND_BLOCK + 1" "sz div INAND_BLOCK + 1 < 65536"
    unfolding word_le_nat_alt word_less_nat_alt u using d by simp_all
qed

lemma read_section_ok:
  assumes sel: "selected (bo_xfer env) ch d (u_mmc st)"
    and pos: "unat (desc_lba st - off) = B div 512" "B mod 512 = 0"
    and s: "unat (st_nand_offset s) = k" "unat (st_nand_size s) = n" "n \<le> 6282240" "k \<le> 4096" "B + 512 * k + n + 512 \<le> length d"
    and ram: "place a + n + 512 \<le> length (u_ram st)"
  shows "\<exists>bs. read_section env off s a err st = Ret 0 (st\<lparr>u_ram := patch (u_ram st) (place a) bs\<rparr>) \<and>
    length bs \<le> n + 512 \<and> take n bs = region d (B + 512 * k) n \<and> n \<le> length bs"
proof -
  note c = block_count [OF s(2,3)]
  let ?bs = "region d (B + 512 * k) (512 * (n div 512 + 1))"
  have B: "512 * (B div 512) = B" using pos(2) by auto
  have len: "length d < 2199023255552" using sel by (simp add: selected_def)
  have st: "unat (desc_lba st - off + st_nand_offset s) = B div 512 + k"
    using pos(1) s(1,4,5) len B by (simp add: unat_word_ariths)
  have n: "512 * (n div 512 + 1) \<le> n + 512" by simp
  have fits: "512 * (B div 512 + k + (n div 512 + 1)) \<le> length d" using s(5) n B unfolding distrib_left by linarith
  have "\<not> push_bit 11 16 < st_nand_size s div INAND_BLOCK + 1" using c(3) by (simp add: not_less)
  moreover have "block_read env (desc_lba st - off + st_nand_offset s) (st_nand_size s div INAND_BLOCK + 1) a st =
      Some (st\<lparr>u_ram := patch (u_ram st) (place a) ?bs\<rparr>)"
    using device_read_ok [OF sel c(4,5), of "desc_lba st - off + st_nand_offset s" a] st c(1) fits n ram B
    by (simp add: distrib_left)
  ultimately have "read_section env off s a err st = Ret 0 (st\<lparr>u_ram := patch (u_ram st) (place a) ?bs\<rparr>)"
    by (simp add: read_section_def Let_def)
  moreover have "length ?bs = 512 * (n div 512 + 1)" using fits B unfolding distrib_left by (simp add: distrib_left)
  moreover have "take n ?bs = region d (B + 512 * k) n" using c(2) by (simp add: min_absorb1)
  ultimately show ?thesis using n c(2) by (intro exI [of _ ?bs]) simp
qed

subsection \<open>Reading a copy\<close>

lemma places:
  "place MEM_READ_FILE = 67141632" "place MEM_KERNEL_START = 32768" "place MEM_INITRAMFS = 16777216"
  by (simp_all add: place_def MEM_READ_FILE_def MEM_KERNEL_START_def MEM_INITRAMFS_def MEMORY_BASE_ADDRESS_def)

text \<open>The parts of the state that reading does not touch.\<close>

definition same_boot :: "uboot \<Rightarrow> uboot \<Rightarrow> bool" where
  "same_boot st st' \<longleftrightarrow> u_env st' = u_env st \<and> u_header st' = u_header st \<and> u_arch st' = u_arch st \<and>
     u_key_factory st' = u_key_factory st \<and> length (u_ram st') = length (u_ram st)"

lemma same_boot_trans: "same_boot st st' \<Longrightarrow> same_boot st' st'' \<Longrightarrow> same_boot st st''"
  by (simp add: same_boot_def)

lemma header_in_ram:
  assumes "176 \<le> length bs" "67141632 + length bs \<le> length (u_ram st)" "u_ram st' = patch (u_ram st) 67141632 bs"
  shows "file_header st' = Some (header_of_bytes (take 176 bs))"
proof -
  have "region (patch (u_ram st) 67141632 bs) 67141632 176 = take 176 (region (patch (u_ram st) 67141632 bs) 67141632 (length bs))"
    using assms(1) by (simp add: min_absorb1)
  also have "\<dots> = take 176 bs" using assms(2) by (simp only: region_patch_same)
  finally show ?thesis
    using assms by (simp add: file_header_def load_bytes_def places sizeof_FWFileHdr_def)
qed

lemma take_mach_type_ok:
  assumes "file_header st = Some fh" "67142144 \<le> length (u_ram st)"
  shows "\<exists>st'. take_mach_type st = Some st' \<and> same_boot st st' \<and> u_mmc st' = u_mmc st \<and>
    (\<forall>a bs. a + length bs \<le> 67141632 \<longrightarrow> holds (u_ram st) a bs \<longrightarrow> holds (u_ram st') a bs)"
proof (cases "fh_machType fh = 0")
  case False
  then show ?thesis using assms(1) by (simp add: take_mach_type_def same_boot_def)
next
  case True
  have "place (MEM_READ_FILE + 48) = 67141680" by (simp add: place_def MEM_READ_FILE_def MEMORY_BASE_ADDRESS_def)
  then show ?thesis using True assms
    by (auto simp: take_mach_type_def store_bytes_def wr_def same_boot_def intro!: holds_patch_other)
qed

lemma holds_patch_prefix:
  assumes "pos + length bs \<le> length ram" "take n bs = c" "n = length c" "n \<le> length bs"
  shows "holds (patch ram pos bs) pos c"
proof -
  have "region (patch ram pos bs) pos n = take n (region (patch ram pos bs) pos (length bs))"
    using assms(4) by (simp add: min_absorb1)
  also have "\<dots> = c" using assms(1,2) by (simp only: region_patch_same)
  finally show ?thesis using assms by (simp add: holds_def)
qed

lemma header_read_ok:
  assumes ready: "inand_ready env d st" and c: "B mod 512 = 0" "B + 8388608 \<le> length d" "header_of_bytes (region d B 176) = fh"
    and pos: "unat (word_of_nat (length d div 512) - off :: u32) = B div 512"
    and ram: "67142144 \<le> length (u_ram st)"
  shows "\<exists>st1 st2 st3. get_dev_mmc env INAND_DEV st = (True, st1) \<and>
    store_bytes MEM_READ_FILE (replicate sizeof_FWFileHdr 0) st1 = Some st2 \<and>
    block_read env (desc_lba st1 - off) 1 MEM_READ_FILE st2 = Some st3 \<and> file_header st3 = Some fh \<and>
    same_boot st st3 \<and> selected (bo_xfer env) INAND_DEV d (u_mmc st3) \<and> u_mmc st3 = u_mmc st1"
proof -
  obtain m where m: "mmc_get_dev (bo_probe env) (bo_junk env) INAND_DEV (u_mmc st) = (True, m)" "selected (bo_xfer env) INAND_DEV d m"
    using ready by (auto simp: inand_ready_def)
  let ?st1 = "st\<lparr>u_mmc := m\<rparr>"
  let ?st2 = "?st1\<lparr>u_ram := patch (u_ram st) 67141632 (replicate 176 0)\<rparr>"
  let ?bs = "region d B 512"
  let ?st3 = "?st2\<lparr>u_ram := patch (u_ram ?st2) 67141632 ?bs\<rparr>"
  have B: "512 * (B div 512) = B" using c(1) by auto
  have lba: "desc_lba ?st1 = word_of_nat (length d div 512)" using m(2) by (simp add: desc_lba_def selected_def)
  have g: "get_dev_mmc env INAND_DEV st = (True, ?st1)" using m(1) by (simp add: get_dev_mmc_def)
  have s: "store_bytes MEM_READ_FILE (replicate sizeof_FWFileHdr 0) ?st1 = Some ?st2"
    using ram by (simp add: store_bytes_def wr_def places sizeof_FWFileHdr_def)
  have b: "block_read env (desc_lba ?st1 - off) 1 MEM_READ_FILE ?st2 = Some ?st3"
    using device_read_ok [of env INAND_DEV d ?st2 1 "desc_lba ?st1 - off" MEM_READ_FILE] m(2) lba pos B c(2) ram
    by (simp add: places distrib_left)
  have f: "file_header ?st3 = Some fh"
    using header_in_ram [of ?bs ?st2 ?st3] c(2,3) ram by (simp add: min_absorb1)
  have same: "same_boot st ?st3" using ram c(2) by (simp add: same_boot_def)
  have sel: "selected (bo_xfer env) INAND_DEV d (u_mmc ?st3)" "u_mmc ?st3 = u_mmc ?st1" using m(2) by simp_all
  show ?thesis using g s b f same sel by blast
qed

lemma do_read_inand_ub_ok:
  assumes ready: "inand_ready env d st" and copy: "firmware_copy d B fh z i"
    and pos: "unat (word_of_nat (length d div 512) - off :: u32) = B div 512"
    and ram: "67142144 \<le> length (u_ram st)"
  shows "\<exists>st'. do_read_inand_ub env INAND_DEV off flag st = Ret 0 st' \<and> same_boot st st' \<and>
    holds (u_ram st') 32768 z \<and> (flag \<longrightarrow> holds (u_ram st') 16777216 i) \<and> selected (bo_xfer env) INAND_DEV d (u_mmc st')"
proof -
  obtain st1 st2 st3 where r: "get_dev_mmc env INAND_DEV st = (True, st1)"
    "store_bytes MEM_READ_FILE (replicate sizeof_FWFileHdr 0) st1 = Some st2"
    "block_read env (desc_lba st1 - off) 1 MEM_READ_FILE st2 = Some st3" "file_header st3 = Some fh"
    "same_boot st st3" "selected (bo_xfer env) INAND_DEV d (u_mmc st3)" "u_mmc st3 = u_mmc st1"
  proof -
    have "B mod 512 = 0" "B + 8388608 \<le> length d" "header_of_bytes (region d B 176) = fh"
      using copy by (simp_all add: firmware_copy_def)
    from header_read_ok [OF ready this pos ram] show thesis using that by blast
  qed
  have c: "B mod 512 = 0" "B + 8388608 \<le> length d" "fh_magic fh = HEAD_MAGIC"
    "st_nand_offset (fh_zimage fh) = 514" "unat (st_nand_size (fh_zimage fh)) = length z" "length z \<le> 1833984"
    "region d (B + 263168) (length z) = z"
    "st_nand_offset (fh_initramfs fh) = 4096" "unat (st_nand_size (fh_initramfs fh)) = length i" "length i \<le> 6282240"
    "region d (B + 2097152) (length i) = i"
    using copy by (simp_all add: firmware_copy_def)
  have l3: "67142144 \<le> length (u_ram st3)" using ram r(5) by (simp add: same_boot_def)
  obtain st4 where t: "take_mach_type st3 = Some st4" "same_boot st3 st4" "u_mmc st4 = u_mmc st3"
    using take_mach_type_ok [OF r(4) l3] by blast
  define st5 where "st5 = (if fh_machType fh = MACH_TYPE_SMARTQ5 then st4\<lparr>u_q5 := True\<rparr> else st4)"
  have s5: "same_boot st st5" "selected (bo_xfer env) INAND_DEV d (u_mmc st5)"
    using same_boot_trans [OF r(5) t(2)] r(6) t(3) by (simp_all add: st5_def same_boot_def)
  have l5: "length (u_ram st5) = length (u_ram st)" using s5(1) by (simp add: same_boot_def)
  have lba: "unat (desc_lba st5 - off) = B div 512" using s5(2) pos by (simp add: desc_lba_def selected_def)
  obtain bs where k: "read_section env off (fh_zimage fh) MEM_KERNEL_START (- 3) st5 = Ret 0 (st5\<lparr>u_ram := patch (u_ram st5) 32768 bs\<rparr>)"
    "length bs \<le> length z + 512" "take (length z) bs = z" "length z \<le> length bs"
    using read_section_ok [OF s5(2) lba c(1), of "fh_zimage fh" 514 "length z" MEM_KERNEL_START "- 3"] c l5 ram
    by (auto simp: places)
  define st6 where "st6 = st5\<lparr>u_ram := patch (u_ram st5) 32768 bs\<rparr>"
  have fit6: "32768 + length bs \<le> length (u_ram st5)" using k(2) c(6) l5 ram by linarith
  have s6: "same_boot st st6" "selected (bo_xfer env) INAND_DEV d (u_mmc st6)" "holds (u_ram st6) 32768 z"
    using s5 fit6 holds_patch_prefix [OF fit6 k(3) refl k(4)] by (simp_all add: st6_def same_boot_def)
  have run: "do_read_inand_ub env INAND_DEV off flag st =
      (if \<not> flag then Ret 0 st6 else read_section env off (fh_initramfs fh) MEM_INITRAMFS (- 4) st6)"
    using r(1-4) t(1) c(3) k(1) by (simp add: do_read_inand_ub_def Let_def st5_def [symmetric] st6_def [symmetric])
  show ?thesis
  proof (cases flag)
    case False
    then show ?thesis using run s6 by auto
  next
    case True
    have l6: "length (u_ram st6) = length (u_ram st)" using s6(1) by (simp add: same_boot_def)
    have lba6: "unat (desc_lba st6 - off) = B div 512" using s6(2) pos by (simp add: desc_lba_def selected_def)
    obtain bs where i: "read_section env off (fh_initramfs fh) MEM_INITRAMFS (- 4) st6 = Ret 0 (st6\<lparr>u_ram := patch (u_ram st6) 16777216 bs\<rparr>)"
      "length bs \<le> length i + 512" "take (length i) bs = i" "length i \<le> length bs"
      using read_section_ok [OF s6(2) lba6 c(1), of "fh_initramfs fh" 4096 "length i" MEM_INITRAMFS "- 4"] c l6 ram
      by (auto simp: places)
    have fit: "16777216 + length bs \<le> length (u_ram st6)" using i(2) c(10) l6 ram by linarith
    have "holds (patch (u_ram st6) 16777216 bs) 32768 z"
      using s6(3) fit c(6) by (intro holds_patch_other) simp_all
    moreover have "holds (patch (u_ram st6) 16777216 bs) 16777216 i" by (rule holds_patch_prefix [OF fit i(3) refl i(4)])
    ultimately show ?thesis using run True i(1) s6(1,2) fit by (simp add: same_boot_def)
  qed
qed

subsection \<open>Starting what was read\<close>

definition zimage :: "bytes \<Rightarrow> bool" where
  "zimage z \<longleftrightarrow> 40 \<le> length z \<and> get32 z 36 = LINUX_ZIMAGE_MAGIC"

lemma bootargs_text:
  "cmdline_text (bootargs_for f i) = bytes_of_string (bootargs_for f i)"
  "cmdline_text (bootargs_for f i) \<noteq> []" "0 \<notin> set (cmdline_text (bootargs_for f i))"
  "length (cmdline_text (bootargs_for f i)) \<le> 68"
  by (simp_all add: cmdline_text_def bootargs_for_def bytes_of_string_def)

lemma load_word_holds:
  assumes "holds (u_ram st) (place a) bs" "off + 4 \<le> length bs" "length (u_ram st) \<le> 134217728"
  shows "load_word st (a + word_of_nat off) = Some (get32 bs off)"
proof -
  have fit: "place a + length bs \<le> length (u_ram st)" using assms(1) by (simp add: holds_def)
  have "place (a + word_of_nat off) = place a + off" using place_add [of a off] fit assms(2,3) by simp
  then show ?thesis
    using fit assms(2) get32_holds [OF assms(1,2)] get32_region [of 0 4 "u_ram st" "place a + off"]
    by (simp add: load_word_def load_bytes_def)
qed

definition ready_to_boot :: "uboot \<Rightarrow> bool" where
  "ready_to_boot st \<longleftrightarrow> length (u_header st) = 64 \<and> ih_type (u_header st) \<noteq> IH_TYPE_MULTI \<and>
     67142144 \<le> length (u_ram st) \<and> length (u_ram st) \<le> 134217728"

text \<open>The kernel that runs: its place, what its command line says and where its initrd is.\<close>

definition kernel_runs :: "bytes \<Rightarrow> bytes option \<Rightarrow> bool \<Rightarrow> u32 \<Rightarrow> 'a outcome \<Rightarrow> bool" where
  "kernel_runs z i factory arch r \<longleftrightarrow>
     (\<exists>st' body. r = Launched MEM_KERNEL_START arch (MEMORY_BASE_ADDRESS + 0x100) st' \<and>
        holds (u_ram st') 32768 z \<and>
        parse_tags 5 (u_ram st') 0x100 = initrd_tags (map_option (\<lambda>i. (MEM_INITRAMFS, i)) i) body \<and>
        cstr_of body = bytes_of_string (bootargs_for factory (i \<noteq> None)) \<and>
        (\<forall>bs. i = Some bs \<longrightarrow> holds (u_ram st') 16777216 bs))"

lemma kernel_runs_next: "kernel_runs z i f arch r \<Longrightarrow> kernel_runs z i f arch (and_next r g)"
  by (auto simp: kernel_runs_def)

lemma boot_image_runs:
  assumes rdy: "ready_to_boot st" and z: "holds (u_ram st) 32768 z" "zimage z"
    and i: "\<And>bs. i = Some bs \<Longrightarrow> holds (u_ram st) 16777216 bs \<and> good_ramdisk bs"
  shows "kernel_runs z i (u_key_factory st) (u_arch st)
    (boot_image env MEM_KERNEL_START (if i \<noteq> None then MEM_INITRAMFS else 0) st)"
proof -
  let ?cl = "bootargs_for (u_key_factory st) (i \<noteq> None)"
  let ?st = "setenv ''bootargs'' ?cl st\<lparr>u_mmc := mmc_release_dev (u_mmc (setenv ''bootargs'' ?cl st))\<rparr>"
  let ?rd = "map_option (\<lambda>i. (MEM_INITRAMFS, i)) i"
  have f: "u_ram ?st = u_ram st" "u_header ?st = u_header st" "u_arch ?st = u_arch st" "getenv ?st ''bootargs'' = Some ?cl"
    by (simp_all add: setenv_def getenv_def)
  have r: "length (u_header st) = 64" "ih_type (u_header st) \<noteq> IH_TYPE_MULTI" "67142144 \<le> length (u_ram st)"
    "length (u_ram st) \<le> 134217728"
    using rdy by (simp_all add: ready_to_boot_def)
  have "holds (u_ram ?st) (place MEM_KERNEL_START) z" "36 + 4 \<le> length z" "length (u_ram ?st) \<le> 134217728"
    using z r f by (simp_all add: places zimage_def)
  from load_word_holds [OF this] have magic: "load_word ?st (MEM_KERNEL_START + 36) = Some LINUX_ZIMAGE_MAGIC"
    using z(2) by (simp add: zimage_def)
  have rd: "initrd_there ?st ?rd"
    using i r(2) f by (cases i) (simp_all add: initrd_there_def places)
  have room: "329 + length (cmdline_text ?cl) \<le> length (u_ram ?st)" using bootargs_text(4) [of "u_key_factory st" "i \<noteq> None"] r(3) f by simp
  have args: "[''bootm'', sprintf_0x MEM_KERNEL_START] @ (if (if i \<noteq> None then MEM_INITRAMFS else 0) \<noteq> 0 then [sprintf_0x (if i \<noteq> None then MEM_INITRAMFS else 0)] else []) =
      ''bootm'' # sprintf_0x MEM_KERNEL_START # initrd_args ?rd"
    by (cases i) (simp_all add: initrd_args_def MEM_INITRAMFS_def)
  have cl: "bootargs_for (u_key_factory st) ((if i \<noteq> None then MEM_INITRAMFS else 0) \<noteq> 0) = ?cl"
    by (simp add: MEM_INITRAMFS_def)
  obtain st' body where run: "do_bootm (bo_gunzip env) (''bootm'' # sprintf_0x MEM_KERNEL_START # initrd_args ?rd) ?st =
      Launched MEM_KERNEL_START (u_arch st) (MEMORY_BASE_ADDRESS + 0x100) st'"
    "parse_tags 5 (u_ram st') 0x100 = initrd_tags ?rd body" "cstr_of body = bytes_of_string ?cl"
    "\<forall>a bs. holds (u_ram st) a bs \<longrightarrow> 329 + length (cmdline_text ?cl) \<le> a \<longrightarrow> holds (u_ram st') a bs"
    using zimage_runs [OF magic _ rd f(4) bootargs_text(2,3) room, of "bo_gunzip env"] r f bootargs_text(1) by auto
  have "holds (u_ram st') 32768 z" "\<forall>bs. i = Some bs \<longrightarrow> holds (u_ram st') 16777216 bs"
    using run(4) z(1) i bootargs_text(4) [of "u_key_factory st" "i \<noteq> None"] by auto
  moreover have "boot_image env MEM_KERNEL_START (if i \<noteq> None then MEM_INITRAMFS else 0) st =
      Launched MEM_KERNEL_START (u_arch st) (MEMORY_BASE_ADDRESS + 0x100) st'"
    using run(1) by (simp only: boot_image_def Let_def args cl)
  ultimately show ?thesis using run(2,3) unfolding kernel_runs_def by blast
qed

lemma try_inand_runs:
  assumes ready: "inand_ready env d st" "ready_to_boot st" and copy: "firmware_copy d B fh z i"
    and pos: "unat (word_of_nat (length d div 512) - off :: u32) = B div 512"
    and z: "zimage z" and i: "flag \<Longrightarrow> good_ramdisk i"
  shows "kernel_runs z (if flag then Some i else None) (u_key_factory st) (u_arch st) (try_inand env off flag st)"
proof -
  have ram: "67142144 \<le> length (u_ram st)" using ready(2) by (simp add: ready_to_boot_def)
  obtain st' where st': "do_read_inand_ub env INAND_DEV off flag st = Ret 0 st'" "same_boot st st'"
    "holds (u_ram st') 32768 z" "flag \<longrightarrow> holds (u_ram st') 16777216 i"
    using do_read_inand_ub_ok [OF ready(1) copy pos ram] by blast
  have "ready_to_boot st'" using ready(2) st'(2) by (simp add: ready_to_boot_def same_boot_def)
  note runs = boot_image_runs [OF this st'(3) z, of "if flag then Some i else None" env]
  have "kernel_runs z (if flag then Some i else None) (u_key_factory st) (u_arch st)
      (boot_image env MEM_KERNEL_START (if flag then MEM_INITRAMFS else 0) st')"
    using runs st'(2,4) i by (cases flag) (simp_all add: same_boot_def)
  then show ?thesis using st'(1) by (auto simp: try_inand_def intro: kernel_runs_next)
qed

lemma damaged_header_read:
  assumes "inand_ready env d st" "B mod 512 = 0" "B + 8388608 \<le> length d"
    and "fh_magic (header_of_bytes (region d B 176)) \<noteq> HEAD_MAGIC"
    and "unat (word_of_nat (length d div 512) - off :: u32) = B div 512" "ready_to_boot st"
  shows "\<exists>st'. try_inand env off flag st = Ret True st' \<and> same_boot st st' \<and> inand_ready env d st' \<and> ready_to_boot st'"
proof -
  have "67142144 \<le> length (u_ram st)" using assms(6) by (simp add: ready_to_boot_def)
  from header_read_ok [OF assms(1-3) refl assms(5) this] obtain st1 st2 st3 where r:
    "get_dev_mmc env INAND_DEV st = (True, st1)"
    "store_bytes MEM_READ_FILE (replicate sizeof_FWFileHdr 0) st1 = Some st2"
    "block_read env (desc_lba st1 - off) 1 MEM_READ_FILE st2 = Some st3"
    "file_header st3 = Some (header_of_bytes (region d B 176))"
    "same_boot st st3" "selected (bo_xfer env) INAND_DEV d (u_mmc st3)" by blast
  then have "try_inand env off flag st = Ret True st3"
    using assms(4) by (simp add: try_inand_def do_read_inand_ub_def Let_def)
  moreover have "ready_to_boot st3" using assms(6) r(5) by (simp add: ready_to_boot_def same_boot_def)
  ultimately show ?thesis using r(5) selected_ready [OF r(6)] by blast
qed

lemma bends: "KERNEL1_BEND = INAND_KERNEL1_BEND" "KERNEL0_BEND = INAND_KERNEL0_BEND"
  by (simp_all add: KERNEL1_BEND_def KERNEL0_BEND_def INAND_KERNEL1_BEND_def INAND_KERNEL0_BEND_def INAND_BLOCK_def
      NANDBLKSIZE_def)

lemma ready_length:
  assumes "inand_ready env d st"
  shows "length d mod 512 = 0" "length d < 2199023255552"
  using assms by (auto simp: inand_ready_def selected_def)

lemma bend_positions:
  assumes "inand_ready env d st" "16777216 \<le> length d"
  shows "unat (word_of_nat (length d div 512) - KERNEL1_BEND :: u32) = (length d - 16777216) div 512"
    "unat (word_of_nat (length d div 512) - KERNEL0_BEND :: u32) = (length d - 8388608) div 512"
    "(length d - 16777216) mod 512 = 0" "(length d - 8388608) mod 512 = 0"
proof -
  note l = ready_length [OF assms(1)]
  have "length d div 512 < 4294967296" using l(2) by (simp add: less_mult_imp_div_less)
  then have count: "unat (word_of_nat (length d div 512) :: u32) = length d div 512" by (rule unat_word_of_nat32)
  show "unat (word_of_nat (length d div 512) - KERNEL1_BEND :: u32) = (length d - 16777216) div 512"
    "unat (word_of_nat (length d div 512) - KERNEL0_BEND :: u32) = (length d - 8388608) div 512"
    using bend_place [OF l(1) assms(2) count] by (simp_all add: bends unat_sub)
  have "(length d - 512 * k) mod 512 = 0" if "512 * k \<le> length d" for k
    using l(1) that by (metis dvd_diff_nat dvd_triv_left mod_0_imp_dvd mod_eq_0_iff_dvd)
  from this [of 32768] this [of 16384] show "(length d - 16777216) mod 512 = 0" "(length d - 8388608) mod 512 = 0"
    using assms(2) by simp_all
qed

lemma device_has_firmware_copy:
  assumes has: "device_has d (take 176 (image_of fs args m now)) qi ub (section_content fs args 2) (section_content fs args 3)"
    and lay: "layout_fits fs args" and d: "length d mod 512 = 0" "16777216 \<le> length d"
    and B: "B = length d - 16777216 \<or> B = length d - 8388608"
  shows "firmware_copy d B (final_header fs args m now) (section_content fs args 2) (section_content fs args 3)"
proof -
  let ?h = "final_header fs args m now"
  have r: "region d B 176 = take 176 (image_of fs args m now)"
    "region d (B + 263168) (length (section_content fs args 2)) = section_content fs args 2"
    "region d (B + 2097152) (length (section_content fs args 3)) = section_content fs args 3"
    using has B by (auto simp: device_has_def)
  have len: "sizeof_FWFileHdr \<le> length (image_of fs args m now)" by (simp add: image_of_def)
  have h: "header_of_bytes (region d B 176) = ?h"
    unfolding r using header_of_take [OF len] by (simp only: sizeof_FWFileHdr_def header_of_image)
  have st: "st_nand_offset (fh_zimage ?h) = 514" "st_nand_offset (fh_initramfs ?h) = 4096"
    "st_nand_size (fh_zimage ?h) = word_of_nat (length (section_content fs args 2))"
    "st_nand_size (fh_initramfs ?h) = word_of_nat (length (section_content fs args 3))"
    using image_stanza [of 2 fs args m now] image_stanza [of 3 fs args m now]
    by (simp_all add: header_sections sects_def mk_section_def)
  have l: "length (section_content fs args 2) \<le> 1833984" "length (section_content fs args 3) \<le> 6282240"
    using lay by (simp_all add: layout_fits_def)
  have "(length d - 512 * k) mod 512 = 0" if "512 * k \<le> length d" for k
    using d(1) that by (metis dvd_diff_nat dvd_triv_left mod_0_imp_dvd mod_eq_0_iff_dvd)
  from this [of 32768] this [of 16384] have "B mod 512 = 0" using B d(2) by auto
  then show ?thesis using h r(2,3) st l B d(2) by (auto simp: firmware_copy_def final_header_fields)
qed

subsection \<open>The keys\<close>

text \<open>The keys in \<open>down\<close> are held: their pins are low whenever they are read, the others high.\<close>

definition keys_held :: "pins \<Rightarrow> u32 set \<Rightarrow> bool" where
  "keys_held pins down \<longleftrightarrow>
     (\<forall>k \<in> set gkeys. \<forall>n v. (pins n (regdat (ki_gpio k)) v AND push_bit (ki_gpio k mod 16) 1 = 0) = (ki_key k \<in> down))"

lemma key_loop_held:
  assumes "\<forall>k \<in> set ks. \<not> ki_vtg k \<and>
      (\<forall>n v. (pins n (regdat (ki_gpio k)) v AND push_bit (ki_gpio k mod 16) 1 = 0) = (ki_key k \<in> down))"
  shows "fst (key_read_loop pins ks key g) = foldl (\<lambda>key k. if ki_key k \<in> down then key OR ki_key k else key) key ks"
  using assms
proof (induction ks arbitrary: key g)
  case (Cons k ks)
  obtain v g' where v: "gpio_get_value pins (ki_gpio k) g = (v, g')" by (cases "gpio_get_value pins (ki_gpio k) g")
  have "v \<longleftrightarrow> ki_key k \<notin> down"
    using Cons.prems arg_cong [OF v, of fst] by (auto simp: gpio_get_value_def readl_def)
  then show ?case using v Cons by simp
qed simp

lemma key_read_held:
  assumes "keys_held pins down"
  shows "fst (key_read pins g) =
    (if KEY_POWER \<in> down then KEY_POWER else 0) OR (if KEY_UP \<in> down then KEY_UP else 0) OR
    (if KEY_DOWN \<in> down then KEY_DOWN else 0) OR (if KEY_LEFT \<in> down then KEY_LEFT else 0)"
proof -
  have "\<forall>k \<in> set gkeys. \<not> ki_vtg k \<and>
      (\<forall>n v. (pins n (regdat (ki_gpio k)) v AND push_bit (ki_gpio k mod 16) 1 = 0) = (ki_key k \<in> down))"
    using assms unfolding keys_held_def by (simp add: gkeys_def)
  from key_loop_held [OF this] show ?thesis
    by (simp add: key_read_def gkeys_def or.assoc)
qed

lemma read_keys_held:
  assumes "keys_held (bo_pins env) down"
  shows "\<exists>g. read_keys env st = (fst (key_read (bo_pins env) (u_gpio st)), st\<lparr>u_gpio := g\<rparr>)"
  by (rule exI [of _ "snd (key_read (bo_pins env) (u_gpio st))"]) (simp add: read_keys_def split_def Let_def)

text \<open>What the work on the pins leaves alone.\<close>

definition only_pins :: "uboot \<Rightarrow> uboot \<Rightarrow> bool" where
  "only_pins st st' \<longleftrightarrow> same_boot st st' \<and> u_mmc st' = u_mmc st \<and> u_machType st' = u_machType st \<and> u_q5 st' = u_q5 st \<and>
     u_ram st' = u_ram st"

lemma only_pins_simps:
  "only_pins st st" "only_pins st (on_gpio f st')= only_pins st st'" "only_pins st (leds env l st') = only_pins st st'"
  "only_pins st (poweroff env st') = only_pins st st'"
  by (simp_all add: only_pins_def same_boot_def on_gpio_def leds_def poweroff_def)

lemma only_pins_battery: "only_pins st (battery_probe env st)"
  by (simp add: battery_probe_def dc_status_def Let_def split_def only_pins_simps)
    (simp add: only_pins_def same_boot_def)

lemma only_pins_ready:
  "only_pins st st' \<Longrightarrow> inand_ready env d st' = inand_ready env d st"
  "only_pins st st' \<Longrightarrow> ready_to_boot st' = ready_to_boot st"
  "only_pins st st' \<Longrightarrow> u_arch st' = u_arch st"
  "only_pins st st' \<Longrightarrow> getenv st' = getenv st"
  by (auto simp: only_pins_def same_boot_def inand_ready_def ready_to_boot_def getenv_def fun_eq_iff)

lemma do_upgrade_runs:
  assumes "inand_ready env d st" "ready_to_boot st" "16777216 \<le> length d" "zimage z" "good_ramdisk i"
    and "firmware_copy d (length d - 16777216) fh z i"
  shows "kernel_runs z (Some i) (u_key_factory st) (u_arch st) (do_upgrade env True st)"
proof -
  have "kernel_runs z (if True then Some i else None) (u_key_factory st) (u_arch st) (try_inand env KERNEL1_BEND True st)"
    using assms(5) by (intro try_inand_runs [OF assms(1,2,6) bend_positions(1) [OF assms(1,3)] assms(4)])
  then show ?thesis by (auto simp: do_upgrade_def intro!: kernel_runs_next)
qed

lemma serve_left_key:
  assumes "inand_ready env d st" "ready_to_boot st" "16777216 \<le> length d" "zimage z" "good_ramdisk i"
    and "firmware_copy d (length d - 16777216) fh z i" "keys_held (bo_pins env) {KEY_LEFT}"
  shows "kernel_runs z (Some i) False (u_arch st) (serve_key env st)"
proof -
  let ?st = "st\<lparr>u_key_factory := False\<rparr>"
  obtain g where g: "read_keys env ?st = (fst (key_read (bo_pins env) (u_gpio ?st)), ?st\<lparr>u_gpio := g\<rparr>)"
    using read_keys_held [OF assms(7)] by blast
  have key: "fst (key_read (bo_pins env) (u_gpio ?st)) = KEY_LEFT"
    unfolding key_read_held [OF assms(7)] by (simp add: KEY_POWER_def KEY_UP_def KEY_DOWN_def KEY_LEFT_def)
  have ne: "KEY_LEFT \<noteq> KEY_UPGRADE" "KEY_LEFT \<noteq> KEY_UPGRADE3" "KEY_LEFT = KEY_UPGRADE2"
    by (simp_all add: KEY_LEFT_def KEY_UPGRADE_def KEY_UPGRADE3_def KEY_UPGRADE2_def KEY_UP_def KEY_POWER_def)
  let ?st' = "leds env 3 (?st\<lparr>u_gpio := g\<rparr>)"
  have "inand_ready env d ?st'" "ready_to_boot ?st'" "u_arch ?st' = u_arch st" "u_key_factory ?st' = False"
    using assms(1,2) by (simp_all add: inand_ready_def ready_to_boot_def leds_def on_gpio_def)
  then have "kernel_runs z (Some i) False (u_arch st) (do_upgrade env True ?st')"
    using do_upgrade_runs [of env d ?st' z i fh] assms(3-6) by simp
  then show ?thesis using g key ne by (simp add: serve_key_def Let_def kernel_runs_next)
qed

lemma goes_on:
  "\<forall>cs. getenv st ''stop'' \<noteq> Some (CHR ''y'' # cs) \<Longrightarrow>
   (case getenv st ''stop'' of Some (CHR ''y'' # _) \<Rightarrow> a | _ \<Rightarrow> b) = b"
  by (auto split: option.splits list.splits char.splits bool.splits)

lemma start_firmware_runs:
  assumes "inand_ready env d st" "ready_to_boot st" "16777216 \<le> length d" "zimage z"
    and "firmware_copy d (length d - 16777216) fh z i" "\<forall>cs. getenv st ''stop'' \<noteq> Some (CHR ''y'' # cs)"
  shows "kernel_runs z None (u_key_factory st) (u_arch st) (do_start_firmware env flag st)"
proof -
  have "kernel_runs z None (u_key_factory st) (u_arch st) (try_inand env KERNEL1_BEND False st)"
    using try_inand_runs [OF assms(1,2,5) bend_positions(1) [OF assms(1,3)] assms(4), of False] by simp
  then show ?thesis unfolding do_start_firmware_def goes_on [OF assms(6)] by (rule kernel_runs_next)
qed

text \<open>At power on with the left key held.\<close>

lemma press_left_key:
  assumes "inand_ready env d st" "ready_to_boot st" "16777216 \<le> length d" "zimage z" "good_ramdisk i"
    and "firmware_copy d (length d - 16777216) fh z i" "keys_held (bo_pins env) {KEY_LEFT}"
  shows "kernel_runs z (Some i) False (u_arch st) (press_key (Suc fuel) env st)"
proof -
  obtain g where g: "read_keys env st = (fst (key_read (bo_pins env) (u_gpio st)), st\<lparr>u_gpio := g\<rparr>)"
    using read_keys_held [OF assms(7)] by blast
  let ?st = "st\<lparr>u_gpio := g, u_tick_reads := u_tick_reads st + 1\<rparr>"
  have "inand_ready env d ?st" "ready_to_boot ?st"
    using assms(1,2) by (simp_all add: inand_ready_def ready_to_boot_def)
  then have "kernel_runs z (Some i) False (u_arch st) (serve_key env ?st)"
    using serve_left_key [of env d ?st z i fh] assms(3-7) by simp
  then show ?thesis using g by (simp add: press_key_def get_ticks_def kernel_runs_next)
qed

lemma left_key_runs:
  assumes "inand_ready env d st" "ready_to_boot st" "16777216 \<le> length d" "zimage z" "good_ramdisk i"
    and "firmware_copy d (length d - 16777216) fh z i" "keys_held (bo_pins env) {KEY_LEFT}"
    and "\<forall>cs. getenv st ''stop'' \<noteq> Some (CHR ''y'' # cs)"
  shows "kernel_runs z (Some i) False (u_arch st) (start_armboot_end (Suc fuel) env False st)"
proof -
  let ?inp = "\<lambda>gpio. on_gpio (gpio_direction_input (bo_pins env) gpio)"
  let ?st = "on_gpio (key_init (bo_pins env)) (?inp GPIO_GPN14 (?inp GPIO_GPN13 (?inp GPIO_DCIN st)))"
  have pins: "only_pins st (battery_probe env ?st)" "getenv ?st = getenv st"
    using only_pins_battery [of ?st env] by (simp_all add: only_pins_def same_boot_def on_gpio_def getenv_def fun_eq_iff)
  note rdy = only_pins_ready [OF pins(1)]
  have "kernel_runs z (Some i) False (u_arch st) (press_key (Suc fuel) env (battery_probe env ?st))"
    using press_left_key [of env d "battery_probe env ?st" z i fh fuel] assms(1-7) rdy by simp
  then have "kernel_runs z (Some i) False (u_arch st) (init_hard_last (Suc fuel) env 0 0 st)"
    using assms(8) pins(2) by (simp add: init_hard_last_def Let_def goes_on kernel_runs_next)
  then show ?thesis by (simp add: start_armboot_end_def kernel_runs_next)
qed

subsection \<open>A device that was released\<close>

text \<open>The card is still the selected one, so it is not probed again, and its structure is empty.\<close>

lemma released_device_faults:
  assumes "m_sel (u_mmc st) = INAND_DEV" "m_dev (u_mmc st) = None" "67142144 \<le> length (u_ram st)"
  shows "try_inand env off flag st = Fault"
  using assms
  by (simp add: try_inand_def do_read_inand_ub_def get_dev_mmc_def mmc_get_dev_def Let_def store_bytes_def wr_def places
      sizeof_FWFileHdr_def block_read_def)

lemma silent_card_faults:
  assumes "m_sel (u_mmc st) \<noteq> INAND_DEV" "bo_probe env INAND_DEV = None" "67142144 \<le> length (u_ram st)"
    and "\<forall>cs. getenv st ''stop'' \<noteq> Some (CHR ''y'' # cs)"
  shows "do_start_firmware env flag st = Fault"
proof -
  obtain m where m: "mmc_get_dev (bo_probe env) (bo_junk env) INAND_DEV (u_mmc st) = (False, m)" "m_sel m = INAND_DEV" "m_dev m = None"
    using assms(1,2) by (auto simp: mmc_get_dev_def hsmmc_init_def Let_def mmc_release_dev_def)
  have "try_inand env KERNEL1_BEND False st = Ret True (st\<lparr>u_mmc := m\<rparr>)"
    using m(1) by (simp add: try_inand_def do_read_inand_ub_def get_dev_mmc_def Let_def)
  then show ?thesis
    using released_device_faults [of "st\<lparr>u_mmc := m\<rparr>" env KERNEL0_BEND False] m(2,3) assms(3,4)
    by (simp add: do_start_firmware_def goes_on)
qed

text \<open>An image in u-boot's format whose header is damaged.\<close>

definition damaged_uimage :: "bytes \<Rightarrow> bool" where
  "damaged_uimage z \<longleftrightarrow> 64 \<le> length z \<and> get32 z 36 \<noteq> LINUX_ZIMAGE_MAGIC \<and> get32_be z 0 = IH_MAGIC \<and>
     \<not> fst (header_crc_ok (take 64 z))"

lemma boot_image_damaged:
  assumes "holds (u_ram st) 32768 z" "damaged_uimage z" "length (u_ram st) \<le> 134217728"
  shows "\<exists>st'. boot_image env MEM_KERNEL_START 0 st = Ret 1 st' \<and> u_mmc st' = mmc_release_dev (u_mmc st) \<and>
    u_ram st' = u_ram st"
proof -
  let ?st = "setenv ''bootargs'' (bootargs_for (u_key_factory st) False) st\<lparr>u_mmc := mmc_release_dev (u_mmc st)\<rparr>"
  have z: "64 \<le> length z" "get32 z 36 \<noteq> LINUX_ZIMAGE_MAGIC" "get32_be (take 64 z) 0 = IH_MAGIC"
    "\<not> fst (header_crc_ok (take 64 z))"
    using assms(2) by (simp_all add: damaged_uimage_def header_field_take)
  have ram: "u_ram ?st = u_ram st" by (simp add: setenv_def)
  have h: "holds (u_ram ?st) (place MEM_KERNEL_START) z" using assms(1) ram by (simp add: places)
  then have "holds (u_ram ?st) (place MEM_KERNEL_START) (take 64 z @ drop 64 z)" by simp
  then have "holds (u_ram ?st) (place MEM_KERNEL_START) (take 64 z)" by (simp only: holds_append)
  then have l: "load_bytes ?st MEM_KERNEL_START 64 = Some (take 64 z)"
    using load_bytes_holds [of ?st MEM_KERNEL_START "take 64 z"] z(1) by simp
  have m: "load_word ?st (MEM_KERNEL_START + 36) = Some (get32 z 36)"
    using load_word_holds [OF h, of 36] z(1) assms(3) ram by simp
  obtain hdr where c: "header_crc_ok (take 64 z) = (False, hdr)" using z(4) by (cases "header_crc_ok (take 64 z)") simp
  have args: "[''bootm'', sprintf_0x MEM_KERNEL_START] @ (if (0 :: u32) \<noteq> 0 then [sprintf_0x 0] else []) =
      [''bootm'', sprintf_0x MEM_KERNEL_START]" by simp
  have same: "setenv ''bootargs'' (bootargs_for (u_key_factory st) ((0 :: u32) \<noteq> 0)) st
      \<lparr>u_mmc := mmc_release_dev (u_mmc (setenv ''bootargs'' (bootargs_for (u_key_factory st) ((0 :: u32) \<noteq> 0)) st))\<rparr> = ?st"
    by (simp add: setenv_def)
  have "do_bootm (bo_gunzip env) [''bootm'', sprintf_0x MEM_KERNEL_START] ?st = Ret 1 (?st\<lparr>u_header := hdr\<rparr>)"
    using l m z(2,3) c by (simp add: do_bootm_def Let_def sizeof_image_header_def bootm_uimage_def)
  then show ?thesis using ram unfolding boot_image_def Let_def args same by simp
qed

end
