(* ===== verification/Uboot_Run.thy ===== *)
theory Uboot_Run
  imports Uboot_Props
begin

section \<open>u-boot: what is started\<close>

text \<open>
  The properties of the boot loader as a whole: the kernel that is started after an installation, with and
  without the installer's key, the older copy, the failure of the second attempt, and the machine type that
  a kernel is given.
\<close>

subsection \<open>A board to try them on\<close>

text \<open>The ramdisk image and its header, whose check sums are the ones the code computes.\<close>

definition demo_head :: "u32 \<Rightarrow> bytes" where
  "demo_head crc = put32_be IH_MAGIC @ put32_be crc @ replicate 4 0 @ put32_be 1 @ replicate 8 0 @ put32_be (crc_of [9]) @
     [IH_OS_LINUX, IH_CPU_ARM, IH_TYPE_RAMDISK, 0] @ replicate 32 0"

definition demo_ramdisk :: bytes where
  "demo_ramdisk = demo_head (crc_of (demo_head 0)) @ [9]"

definition small_zimage :: bytes where
  "small_zimage = replicate 36 0 @ put32 LINUX_ZIMAGE_MAGIC"

lemma length_demo_head [simp]: "length (demo_head crc) = 64"
  by (simp add: demo_head_def)

lemma get32_be_at:
  assumes "length xs = n"
  shows "get32_be (xs @ put32_be w @ ys) n = w"
proof -
  have "\<And>i. byte_at (xs @ put32_be w @ ys) (n + i) = byte_at (put32_be w @ ys) i"
    using assms by (auto simp: byte_at_def nth_append)
  then have "get32_be (xs @ put32_be w @ ys) n = get32_be (put32_be w @ ys) 0"
    using assms by (simp add: get32_be_def byte_at_def nth_append numeral_2_eq_2)
  also have "\<dots> = w"
    by (simp add: get32_be_def put32_be_def put32_def byte_at_def word32_be_bytes)
  finally show ?thesis .
qed

lemma demo_head_fields:
  "get32_be (demo_head crc @ ys) 0 = IH_MAGIC" "get32_be (demo_head crc @ ys) 4 = crc"
  "get32_be (demo_head crc @ ys) 12 = 1" "get32_be (demo_head crc @ ys) 24 = crc_of [9]"
  using get32_be_at [of "[]" 0 IH_MAGIC] get32_be_at [of "put32_be IH_MAGIC" 4 crc]
    get32_be_at [of "put32_be IH_MAGIC @ put32_be crc @ replicate 4 0" 12 1]
    get32_be_at [of "put32_be IH_MAGIC @ put32_be crc @ replicate 4 0 @ put32_be 1 @ replicate 8 0" 24 "crc_of [9]"]
  by (simp_all add: demo_head_def)

lemma demo_head_bytes:
  "byte_at (demo_head crc @ ys) 28 = IH_OS_LINUX" "byte_at (demo_head crc @ ys) 29 = IH_CPU_ARM"
  "byte_at (demo_head crc @ ys) 30 = IH_TYPE_RAMDISK"
  by (simp_all add: demo_head_def byte_at_def nth_append)

lemma demo_head_cleared: "patch (demo_head crc) 4 (put32 0) = demo_head 0"
  by (simp add: demo_head_def patch_def put32_be_def put32_def)

lemma demo_ramdisk_good: "good_ramdisk demo_ramdisk"
proof -
  have t: "take 64 demo_ramdisk = demo_head (crc_of (demo_head 0))" "drop 64 demo_ramdisk = [9]" "length demo_ramdisk = 65"
    by (simp_all add: demo_ramdisk_def)
  have c: "get32_be (demo_head (crc_of (demo_head 0))) 4 = crc_of (demo_head 0)"
    using demo_head_fields(2) [of _ "[]"] by simp
  have "get32_be demo_ramdisk 0 = IH_MAGIC" "ih_size demo_ramdisk 0 = 1" "ih_dcrc demo_ramdisk 0 = crc_of [9]"
    "ih_os demo_ramdisk = IH_OS_LINUX" "ih_arch demo_ramdisk = IH_CPU_ARM" "ih_type demo_ramdisk = IH_TYPE_RAMDISK"
    by (simp_all add: demo_ramdisk_def ih_size_def ih_dcrc_def ih_os_def ih_arch_def ih_type_def demo_head_fields demo_head_bytes)
  moreover have "fst (header_crc_ok (take 64 demo_ramdisk))"
    unfolding t by (simp add: header_crc_ok_def Let_def demo_head_cleared ih_hcrc_def c)
  ultimately show ?thesis using t by (simp add: good_ramdisk_def)
qed

lemma small_zimage_ok: "zimage small_zimage"
  by (simp add: zimage_def small_zimage_def get32_append_right get32_put32)

text \<open>The pins, with the left key held or with no key held.\<close>

definition demo_pins :: "bool \<Rightarrow> pins" where
  "demo_pins left n a v = (if left then NOT (push_bit 2 1) else NOT 0)"

definition demo_board_env :: "bool \<Rightarrow> bytes \<Rightarrow> board_env" where
  "demo_board_env left d = \<lparr>bo_pins = demo_pins left, bo_probe = (\<lambda>ch. Some (shown_csd demo_csd)),
     bo_junk = \<lparr>csd_cmdclass = 0, csd_tacc_clks = 0, csd_tacc_ns = 0, csd_r2w_factor = 0, csd_max_dtr = 0,
       csd_read_blkbits = 0, csd_write_blkbits = 0, csd_capacity = 0, csd_read_partial = False,
       csd_read_misalign = False, csd_write_partial = False, csd_write_misalign = False\<rparr>,
     bo_xfer = demo_transfer d, bo_fat = (\<lambda>_ _ _. None), bo_gunzip = (\<lambda>_. None), bo_ticks = (\<lambda>n. word_of_nat (1000 * n)),
     bo_adc = (\<lambda>_. 0), bo_flash = (\<lambda>_ bs. bs)\<rparr>"

definition demo_boot :: uboot where
  "demo_boot = \<lparr>u_ram = replicate 134217728 0, u_env = Map.empty, u_header = replicate 64 0, u_arch = MACH_TYPE_SMDK6410,
     u_mmc = fresh_mmc, u_gpio = \<lparr>gp_reg = (\<lambda>_. 0), gp_reads = 0\<rparr>, u_machType = MACH_TYPE_SMARTQ7, u_q5 = False, u_key_factory = False,
     u_tick_reads = 0\<rparr>"

lemma demo_keys: "keys_held (bo_pins (demo_board_env True d)) {KEY_LEFT}"
proof -
  have "(NOT 4 AND 16384 :: u32) \<noteq> 0" "(NOT 4 AND 32768 :: u32) \<noteq> 0" "(NOT 4 AND 4096 :: u32) \<noteq> 0" "(NOT 4 AND 4 :: u32) = 0"
    by code_simp+
  then show ?thesis
    by (simp add: keys_held_def gkeys_def demo_board_env_def demo_pins_def KEY_LEFT_def KEY_POWER_def KEY_UP_def KEY_DOWN_def)
qed

lemma demo_inand_ready:
  assumes "length d = 16777216"
  shows "inand_ready (demo_board_env left d) d demo_boot"
proof -
  have "card_serves (demo_transfer d) 1 d (csd_field demo_csd 126 2 = 1)"
    using demo_transfer_serves [of d 1] assms by (simp add: demo_csd_fields)
  then have "\<exists>m. mmc_get_dev (\<lambda>ch. Some (shown_csd demo_csd)) (bo_junk (demo_board_env left d)) 1 fresh_mmc = (True, m) \<and>
      selected (demo_transfer d) 1 d m"
    using assms by (intro card_selected [where w = demo_csd]) (simp_all add: fresh_mmc_def card_handled_def demo_csd_fields)
  then show ?thesis by (simp add: inand_ready_def demo_board_env_def demo_boot_def INAND_DEV_def)
qed

lemma demo_boot_ok:
  "ready_to_boot demo_boot" "getenv demo_boot ''stop'' = None" "u_arch demo_boot = MACH_TYPE_SMDK6410"
  "u_key_factory demo_boot = False" "m_sel (u_mmc demo_boot) \<noteq> INAND_DEV"
  by (simp_all add: ready_to_boot_def demo_boot_def getenv_def ih_type_def byte_at_def IH_TYPE_MULTI_def fresh_mmc_def
      INAND_DEV_def)

text \<open>An image with the small kernel and the small ramdisk.\<close>

definition boot_fs :: fsys where
  "boot_fs = demo_fs(''zImage'' \<mapsto> small_zimage, ''initramfs'' \<mapsto> demo_ramdisk)"

lemma boot_fs_sections:
  "section_content boot_fs demo_args 2 = small_zimage" "section_content boot_fs demo_args 3 = demo_ramdisk"
  by (simp_all add: section_content_def content_of_def demo_args_def boot_fs_def)

lemma length_demo_ramdisk [simp]: "length demo_ramdisk = 65"
  by (simp add: demo_ramdisk_def)

lemma length_small_zimage [simp]: "length small_zimage = 40"
  by (simp add: small_zimage_def)

lemma boot_fs_layout: "layout_fits boot_fs demo_args"
  by (simp add: layout_fits_def packed_def demo_args_def boot_fs_def demo_fs_def content_of_def section_content_def
      sizeof_FWFileHdr_def)

subsection \<open>After the installation\<close>

text \<open>What the installation leaves on the device, for both ways to start.\<close>

lemma installed:
  assumes "env_good env" "layout_fits fs0 args" "fs path = Some (image_of fs0 args m now)"
    and "\<not> wrong_platform (env_sys env) (final_header fs0 args m now)"
    and "16777216 \<le> length device" "atoi flag \<noteq> 1"
  obtains dst where "upgrade_main env fs (Some device) [argv0, path, devName, flag] = Some (0, dst)"
    "length (dev dst) = length device"
    "length device mod 512 = 0 \<Longrightarrow> firmware_copy (dev dst) (length (dev dst) - 16777216) (final_header fs0 args m now)
       (section_content fs0 args 2) (section_content fs0 args 3)"
    "length device mod 512 = 0 \<Longrightarrow> firmware_copy (dev dst) (length (dev dst) - 8388608) (final_header fs0 args m now)
       (section_content fs0 args 2) (section_content fs0 args 3)"
proof -
  obtain dst where up: "upgrade_main env fs (Some device) [argv0, path, devName, flag] = Some (0, dst)"
    "device_has (dev dst) (take 176 (image_of fs0 args m now)) (section_content fs0 args 0)
        (section_content fs0 args 1) (section_content fs0 args 2) (section_content fs0 args 3)"
    "length (dev dst) = length device"
    using upgrade_packed [where fs = fs and path = path, OF assms(1,2) assms(3-6), of argv0 devName] by blast
  show thesis
    using that [OF up(1,3)] device_has_firmware_copy [OF up(2) assms(2)] assms(5) up(3) by simp
qed

text \<open>
  C36. From the packer to the kernel: after upgrade has installed an image written by mkSmartQ whose kernel
  is a zImage, u-boot, run on that device, starts exactly the kernel that was packed, at 0x50008000, with
  the command line for the root file system on the first partition and without an initrd.
\<close>

theorem packed_kernel_started:
  assumes "env_good env" "layout_fits fs0 args" "fs path = Some (image_of fs0 args m now)"
    and "\<not> wrong_platform (env_sys env) (final_header fs0 args m now)"
    and "16777216 \<le> length device" "atoi flag \<noteq> 1" "zimage (section_content fs0 args 2)"
  shows "\<exists>dst. upgrade_main env fs (Some device) [argv0, path, devName, flag] = Some (0, dst) \<and>
    (\<forall>benv st sd. inand_ready benv (dev dst) st \<longrightarrow> ready_to_boot st \<longrightarrow> (\<forall>cs. getenv st ''stop'' \<noteq> Some (CHR ''y'' # cs)) \<longrightarrow>
       kernel_runs (section_content fs0 args 2) None (u_key_factory st) (u_arch st) (do_start_firmware benv sd st))"
proof -
  from installed [where fs = fs and path = path, OF assms(1-6), of argv0 devName] obtain dst where dst:
    "upgrade_main env fs (Some device) [argv0, path, devName, flag] = Some (0, dst)" "length (dev dst) = length device"
    "length device mod 512 = 0 \<Longrightarrow> firmware_copy (dev dst) (length (dev dst) - 16777216) (final_header fs0 args m now)
       (section_content fs0 args 2) (section_content fs0 args 3)" by metis
  then show ?thesis
    using start_firmware_runs assms(5,7) ready_length(1) by (metis (no_types, lifting))
qed

theorem packed_kernel_started_witness:
  "\<exists>dst. upgrade_main demo_env (demo_card boot_fs demo_args) (Some demo_device)
       [''upgrade'', ''/mnt/SmartQ5'', ''/dev/mmcblk0'', ''0''] = Some (0, dst) \<and>
     kernel_runs small_zimage None False MACH_TYPE_SMDK6410 (do_start_firmware (demo_board_env False (dev dst)) True demo_boot)"
proof -
  have card: "demo_card boot_fs demo_args ''/mnt/SmartQ5'' = Some (image_of boot_fs demo_args MACH_TYPE_SMARTQ5 7)"
    by (simp add: demo_card_def)
  have a: "16777216 \<le> length demo_device" "atoi ''0'' \<noteq> 1" by (simp_all add: demo_device_def)
  have z: "zimage (section_content boot_fs demo_args 2)" by (simp only: boot_fs_sections small_zimage_ok)
  from packed_kernel_started [where fs = "demo_card boot_fs demo_args" and path = "''/mnt/SmartQ5''",
      OF demo_env_good boot_fs_layout card demo_platform a z, of "''upgrade''" "''/dev/mmcblk0''"]
  obtain dst where dst: "upgrade_main demo_env (demo_card boot_fs demo_args) (Some demo_device)
       [''upgrade'', ''/mnt/SmartQ5'', ''/dev/mmcblk0'', ''0''] = Some (0, dst)"
    "\<And>benv st sd. inand_ready benv (dev dst) st \<Longrightarrow> ready_to_boot st \<Longrightarrow> (\<forall>cs. getenv st ''stop'' \<noteq> Some (CHR ''y'' # cs)) \<Longrightarrow>
       kernel_runs small_zimage None (u_key_factory st) (u_arch st) (do_start_firmware benv sd st)"
    unfolding boot_fs_sections by blast
  from installed [where fs = "demo_card boot_fs demo_args" and path = "''/mnt/SmartQ5''",
      OF demo_env_good boot_fs_layout card demo_platform a, of "''upgrade''" "''/dev/mmcblk0''"]
  have "length (dev dst) = 16777216" using dst(1) by (auto simp: demo_device_def)
  from dst(2) [OF demo_inand_ready [OF this, of False] demo_boot_ok(1)] dst(1) show ?thesis
    using demo_boot_ok by fastforce
qed

text \<open>The installation that the other properties are tried on.\<close>

lemma demo_installed:
  assumes "layout_fits fs0 demo_args"
  obtains d where "length d = 16777216"
    "firmware_copy d 0 (final_header fs0 demo_args MACH_TYPE_SMARTQ5 7) (section_content fs0 demo_args 2) (section_content fs0 demo_args 3)"
    "firmware_copy d 8388608 (final_header fs0 demo_args MACH_TYPE_SMARTQ5 7) (section_content fs0 demo_args 2) (section_content fs0 demo_args 3)"
    "\<exists>dst. upgrade_main demo_env (demo_card fs0 demo_args) (Some demo_device)
       [''upgrade'', ''/mnt/SmartQ5'', ''/dev/mmcblk0'', ''0''] = Some (0, dst) \<and> dev dst = d"
proof -
  have card: "demo_card fs0 demo_args ''/mnt/SmartQ5'' = Some (image_of fs0 demo_args MACH_TYPE_SMARTQ5 7)"
    by (simp add: demo_card_def)
  have a: "16777216 \<le> length demo_device" "atoi ''0'' \<noteq> 1" by (simp_all add: demo_device_def)
  have l: "length demo_device mod 512 = 0" "length demo_device = 16777216" by (simp_all add: demo_device_def)
  from installed [where fs = "demo_card fs0 demo_args" and path = "''/mnt/SmartQ5''",
      OF demo_env_good assms card demo_platform a, of "''upgrade''" "''/dev/mmcblk0''"]
  obtain dst where dst: "upgrade_main demo_env (demo_card fs0 demo_args) (Some demo_device)
       [''upgrade'', ''/mnt/SmartQ5'', ''/dev/mmcblk0'', ''0''] = Some (0, dst)" "length (dev dst) = length demo_device"
    "firmware_copy (dev dst) (length (dev dst) - 16777216) (final_header fs0 demo_args MACH_TYPE_SMARTQ5 7)
       (section_content fs0 demo_args 2) (section_content fs0 demo_args 3)"
    "firmware_copy (dev dst) (length (dev dst) - 8388608) (final_header fs0 demo_args MACH_TYPE_SMARTQ5 7)
       (section_content fs0 demo_args 2) (section_content fs0 demo_args 3)"
    using l(1) by metis
  show thesis using that [of "dev dst"] dst l(2) by auto
qed

lemma demo_not_stopped: "\<forall>cs. getenv demo_boot ''stop'' \<noteq> Some (CHR ''y'' # cs)"
  by (simp add: demo_boot_ok)

text \<open>
  C37. The installer's key: at power on with only the left key held, u-boot starts, in its first look at the
  keys, the kernel of the newer firmware copy on the device together with the initramfs of that copy, which
  is a sound ramdisk image, and with the command line of the installer.
\<close>

theorem left_key_starts_installer:
  assumes "inand_ready env d st" "ready_to_boot st" "16777216 \<le> length d" "zimage z" "good_ramdisk i"
    and "firmware_copy d (length d - 16777216) fh z i" "keys_held (bo_pins env) {KEY_LEFT}"
    and "\<forall>cs. getenv st ''stop'' \<noteq> Some (CHR ''y'' # cs)"
  shows "kernel_runs z (Some i) False (u_arch st) (start_armboot_end (Suc fuel) env False st)"
  using assms by (rule left_key_runs)

theorem left_key_starts_installer_witness:
  "\<exists>d. (\<exists>dst. upgrade_main demo_env (demo_card boot_fs demo_args) (Some demo_device)
       [''upgrade'', ''/mnt/SmartQ5'', ''/dev/mmcblk0'', ''0''] = Some (0, dst) \<and> dev dst = d) \<and>
     kernel_runs small_zimage (Some demo_ramdisk) False MACH_TYPE_SMDK6410
       (start_armboot_end 1 (demo_board_env True d) False demo_boot)"
proof -
  from demo_installed [OF boot_fs_layout] obtain d where d: "length d = 16777216"
    "firmware_copy d 0 (final_header boot_fs demo_args MACH_TYPE_SMARTQ5 7) small_zimage demo_ramdisk"
    "\<exists>dst. upgrade_main demo_env (demo_card boot_fs demo_args) (Some demo_device)
       [''upgrade'', ''/mnt/SmartQ5'', ''/dev/mmcblk0'', ''0''] = Some (0, dst) \<and> dev dst = d"
    unfolding boot_fs_sections by metis
  have "kernel_runs small_zimage (Some demo_ramdisk) False (u_arch demo_boot)
       (start_armboot_end (Suc 0) (demo_board_env True d) False demo_boot)"
    using d(1,2) by (intro left_key_starts_installer [OF demo_inand_ready [OF d(1)] demo_boot_ok(1) _ small_zimage_ok
          demo_ramdisk_good _ demo_keys demo_not_stopped]) simp_all
  then show ?thesis using d(3) by (auto simp: demo_boot_ok)
qed

text \<open>
  C38. A damaged copy is passed over: when the header of the newer firmware copy has lost its magic number and
  the older copy is complete, u-boot starts the kernel of the older copy.
\<close>

theorem older_copy_started:
  assumes "inand_ready env d st" "ready_to_boot st" "16777216 \<le> length d"
    and "fh_magic (header_of_bytes (region d (length d - 16777216) 176)) \<noteq> HEAD_MAGIC"
    and "firmware_copy d (length d - 8388608) fh z i" "zimage z"
    and "\<forall>cs. getenv st ''stop'' \<noteq> Some (CHR ''y'' # cs)"
  shows "kernel_runs z None (u_key_factory st) (u_arch st) (do_start_firmware env flag st)"
proof -
  note p = bend_positions [OF assms(1,3)]
  obtain st' where st': "try_inand env KERNEL1_BEND False st = Ret True st'" "same_boot st st'" "inand_ready env d st'"
    "ready_to_boot st'"
    using damaged_header_read [OF assms(1) p(3) _ assms(4) p(1) assms(2)] assms(3) by auto
  have "kernel_runs z None (u_key_factory st) (u_arch st) (try_inand env KERNEL0_BEND False st')"
    using try_inand_runs [OF st'(3,4) assms(5) bend_positions(2) [OF st'(3) assms(3)] assms(6), of False] st'(2)
    by (simp add: same_boot_def)
  then show ?thesis unfolding do_start_firmware_def goes_on [OF assms(7)] using st'(1) by (simp add: kernel_runs_next)
qed

lemma firmware_copy_patch:
  assumes "firmware_copy d B fh z i" "pos + length bs \<le> B"
  shows "firmware_copy (patch d pos bs) B fh z i"
proof -
  have fit: "pos + length bs \<le> length d" using assms by (simp add: firmware_copy_def)
  have "region (patch d pos bs) (B + p) n = region d (B + p) n" for p n
    using assms(2) fit by (intro region_patch_disjoint) simp_all
  from this [of 0] this [of 263168] this [of 2097152] show ?thesis
    using assms(1) fit by (simp add: firmware_copy_def)
qed

lemma no_magic: "fh_magic (header_of_bytes (replicate 176 0)) \<noteq> HEAD_MAGIC"
  by (simp add: header_of_bytes_def get32_def byte_at_def HEAD_MAGIC_def)

theorem older_copy_started_witness:
  "\<exists>d. (\<exists>dst. upgrade_main demo_env (demo_card boot_fs demo_args) (Some demo_device)
       [''upgrade'', ''/mnt/SmartQ5'', ''/dev/mmcblk0'', ''0''] = Some (0, dst) \<and> dev dst = d) \<and>
     kernel_runs small_zimage None False MACH_TYPE_SMDK6410
       (do_start_firmware (demo_board_env False (patch d 0 (replicate 176 0))) True demo_boot)"
proof -
  from demo_installed [OF boot_fs_layout] obtain d where d: "length d = 16777216"
    "firmware_copy d 8388608 (final_header boot_fs demo_args MACH_TYPE_SMARTQ5 7) small_zimage demo_ramdisk"
    "\<exists>dst. upgrade_main demo_env (demo_card boot_fs demo_args) (Some demo_device)
       [''upgrade'', ''/mnt/SmartQ5'', ''/dev/mmcblk0'', ''0''] = Some (0, dst) \<and> dev dst = d"
    unfolding boot_fs_sections by metis
  let ?d = "patch d 0 (replicate 176 0)"
  have l: "length ?d = 16777216" using d(1) by simp
  have "region ?d 0 176 = replicate 176 0" using region_patch_same [of 0 "replicate 176 0" d] d(1) by simp
  then have bad: "fh_magic (header_of_bytes (region ?d (length ?d - 16777216) 176)) \<noteq> HEAD_MAGIC"
    using l no_magic by simp
  have copy: "firmware_copy ?d (length ?d - 8388608) (final_header boot_fs demo_args MACH_TYPE_SMARTQ5 7) small_zimage demo_ramdisk"
    using firmware_copy_patch [OF d(2), of 0 "replicate 176 0"] l by simp
  have "kernel_runs small_zimage None (u_key_factory demo_boot) (u_arch demo_boot)
       (do_start_firmware (demo_board_env False ?d) True demo_boot)"
    using l by (intro older_copy_started [OF demo_inand_ready [OF l] demo_boot_ok(1) _ bad copy small_zimage_ok demo_not_stopped]) simp
  then show ?thesis using d(3) by (auto simp: demo_boot_ok)
qed

text \<open>
  C39. No second attempt after a kernel was refused: when the newer copy holds an image in u-boot's format
  whose header fails its check sum, starting the firmware calls the read function of a device that was
  released, a null pointer, whatever the older copy holds.  The card is still noted as the selected one and
  is not set up again.
\<close>

theorem refused_kernel_faults:
  assumes "inand_ready env d st" "ready_to_boot st" "16777216 \<le> length d" "damaged_uimage z"
    and "firmware_copy d (length d - 16777216) fh z i" "\<forall>cs. getenv st ''stop'' \<noteq> Some (CHR ''y'' # cs)"
  shows "do_start_firmware env flag st = Fault"
proof -
  have ram: "67142144 \<le> length (u_ram st)" "length (u_ram st) \<le> 134217728" using assms(2) by (simp_all add: ready_to_boot_def)
  obtain st' where st': "do_read_inand_ub env INAND_DEV KERNEL1_BEND False st = Ret 0 st'" "same_boot st st'"
    "holds (u_ram st') 32768 z" "selected (bo_xfer env) INAND_DEV d (u_mmc st')"
    using do_read_inand_ub_ok [OF assms(1,5) bend_positions(1) [OF assms(1,3)] ram(1), of False] by blast
  have ram': "length (u_ram st') = length (u_ram st)" using st'(2) by (simp add: same_boot_def)
  obtain st'' where st'': "boot_image env MEM_KERNEL_START 0 st' = Ret 1 st''" "u_mmc st'' = mmc_release_dev (u_mmc st')"
    "u_ram st'' = u_ram st'"
    using boot_image_damaged [OF st'(3) assms(4)] ram(2) ram' by auto
  have "try_inand env KERNEL1_BEND False st = Ret True st''" using st'(1) st''(1) by (simp add: try_inand_def)
  moreover have "try_inand env KERNEL0_BEND False st'' = Fault"
    using released_device_faults [of st''] st'(4) st''(2,3) ram(1) ram' by (simp add: mmc_release_dev_def selected_def)
  ultimately show ?thesis unfolding do_start_firmware_def goes_on [OF assms(6)] by simp
qed

definition damaged_kernel :: bytes where
  "damaged_kernel = demo_head (crc_of (demo_head 0) + 1)"

lemma damaged_kernel_ok: "damaged_uimage damaged_kernel"
proof -
  have c: "get32_be damaged_kernel 4 = crc_of (demo_head 0) + 1" "get32_be damaged_kernel 0 = IH_MAGIC"
    using demo_head_fields(1,2) [of _ "[]"] by (simp_all add: damaged_kernel_def)
  have "take 64 damaged_kernel = damaged_kernel" by (simp add: damaged_kernel_def)
  moreover have "\<not> fst (header_crc_ok damaged_kernel)"
    unfolding header_crc_ok_def Let_def ih_hcrc_def c by (simp add: damaged_kernel_def demo_head_cleared)
  moreover have "get32 damaged_kernel 36 = 0"
    by (simp add: damaged_kernel_def demo_head_def get32_def byte_at_def nth_append)
  ultimately show ?thesis
    using c(2) by (simp add: damaged_uimage_def LINUX_ZIMAGE_MAGIC_def) (simp add: damaged_kernel_def)
qed

definition damaged_fs :: fsys where
  "damaged_fs = demo_fs(''zImage'' \<mapsto> damaged_kernel, ''initramfs'' \<mapsto> demo_ramdisk)"

theorem refused_kernel_faults_witness:
  "\<exists>d. (\<exists>dst. upgrade_main demo_env (demo_card damaged_fs demo_args) (Some demo_device)
       [''upgrade'', ''/mnt/SmartQ5'', ''/dev/mmcblk0'', ''0''] = Some (0, dst) \<and> dev dst = d) \<and>
     do_start_firmware (demo_board_env False d) True demo_boot = Fault"
proof -
  have lay: "layout_fits damaged_fs demo_args"
    by (simp add: layout_fits_def packed_def demo_args_def damaged_fs_def damaged_kernel_def demo_fs_def content_of_def
        section_content_def sizeof_FWFileHdr_def)
  have sec: "section_content damaged_fs demo_args 2 = damaged_kernel"
    by (simp add: section_content_def content_of_def demo_args_def damaged_fs_def)
  from demo_installed [OF lay] obtain d where d: "length d = 16777216"
    "firmware_copy d 0 (final_header damaged_fs demo_args MACH_TYPE_SMARTQ5 7) damaged_kernel (section_content damaged_fs demo_args 3)"
    "\<exists>dst. upgrade_main demo_env (demo_card damaged_fs demo_args) (Some demo_device)
       [''upgrade'', ''/mnt/SmartQ5'', ''/dev/mmcblk0'', ''0''] = Some (0, dst) \<and> dev dst = d"
    unfolding sec by metis
  have "do_start_firmware (demo_board_env False d) True demo_boot = Fault"
    using d(1,2) by (intro refused_kernel_faults [OF demo_inand_ready [OF d(1)] demo_boot_ok(1) _ damaged_kernel_ok _ demo_not_stopped])
      simp_all
  then show ?thesis using d(3) by auto
qed

subsection \<open>The machine type\<close>

text \<open>The machine type is \<open>a\<close> after the call, and it is what a kernel that was started has been given.\<close>

fun arch_kept :: "u32 \<Rightarrow> 'a outcome \<Rightarrow> bool" where
  "arch_kept a (Ret x st) = (u_arch st = a)"
| "arch_kept a (Launched e m p st) = (m = a)"
| "arch_kept a (Standalone e args st) = True"
| "arch_kept a (Other_os os st) = True"
| "arch_kept a (Reset_board st) = True"
| "arch_kept a Fault = True"

named_theorems arch_keeps

lemma arch_next [arch_keeps]:
  "arch_kept a r \<Longrightarrow> (\<And>x st. u_arch st = a \<Longrightarrow> arch_kept a (f x st)) \<Longrightarrow> arch_kept a (and_next r f)"
  by (cases r) auto

lemma arch_or_fault [arch_keeps]: "(\<And>x. v = Some x \<Longrightarrow> arch_kept a (f x)) \<Longrightarrow> arch_kept a (or_fault v f)"
  by (cases v) auto

lemma arch_cases [arch_keeps]:
  "u_arch st = a \<Longrightarrow> arch_kept a (Ret x st)"
  "(c \<Longrightarrow> arch_kept a r) \<Longrightarrow> (\<not> c \<Longrightarrow> arch_kept a q) \<Longrightarrow> arch_kept a (if c then r else q)"
  "(\<And>x y. p = (x, y) \<Longrightarrow> arch_kept a (g x y)) \<Longrightarrow> arch_kept a (case p of (x, y) \<Rightarrow> g x y)"
  "arch_kept a r \<Longrightarrow> (\<And>x. arch_kept a (f x)) \<Longrightarrow> arch_kept a (case v of None \<Rightarrow> r | Some x \<Rightarrow> f x)"
  "arch_kept a Fault"
  by (cases p; cases v; auto)+

lemma arch_steps [simp]:
  "u_arch (on_gpio g st) = u_arch st" "u_arch (leds env l st) = u_arch st" "u_arch (poweroff env st) = u_arch st"
  "u_arch (setenv n v st) = u_arch st" "u_arch (do_firmware_error env st) = u_arch st"
  by (simp_all add: on_gpio_def leds_def poweroff_def setenv_def do_firmware_error_def)

lemma arch_stored:
  "store_bytes a bs st = Some st' \<Longrightarrow> u_arch st' = u_arch st"
  "block_read env s n a st = Some st' \<Longrightarrow> u_arch st' = u_arch st"
  "copy_bytes a s n st = Some st' \<Longrightarrow> u_arch st' = u_arch st"
  "get_dev_mmc env d st = (ok, st') \<Longrightarrow> u_arch st' = u_arch st"
  "take_mach_type st = Some st' \<Longrightarrow> u_arch st' = u_arch st"
  by (auto simp: store_bytes_def block_read_def copy_bytes_def get_dev_mmc_def take_mach_type_def split: if_splits
      prod.splits bind_splits)

lemma arch_read:
  "read_keys env st = (key, st') \<Longrightarrow> u_arch st' = u_arch st"
  "dc_status env st = (dc, st') \<Longrightarrow> u_arch st' = u_arch st"
  "get_ticks env st = (t, st') \<Longrightarrow> u_arch st' = u_arch st"
  "u_arch (battery_probe env st) = u_arch st"
  using only_pins_battery [of st env]
  by (auto simp: read_keys_def dc_status_def get_ticks_def only_pins_def same_boot_def split: prod.splits)

lemma arch_boot_os: "u_arch st = a \<Longrightarrow> arch_kept a (boot_os argv len_ptr verify st)"
proof (cases "boot_os argv len_ptr verify st")
  case (Ret x st')
  assume a: "u_arch st = a"
  have "arch_kept a (find_initrd argv len_ptr verify st)"
    using a bootm_keeps_arch(2) not_launched(2) by (cases "find_initrd argv len_ptr verify st") auto
  then show ?thesis
    by (auto simp: boot_os_def do_bootm_linux_def Let_def split: prod.splits intro!: arch_keeps)
qed (use boot_os_launched in auto)

lemma arch_image_steps:
  "u_arch st = a \<Longrightarrow> arch_kept a (find_kernel argv data len st)"
  "u_arch st = a \<Longrightarrow> arch_kept a (unpack_image gunzip addr data len st)"
  "u_arch st = a \<Longrightarrow> arch_kept a (start_kernel_image argv len_ptr verify ret st)"
proof -
  show "u_arch st = a \<Longrightarrow> arch_kept a (find_kernel argv data len st)"
    using find_kernel_ret(1) find_kernel_not_launched by (cases "find_kernel argv data len st") auto
  show "u_arch st = a \<Longrightarrow> arch_kept a (unpack_image gunzip addr data len st)"
    using bootm_keeps_arch(3) not_launched(3) by (cases "unpack_image gunzip addr data len st") auto
  show "u_arch st = a \<Longrightarrow> arch_kept a (start_kernel_image argv len_ptr verify ret st)"
    by (simp add: start_kernel_image_def arch_boot_os)
qed

lemma arch_uimage: "u_arch st = a \<Longrightarrow> arch_kept a (bootm_uimage gunzip argv verify addr st)"
  by (auto simp: bootm_uimage_def Let_def split: prod.splits intro!: arch_keeps arch_image_steps)

lemma arch_bootm: "u_arch st = a \<Longrightarrow> arch_kept a (do_bootm gunzip argv st)"
  by (auto simp: do_bootm_def Let_def intro!: arch_keeps arch_boot_os arch_uimage)

lemma arch_boot_image: "u_arch st = a \<Longrightarrow> arch_kept a (boot_image env addr addr2 st)"
  by (simp add: boot_image_def Let_def arch_bootm)

lemma arch_read_section: "u_arch st = a \<Longrightarrow> arch_kept a (read_section env off s addr err st)"
  unfolding read_section_def Let_def by (intro arch_keeps) (auto dest: arch_stored)

lemma arch_read_inand: "u_arch st = a \<Longrightarrow> arch_kept a (do_read_inand_ub env d off flag st)"
  unfolding do_read_inand_ub_def Let_def by (intro arch_keeps arch_read_section) (auto dest!: arch_stored)

lemma arch_try_inand: "u_arch st = a \<Longrightarrow> arch_kept a (try_inand env off flag st)"
  unfolding try_inand_def by (intro arch_keeps arch_read_inand arch_boot_image)

lemma arch_fatload: "u_arch st = a \<Longrightarrow> arch_kept a (do_fat_fsload env argv st)"
  unfolding do_fat_fsload_def Let_def by (intro arch_keeps) (auto dest!: arch_stored)

lemma arch_load_sd: "u_arch st = a \<Longrightarrow> arch_kept a (load_sd_file env d file addr sz st)"
  unfolding load_sd_file_def Let_def by (intro arch_keeps arch_fatload)

lemma arch_readsd: "u_arch st = a \<Longrightarrow> arch_kept a (do_readsd_upgrade env d file st)"
  unfolding do_readsd_upgrade_def Let_def by (intro arch_keeps arch_load_sd arch_boot_image) (metis arch_stored(1,3,5))+

lemma arch_start_firmware: "u_arch st = a \<Longrightarrow> arch_kept a (do_start_firmware env flag st)"
proof -
  assume a: "u_arch st = a"
  show ?thesis
  proof (cases "\<exists>cs. getenv st ''stop'' = Some (CHR ''y'' # cs)")
    case True
    then show ?thesis using a by (auto simp: do_start_firmware_def)
  next
    case False
    then have go: "\<forall>cs. getenv st ''stop'' \<noteq> Some (CHR ''y'' # cs)" by blast
    show ?thesis
      unfolding do_start_firmware_def goes_on [OF go] Let_def
      by (intro arch_keeps arch_try_inand arch_readsd a) simp_all
  qed
qed

lemma arch_upgrade: "u_arch st = a \<Longrightarrow> arch_kept a (do_upgrade env flag st)"
  unfolding do_upgrade_def by (intro arch_keeps arch_try_inand arch_readsd)

lemma arch_boot_upgrade: "u_arch st = a \<Longrightarrow> arch_kept a (do_boot_upgrade env param st)"
proof -
  have w: "arch_kept a (write_uboot env len n tries st)" if "u_arch st = a" for len n tries st
    using that
  proof (induction tries arbitrary: n st)
    case 0
    then show ?case by (subst write_uboot.simps) (auto intro!: arch_keeps dest: arch_stored)
  next
    case (Suc tries)
    then show ?case by (subst write_uboot.simps) (auto intro!: arch_keeps Suc dest: arch_stored)
  qed
  show "u_arch st = a \<Longrightarrow> arch_kept a (do_boot_upgrade env param st)"
    unfolding do_boot_upgrade_def by (intro arch_keeps arch_load_sd w)
qed

lemma arch_serve_key: "u_arch st = a \<Longrightarrow> arch_kept a (serve_key env st)"
  by (auto simp: serve_key_def Let_def split: prod.splits intro!: arch_keeps arch_upgrade dest!: arch_read(1,2))

lemma arch_press_loop: "u_arch st = a \<Longrightarrow> arch_kept a (press_key_loop fuel env start_tick st)"
  by (induction fuel arbitrary: st)
    (auto simp: Let_def split: prod.splits intro!: arch_keeps arch_serve_key dest!: arch_read(3))

lemma arch_press_key: "u_arch st = a \<Longrightarrow> arch_kept a (press_key fuel env st)"
  by (auto simp: press_key_def Let_def split: prod.splits intro!: arch_press_loop dest!: arch_read(1,3))

lemma stopped:
  "getenv st ''stop'' = Some (CHR ''y'' # cs) \<Longrightarrow> (case getenv st ''stop'' of Some (CHR ''y'' # _) \<Rightarrow> a | _ \<Rightarrow> b) = a"
  by simp

lemma arch_init_hard: "u_arch st = a \<Longrightarrow> arch_kept a (init_hard_last fuel env flag param st)"
proof -
  assume a: "u_arch st = a"
  let ?inp = "\<lambda>gpio. on_gpio (gpio_direction_input (bo_pins env) gpio)"
  let ?st = "on_gpio (key_init (bo_pins env)) (?inp GPIO_GPN14 (?inp GPIO_GPN13 (?inp GPIO_DCIN st)))"
  have st: "u_arch ?st = a" "u_arch (battery_probe env ?st) = a" using a by (simp_all add: arch_read(4))
  show ?thesis
  proof (cases "\<exists>cs. getenv ?st ''stop'' = Some (CHR ''y'' # cs)")
    case True
    then obtain cs where stop: "getenv ?st ''stop'' = Some (CHR ''y'' # cs)" by blast
    show ?thesis
      unfolding init_hard_last_def Let_def stopped [OF stop] by (intro arch_keeps arch_upgrade arch_boot_upgrade st)
  next
    case False
    then have go: "\<forall>cs. getenv ?st ''stop'' \<noteq> Some (CHR ''y'' # cs)" by blast
    show ?thesis
      unfolding init_hard_last_def Let_def goes_on [OF go]
      by (intro arch_keeps arch_upgrade arch_boot_upgrade arch_press_key st)
  qed
qed

text \<open>
  C40. Whatever the keys, the cards and the images are, a kernel that u-boot starts at power on is given the
  machine type of a SmartQ7, which machType holds when board_init copies it: the platform in the header
  of a firmware copy, which the code later reads into machType, never gets to the kernel.
\<close>

theorem machine_type_fixed:
  assumes "u_machType st = MACH_TYPE_SMARTQ7"
    and "start_armboot_end fuel env space (board_init st) = Launched e m p st'"
  shows "m = MACH_TYPE_SMARTQ7"
proof -
  have "u_arch (board_init st) = MACH_TYPE_SMARTQ7" using assms(1) by (simp add: board_init_def get_mach_type_def)
  moreover have "arch_kept (u_arch (board_init st)) (start_armboot_end fuel env space (board_init st))"
    unfolding start_armboot_end_def by (intro arch_keeps arch_init_hard arch_start_firmware refl) simp_all
  ultimately show ?thesis using assms(2) by simp
qed

lemma demo_power_on:
  "inand_ready env d (board_init demo_boot) = inand_ready env d demo_boot" "ready_to_boot (board_init demo_boot)"
  "\<forall>cs. getenv (board_init demo_boot) ''stop'' \<noteq> Some (CHR ''y'' # cs)"
  using demo_boot_ok by (simp_all add: board_init_def inand_ready_def ready_to_boot_def getenv_def)

theorem machine_type_fixed_witness:
  "\<exists>d st'. fh_machType (header_of_bytes (region d 0 176)) = MACH_TYPE_SMARTQ5 \<and>
     start_armboot_end 1 (demo_board_env True d) False (board_init demo_boot) =
       Launched MEM_KERNEL_START MACH_TYPE_SMARTQ7 (MEMORY_BASE_ADDRESS + 0x100) st'"
proof -
  from demo_installed [OF boot_fs_layout] obtain d where d: "length d = 16777216"
    "firmware_copy d 0 (final_header boot_fs demo_args MACH_TYPE_SMARTQ5 7) small_zimage demo_ramdisk"
    unfolding boot_fs_sections by metis
  have rdy: "inand_ready (demo_board_env True d) d (board_init demo_boot)"
    using demo_inand_ready [OF d(1)] by (simp only: demo_power_on(1))
  have "kernel_runs small_zimage (Some demo_ramdisk) False (u_arch (board_init demo_boot))
       (start_armboot_end (Suc 0) (demo_board_env True d) False (board_init demo_boot))"
    using d(1,2) by (intro left_key_runs [OF rdy demo_power_on(2) _ small_zimage_ok
          demo_ramdisk_good _ demo_keys demo_power_on(3)]) simp_all
  then obtain m st' where run: "start_armboot_end 1 (demo_board_env True d) False (board_init demo_boot) =
      Launched MEM_KERNEL_START m (MEMORY_BASE_ADDRESS + 0x100) st'"
    by (auto simp: kernel_runs_def)
  have h: "header_of_bytes (region d 0 176) = final_header boot_fs demo_args MACH_TYPE_SMARTQ5 7"
    using d(2) by (simp add: firmware_copy_def)
  have "u_machType demo_boot = MACH_TYPE_SMARTQ7" by (simp add: demo_boot_def)
  then have "m = MACH_TYPE_SMARTQ7" using machine_type_fixed [OF _ run] by simp
  moreover have "fh_machType (header_of_bytes (region d 0 176)) = MACH_TYPE_SMARTQ5"
    unfolding h by (simp add: final_header_fields)
  ultimately show ?thesis using run by (intro exI [of _ d]) blast
qed

end
