(* ===== verification/Uboot_Crypt.thy ===== *)
theory Uboot_Crypt
  imports Prelude
begin

section \<open>u-boot: the mixer for files\<close>

text \<open>
  \<open>genX\<close>, \<open>genY\<close>, \<open>encrypt\<close> and \<open>do_encrypt_data\<close> of \<^verbatim>\<open>u-boot/board/samsung/smdk6410/cmd_hhtech.c\<close>: each
  half word is combined with one Fibonacci sequence and rotated by another.  The sequences are static
  variables and go on from one call to the next.  Shown are that the half words can be recovered by a reader
  who knows the state of the sequences, and what the next call continues with.
\<close>

record mixer =
  fbnc_x :: "u16 \<times> u16"
  fbnc_y :: "u16 \<times> u16"

definition fresh_mixer :: mixer where
  "fresh_mixer = \<lparr>fbnc_x = (1, 1), fbnc_y = (1, 2)\<rparr>"

definition genX :: "mixer \<Rightarrow> u16 \<times> mixer" where
  "genX mx = (let x = fst (fbnc_x mx) + snd (fbnc_x mx) in (x mod 16, mx\<lparr>fbnc_x := (snd (fbnc_x mx), x)\<rparr>))"

definition genY :: "mixer \<Rightarrow> u16 \<times> mixer" where
  "genY mx = (let y = fst (fbnc_y mx) + snd (fbnc_y mx)
     in (push_bit 8 y OR drop_bit 8 y, mx\<lparr>fbnc_y := (snd (fbnc_y mx), y)\<rparr>))"

definition encrypt :: "mixer \<Rightarrow> u16 \<Rightarrow> u16 \<times> mixer" where
  "encrypt mx data =
     (let (x, mx) = genX mx; (y, mx) = genY mx; t1 = data XOR y
      in (drop_bit (unat x) t1 OR push_bit (16 - unat x) t1, mx))"

text \<open>\<open>for (i = 0; i < size; i += 2)\<close> over the half words from \<open>src\<close> on; None: the memory ends before the data.\<close>

fun encrypt_loop :: "mixer \<Rightarrow> nat \<Rightarrow> u16 list \<Rightarrow> (u16 list \<times> mixer) option" where
  "encrypt_loop mx 0 p = Some (p, mx)"
| "encrypt_loop mx (Suc n) [] = None"
| "encrypt_loop mx (Suc n) (d # p) =
     (let (e, mx) = encrypt mx d in map_option (\<lambda>(p, mx). (e # p, mx)) (encrypt_loop mx n p))"

definition do_encrypt_data :: "mixer \<Rightarrow> u16 list \<Rightarrow> int \<Rightarrow> (u16 list \<times> mixer) option" where
  "do_encrypt_data mx src len = encrypt_loop mx (nat ((len + 1) div 2)) src"

subsection \<open>Reading the data back\<close>

text \<open>The other direction, with the sequences given as functions: the k-th Fibonacci number from a pair on.\<close>

fun fib_from :: "u16 \<times> u16 \<Rightarrow> nat \<Rightarrow> u16" where
  "fib_from (a, b) 0 = a"
| "fib_from (a, b) (Suc 0) = b"
| "fib_from (a, b) (Suc (Suc k)) = fib_from (a, b) (Suc k) + fib_from (a, b) k"

definition rotate_left16 :: "nat \<Rightarrow> u16 \<Rightarrow> u16" where
  "rotate_left16 n w = push_bit n w OR drop_bit (16 - n) w"

definition swap16 :: "u16 \<Rightarrow> u16" where
  "swap16 w = push_bit 8 w OR drop_bit 8 w"

definition recover :: "mixer \<Rightarrow> nat \<Rightarrow> u16 \<Rightarrow> u16" where
  "recover mx k e = rotate_left16 (unat (fib_from (fbnc_x mx) (k + 2)) mod 16) e XOR swap16 (fib_from (fbnc_y mx) (k + 2))"

definition recover_all :: "mixer \<Rightarrow> u16 list \<Rightarrow> u16 list" where
  "recover_all mx es = map (\<lambda>k. recover mx k (es ! k)) [0..<length es]"

definition mixer_after :: "mixer \<Rightarrow> nat \<Rightarrow> mixer" where
  "mixer_after mx n = \<lparr>fbnc_x = (fib_from (fbnc_x mx) n, fib_from (fbnc_x mx) (n + 1)),
     fbnc_y = (fib_from (fbnc_y mx) n, fib_from (fbnc_y mx) (n + 1))\<rparr>"

lemma fib_shift: "fib_from (b, a + b) k = fib_from (a, b) (Suc k)"
proof (induction k rule: induct_nat_012)
  case 1
  then show ?case by (simp add: numeral_2_eq_2 add.commute)
qed simp_all

lemma fib_pair: "fib_from p 0 = fst p" "fib_from p (Suc 0) = snd p" "fib_from p (Suc (Suc 0)) = fst p + snd p"
  by (cases p; simp add: add.commute)+

lemma rotate_back:
  assumes "n < 16"
  shows "rotate_left16 n (drop_bit n w OR push_bit (16 - n) w) = w"
proof (rule bit_eqI)
  fix i
  assume "possible_bit TYPE(u16) i"
  then have i: "i < 16" by simp
  let ?e = "drop_bit n w OR push_bit (16 - n) w"
  have e: "bit ?e j \<longleftrightarrow> (if j < 16 - n then bit w (n + j) else j < 16 \<and> bit w (j - (16 - n)))" for j
    using assms bit_imp_le_length [of w "n + j"] by (auto simp: bit_or_iff bit_push_bit_iff bit_drop_bit_eq)
  show "bit (rotate_left16 n ?e) i = bit w i"
  proof (cases "n \<le> i")
    case True
    then show ?thesis using i assms by (auto simp: rotate_left16_def bit_or_iff bit_push_bit_iff bit_drop_bit_eq e)
  next
    case False
    then have "16 - n + i < 16" "\<not> 16 - n + i < 16 - n" using assms by linarith+
    then show ?thesis using False assms by (simp add: rotate_left16_def bit_or_iff bit_push_bit_iff bit_drop_bit_eq e)
  qed
qed

lemma encrypt_step:
  obtains e where "encrypt mx d = (e, mixer_after mx 1)" "recover mx 0 e = d"
proof -
  let ?x = "fib_from (fbnc_x mx) 2" and ?y = "fib_from (fbnc_y mx) 2"
  let ?t = "d XOR swap16 ?y"
  let ?e = "drop_bit (unat (?x mod 16)) ?t OR push_bit (16 - unat (?x mod 16)) ?t"
  have x: "unat (?x mod 16) = unat ?x mod 16" by (simp add: unat_mod_distrib)
  have "encrypt mx d = (?e, mixer_after mx 1)"
    by (simp add: encrypt_def genX_def genY_def Let_def mixer_after_def swap16_def fib_pair numeral_2_eq_2)
  moreover have "recover mx 0 ?e = d"
    using rotate_back [of "unat ?x mod 16" ?t] by (simp only: recover_def x add_0) (simp add: xor.assoc)
  ultimately show thesis using that by blast
qed

lemma mixer_after_fib:
  "fib_from (fbnc_x (mixer_after mx 1)) k = fib_from (fbnc_x mx) (Suc k)"
  "fib_from (fbnc_y (mixer_after mx 1)) k = fib_from (fbnc_y mx) (Suc k)"
  using fib_shift [of "snd (fbnc_x mx)" "fst (fbnc_x mx)" k] fib_shift [of "snd (fbnc_y mx)" "fst (fbnc_y mx)" k]
  by (simp_all add: mixer_after_def fib_pair numeral_2_eq_2)

lemma mixer_after_Suc: "mixer_after (mixer_after mx 1) n = mixer_after mx (Suc n)"
  unfolding mixer_after_def [of "mixer_after mx 1"] mixer_after_fib by (simp add: mixer_after_def)

lemma recover_Suc: "recover (mixer_after mx 1) k e = recover mx (Suc k) e"
  by (simp add: recover_def mixer_after_fib del: One_nat_def)

lemma recover_all_Cons: "recover_all mx (e # es) = recover mx 0 e # recover_all (mixer_after mx 1) es"
  by (simp add: recover_all_def recover_Suc upt_conv_Cons map_Suc_upt [symmetric] del: upt_Suc One_nat_def)

lemma encrypt_loop_ok:
  "n \<le> length p \<Longrightarrow> \<exists>es. encrypt_loop mx n p = Some (es @ drop n p, mixer_after mx n) \<and> length es = n \<and>
     recover_all mx es = take n p"
proof (induction n arbitrary: mx p)
  case 0
  then show ?case by (simp add: recover_all_def mixer_after_def fib_pair)
next
  case (Suc n)
  then obtain d q where p: "p = d # q" "n \<le> length q" by (cases p) auto
  obtain e where e: "encrypt mx d = (e, mixer_after mx 1)" "recover mx 0 e = d" by (rule encrypt_step)
  obtain es where es: "encrypt_loop (mixer_after mx 1) n q = Some (es @ drop n q, mixer_after (mixer_after mx 1) n)"
    "length es = n" "recover_all (mixer_after mx 1) es = take n q"
    using Suc.IH [OF p(2)] by blast
  then show ?case
    using p(1) e by (intro exI [of _ "e # es"]) (simp add: recover_all_Cons mixer_after_Suc del: One_nat_def)
qed

text \<open>
  The mixer loses nothing: when the memory holds the data, \<open>do_encrypt_data\<close> changes the half words that
  the length touches, an odd length one byte more, and nothing behind them; from the changed half words and
  the state before the call the data can be recovered, and the sequences are advanced by one number for
  every half word.
\<close>

theorem mixer_invertible:
  assumes "nat ((len + 1) div 2) = n" "n \<le> length src"
  shows "\<exists>es. do_encrypt_data mx src len = Some (es @ drop n src, mixer_after mx n) \<and> length es = n \<and>
    recover_all mx es = take n src"
  using encrypt_loop_ok [OF assms(2), of mx] assms(1) by (simp add: do_encrypt_data_def)

theorem mixer_invertible_witness:
  "\<exists>es. do_encrypt_data fresh_mixer [0x1234, 0xABCD, 7] 3 = Some (es @ [7], mixer_after fresh_mixer 2) \<and>
     recover_all fresh_mixer es = [0x1234, 0xABCD]"
  using mixer_invertible [of 3 2 "[0x1234, 0xABCD, 7]" fresh_mixer] by (auto simp: numeral_2_eq_2)

end
