(* ===== verification/Spec2Isabelle.thy ===== *)
theory Spec2Isabelle
  imports Firmware_Install Crc32 Ext2_Props Qi_Tags Qi_I2c Qi_Memtest LL_Port Qi_Boot Qi_Start Qi_Sdcard Uboot_Run Uboot_Crypt
begin

text \<open>
  The SmartQ MIDs (ARM, Samsung S3C6410) start in three steps, and their firmware is made and installed by
  three tools.  This development models the code of the repository that decides what runs: which bytes go
  where, which of them are checked, and what is started when a check fails.

  \<^bold>\<open>The program.\<close>  On the workbench \<^verbatim>\<open>fw-utils/mkSmartQ.c\<close> packs u-boot, qi, the kernel, the initramfs and
  two archives of file systems into one image: a header of 176 bytes and the sections, each with a sum.
  On the device the installer, \<^verbatim>\<open>fw-utils/upgrade.c\<close>, checks an image, writes its boot sections twice to the
  end of the iNAND, reads them back, and unpacks the file systems.  At power on the first stage
  (\<^verbatim>\<open>qi/src/cpu/s3c6410/start_qi.c\<close>) loads u-boot from the newer copy, from the older one when the magic
  number of the newer is wrong or the read fails, or from its old place; it finds the copies on a device whose
  blocks the ROM counts in full, not on one that the ROM takes for an SDHC card.  u-boot (\<^verbatim>\<open>board/samsung/smdk6410/cmd_hhtech.c\<close>) reads the keys, loads kernel
  and initramfs from the copies or from a card, and starts them with \<^verbatim>\<open>bootm\<close>.  On boards without u-boot
  the second phase of qi (\<^verbatim>\<open>phase2.c\<close>) reads a kernel by name from an ext2 file system and starts it itself.
  The parts share the image format only; so the theorems that join them are about the bytes of the device.

  \<^bold>\<open>Theories.\<close>  \<open>Prelude\<close> has the types (bytes, 32-bit words, \<open>patch\<close> and \<open>region\<close> of a byte array, the
  little- and big-endian fields) and the lemmas that all of them use.
  \<^item> \<open>File_IO\<close> (descriptors, the locale \<open>byte_source\<close>), \<open>Firmware_Header\<close> (the structures of
    \<^verbatim>\<open>firmware_header.h\<close> and their bytes), \<open>Firmware_Pack\<close> (\<^verbatim>\<open>mkSmartQ.c\<close>), \<open>Firmware_Extract\<close>
    (\<^verbatim>\<open>extract.c\<close>), \<open>Firmware_Upgrade\<close> and \<open>Firmware_Install\<close> (\<^verbatim>\<open>upgrade.c\<close>).  \<open>Firmware_Image\<close> joins the
    packer and the checker.
  \<^item> \<open>Two_Wire\<close> (what is common to two-wire buses), \<open>LL_Port\<close> (\<^verbatim>\<open>ll_port.c\<close>, the crypto memory of the board)
    and \<open>Qi_I2c\<close> (\<^verbatim>\<open>i2c-bitbang.c\<close>).
  \<^item> \<open>Crc32\<close>, \<open>Qi_Utils\<close> (\<^verbatim>\<open>utils.c\<close>, \<^verbatim>\<open>utils-phase2.c\<close>), \<open>Qi_Memtest\<close> (\<^verbatim>\<open>memory-test.c\<close>).
  \<^item> \<open>Ext2_Dev\<close> (\<^verbatim>\<open>fs/dev.c\<close>, the locale \<open>partition_reader\<close>), \<open>Ext2_Fs\<close> and \<open>Ext2_Dir\<close> (\<^verbatim>\<open>fs/ext2.c\<close>).
    \<open>Ext2_Files\<close>, \<open>Ext2_Names\<close> and \<open>Ext2_Paths\<close> are the abstract file system (the bytes of a file, the list
    of a directory, the walk along a path), \<open>Ext2_Read\<close> the proof that the joined reads give the file's
    bytes, \<open>Ext2_Boot\<close> what the boot code needs, \<open>Ext2_Demo\<close> a disk, \<open>Ext2_Props\<close> the properties.
  \<^item> \<open>Qi_Phase2\<close> (\<^verbatim>\<open>phase2.c\<close>), \<open>Qi_Tags\<close> (the kernel's reader of tags), \<open>Qi_Boot\<close> (the second phase on
    an ext2 file system), \<open>Qi_Start\<close> (the first stage).
  \<^item> \<open>Qi_Hsmmc\<close> (\<^verbatim>\<open>hs_mmc.c\<close>, the card reader of qi on the S3C6410, at the level of its registers),
    \<open>Qi_Sdhost\<close> (a controller with a card as an automaton, the locale \<open>sd_controller\<close>), \<open>Qi_Sdcard\<close>
    (the properties of the reader on such a controller).
  \<^item> \<open>Uboot_Gpio\<close> (\<^verbatim>\<open>misc.c\<close>, keys and lights), \<open>Uboot_Mmc\<close> (\<^verbatim>\<open>vfat_hs_mmc.c\<close>), \<open>Uboot_Bootm\<close>
    (\<^verbatim>\<open>cmd_bootm.c\<close>, \<^verbatim>\<open>armlinux.c\<close>), \<open>Uboot_Start\<close> (\<^verbatim>\<open>cmd_hhtech.c\<close>, \<^verbatim>\<open>smdk6410.c\<close>), \<open>Uboot_Crypt\<close> (its
    mixer); \<open>Uboot_Props\<close> and \<open>Uboot_Run\<close> hold their properties.

  \<^bold>\<open>State and effects.\<close>  A structure that lies on a device or in a file stays the bytes it is, and each
  member has a function that reads it at its offset.  Static variables and registers are records that the
  operations take and return.  Memory is a list of bytes from the base address the board has; an access
  outside is \<open>Fault\<close>, so it is a value and not an assumption.  Hardware, system calls, the shell, the
  decompressor and the ROM of the CPU are parameters: functions that say what a read, a key or a
  transfer delivers.  The registers of qi's card controller are a function of all accesses made so far, so
  that no controller is excluded; its theorems take the controllers that the locale \<open>sd_controller\<close>
  describes.  Calls that do not come back (a started kernel, power off, a reset) are
  outcomes of their own.  Output, delays and debug messages are left out unless they are what a function is for.

  \<^bold>\<open>Lemmas.\<close>  The copy loops of the tools are proved against the abstract contents of a descriptor
  (\<open>byte_source\<close>, interpreted on \<open>fd_read\<close>).  The lemmas of the ext2 reader are proved in the
  locale \<open>partition_reader\<close>, interpreted on \<open>ext2fs_devread\<close> with a sound driver, and those of the memory
  test in \<open>sound_memory\<close>, interpreted on a list of cells.  The wire protocols are proved against a slave
  that sees only the edges of the two lines, the card reader against a controller that answers a
  command after any number of polls (interpreted on a host that simulates one, for every card).  The boot theorems compose these: an image that is packed
  passes every check of the readers, what the installer leaves on the device is what the boot loaders load,
  and what they start is what was packed; a damaged copy is passed over.  For each error path there is the
  opposite: what is refused, and what the code does then.

  \<^bold>\<open>Loops and fuel.\<close>  A loop that may not end is a \<^theory_text>\<open>partial_function\<close> on \<open>option\<close>, with \<open>None\<close> for not
  returning: the copy loops of the tools, the scans of a directory, the wait of the crypto port, the state
  machine of the I2C bus, the endless memory test, the polls of the card controller.  Each has a theorem that says when it returns
  (and \<open>zero_entry_hangs\<close> one where it does not).  Two loops have fuel.  \<open>skip_lengths\<close> walks a table of
  lengths in memory and faults at its end, so the words of the memory are enough.  \<open>press_key_loop\<close> reads a
  clock; its fuel is the number of passes after which the model stops looking, and the theorems hold for
  every fuel above 0 and every clock.

  \<^bold>\<open>Not modelled.\<close>  The rest of u-boot (network, flash, USB, its shell, other boards), which comes from
  the upstream project; assembly start-up code; the host controllers of u-boot and of the Openmoko boards
  at register level and the NAND controller (what a transfer delivers is a parameter); the serial ports; the set-up of the Openmoko boards
  (\<^verbatim>\<open>gta01.c\<close>, \<^verbatim>\<open>gta02.c\<close>, \<^verbatim>\<open>gta03.c\<close>, \<^verbatim>\<open>glamo-init.c\<close>), which is tables of register values; \<^verbatim>\<open>qi-usb-lcd\<close> (a USB
  stack and a frame buffer on the bare chip); the patches under \<^verbatim>\<open>kernel\<close>; \<^verbatim>\<open>cmd_encrypt.c\<close>, \<^verbatim>\<open>cmd_encrypt2.c\<close>
  and \<^verbatim>\<open>cmd_identify.c\<close>, which call a library that is there only as a binary (\<^verbatim>\<open>lib_CM.a\<close>).
\<close>

end
